(* ===== verification/Prelude.thy ===== *)
theory Prelude
  imports Complex_Main
begin

text \<open>
  Shared vocabulary of the development: Go errors as sums, reads of Go maps, JSON values as Go's
  \<^verbatim>\<open>any\<close>, the clock and the random source as arguments of a call, and the interface locales that
  several components implement (one-time stores, codecs, state systems with an invariant).
\<close>

named_theorems store_defs \<open>unfolds the operations of a component's store\<close>
named_theorems const_defs \<open>the time-to-live constants of the source\<close>

subsection \<open>Errors\<close>

text \<open>
  \<^verbatim>\<open>internal/oauth2/error.go\<close>: an \<^verbatim>\<open>*oauth2.Exception\<close> carries an HTTP status and an OAuth2 error;
  any other Go \<^verbatim>\<open>error\<close> is only its text. A Go function returning \<^verbatim>\<open>(T, error)\<close> has a result of
  type \<open>go_error + 't\<close>, \<open>Inl\<close> being the non-nil error.
\<close>

record oauth_error =
  Code :: string
  Description :: string

record exception =
  HTTPStatus :: nat
  Err :: oauth_error

datatype go_error = Exception exception | ErrorString string

definition exception_Error :: "exception \<Rightarrow> string" where
  "exception_Error e = Code (Err e) @ '': '' @ Description (Err e)"

fun error_text :: "go_error \<Rightarrow> string" where
  "error_text (Exception e) = exception_Error e"
| "error_text (ErrorString s) = s"

subsection \<open>Go maps and dynamic values\<close>

type_synonym params = "string \<rightharpoonup> string"

text \<open>Indexing a \<^verbatim>\<open>map[string]string\<close>: a missing key reads as the empty string.\<close>

definition idx :: "params \<Rightarrow> string \<Rightarrow> string" where
  "idx m k = (case m k of None \<Rightarrow> [] | Some v \<Rightarrow> v)"

text \<open>
  A dynamic Go value (\<^verbatim>\<open>any\<close>), as \<^verbatim>\<open>encoding/json\<close> decodes it: a JSON number is a float64, hence a
  rational; a \<^verbatim>\<open>map[string]any\<close> is its list of entries, in some order, with distinct keys. \<open>JBytes\<close>
  and \<open>JTime\<close> (\<^verbatim>\<open>[]byte\<close>, \<^verbatim>\<open>time.Time\<close>) never come out of JSON, but out of CBOR.
\<close>

datatype json =
    JNull
  | JBool bool
  | JNum rat
  | JStr string
  | JArr "json list"
  | JObj "(string \<times> json) list"
  | JBytes string
  | JTime int

type_synonym json_map = "(string \<times> json) list"

text \<open>The comma-ok type assertions the source uses, with the zero value on failure.\<close>

fun str_or_empty :: "json option \<Rightarrow> string" where
  "str_or_empty (Some (JStr s)) = s"
| "str_or_empty _ = []"

fun as_str :: "json option \<Rightarrow> string option" where
  "as_str (Some (JStr s)) = Some s"
| "as_str _ = None"

fun as_obj :: "json option \<Rightarrow> json_map option" where
  "as_obj (Some (JObj kvs)) = Some kvs"
| "as_obj _ = None"

fun as_num :: "json option \<Rightarrow> rat option" where
  "as_num (Some (JNum r)) = Some r"
| "as_num _ = None"

fun as_arr :: "json option \<Rightarrow> json list option" where
  "as_arr (Some (JArr xs)) = Some xs"
| "as_arr _ = None"

lemma idx_upd [simp]: "idx (m(k \<mapsto> v)) k' = (if k' = k then v else idx m k')"
  by (simp add: idx_def)

lemma idx_empty [simp]: "idx Map.empty k = []"
  by (simp add: idx_def)

lemma idx_nonempty: "idx m k \<noteq> [] \<Longrightarrow> m k = Some (idx m k)"
  by (auto simp: idx_def split: option.splits)

lemma str_or_empty_JStr [simp]: "str_or_empty (Some (JStr s)) = s"
  by simp

subsection \<open>Sequencing fallible steps\<close>

text \<open>
  The statement pattern \<^verbatim>\<open>x, err := f(); if err != nil { return err }\<close> and its variants: the error
  prefixed with a message, replaced by one, made from a failed comma-ok read, or a step that only
  returns an error.
\<close>

definition and_then :: "'e + 'a \<Rightarrow> ('a \<Rightarrow> 'e + 'b) \<Rightarrow> 'e + 'b" where
  "and_then r f = (case r of Inl e \<Rightarrow> Inl e | Inr a \<Rightarrow> f a)"

definition wrap_err :: "string \<Rightarrow> string + 'a \<Rightarrow> string + 'a" where
  "wrap_err msg r = (case r of Inl e \<Rightarrow> Inl (msg @ e) | Inr a \<Rightarrow> Inr a)"

definition replace_err :: "'e \<Rightarrow> 'f + 'a \<Rightarrow> 'e + 'a" where
  "replace_err e r = (case r of Inl _ \<Rightarrow> Inl e | Inr a \<Rightarrow> Inr a)"

definition present :: "'e \<Rightarrow> 'a option \<Rightarrow> 'e + 'a" where
  "present e x = (case x of None \<Rightarrow> Inl e | Some a \<Rightarrow> Inr a)"

definition no_error :: "'e option \<Rightarrow> 'e + unit" where
  "no_error x = (case x of None \<Rightarrow> Inr () | Some e \<Rightarrow> Inl e)"

lemma and_then_Inr [simp]: "and_then r f = Inr b \<longleftrightarrow> (\<exists>a. r = Inr a \<and> f a = Inr b)"
  by (auto simp: and_then_def split: sum.splits)

lemma and_then_simps [simp]: "and_then (Inr a) f = f a" "and_then (Inl e) f = Inl e"
  by (simp_all add: and_then_def)

lemma wrap_err_Inr [simp]: "wrap_err msg r = Inr a \<longleftrightarrow> r = Inr a"
  by (auto simp: wrap_err_def split: sum.splits)

lemma replace_err_Inr [simp]: "replace_err e r = Inr a \<longleftrightarrow> r = Inr a"
  by (auto simp: replace_err_def split: sum.splits)

lemma present_Inr [simp]: "present e x = Inr a \<longleftrightarrow> x = Some a"
  by (auto simp: present_def split: option.splits)

lemma no_error_Inr [simp]: "no_error x = Inr u \<longleftrightarrow> x = None"
  by (auto simp: no_error_def split: option.splits)

lemma step_simps [simp]:
  "wrap_err msg (Inr a) = Inr a" "replace_err e (Inr a) = Inr a" "present e (Some a) = Inr a"
  "present e None = Inl e" "no_error None = Inr ()" "wrap_err msg (Inl e) = Inl (msg @ e)"
  by (simp_all add: wrap_err_def replace_err_def present_def no_error_def)

subsection \<open>Time and randomness\<close>

text \<open>
  Instants and durations are integers of nanoseconds. A handler reads the clock and draws random
  bytes several times; the readings of one call are \<open>clk w 0, clk w 1, \<dots>\<close> and its draws
  \<open>rnd w i n\<close> (the \<open>i\<close>-th draw, of \<open>n\<close> bytes), so that time may pass between two steps of a call.
  \<open>ord w\<close> is the order in which Go ranges over a map with the given keys, which the language leaves
  unspecified.
\<close>

type_synonym time = int
type_synonym duration = int

record world =
  clk :: "nat \<Rightarrow> time"
  rnd :: "nat \<Rightarrow> nat \<Rightarrow> string"
  ord :: "string list \<Rightarrow> string list"

definition second :: duration where [const_defs]: "second = 1000000000"
definition minute :: duration where [const_defs]: "minute = 60 * second"

text \<open>Later readings of the clock within a call are never earlier.\<close>

definition clock_ok :: "world \<Rightarrow> bool" where
  "clock_ok w \<longleftrightarrow> (\<forall>i. clk w i \<le> clk w (Suc i))"

lemma clock_ok_le: "clock_ok w \<Longrightarrow> i \<le> j \<Longrightarrow> clk w i \<le> clk w j"
  unfolding clock_ok_def by (rule lift_Suc_mono_le) auto

subsection \<open>Interface: a store of values that are redeemed once and expire\<close>

text \<open>
  The contract shared by every one-time handle of the service (PAR \<^verbatim>\<open>request_uri\<close>s, authorization
  codes, OpenID Connect codes): \<open>look s k\<close> is the entry held under \<open>k\<close> with the instant it was
  stored, \<open>redeem now k s\<close> removes it and returns it unless it has outlived \<open>ttl\<close>.
\<close>

locale one_time_store =
  fixes look :: "'s \<Rightarrow> 'k \<Rightarrow> (time \<times> 'v) option"
    and put :: "time \<Rightarrow> 'k \<Rightarrow> 'v \<Rightarrow> 's \<Rightarrow> 's"
    and redeem :: "time \<Rightarrow> 'k \<Rightarrow> 's \<Rightarrow> 'v option \<times> 's"
    and ttl :: duration
  assumes look_put: "look (put t k v s) = (look s)(k \<mapsto> (t, v))"
    and redeem_result: "fst (redeem now k s) =
      (case look s k of None \<Rightarrow> None | Some (t, v) \<Rightarrow> if now - t > ttl then None else Some v)"
    and look_redeem: "look (snd (redeem now k s)) = (look s)(k := None)"
begin

lemma redeem_after_put:
  "now - t \<le> ttl \<Longrightarrow> fst (redeem now k (put t k v s)) = Some v"
  by (simp add: redeem_result look_put)

lemma redeem_expired:
  "now - t > ttl \<Longrightarrow> fst (redeem now k (put t k v s)) = None"
  by (simp add: redeem_result look_put)

lemma redeem_twice: "fst (redeem now' k (snd (redeem now k s))) = None"
  by (simp add: redeem_result look_redeem)

lemma redeem_frame: "k' \<noteq> k \<Longrightarrow> look (snd (redeem now k s)) k' = look s k'"
  by (simp add: look_redeem)

lemma redeem_Some:
  "fst (redeem now k s) = Some v \<Longrightarrow> \<exists>t. look s k = Some (t, v) \<and> now - t \<le> ttl"
  by (auto simp: redeem_result split: option.splits if_splits)

text \<open>
  Over any sequence of redemptions of one handle at most the first returns a value.
\<close>

fun redeem_all :: "time list \<Rightarrow> 'k \<Rightarrow> 's \<Rightarrow> 'v option list" where
  "redeem_all [] k s = []"
| "redeem_all (t # ts) k s = fst (redeem t k s) # redeem_all ts k (snd (redeem t k s))"

lemma redeem_all_absent: "look s k = None \<Longrightarrow> set (redeem_all ts k s) \<subseteq> {None}"
  by (induction ts arbitrary: s) (auto simp: redeem_result look_redeem)

lemma redeem_all_once: "set (tl (redeem_all ts k s)) \<subseteq> {None}"
  by (cases ts) (auto simp: look_redeem dest!: set_mp [OF redeem_all_absent, rotated])

end

subsection \<open>Interface: a store of values that can be read until they expire\<close>

text \<open>
  The contract of the entries that are looked up more than once: \<open>look s k\<close> is the entry with the instant
  it was stored, and reading changes nothing but that it may drop an entry that has outlived \<open>ttl\<close>.
  \<open>fits k v\<close> says that \<open>v\<close> can be stored under \<open>k\<close>, where values carry their key.
\<close>

locale expiring_store =
  fixes look :: "'s \<Rightarrow> 'k \<Rightarrow> (time \<times> 'v) option"
    and put :: "time \<Rightarrow> 'k \<Rightarrow> 'v \<Rightarrow> 's \<Rightarrow> 's"
    and read :: "time \<Rightarrow> 'k \<Rightarrow> 's \<Rightarrow> 'v option \<times> 's"
    and ttl :: duration
    and fits :: "'k \<Rightarrow> 'v \<Rightarrow> bool"
  assumes look_put: "fits k v \<Longrightarrow> look (put t k v s) = (look s)(k \<mapsto> (t, v))"
    and read_result: "fst (read now k s) =
      (case look s k of None \<Rightarrow> None | Some (t, v) \<Rightarrow> if now - t > ttl then None else Some v)"
    and look_read: "look (snd (read now k s)) k' = look s k' \<or>
      k' = k \<and> fst (read now k s) = None \<and> look (snd (read now k s)) k' = None"
begin

lemma read_after_put: "fits k v \<Longrightarrow> fst (read now k (put t k v s)) = (if now - t > ttl then None else Some v)"
  by (simp add: read_result look_put)

lemma read_frame: "k' \<noteq> k \<Longrightarrow> look (snd (read now k s)) k' = look s k'"
  using look_read by blast

lemma read_keeps: "fst (read now k s) = Some v \<Longrightarrow> look (snd (read now k s)) k = look s k"
  using look_read [of now k s k] by simp

lemma gone_stays: "fst (read now k s) = None \<Longrightarrow> now \<le> now' \<Longrightarrow> fst (read now' k (snd (read now k s))) = None"
  using look_read [of now k s k] by (auto simp: read_result split: option.splits if_splits)

text \<open>A sequence of readings at growing instants: the value up to its end, and never after.\<close>

fun read_all :: "time list \<Rightarrow> 'k \<Rightarrow> 's \<Rightarrow> 'v option list" where
  "read_all [] k s = []"
| "read_all (t # ts) k s = fst (read t k s) # read_all ts k (snd (read t k s))"

lemma read_all_entry:
  assumes "look s k = Some (t, v) \<or> look s k = None \<and> (\<forall>now\<in>set ts. now - t > ttl)" and "sorted ts"
  shows "read_all ts k s = map (\<lambda>now. if now - t > ttl then None else Some v) ts"
  using assms
proof (induction ts arbitrary: s)
  case (Cons now ts)
  have now: "fst (read now k s) = (if now - t > ttl then None else Some v)"
    using Cons.prems(1) by (auto simp: read_result)
  have "look (snd (read now k s)) k = Some (t, v) \<or> look (snd (read now k s)) k = None \<and> (\<forall>now\<in>set ts. now - t > ttl)"
    using look_read [of now k s k] Cons.prems now by (auto split: if_splits)
  then show ?case using Cons.IH Cons.prems(2) now by simp
qed simp

lemma read_all_put: "fits k v \<Longrightarrow> sorted ts \<Longrightarrow> read_all ts k (put t k v s) = map (\<lambda>now. if now - t > ttl then None else Some v) ts"
  by (rule read_all_entry) (simp_all add: look_put)

end

subsection \<open>Interface: encodings that can be read back\<close>

locale codec =
  fixes enc :: "'a \<Rightarrow> 'b" and dec :: "'b \<Rightarrow> 'a option"
  assumes dec_enc: "dec (enc x) = Some x"
begin

lemma enc_eq_iff: "enc x = enc y \<longleftrightarrow> x = y"
  by (metis dec_enc option.inject)

lemma enc_inj: "inj enc"
  by (simp add: inj_def enc_eq_iff)

end

subsection \<open>Secondary indexes\<close>

text \<open>
  \<open>ix\<close> is the inverse of the (partial) key \<open>f\<close> over the entries of \<open>m\<close>; hence keys are unique.
\<close>

definition index_ok :: "('a \<rightharpoonup> 'v) \<Rightarrow> ('v \<Rightarrow> 'k option) \<Rightarrow> ('k \<rightharpoonup> 'a) \<Rightarrow> bool" where
  "index_ok m f ix \<longleftrightarrow> (\<forall>k a. ix k = Some a \<longleftrightarrow> (\<exists>v. m a = Some v \<and> f v = Some k))"

lemma index_ok_empty: "index_ok Map.empty f Map.empty"
  by (simp add: index_ok_def)

lemma index_okD: "index_ok m f ix \<Longrightarrow> m a = Some v \<Longrightarrow> f v = Some k \<Longrightarrow> ix k = Some a"
  by (auto simp: index_ok_def)

lemma index_ok_find:
  "index_ok m f ix \<Longrightarrow> ix k = Some a \<Longrightarrow> \<exists>v. m a = Some v \<and> f v = Some k"
  by (auto simp: index_ok_def)

lemma index_ok_insert:
  assumes ix: "index_ok m f ix" and "m a = None" and "\<And>k. f v = Some k \<Longrightarrow> ix k = None"
  shows "index_ok (m(a \<mapsto> v)) f (case f v of None \<Rightarrow> ix | Some k \<Rightarrow> ix(k \<mapsto> a))"
  unfolding index_ok_def
proof (intro allI)
  fix k b
  have old: "ix k = Some b \<longleftrightarrow> (\<exists>w. m b = Some w \<and> f w = Some k)"
    using ix by (simp add: index_ok_def)
  show "((case f v of None \<Rightarrow> ix | Some k \<Rightarrow> ix(k \<mapsto> a)) k = Some b) =
      (\<exists>w. (m(a \<mapsto> v)) b = Some w \<and> f w = Some k)"
    using assms(2,3) old by (cases "f v") (force split: if_splits)+
qed

lemma index_ok_delete:
  assumes ix: "index_ok m f ix" and v: "m a = Some v"
  shows "index_ok (m(a := None)) f (case f v of None \<Rightarrow> ix | Some k \<Rightarrow> ix(k := None))"
  unfolding index_ok_def
proof (intro allI)
  fix k b
  have old: "ix k = Some b \<longleftrightarrow> (\<exists>w. m b = Some w \<and> f w = Some k)"
    using ix by (simp add: index_ok_def)
  have a: "f v = Some k \<Longrightarrow> ix k = Some a" using ix v by (rule index_okD)
  show "((case f v of None \<Rightarrow> ix | Some k \<Rightarrow> ix(k := None)) k = Some b) =
      (\<exists>w. (m(a := None)) b = Some w \<and> f w = Some k)"
    using v old a by (cases "f v") (force split: if_splits)+
qed

lemma index_ok_update:
  "index_ok m f ix \<Longrightarrow> m a = Some v \<Longrightarrow> f v' = f v \<Longrightarrow> index_ok (m(a \<mapsto> v')) f ix"
  by (auto simp: index_ok_def)

subsection \<open>Interface: a system of operations with an invariant\<close>

locale state_system =
  fixes init :: 's
    and step :: "'s \<Rightarrow> 'e \<Rightarrow> 's"
    and inv :: "'s \<Rightarrow> bool"
  assumes init_inv: "inv init"
    and step_inv: "inv s \<Longrightarrow> inv (step s e)"
begin

lemma run_inv: "inv s \<Longrightarrow> inv (foldl step s es)"
  by (induction es arbitrary: s) (simp_all add: step_inv)

lemma reachable_inv: "inv (foldl step init es)"
  by (rule run_inv) (rule init_inv)

end

end
