(* ===== verification/Go_Std.thy ===== *)
theory Go_Std
  imports Prelude "HOL-Library.Sublist"
begin

text \<open>
  The parts of Go's standard library that the service computes with: single-byte \<^verbatim>\<open>strings.Split\<close>,
  \<^verbatim>\<open>strings.LastIndex\<close>, \<^verbatim>\<open>strings.TrimRight\<close> and \<^verbatim>\<open>encoding/base64\<close> (raw URL and standard
  alphabets); \<^verbatim>\<open>net/url\<close> is in \<open>Go_Url\<close>. A Go string is a list of bytes, hence a
  \<^typ>\<open>string\<close>. The lemmas are the round trips the components rely on.
\<close>

subsection \<open>strings\<close>

text \<open>\<^verbatim>\<open>strings.Split(s, sep)\<close> for a separator of one byte.\<close>

fun go_split :: "char \<Rightarrow> string \<Rightarrow> string list" where
  "go_split c [] = [[]]"
| "go_split c (x # xs) =
     (if x = c then [] # go_split c xs
      else case go_split c xs of [] \<Rightarrow> [[x]] | p # ps \<Rightarrow> (x # p) # ps)"

fun go_join :: "char \<Rightarrow> string list \<Rightarrow> string" where
  "go_join c [] = []"
| "go_join c [p] = p"
| "go_join c (p # q # ps) = p @ c # go_join c (q # ps)"

lemma go_split_not_Nil [simp]: "go_split c s \<noteq> []"
  by (cases s) (auto split: list.splits)

lemma go_join_Cons: "ps \<noteq> [] \<Longrightarrow> go_join c (p # ps) = p @ c # go_join c ps"
  by (cases ps) auto

lemma go_join_split: "go_join c (go_split c s) = s"
proof (induction s)
  case (Cons x xs)
  obtain p ps where sp: "go_split c xs = p # ps" by (meson list.exhaust go_split_not_Nil)
  with Cons.IH show ?case by (cases ps) auto
qed simp

lemma go_split_sep_free: "p \<in> set (go_split c s) \<Longrightarrow> c \<notin> set p"
  by (induction s arbitrary: p) (auto split: if_splits list.splits)

lemma go_split_append_sep:
  "c \<notin> set p \<Longrightarrow> go_split c (p @ c # s) = p # go_split c s"
  by (induction p) auto

lemma go_split_no_sep: "c \<notin> set p \<Longrightarrow> go_split c p = [p]"
  by (induction p) auto

lemma go_split_join:
  "ps \<noteq> [] \<Longrightarrow> (\<And>p. p \<in> set ps \<Longrightarrow> c \<notin> set p) \<Longrightarrow> go_split c (go_join c ps) = ps"
proof (induction ps)
  case (Cons p ps)
  then show ?case
    by (cases "ps = []") (simp_all add: go_split_no_sep go_join_Cons go_split_append_sep)
qed simp

text \<open>
  \<^verbatim>\<open>strings.LastIndex(s, c)\<close> as an option (\<^verbatim>\<open>-1\<close> is \<open>None\<close>), and \<^verbatim>\<open>strings.TrimRight(s, "c")\<close>.
\<close>

fun last_index :: "char \<Rightarrow> string \<Rightarrow> nat option" where
  "last_index c [] = None"
| "last_index c (x # xs) =
     (case last_index c xs of Some i \<Rightarrow> Some (Suc i) | None \<Rightarrow> if x = c then Some 0 else None)"

definition trim_right :: "char \<Rightarrow> string \<Rightarrow> string" where
  "trim_right c s = rev (dropWhile (\<lambda>x. x = c) (rev s))"

lemma last_index_None: "last_index c s = None \<longleftrightarrow> c \<notin> set s"
  by (induction s) (auto split: option.splits)

lemma last_index_append_sep:
  "c \<notin> set s \<Longrightarrow> last_index c (p @ c # s) = Some (length p)"
proof (induction p)
  case Nil
  then have "last_index c s = None" by (simp add: last_index_None)
  then show ?case by simp
qed (auto)

lemma trim_right_no_suffix: "s = [] \<or> last s \<noteq> c \<Longrightarrow> trim_right c s = s"
  by (cases s rule: rev_cases) (auto simp: trim_right_def)

subsection \<open>encoding/base64\<close>

text \<open>The value of a byte and the two 64-letter alphabets (\<open>True\<close>: the URL alphabet).\<close>

abbreviation byte_val :: "char \<Rightarrow> nat" where
  "byte_val c \<equiv> of_char c"

definition b64_char :: "bool \<Rightarrow> nat \<Rightarrow> char" where
  "b64_char url n = char_of
     (if n < 26 then n + 65 else if n < 52 then n + 71 else if n < 62 then n - 4
      else if n = 62 then (if url then 45 else 43) else (if url then 95 else 47))"

definition b64_val :: "bool \<Rightarrow> char \<Rightarrow> nat option" where
  "b64_val url c = (let n = byte_val c in
     if 65 \<le> n \<and> n \<le> 90 then Some (n - 65)
     else if 97 \<le> n \<and> n \<le> 122 then Some (n - 71)
     else if 48 \<le> n \<and> n \<le> 57 then Some (n + 4)
     else if n = (if url then 45 else 43) then Some 62
     else if n = (if url then 95 else 47) then Some 63
     else None)"

lemma b64_val_char: "n < 64 \<Longrightarrow> b64_val url (b64_char url n) = Some n"
  by (auto simp: b64_val_def b64_char_def Let_def)

lemma byte_val_lt: "byte_val c < 256"
  by (rule nat_of_char_less_256)

text \<open>\<^verbatim>\<open>RawURLEncoding.EncodeToString\<close> and \<^verbatim>\<open>RawURLEncoding.DecodeString\<close>.\<close>

fun b64_encode :: "bool \<Rightarrow> string \<Rightarrow> string" where
  "b64_encode u [] = []"
| "b64_encode u [a] =
     [b64_char u (byte_val a div 4), b64_char u (byte_val a mod 4 * 16)]"
| "b64_encode u [a, b] =
     [b64_char u (byte_val a div 4), b64_char u (byte_val a mod 4 * 16 + byte_val b div 16),
      b64_char u (byte_val b mod 16 * 4)]"
| "b64_encode u (a # b # c # r) =
     b64_char u (byte_val a div 4) # b64_char u (byte_val a mod 4 * 16 + byte_val b div 16) #
     b64_char u (byte_val b mod 16 * 4 + byte_val c div 64) # b64_char u (byte_val c mod 64) #
     b64_encode u r"

fun b64_bytes :: "nat list \<Rightarrow> string option" where
  "b64_bytes [] = Some []"
| "b64_bytes [p] = None"
| "b64_bytes [p, q] = Some [char_of (p * 4 + q div 16)]"
| "b64_bytes [p, q, r] = Some [char_of (p * 4 + q div 16), char_of (q mod 16 * 16 + r div 4)]"
| "b64_bytes (p # q # r # s # xs) =
     map_option (\<lambda>ys. char_of (p * 4 + q div 16) # char_of (q mod 16 * 16 + r div 4) #
                      char_of (r mod 4 * 64 + s) # ys) (b64_bytes xs)"

fun b64_vals :: "bool \<Rightarrow> string \<Rightarrow> nat list option" where
  "b64_vals u [] = Some []"
| "b64_vals u (c # cs) = (case b64_val u c of None \<Rightarrow> None
     | Some v \<Rightarrow> map_option ((#) v) (b64_vals u cs))"

definition no_newlines :: "string \<Rightarrow> string" where
  "no_newlines s = filter (\<lambda>c. byte_val c \<noteq> 10 \<and> byte_val c \<noteq> 13) s"

definition RawURL_Encode :: "string \<Rightarrow> string" where
  "RawURL_Encode s = b64_encode True s"

definition RawURL_Decode :: "string \<Rightarrow> string option" where
  "RawURL_Decode s = Option.bind (b64_vals True (no_newlines s)) b64_bytes"

text \<open>\<^verbatim>\<open>base64.StdEncoding\<close>: the standard alphabet, padded with \<^verbatim>\<open>=\<close>.\<close>

definition Std_Encode :: "string \<Rightarrow> string" where
  "Std_Encode s = (let e = b64_encode False s in e @ replicate ((4 - length e mod 4) mod 4) (CHR ''=''))"

text \<open>\<^verbatim>\<open>StdEncoding.DecodeString\<close>: padded to a multiple of four, the padding at the very end.\<close>

definition Std_Decode :: "string \<Rightarrow> string option" where
  "Std_Decode s = (let t = no_newlines s; n = length t in
     if n mod 4 \<noteq> 0 then None
     else Option.bind (b64_vals False
       (if drop (n - 2) t = ''=='' then take (n - 2) t
        else if drop (n - 1) t = ''='' then take (n - 1) t else t)) b64_bytes)"

lemma b64_vals_Cons_char [simp]:
  "n < 64 \<Longrightarrow> b64_vals u (b64_char u n # cs) = map_option ((#) n) (b64_vals u cs)"
  by (simp add: b64_val_char)

lemma char_of_split:
  "char_of (byte_val a div 4 * 4 + byte_val a mod 4) = a"
  by simp

lemma b64_char_not_newline:
  "n < 64 \<Longrightarrow> byte_val (b64_char u n) \<noteq> 10 \<and> byte_val (b64_char u n) \<noteq> 13"
  by (auto simp: b64_char_def)

lemma byte_div_lt [simp]: "byte_val a div 4 < 64" "byte_val b div 16 < 16" "byte_val c div 64 < 4"
  using byte_val_lt [of a] byte_val_lt [of b] byte_val_lt [of c]
  by (simp_all add: less_mult_imp_div_less)

lemma sextet_nat:
  "(x::nat) mod 4 * 16 < 64" "(y::nat) mod 16 * 4 < 64" "(z::nat) mod 64 < 64"
  "(k::nat) < 16 \<Longrightarrow> x mod 4 * 16 + k < 64" "(l::nat) < 4 \<Longrightarrow> y mod 16 * 4 + l < 64"
proof -
  have x: "x mod 4 < 4" and y: "y mod 16 < 16" by simp_all
  from x show "x mod 4 * 16 < 64" by linarith
  from y show "y mod 16 * 4 < 64" by linarith
  show "z mod 64 < 64" by simp
  from x show "k < 16 \<Longrightarrow> x mod 4 * 16 + k < 64" by linarith
  from y show "l < 4 \<Longrightarrow> y mod 16 * 4 + l < 64" by linarith
qed

lemmas sextets_lt = byte_div_lt(1) sextet_nat(1,2,3) sextet_nat(4) [OF byte_div_lt(2)]
  sextet_nat(5) [OF byte_div_lt(3)]

lemma octets [simp]:
  "byte_val b div 16 div 16 = 0" "byte_val b div 16 mod 16 = byte_val b div 16"
  "byte_val c div 64 div 4 = 0" "byte_val c div 64 mod 4 = byte_val c div 64"
  by (simp_all add: div_less mod_less)

lemma b64_vals_bytes: "Option.bind (b64_vals u (b64_encode u s)) b64_bytes = Some s"
proof (induction u s rule: b64_encode.induct)
  case (4 u a b c r)
  then obtain vs where vs: "b64_vals u (b64_encode u r) = Some vs" "b64_bytes vs = Some r"
    by (auto simp: bind_eq_Some_conv)
  show ?case
    by (simp add: sextets_lt vs del: b64_vals.simps(2))
qed (simp_all add: sextets_lt del: b64_vals.simps(2))

lemma no_newlines_encode: "no_newlines (b64_encode u s) = b64_encode u s"
  by (induction u s rule: b64_encode.induct)
    (simp_all add: no_newlines_def b64_char_not_newline sextets_lt)

interpretation raw_url: codec RawURL_Encode RawURL_Decode
  by unfold_locales (simp add: RawURL_Encode_def RawURL_Decode_def no_newlines_encode b64_vals_bytes)

lemma b64_char_no_pad: "n < 64 \<Longrightarrow> b64_char u n \<noteq> CHR ''=''"
proof
  assume "n < 64" "b64_char u n = CHR ''=''"
  then have "byte_val (b64_char u n) = 61" by simp
  with \<open>n < 64\<close> show False by (auto simp: b64_char_def split: if_splits)
qed

lemma b64_encode_no_pad: "CHR ''='' \<notin> set (b64_encode u s)"
  by (induction u s rule: b64_encode.induct) (auto simp: sextets_lt b64_char_no_pad [symmetric] dest: sym)

lemma length_b64_encode: "length (b64_encode u s) mod 4 \<noteq> 1"
  by (induction u s rule: b64_encode.induct) auto

lemma unpad:
  assumes "CHR ''='' \<notin> set e" "length e mod 4 \<noteq> 1"
  defines "t \<equiv> e @ replicate ((4 - length e mod 4) mod 4) (CHR ''='')"
  shows "length t mod 4 = 0"
    and "(if drop (length t - 2) t = ''=='' then take (length t - 2) t
          else if drop (length t - 1) t = ''='' then take (length t - 1) t else t) = e"
proof -
  have "length e mod 4 \<in> {0, 2, 3}" using assms(2) by (simp, presburger)
  then consider "length e mod 4 = 0" "t = e" | "length e mod 4 = 2" "t = e @ ''==''" | "length e mod 4 = 3" "t = e @ ''=''"
    unfolding t_def by (elim insertE emptyE) (simp_all add: numeral_2_eq_2)
  then have "length t mod 4 = 0 \<and> (if drop (length t - 2) t = ''=='' then take (length t - 2) t
          else if drop (length t - 1) t = ''='' then take (length t - 1) t else t) = e"
  proof cases
    case 1
    have "drop k e \<noteq> ''==''" "drop k e \<noteq> ''=''" for k
      using assms(1) in_set_dropD [of "CHR ''=''" k e] by auto
    then show ?thesis using 1 by simp
  next
    case 2
    then show ?thesis by (simp, presburger)
  next
    case 3
    have "drop (length e - 1) e \<noteq> ''=''" if "e \<noteq> []"
      using assms(1) in_set_dropD [of "CHR ''=''" "length e - 1" e] by auto
    moreover have "e \<noteq> []" using 3 by auto
    ultimately show ?thesis using 3 by (auto simp: Suc_diff_le) presburger
  qed
  then show "length t mod 4 = 0"
    and "(if drop (length t - 2) t = ''=='' then take (length t - 2) t
          else if drop (length t - 1) t = ''='' then take (length t - 1) t else t) = e" by simp_all
qed

lemma no_newlines_pad: "no_newlines (e @ replicate n (CHR ''='')) = no_newlines e @ replicate n (CHR ''='')"
  by (simp add: no_newlines_def)

interpretation std: codec Std_Encode Std_Decode
proof
  fix s
  have "no_newlines (Std_Encode s) = Std_Encode s"
    by (simp add: Std_Encode_def Let_def no_newlines_pad no_newlines_encode)
  then show "Std_Decode (Std_Encode s) = Some s"
    unfolding Std_Decode_def Let_def
    by (simp only: Std_Encode_def Let_def unpad [OF b64_encode_no_pad length_b64_encode] b64_vals_bytes if_False simp_thms)
qed

end
