(* ===== verification/Go_Sha256.thy ===== *)
theory Go_Sha256
  imports "HOL-Library.Word"
begin

text \<open>
  \<^verbatim>\<open>crypto/sha256\<close> of the Go standard library, on byte strings: FIPS 180-4 padding, message schedule
  and compression over 32-bit words. PKCE challenges, access-token hashes, SD-JWT disclosure digests
  and certificate hashes of the service are computed with it.
\<close>

unbundle bit_operations_syntax

type_synonym w32 = "32 word"

definition rotr :: "nat \<Rightarrow> w32 \<Rightarrow> w32" where
  "rotr n x = drop_bit n x OR push_bit (32 - n) x"

definition sha_K :: "w32 list" where
  "sha_K = [
  1116352408, 1899447441, 3049323471, 3921009573, 961987163, 1508970993, 2453635748, 2870763221,
  3624381080, 310598401, 607225278, 1426881987, 1925078388, 2162078206, 2614888103, 3248222580,
  3835390401, 4022224774, 264347078, 604807628, 770255983, 1249150122, 1555081692, 1996064986,
  2554220882, 2821834349, 2952996808, 3210313671, 3336571891, 3584528711, 113926993, 338241895,
  666307205, 773529912, 1294757372, 1396182291, 1695183700, 1986661051, 2177026350, 2456956037,
  2730485921, 2820302411, 3259730800, 3345764771, 3516065817, 3600352804, 4094571909, 275423344,
  430227734, 506948616, 659060556, 883997877, 958139571, 1322822218, 1537002063, 1747873779,
  1955562222, 2024104815, 2227730452, 2361852424, 2428436474, 2756734187, 3204031479, 3329325298]"

definition sha_init :: "w32 list" where
  "sha_init = [1779033703, 3144134277, 1013904242, 2773480762, 1359893119, 2600822924, 528734635, 1541459225]"

fun sha_schedule :: "nat \<Rightarrow> w32 list \<Rightarrow> w32 list" where
  "sha_schedule 0 ws = ws"
| "sha_schedule (Suc n) ws = (let i = length ws; v1 = ws ! (i - 2); v2 = ws ! (i - 15);
     t1 = rotr 17 v1 XOR rotr 19 v1 XOR drop_bit 10 v1;
     t2 = rotr 7 v2 XOR rotr 18 v2 XOR drop_bit 3 v2
   in sha_schedule n (ws @ [t1 + ws ! (i - 7) + t2 + ws ! (i - 16)]))"

fun sha_rounds :: "(w32 \<times> w32) list \<Rightarrow> w32 list \<Rightarrow> w32 list" where
  "sha_rounds ((k, w) # kws) [a, b, c, d, e, f, g, h] =
     (let t1 = h + (rotr 6 e XOR rotr 11 e XOR rotr 25 e) + ((e AND f) XOR (NOT e AND g)) + k + w;
          t2 = (rotr 2 a XOR rotr 13 a XOR rotr 22 a) + ((a AND b) XOR (a AND c) XOR (b AND c))
      in sha_rounds kws [t1 + t2, a, b, c, d + t1, e, f, g])"
| "sha_rounds _ hs = hs"

definition sha_block :: "w32 list \<Rightarrow> w32 list \<Rightarrow> w32 list" where
  "sha_block hs ws = map2 (+) hs (sha_rounds (zip sha_K (sha_schedule 48 ws)) hs)"

fun be_words :: "int list \<Rightarrow> w32 list" where
  "be_words (a # b # c # d # r) = word_of_int (((a * 256 + b) * 256 + c) * 256 + d) # be_words r"
| "be_words _ = []"

fun be_bytes :: "nat \<Rightarrow> int \<Rightarrow> int list" where
  "be_bytes 0 x = []"
| "be_bytes (Suc n) x = be_bytes n (x div 256) @ [x mod 256]"

definition sha_pad :: "int list \<Rightarrow> int list" where
  "sha_pad m = m @ [128] @ replicate ((119 - length m mod 64) mod 64) 0 @ be_bytes 8 (8 * int (length m) mod 2^64)"

fun sha_blocks :: "nat \<Rightarrow> w32 list \<Rightarrow> w32 list \<Rightarrow> w32 list" where
  "sha_blocks 0 hs ws = hs"
| "sha_blocks (Suc n) hs ws = sha_blocks n (sha_block hs (take 16 ws)) (drop 16 ws)"

definition sha256 :: "string \<Rightarrow> string" where
  "sha256 s = (let m = sha_pad (map of_char s) in
     map char_of (concat (map (\<lambda>w. be_bytes 4 (uint w)) (sha_blocks (length m div 64) sha_init (be_words m)))))"

lemma length_sha_rounds: "length hs = 8 \<Longrightarrow> length (sha_rounds kws hs) = 8"
  by (induction kws hs rule: sha_rounds.induct) (auto simp: Let_def)

lemma length_sha_block: "length hs = 8 \<Longrightarrow> length (sha_block hs ws) = 8"
  by (simp add: sha_block_def length_sha_rounds)

lemma length_sha_blocks: "length hs = 8 \<Longrightarrow> length (sha_blocks n hs ws) = 8"
  by (induction n hs ws rule: sha_blocks.induct) (auto simp: length_sha_block)

lemma length_be_bytes: "length (be_bytes n x) = n"
  by (induction n arbitrary: x) auto

lemma length_sha256: "length (sha256 s) = 32"
proof -
  let ?hs = "sha_blocks (length (sha_pad (map of_char s)) div 64) sha_init (be_words (sha_pad (map of_char s)))"
  have hs: "length ?hs = 8" by (rule length_sha_blocks) (simp add: sha_init_def)
  have "length (concat (map (\<lambda>w. be_bytes 4 (uint w)) ws)) = 4 * length ws" for ws :: "w32 list"
    by (induction ws) (simp_all only: list.map concat.simps length_append length_be_bytes list.size, simp)
  then show ?thesis using hs by (simp add: sha256_def Let_def)
qed

text \<open>Padding always completes the last block of 64 bytes.\<close>

lemma sha_pad_blocks: "length (sha_pad m) mod 64 = 0"
proof -
  have r: "length m mod 64 < 64" by simp
  have k: "length m mod 64 + (119 - length m mod 64) mod 64 + 9 \<in> {64, 128}"
  proof (cases "length m mod 64 \<le> 55")
    case True
    then have "119 - length m mod 64 = (55 - length m mod 64) + 64" by simp
    then show ?thesis using True by (simp only: mod_add_self2) simp
  next
    case False
    then show ?thesis using r by simp
  qed
  have "length m = 64 * (length m div 64) + length m mod 64" by simp
  then have "length (sha_pad m) =
      64 * (length m div 64) + (length m mod 64 + (119 - length m mod 64) mod 64 + 9)"
    unfolding sha_pad_def length_append length_replicate length_be_bytes list.size by linarith
  moreover have "(64 * q + n) mod 64 = (0::nat)" if "n \<in> {64, 128}" for q n :: nat
    using that by auto
  ultimately show ?thesis using k by presburger
qed

end
