(* ===== verification/Libs.thy ===== *)
theory Libs
  imports Go_Std Go_Sha256
begin

text \<open>
  Code outside the repository that it calls: the JOSE library (\<^verbatim>\<open>lestrrat-go/jwx\<close>), X.509,
  JSON decoding and URL parsing. Every value the repository inspects is a record of the fields it
  reads; every library function is a field of the record \<open>lib\<close>, an argument of the definitions that
  call it. No law is assumed of any of them here: a theorem that needs one names it.
\<close>

text \<open>A JWK is the JSON object of its members; an EC public key is its two coordinates.\<close>

datatype jwk = JWK json_map

record ec_public =
  ec_X :: int
  ec_Y :: int

record certificate =
  cert_Raw :: string
  cert_Subject :: string
  cert_Issuer :: string
  cert_NotBefore :: time
  cert_NotAfter :: time
  cert_IsCA :: bool
  cert_PublicKey :: "ec_public option" \<comment> \<open>\<open>None\<close>: not an EC key\<close>
  cert_KeyType :: string \<comment> \<open>the Go type of the public key, as \<^verbatim>\<open>%T\<close> prints it\<close>

text \<open>A parsed JWS: the protected headers of its signatures, and its payload.\<close>

record jws_headers =
  jh_Type :: "string option"
  jh_Algorithm :: "string option"
  jh_KeyID :: "string option"
  jh_JWK :: "jwk option"
  jh_X509CertChain :: "string list option"

record jws_message =
  jm_Signatures :: "jws_headers list"
  jm_Payload :: string

record jwt_token =
  jt_Subject :: "string option"
  jt_Audience :: "string list option"
  jt_IssuedAt :: "time option"
  jt_Expiration :: "time option"
  jt_Claims :: json_map

text \<open>What \<^verbatim>\<open>jwt.NewBuilder\<close> is given before signing.\<close>

record jwt_builder =
  jb_Issuer :: string
  jb_Audience :: "string list"
  jb_IssuedAt :: time
  jb_Expiration :: time
  jb_JwtID :: "string option"
  jb_Subject :: "string option"
  jb_Claims :: json_map

text \<open>A parsed URL: what precedes the query, the raw query, the fragment.\<close>

record url =
  url_Base :: string
  url_RawQuery :: string
  url_Fragment :: string

text \<open>
  \<open>jwt_Parse L s k\<close> is \<^verbatim>\<open>jwt.Parse(s, WithKey(ES256, k), WithValidate(false))\<close>: it verifies the
  signature under \<open>k\<close>. Errors are their text.
\<close>

record lib =
  json_Marshal :: "json \<Rightarrow> string + string"
  json_Unmarshal :: "string \<Rightarrow> string + json"
  url_Parse :: "string \<Rightarrow> string + url"
  url_String :: "url \<Rightarrow> string"
  jws_Parse :: "string \<Rightarrow> string + jws_message"
  jws_Verify :: "string \<Rightarrow> ec_public \<Rightarrow> string + string"
  jwt_Parse :: "string \<Rightarrow> jwk \<Rightarrow> string + jwt_token"
  jwt_ParseInsecure :: "string \<Rightarrow> string + jwt_token"
  jwt_Sign :: "jwt_builder \<Rightarrow> jws_headers \<Rightarrow> int \<Rightarrow> string + string"
  jwk_Has :: "jwk \<Rightarrow> string \<Rightarrow> bool"
  jwk_Thumbprint :: "jwk \<Rightarrow> string + string"
  jwk_ParseKey :: "string \<Rightarrow> string + jwk"
  jwk_Import :: "ec_public \<Rightarrow> string + jwk"
  jwt_GetError :: "jwt_token \<Rightarrow> string \<Rightarrow> string" \<comment> \<open>text of the error of \<^verbatim>\<open>Get\<close>\<close>
  strconv_Quote :: "string \<Rightarrow> string"
  base64_Error :: "string \<Rightarrow> string" \<comment> \<open>text of the error for an input that does not decode\<close>
  zlib_NewReader :: "string \<Rightarrow> string + string" \<comment> \<open>\<open>Inr\<close>: the stream to read\<close>
  zlib_ReadAll :: "string \<Rightarrow> string + string"
  x509_ParseCertificate :: "string \<Rightarrow> string + certificate"
  x509_CheckSignatureFrom :: "certificate \<Rightarrow> certificate \<Rightarrow> string option" \<comment> \<open>\<open>None\<close>: valid\<close>

definition ES256 :: string where
  "ES256 = ''ES256''"

subsection \<open>The network\<close>

text \<open>
  What \<^verbatim>\<open>http.NewRequestWithContext\<close> and \<^verbatim>\<open>http.Client.Do\<close> answer, and what a JSON decoder reads from
  a response body.
\<close>

record http_request =
  hq_Method :: string
  hq_URL :: string
  hq_Accept :: string
  hq_ContentType :: string
  hq_Body :: string

record http_response =
  hr_StatusCode :: nat
  hr_Body :: "string + string" \<comment> \<open>\<open>Inl\<close>: reading the body fails\<close>

record net =
  net_NewRequest :: "string \<Rightarrow> string \<Rightarrow> string option" \<comment> \<open>method, URL; \<open>None\<close>: well formed\<close>
  net_Do :: "http_request \<Rightarrow> string + http_response"
  net_Decode :: "string + string \<Rightarrow> string + json"

text \<open>Decimal rendering of a number (\<^verbatim>\<open>%d\<close>).\<close>

fun nat_str :: "nat \<Rightarrow> string" where
  "nat_str n = (if n < 10 then [char_of (48 + n)] else nat_str (n div 10) @ [char_of (48 + n mod 10)])"

declare nat_str.simps [simp del]

end
