(* ===== verification/Session_Store.thy ===== *)
theory Session_Store
  imports Libs "HOL-Library.AList"
begin

text \<open>
  \<^verbatim>\<open>internal/session/store.go\<close> and the response-encryption key it holds
  (\<^verbatim>\<open>internal/crypto/responseencryptionkey.go\<close>). The store is a record with one field per Go map; each
  method, atomic under the store's mutex, is a function of the instant it reads from the clock. The
  map whose contents the code hands out (\<^verbatim>\<open>revokedJTIs\<close>) is an association list.
  Shown here: PAR requests and authorization codes are one-time stores with a 60 s lifetime, code
  reuse is detected and published until the token has expired, identification cookies are bound to
  one \<^verbatim>\<open>request_uri\<close>, and the three indexes over verification sessions stay consistent under every
  operation.
\<close>

subsection \<open>Data\<close>

record response_encryption_key =
  rek_private :: int
  rek_public :: jwk
  rek_kid :: string

definition rek_KID :: "response_encryption_key \<Rightarrow> string" where
  "rek_KID k = rek_kid k"

record session_data =
  sd_SessionID :: string
  sd_CreatedAt :: time
  sd_Metadata :: "string \<rightharpoonup> json"

record dcql_claim_query =
  dclm_Path :: "string list"
  dclm_Values :: "string list"
  dclm_Essential :: "bool option"

record dcql_meta =
  dm_VCTValues :: "string list"
  dm_DoctypeValue :: string

record dcql_credential_query =
  dcq_ID :: string
  dcq_Format :: string
  dcq_Meta :: "dcql_meta option"
  dcq_Claims :: "dcql_claim_query list"

record dcql_credential_set =
  dcs_Options :: "string list list"

record dcql_query =
  dq_Credentials :: "dcql_credential_query list"
  dq_CredentialSets :: "dcql_credential_set list"

record verification_session =
  vs_SessionID :: string
  vs_State :: string
  vs_Nonce :: string
  vs_DCQLQuery :: dcql_query
  vs_ResponseMode :: string
  vs_ClientID :: string
  vs_ResponseURI :: string
  vs_RequestJWT :: string
  vs_EncryptionKey :: "response_encryption_key option"
  vs_Status :: string
  vs_VPTokens :: "(string \<times> string) list"
  vs_VerifiedClaims :: "(string \<times> json_map) list"
  vs_SubjectID :: string
  vs_Error :: string
  vs_CreatedAt :: time

record par_request_entry =
  pr_Params :: params
  pr_CreatedAt :: time

record identify_replay_entry =
  ir_Redirect :: string
  ir_Expiry :: time

record identified_session_entry =
  is_RequestURI :: string
  is_RecordID :: string
  is_Params :: params
  is_CreatedAt :: time

record store =
  parRequests :: "string \<rightharpoonup> par_request_entry"
  authCodes :: "string \<rightharpoonup> session_data"
  pendingAuth :: "string \<rightharpoonup> params"
  identifyReplay :: "string \<rightharpoonup> identify_replay_entry"
  identifiedSessions :: "string \<rightharpoonup> identified_session_entry"
  issuedJTIByCode :: "string \<rightharpoonup> string"
  revokedJTIs :: "(string \<times> time) list"
  verifications :: "string \<rightharpoonup> verification_session"
  verificationIDByState :: "string \<rightharpoonup> string"
  verificationIDByEncKID :: "string \<rightharpoonup> string"

definition verificationSessionTTL :: duration where
  [const_defs]: "verificationSessionTTL = 5 * minute"
definition parRequestTTL :: duration where
  [const_defs]: "parRequestTTL = 60 * second"
definition authCodeTTL :: duration where
  [const_defs]: "authCodeTTL = 60 * second"
definition revokedJTIRetention :: duration where
  [const_defs]: "revokedJTIRetention = 10 * minute"
definition identifiedSessionTTL :: duration where
  [const_defs]: "identifiedSessionTTL = 10 * minute"
definition identifyReplayTTL :: duration where
  [const_defs]: "identifyReplayTTL = 120 * second"

definition NewStore :: store where
  "NewStore = \<lparr>parRequests = Map.empty, authCodes = Map.empty, pendingAuth = Map.empty,
     identifyReplay = Map.empty, identifiedSessions = Map.empty, issuedJTIByCode = Map.empty,
     revokedJTIs = [], verifications = Map.empty, verificationIDByState = Map.empty,
     verificationIDByEncKID = Map.empty\<rparr>"

text \<open>\<^verbatim>\<open>RandomToken(n)\<close>: the raw URL encoding of the \<open>n\<close> bytes drawn.\<close>

definition RandomToken :: "nat \<Rightarrow> (nat \<Rightarrow> string) \<Rightarrow> string" where
  "RandomToken n draw = RawURL_Encode (draw n)"

definition GenerateNonce :: "(nat \<Rightarrow> string) \<Rightarrow> string" where
  "GenerateNonce draw = RandomToken 32 draw"

subsection \<open>Pushed authorization requests\<close>

definition StoreParRequest :: "time \<Rightarrow> string \<Rightarrow> params \<Rightarrow> store \<Rightarrow> store" where
  [store_defs]: "StoreParRequest now uri ps s =
     s\<lparr>parRequests := (parRequests s)(uri \<mapsto> \<lparr>pr_Params = ps, pr_CreatedAt = now\<rparr>)\<rparr>"

definition ConsumeParRequest :: "time \<Rightarrow> string \<Rightarrow> store \<Rightarrow> params option \<times> store" where
  [store_defs]: "ConsumeParRequest now uri s = (case parRequests s uri of
     None \<Rightarrow> (None, s)
   | Some e \<Rightarrow> (let s' = s\<lparr>parRequests := (parRequests s)(uri := None)\<rparr> in
       if now - pr_CreatedAt e > parRequestTTL then (None, s') else (Some (pr_Params e), s')))"

definition PeekParRequest :: "time \<Rightarrow> string \<Rightarrow> store \<Rightarrow> params option \<times> store" where
  [store_defs]: "PeekParRequest now uri s = (case parRequests s uri of
     None \<Rightarrow> (None, s)
   | Some e \<Rightarrow>
       if now - pr_CreatedAt e > parRequestTTL
       then (None, s\<lparr>parRequests := (parRequests s)(uri := None)\<rparr>)
       else (Some (pr_Params e), s))"

subsection \<open>Authorization codes and revocation\<close>

text \<open>\<open>CreateAuthCode\<close> takes the code drawn by \<^verbatim>\<open>RandomToken(32)\<close> through \<open>draw\<close>.\<close>

definition CreateAuthCode ::
  "time \<Rightarrow> (nat \<Rightarrow> string) \<Rightarrow> session_data \<Rightarrow> store \<Rightarrow> string \<times> store" where
  [store_defs]: "CreateAuthCode now draw d s = (let code = RandomToken 32 draw in
     (code, s\<lparr>authCodes := (authCodes s)(code \<mapsto> d\<lparr>sd_CreatedAt := now\<rparr>)\<rparr>))"

text \<open>The result is \<open>(data, reused)\<close>: \<open>data\<close> is \<open>None\<close> where the source returns \<^verbatim>\<open>ok = false\<close>.\<close>

definition ConsumeAuthCode ::
  "time \<Rightarrow> string \<Rightarrow> store \<Rightarrow> (session_data option \<times> bool) \<times> store" where
  [store_defs]: "ConsumeAuthCode now code s = (case authCodes s code of
     None \<Rightarrow> ((None, issuedJTIByCode s code \<noteq> None), s)
   | Some d \<Rightarrow> (let s' = s\<lparr>authCodes := (authCodes s)(code := None)\<rparr> in
       if now - sd_CreatedAt d > authCodeTTL then ((None, False), s') else ((Some d, False), s')))"

definition RecordIssuedJTI :: "string \<Rightarrow> string \<Rightarrow> store \<Rightarrow> store" where
  [store_defs]: "RecordIssuedJTI code jti s =
     s\<lparr>issuedJTIByCode := (issuedJTIByCode s)(code \<mapsto> jti)\<rparr>"

definition RevokeTokensForCode :: "time \<Rightarrow> string \<Rightarrow> store \<Rightarrow> store" where
  [store_defs]: "RevokeTokensForCode now code s = (case issuedJTIByCode s code of
     None \<Rightarrow> s
   | Some jti \<Rightarrow> s\<lparr>issuedJTIByCode := (issuedJTIByCode s)(code := None),
       revokedJTIs := AList.update jti (now + 2 * revokedJTIRetention) (revokedJTIs s)\<rparr>)"

definition RevokedJTIs :: "time \<Rightarrow> store \<Rightarrow> string list \<times> store" where
  [store_defs]: "RevokedJTIs now s =
     (let live = filter (\<lambda>(jti, expiry). \<not> now > expiry) (revokedJTIs s)
      in (map fst live, s\<lparr>revokedJTIs := live\<rparr>))"

subsection \<open>Deferred authorizations and identification\<close>

definition StorePendingAuth :: "(nat \<Rightarrow> string) \<Rightarrow> params \<Rightarrow> store \<Rightarrow> string \<times> store" where
  [store_defs]: "StorePendingAuth draw ps s = (let token = RandomToken 16 draw in
     (token, s\<lparr>pendingAuth := (pendingAuth s)(token \<mapsto> ps)\<rparr>))"

definition GetPendingAuth :: "string \<Rightarrow> store \<Rightarrow> params option" where
  [store_defs]: "GetPendingAuth token s = pendingAuth s token"

definition ConsumePendingAuth :: "string \<Rightarrow> store \<Rightarrow> params option \<times> store" where
  [store_defs]: "ConsumePendingAuth token s = (case pendingAuth s token of
     None \<Rightarrow> (None, s)
   | Some ps \<Rightarrow> (Some ps, s\<lparr>pendingAuth := (pendingAuth s)(token := None)\<rparr>))"

definition MarkIdentified ::
  "time \<Rightarrow> (nat \<Rightarrow> string) \<Rightarrow> string \<Rightarrow> string \<Rightarrow> params \<Rightarrow> store \<Rightarrow> string \<times> store" where
  [store_defs]: "MarkIdentified now draw uri rec ps s = (let cookie = RandomToken 24 draw in
     (cookie, s\<lparr>identifiedSessions := (identifiedSessions s)(cookie \<mapsto>
       \<lparr>is_RequestURI = uri, is_RecordID = rec, is_Params = ps, is_CreatedAt = now\<rparr>)\<rparr>))"

definition CheckIdentified ::
  "time \<Rightarrow> string \<Rightarrow> string \<Rightarrow> store \<Rightarrow> (string \<times> params) option" where
  [store_defs]: "CheckIdentified now cookie uri s =
     (if cookie = [] then None
      else case identifiedSessions s cookie of
        None \<Rightarrow> None
      | Some e \<Rightarrow>
          if now - is_CreatedAt e > identifiedSessionTTL \<or> is_RequestURI e \<noteq> uri then None
          else Some (is_RecordID e, is_Params e))"

definition StoreIdentifyReplay :: "time \<Rightarrow> string \<Rightarrow> string \<Rightarrow> store \<Rightarrow> store" where
  [store_defs]: "StoreIdentifyReplay now token redirect s =
     s\<lparr>identifyReplay := (identifyReplay s)(token \<mapsto>
       \<lparr>ir_Redirect = redirect, ir_Expiry = now + identifyReplayTTL\<rparr>)\<rparr>"

definition GetIdentifyReplay :: "time \<Rightarrow> string \<Rightarrow> store \<Rightarrow> string option" where
  [store_defs]: "GetIdentifyReplay now token s = (case identifyReplay s token of
     None \<Rightarrow> None
   | Some e \<Rightarrow> if now > ir_Expiry e then None else Some (ir_Redirect e))"

subsection \<open>Verification sessions\<close>

definition StoreVerification :: "time \<Rightarrow> verification_session \<Rightarrow> store \<Rightarrow> store" where
  [store_defs]: "StoreVerification now v0 s = (let v = v0\<lparr>vs_CreatedAt := now\<rparr> in
     s\<lparr>verifications := (verifications s)(vs_SessionID v \<mapsto> v),
       verificationIDByState := (verificationIDByState s)(vs_State v \<mapsto> vs_SessionID v),
       verificationIDByEncKID := (case vs_EncryptionKey v of
          None \<Rightarrow> verificationIDByEncKID s
        | Some k \<Rightarrow> (verificationIDByEncKID s)(rek_KID k \<mapsto> vs_SessionID v))\<rparr>)"

definition deleteVerificationLocked :: "verification_session \<Rightarrow> store \<Rightarrow> store" where
  [store_defs]: "deleteVerificationLocked v s =
     s\<lparr>verifications := (verifications s)(vs_SessionID v := None),
       verificationIDByState := (verificationIDByState s)(vs_State v := None),
       verificationIDByEncKID := (case vs_EncryptionKey v of
          None \<Rightarrow> verificationIDByEncKID s
        | Some k \<Rightarrow> (verificationIDByEncKID s)(rek_KID k := None))\<rparr>"

definition findVerificationLocked ::
  "time \<Rightarrow> string \<Rightarrow> store \<Rightarrow> verification_session option \<times> store" where
  [store_defs]: "findVerificationLocked now sid s = (case verifications s sid of
     None \<Rightarrow> (None, s)
   | Some v \<Rightarrow> if now - vs_CreatedAt v > verificationSessionTTL
               then (None, deleteVerificationLocked v s) else (Some v, s))"

definition FindVerification ::
  "time \<Rightarrow> string \<Rightarrow> store \<Rightarrow> verification_session option \<times> store" where
  [store_defs]: "FindVerification now sid s = findVerificationLocked now sid s"

definition FindVerificationByState ::
  "time \<Rightarrow> string \<Rightarrow> store \<Rightarrow> verification_session option \<times> store" where
  [store_defs]: "FindVerificationByState now st s = (case verificationIDByState s st of
     None \<Rightarrow> (None, s) | Some sid \<Rightarrow> findVerificationLocked now sid s)"

definition FindVerificationByEncryptionKID ::
  "time \<Rightarrow> string \<Rightarrow> store \<Rightarrow> verification_session option \<times> store" where
  [store_defs]: "FindVerificationByEncryptionKID now kid s = (case verificationIDByEncKID s kid of
     None \<Rightarrow> (None, s) | Some sid \<Rightarrow> findVerificationLocked now sid s)"

text \<open>
  \<open>findVerificationPointerLocked\<close> returns the stored session for mutation in place: the caller's
  mutation is the function \<open>f\<close> written back under the same key.
\<close>

definition findVerificationPointerLocked ::
  "time \<Rightarrow> string \<Rightarrow> (verification_session \<Rightarrow> verification_session) \<Rightarrow> store \<Rightarrow> store" where
  [store_defs]: "findVerificationPointerLocked now sid f s = (case verifications s sid of
     None \<Rightarrow> s
   | Some v \<Rightarrow> if now - vs_CreatedAt v > verificationSessionTTL then deleteVerificationLocked v s
               else s\<lparr>verifications := (verifications s)(sid \<mapsto> f v)\<rparr>)"

definition UpdateVerificationStatus :: "time \<Rightarrow> string \<Rightarrow> string \<Rightarrow> store \<Rightarrow> store" where
  [store_defs]: "UpdateVerificationStatus now sid status s =
     findVerificationPointerLocked now sid (\<lambda>v. v\<lparr>vs_Status := status\<rparr>) s"

definition UpdateVerificationResult ::
  "time \<Rightarrow> string \<Rightarrow> string \<Rightarrow> (string \<times> string) list \<Rightarrow> (string \<times> json_map) list \<Rightarrow>
   string \<Rightarrow> string \<Rightarrow> store \<Rightarrow> store" where
  [store_defs]: "UpdateVerificationResult now sid status toks claims subject err s =
     findVerificationPointerLocked now sid
       (\<lambda>v. v\<lparr>vs_Status := status, vs_VPTokens := toks, vs_VerifiedClaims := claims,
               vs_SubjectID := subject, vs_Error := err\<rparr>) s"

subsection \<open>The one-time stores\<close>

abbreviation par_look :: "store \<Rightarrow> string \<Rightarrow> (time \<times> params) option" where
  "par_look s uri \<equiv> map_option (\<lambda>e. (pr_CreatedAt e, pr_Params e)) (parRequests s uri)"

type_synonym code_value = "string \<times> (string \<rightharpoonup> json)"

definition code_value :: "session_data \<Rightarrow> code_value" where
  "code_value d = (sd_SessionID d, sd_Metadata d)"

abbreviation code_look :: "store \<Rightarrow> string \<Rightarrow> (time \<times> code_value) option" where
  "code_look s code \<equiv> map_option (\<lambda>d. (sd_CreatedAt d, code_value d)) (authCodes s code)"

definition put_code :: "time \<Rightarrow> string \<Rightarrow> code_value \<Rightarrow> store \<Rightarrow> store" where
  "put_code now code v s = s\<lparr>authCodes := (authCodes s)(code \<mapsto>
     \<lparr>sd_SessionID = fst v, sd_CreatedAt = now, sd_Metadata = snd v\<rparr>)\<rparr>"

definition redeem_code :: "time \<Rightarrow> string \<Rightarrow> store \<Rightarrow> code_value option \<times> store" where
  "redeem_code now code s =
     (let r = ConsumeAuthCode now code s in (map_option code_value (fst (fst r)), snd r))"

lemma CreateAuthCode_put:
  "CreateAuthCode now draw d s =
     (RandomToken 32 draw, put_code now (RandomToken 32 draw) (code_value d) s)"
  by (cases d) (simp add: CreateAuthCode_def put_code_def code_value_def Let_def)

interpretation par: one_time_store par_look StoreParRequest ConsumeParRequest parRequestTTL
  by unfold_locales (auto simp: store_defs Let_def fun_eq_iff split: option.splits)

interpretation code: one_time_store code_look put_code redeem_code authCodeTTL
  by unfold_locales
    (auto simp: store_defs redeem_code_def put_code_def code_value_def Let_def fun_eq_iff
      split: option.splits)

lemma PeekParRequest_None_iff:
  "fst (PeekParRequest now uri s) = None \<longleftrightarrow>
     (\<forall>e. parRequests s uri = Some e \<longrightarrow> now - pr_CreatedAt e > parRequestTTL)"
  by (auto simp: PeekParRequest_def split: option.splits)

lemma PeekParRequest_Some:
  "PeekParRequest now uri s = (Some ps, s') \<longleftrightarrow> s' = s \<and>
     (\<exists>e. parRequests s uri = Some e \<and> pr_Params e = ps \<and> now - pr_CreatedAt e \<le> parRequestTTL)"
  by (auto simp: PeekParRequest_def split: option.splits)

lemma ConsumeParRequest_Some:
  "ConsumeParRequest now uri s = (Some ps, s') \<longleftrightarrow>
     s' = s\<lparr>parRequests := (parRequests s)(uri := None)\<rparr> \<and>
     (\<exists>e. parRequests s uri = Some e \<and> pr_Params e = ps \<and> now - pr_CreatedAt e \<le> parRequestTTL)"
  by (auto simp: ConsumeParRequest_def Let_def split: option.splits)

lemma ConsumeAuthCode_Some:
  "ConsumeAuthCode now code s = ((Some d, reused), s') \<longleftrightarrow>
     \<not> reused \<and> authCodes s code = Some d \<and> now - sd_CreatedAt d \<le> authCodeTTL \<and>
     s' = s\<lparr>authCodes := (authCodes s)(code := None)\<rparr>"
  by (auto simp: ConsumeAuthCode_def Let_def split: option.splits)

lemma ConsumeAuthCode_None:
  "ConsumeAuthCode now code s = ((None, reused), s') \<Longrightarrow>
     s' = s\<lparr>authCodes := (authCodes s)(code := None)\<rparr> \<and>
     reused = (authCodes s code = None \<and> issuedJTIByCode s code \<noteq> None)"
  by (auto simp: ConsumeAuthCode_def Let_def fun_upd_idem split: option.splits if_splits)

text \<open>
  A pushed authorization request is redeemed at most once and only within its 60 s lifetime:
  storing it makes exactly that \<^verbatim>\<open>request_uri\<close> redeemable until \<open>parRequestTTL\<close> has passed; whatever
  happened before, once \<open>ConsumeParRequest\<close> has run, neither it nor \<open>PeekParRequest\<close> ever answers
  for that \<^verbatim>\<open>request_uri\<close> again, and every other \<^verbatim>\<open>request_uri\<close> is untouched.
\<close>

lemma par_request_single_use:
  "fst (ConsumeParRequest t1 uri (StoreParRequest t0 uri ps s)) =
     (if t1 - t0 > parRequestTTL then None else Some ps) \<and>
   fst (ConsumeParRequest t2 uri (snd (ConsumeParRequest t1 uri s))) = None \<and>
   fst (PeekParRequest t2 uri (snd (ConsumeParRequest t1 uri s))) = None \<and>
   set (tl (par.redeem_all ts uri s)) \<subseteq> {None} \<and>
   parRequests (snd (ConsumeParRequest t1 uri s)) = (parRequests s)(uri := None)"
proof (intro conjI)
  show "fst (ConsumeParRequest t1 uri (StoreParRequest t0 uri ps s)) =
      (if t1 - t0 > parRequestTTL then None else Some ps)"
    using par.redeem_after_put [of t1 t0] par.redeem_expired [of t1 t0] by auto
  show "fst (ConsumeParRequest t2 uri (snd (ConsumeParRequest t1 uri s))) = None"
    by (rule par.redeem_twice)
  show *: "parRequests (snd (ConsumeParRequest t1 uri s)) = (parRequests s)(uri := None)"
    by (auto simp: ConsumeParRequest_def Let_def fun_upd_idem split: option.splits)
  then show "fst (PeekParRequest t2 uri (snd (ConsumeParRequest t1 uri s))) = None"
    by (simp add: PeekParRequest_None_iff)
  show "set (tl (par.redeem_all ts uri s)) \<subseteq> {None}"
    by (rule par.redeem_all_once)
qed

subsection \<open>Code reuse and the revocation list\<close>

lemma poll_keeps:
  "(jti, e) \<in> set (revokedJTIs s) \<Longrightarrow> t \<le> e \<Longrightarrow>
     (jti, e) \<in> set (revokedJTIs (snd (RevokedJTIs t s))) \<and> jti \<in> set (fst (RevokedJTIs t s))"
  by (force simp: RevokedJTIs_def Let_def)

lemma polls_keep:
  "(jti, e) \<in> set (revokedJTIs s) \<Longrightarrow> (\<And>t. t \<in> set ts \<Longrightarrow> t \<le> e) \<Longrightarrow>
     (jti, e) \<in> set (revokedJTIs (fold (\<lambda>t. snd \<circ> RevokedJTIs t) ts s))"
  by (induction ts arbitrary: s) (auto simp: poll_keeps)

lemma revoke_publishes:
  "issuedJTIByCode s code = Some jti \<Longrightarrow>
     (jti, now + 2 * revokedJTIRetention) \<in> set (revokedJTIs (RevokeTokensForCode now code s))"
  by (simp add: RevokeTokensForCode_def) (metis AList.update_conv' fun_upd_same map_of_SomeD)

text \<open>
  Once a token has been recorded against a code, presenting the code again is reported as reuse
  (and nothing else changes), and revoking the code keeps the token's identifier on every poll of the
  denylist for twice the retention period, whatever polls happened in between.
\<close>

lemma revoked_jti_stays_published:
  assumes issued: "issuedJTIByCode s code = Some jti" and gone: "authCodes s code = None"
    and early: "\<And>t. t \<in> set polls \<Longrightarrow> t \<le> t'" and t': "t' \<le> now + 2 * revokedJTIRetention"
  shows "ConsumeAuthCode now code s = ((None, True), s) \<and>
    jti \<in> set (fst (RevokedJTIs t' (fold (\<lambda>t. snd \<circ> RevokedJTIs t) polls
                                       (RevokeTokensForCode now code s))))"
proof
  show "ConsumeAuthCode now code s = ((None, True), s)"
    using issued gone by (simp add: ConsumeAuthCode_def)
  have "(jti, now + 2 * revokedJTIRetention) \<in>
      set (revokedJTIs (fold (\<lambda>t. snd \<circ> RevokedJTIs t) polls (RevokeTokensForCode now code s)))"
    using early t' by (intro polls_keep revoke_publishes [OF issued]) fastforce
  then show "jti \<in> set (fst (RevokedJTIs t' (fold (\<lambda>t. snd \<circ> RevokedJTIs t) polls
      (RevokeTokensForCode now code s))))"
    using poll_keeps t' by blast
qed

subsection \<open>Identification cookies\<close>

lemma CheckIdentified_Some:
  "CheckIdentified now cookie uri s = Some (rec, ps) \<longleftrightarrow> cookie \<noteq> [] \<and>
     (\<exists>e. identifiedSessions s cookie = Some e \<and> now - is_CreatedAt e \<le> identifiedSessionTTL \<and>
          is_RequestURI e = uri \<and> is_RecordID e = rec \<and> is_Params e = ps)"
  by (auto simp: CheckIdentified_def split: option.splits)

lemma RawURL_Encode_Nil_iff [simp]: "RawURL_Encode s = [] \<longleftrightarrow> s = []"
  using raw_url.enc_eq_iff [of s "[]"] by (simp add: RawURL_Encode_def)

text \<open>
  The cookie minted by \<open>MarkIdentified\<close> answers for exactly the \<^verbatim>\<open>request_uri\<close> it was minted
  for, with the record and parameters it was minted with, and only for \<open>identifiedSessionTTL\<close>; every
  other cookie answers as before.
\<close>

lemma identified_cookie_bound:
  assumes "draw 24 \<noteq> []"
  shows "CheckIdentified t c uri' (snd (MarkIdentified now draw uri rec ps s)) =
    (if c = fst (MarkIdentified now draw uri rec ps s)
     then if uri' = uri \<and> t - now \<le> identifiedSessionTTL then Some (rec, ps) else None
     else CheckIdentified t c uri' s)"
  using assms by (auto simp: CheckIdentified_def MarkIdentified_def RandomToken_def Let_def)

subsection \<open>The indexes over verification sessions\<close>

text \<open>
  Well-formedness: a session is stored under its own id, and the \<^verbatim>\<open>state\<close> and key-id indexes are
  exactly the inverses of the sessions' fields.
\<close>

definition kid_of :: "verification_session \<Rightarrow> string option" where
  "kid_of v = map_option rek_KID (vs_EncryptionKey v)"

definition verif_wf :: "store \<Rightarrow> bool" where
  "verif_wf s \<longleftrightarrow>
     (\<forall>sid v. verifications s sid = Some v \<longrightarrow> vs_SessionID v = sid) \<and>
     index_ok (verifications s) (\<lambda>v. Some (vs_State v)) (verificationIDByState s) \<and>
     index_ok (verifications s) kid_of (verificationIDByEncKID s)"

text \<open>The session id, state and key id just drawn have not been used before.\<close>

definition fresh_verification :: "verification_session \<Rightarrow> store \<Rightarrow> bool" where
  "fresh_verification v s \<longleftrightarrow> verifications s (vs_SessionID v) = None \<and>
     verificationIDByState s (vs_State v) = None \<and>
     (case kid_of v of None \<Rightarrow> True | Some k \<Rightarrow> verificationIDByEncKID s k = None)"

lemma kid_index_upd:
  "(case vs_EncryptionKey v of None \<Rightarrow> ix | Some k \<Rightarrow> ix(rek_KID k := x)) =
     (case kid_of v of None \<Rightarrow> ix | Some k \<Rightarrow> ix(k := x))"
  by (simp add: kid_of_def split: option.splits)

lemma NewStore_wf: "verif_wf NewStore"
  by (simp add: verif_wf_def NewStore_def index_ok_empty)

lemma StoreVerification_wf:
  assumes "verif_wf s" and "fresh_verification v s"
  shows "verif_wf (StoreVerification now v s)"
proof -
  let ?v = "v\<lparr>vs_CreatedAt := now\<rparr>"
  have kid: "kid_of ?v = kid_of v" by (simp add: kid_of_def)
  have "index_ok (verifications s) (\<lambda>v. Some (vs_State v)) (verificationIDByState s)"
    "index_ok (verifications s) kid_of (verificationIDByEncKID s)"
    "verifications s (vs_SessionID ?v) = None" "verificationIDByState s (vs_State ?v) = None"
    "\<And>k. kid_of ?v = Some k \<Longrightarrow> verificationIDByEncKID s k = None"
    using assms by (auto simp: verif_wf_def fresh_verification_def kid)
  from index_ok_insert [OF this(1,3), of ?v] index_ok_insert [where v = ?v, OF this(2,3,5)] this(4) assms(1)
  show ?thesis
    by (auto simp: StoreVerification_def verif_wf_def Let_def kid_index_upd kid)
qed

lemma deleteVerification_wf:
  assumes wf: "verif_wf s" and v: "verifications s sid = Some v"
  shows "verif_wf (deleteVerificationLocked v s)"
proof -
  have sid: "vs_SessionID v = sid" using wf v by (auto simp: verif_wf_def)
  from wf have ix: "index_ok (verifications s) (\<lambda>v. Some (vs_State v)) (verificationIDByState s)"
    "index_ok (verifications s) kid_of (verificationIDByEncKID s)" by (auto simp: verif_wf_def)
  from index_ok_delete [OF ix(1) v] index_ok_delete [OF ix(2) v] wf sid
  show ?thesis by (auto simp: deleteVerificationLocked_def verif_wf_def kid_index_upd)
qed

lemma findVerificationLocked_wf: "verif_wf s \<Longrightarrow> verif_wf (snd (findVerificationLocked now sid s))"
  by (auto simp: findVerificationLocked_def deleteVerification_wf split: option.splits)

text \<open>A mutation that keeps the three indexed fields keeps the indexes consistent.\<close>

lemma pointer_update_wf:
  assumes wf: "verif_wf s"
    and f: "\<And>v. vs_SessionID (f v) = vs_SessionID v \<and> vs_State (f v) = vs_State v \<and>
               vs_EncryptionKey (f v) = vs_EncryptionKey v"
  shows "verif_wf (findVerificationPointerLocked now sid f s)"
proof (cases "verifications s sid")
  case (Some v)
  have "index_ok ((verifications s)(sid \<mapsto> f v)) (\<lambda>v. Some (vs_State v)) (verificationIDByState s)"
    "index_ok ((verifications s)(sid \<mapsto> f v)) kid_of (verificationIDByEncKID s)"
    using wf Some f by (auto simp: verif_wf_def kid_of_def intro: index_ok_update)
  then show ?thesis
    using wf Some f deleteVerification_wf [OF wf Some]
    by (auto simp: findVerificationPointerLocked_def verif_wf_def)
qed (simp add: findVerificationPointerLocked_def wf)

subsection \<open>All operations of the store\<close>

text \<open>
  One constructor per exported method, with the arguments it is called with; reads that never write
  (\<open>GetPendingAuth\<close>, \<open>CheckIdentified\<close>, \<open>GetIdentifyReplay\<close>) leave the store as it is and are
  left out.
\<close>

datatype store_op =
    OpStorePar string params
  | OpConsumePar string
  | OpPeekPar string
  | OpCreateCode "nat \<Rightarrow> string" session_data
  | OpConsumeCode string
  | OpRecordJTI string string
  | OpRevoke string
  | OpRevoked
  | OpStorePending "nat \<Rightarrow> string" params
  | OpConsumePending string
  | OpMark "nat \<Rightarrow> string" string string params
  | OpStoreReplay string string
  | OpStoreVerification verification_session
  | OpFind string
  | OpFindByState string
  | OpFindByKID string
  | OpUpdateStatus string string
  | OpUpdateResult string string "(string \<times> string) list" "(string \<times> json_map) list" string string

fun exec_op :: "time \<Rightarrow> store_op \<Rightarrow> store \<Rightarrow> store" where
  "exec_op now (OpStorePar u ps) s = StoreParRequest now u ps s"
| "exec_op now (OpConsumePar u) s = snd (ConsumeParRequest now u s)"
| "exec_op now (OpPeekPar u) s = snd (PeekParRequest now u s)"
| "exec_op now (OpCreateCode draw d) s = snd (CreateAuthCode now draw d s)"
| "exec_op now (OpConsumeCode c) s = snd (ConsumeAuthCode now c s)"
| "exec_op now (OpRecordJTI c j) s = RecordIssuedJTI c j s"
| "exec_op now (OpRevoke c) s = RevokeTokensForCode now c s"
| "exec_op now OpRevoked s = snd (RevokedJTIs now s)"
| "exec_op now (OpStorePending draw ps) s = snd (StorePendingAuth draw ps s)"
| "exec_op now (OpConsumePending t) s = snd (ConsumePendingAuth t s)"
| "exec_op now (OpMark draw u r ps) s = snd (MarkIdentified now draw u r ps s)"
| "exec_op now (OpStoreReplay t r) s = StoreIdentifyReplay now t r s"
| "exec_op now (OpStoreVerification v) s = StoreVerification now v s"
| "exec_op now (OpFind sid) s = snd (FindVerification now sid s)"
| "exec_op now (OpFindByState st) s = snd (FindVerificationByState now st s)"
| "exec_op now (OpFindByKID k) s = snd (FindVerificationByEncryptionKID now k s)"
| "exec_op now (OpUpdateStatus sid st) s = UpdateVerificationStatus now sid st s"
| "exec_op now (OpUpdateResult sid st toks cl sub err) s =
     UpdateVerificationResult now sid st toks cl sub err s"

text \<open>The operations the verifier calls; the others are the authorization server's.\<close>

fun verification_op :: "store_op \<Rightarrow> bool" where
  "verification_op (OpStoreVerification v) = True"
| "verification_op (OpFind sid) = True"
| "verification_op (OpFindByState st) = True"
| "verification_op (OpFindByKID k) = True"
| "verification_op (OpUpdateStatus sid st) = True"
| "verification_op (OpUpdateResult sid st toks cl sub err) = True"
| "verification_op _ = False"

text \<open>
  Steps of the store: any operation at any instant, verification sessions being created under
  identifiers that have not been drawn before.
\<close>

inductive store_step :: "store \<Rightarrow> store \<Rightarrow> bool" where
  store_create: "fresh_verification v s \<Longrightarrow> store_step s (exec_op now (OpStoreVerification v) s)"
| store_other: "(\<And>v. op \<noteq> OpStoreVerification v) \<Longrightarrow> store_step s (exec_op now op s)"

inductive store_reachable :: "store \<Rightarrow> bool" where
  store_start: "store_reachable NewStore"
| store_next: "store_reachable s \<Longrightarrow> store_step s s' \<Longrightarrow> store_reachable s'"

lemma verif_wf_cong:
  "verifications s' = verifications s \<Longrightarrow> verificationIDByState s' = verificationIDByState s \<Longrightarrow>
   verificationIDByEncKID s' = verificationIDByEncKID s \<Longrightarrow> verif_wf s' = verif_wf s"
  by (simp add: verif_wf_def)

lemma exec_op_wf:
  "verif_wf s \<Longrightarrow> (\<And>v. op = OpStoreVerification v \<Longrightarrow> fresh_verification v s) \<Longrightarrow>
     verif_wf (exec_op now op s)"
  by (cases op)
    (auto simp: StoreVerification_wf findVerificationLocked_wf pointer_update_wf FindVerification_def
      FindVerificationByState_def FindVerificationByEncryptionKID_def UpdateVerificationStatus_def
      UpdateVerificationResult_def StoreParRequest_def ConsumeParRequest_def PeekParRequest_def
      CreateAuthCode_def ConsumeAuthCode_def RecordIssuedJTI_def RevokeTokensForCode_def
      RevokedJTIs_def StorePendingAuth_def ConsumePendingAuth_def MarkIdentified_def
      StoreIdentifyReplay_def Let_def split: option.splits cong: verif_wf_cong
      elim!: verif_wf_cong [THEN iffD2, rotated 3])

inductive_cases store_stepE: "store_step s s'"

lemma store_step_wf: "store_step s s' \<Longrightarrow> verif_wf s \<Longrightarrow> verif_wf s'"
  by (erule store_stepE) (auto intro!: exec_op_wf StoreVerification_wf)

lemma store_reachable_wf: "store_reachable s \<Longrightarrow> verif_wf s"
  by (induction rule: store_reachable.induct) (auto simp: NewStore_wf store_step_wf)

lemma verif_wfD:
  assumes "verif_wf s" and "verifications s sid = Some v"
  shows "vs_SessionID v = sid" "verificationIDByState s (vs_State v) = Some sid"
    "kid_of v = Some k \<Longrightarrow> verificationIDByEncKID s k = Some sid"
  using assms by (auto simp: verif_wf_def dest: index_okD)

text \<open>
  C30: in every reachable store the \<^verbatim>\<open>state\<close> and the encryption key id of a session resolve to that
  session and to no other, with the same expiry as looking it up by its id; and what a lookup by
  \<^verbatim>\<open>state\<close> returns carries that \<^verbatim>\<open>state\<close>.
\<close>

theorem verification_indexes_agree:
  assumes "store_reachable s" and "verifications s sid = Some v"
  shows "FindVerificationByState now (vs_State v) s = FindVerification now sid s \<and>
    (case vs_EncryptionKey v of None \<Rightarrow> True
     | Some k \<Rightarrow> FindVerificationByEncryptionKID now (rek_KID k) s = FindVerification now sid s) \<and>
    fst (FindVerification now sid s) =
      (if now - vs_CreatedAt v > verificationSessionTTL then None else Some v) \<and>
    (\<forall>st w. fst (FindVerificationByState now st s) = Some w \<longrightarrow> vs_State w = st) \<and>
    (\<forall>kid w. fst (FindVerificationByEncryptionKID now kid s) = Some w \<longrightarrow> kid_of w = Some kid)"
proof -
  have wf: "verif_wf s" using assms(1) by (rule store_reachable_wf)
  have "\<exists>w. verifications s sid' = Some w \<and> vs_State w = st"
    if "verificationIDByState s st = Some sid'" for st sid'
    using index_ok_find [of "verifications s" "\<lambda>v. Some (vs_State v)"] wf that
    unfolding verif_wf_def by fastforce
  moreover have "\<exists>w. verifications s sid' = Some w \<and> kid_of w = Some kid"
    if "verificationIDByEncKID s kid = Some sid'" for kid sid'
    using index_ok_find [of "verifications s" kid_of] wf that unfolding verif_wf_def by fastforce
  ultimately show ?thesis
    using verif_wfD [OF wf assms(2)] assms(2)
    by (auto simp: FindVerificationByState_def FindVerificationByEncryptionKID_def FindVerification_def
        findVerificationLocked_def kid_of_def split: option.splits if_splits) fastforce+
qed

text \<open>
  A verification session past its five minutes cannot be reached or revived: looking it up,
  or recording a status or a result against it, deletes it, and no later lookup by id or by \<^verbatim>\<open>state\<close>
  finds it.
\<close>

lemma expired_verification_not_revived:
  assumes "store_reachable s" and "verifications s sid = Some v"
    and "now - vs_CreatedAt v > verificationSessionTTL"
    and "s' = UpdateVerificationResult now sid st toks cl sub err s \<or>
         s' = UpdateVerificationStatus now sid st s \<or> s' = snd (FindVerification now sid s)"
  shows "fst (FindVerification now sid s) = None \<and> verifications s' sid = None \<and>
    fst (FindVerification t sid s') = None \<and> fst (FindVerificationByState t (vs_State v) s') = None"
proof -
  have "vs_SessionID v = sid" using verif_wfD store_reachable_wf assms(1,2) by blast
  moreover have "s' = deleteVerificationLocked v s"
    using assms(2-4) by (auto simp: store_defs)
  ultimately show ?thesis using assms(2,3)
    by (simp add: FindVerification_def findVerificationLocked_def FindVerificationByState_def
        deleteVerificationLocked_def)
qed

text \<open>A concrete session and store, for the examples below.\<close>

definition ex_session :: verification_session where
  "ex_session = \<lparr>vs_SessionID = ''sid'', vs_State = ''st'', vs_Nonce = ''n'',
     vs_DCQLQuery = \<lparr>dq_Credentials = [], dq_CredentialSets = []\<rparr>, vs_ResponseMode = ''direct_post.jwt'',
     vs_ClientID = ''x509_hash:h'', vs_ResponseURI = ''u'', vs_RequestJWT = ''j'',
     vs_EncryptionKey = Some \<lparr>rek_private = 1, rek_public = JWK [], rek_kid = ''kid''\<rparr>,
     vs_Status = ''pending'', vs_VPTokens = [], vs_VerifiedClaims = [], vs_SubjectID = [],
     vs_Error = [], vs_CreatedAt = 0\<rparr>"

definition ex_store :: store where
  "ex_store = StoreVerification 0 ex_session NewStore"

lemma ex_store_reachable: "store_reachable ex_store"
proof -
  have "store_step NewStore (exec_op 0 (OpStoreVerification ex_session) NewStore)"
    by (rule store_create)
      (simp add: fresh_verification_def NewStore_def kid_of_def ex_session_def)
  then show ?thesis using store_start store_next by (simp add: ex_store_def)
qed

lemma ex_store_session: "verifications ex_store ''sid'' = Some ex_session"
  by (simp add: ex_store_def StoreVerification_def ex_session_def Let_def NewStore_def)

theorem verification_indexes_agree_witness:
  "FindVerificationByState second ''st'' ex_store = FindVerification second ''sid'' ex_store \<and>
   fst (FindVerification second ''sid'' ex_store) = Some ex_session"
  using verification_indexes_agree [OF ex_store_reachable ex_store_session, of second]
  by (simp add: ex_session_def const_defs)

lemma expired_verification_not_revived_witness:
  "fst (FindVerification (6 * minute) ''sid'' ex_store) = None \<and>
   fst (FindVerificationByState (7 * minute) ''st''
     (UpdateVerificationResult (6 * minute) ''sid'' ''verified'' [] [] ''sub'' [] ex_store)) = None"
  using expired_verification_not_revived [OF ex_store_reachable ex_store_session, of "6 * minute"
      "UpdateVerificationResult (6 * minute) ''sid'' ''verified'' [] [] ''sub'' [] ex_store"
      "''verified''" "[]" "[]" "''sub''" "[]" "7 * minute"]
  by (simp add: ex_session_def const_defs)

end
