(* ===== verification/OAuth2_Core.thy ===== *)
theory OAuth2_Core
  imports Libs
begin

text \<open>
  \<^verbatim>\<open>internal/oauth2/error.go\<close> (error codes and the four constructors of an exception) and
  \<^verbatim>\<open>internal/oauth2/pkce.go\<close>.
\<close>

definition InvalidRequest :: string where "InvalidRequest = ''invalid_request''"
definition InvalidGrant :: string where "InvalidGrant = ''invalid_grant''"
definition InvalidClient :: string where "InvalidClient = ''invalid_client''"
definition InvalidClientAttestation :: string where
  "InvalidClientAttestation = ''invalid_client_attestation''"
definition UnsupportedResponseType :: string where
  "UnsupportedResponseType = ''unsupported_response_type''"
definition UnsupportedGrantType :: string where "UnsupportedGrantType = ''unsupported_grant_type''"
definition InvalidToken :: string where "InvalidToken = ''invalid_token''"

lemmas error_codes = InvalidRequest_def InvalidGrant_def InvalidClient_def
  InvalidClientAttestation_def UnsupportedResponseType_def UnsupportedGrantType_def InvalidToken_def

definition BadRequest :: "string \<Rightarrow> string \<Rightarrow> go_error" where
  "BadRequest c d = Exception \<lparr>HTTPStatus = 400, Err = \<lparr>Code = c, Description = d\<rparr>\<rparr>"
definition NotFound :: "string \<Rightarrow> string \<Rightarrow> go_error" where
  "NotFound c d = Exception \<lparr>HTTPStatus = 404, Err = \<lparr>Code = c, Description = d\<rparr>\<rparr>"
definition Unauthorized :: "string \<Rightarrow> string \<Rightarrow> go_error" where
  "Unauthorized c d = Exception \<lparr>HTTPStatus = 401, Err = \<lparr>Code = c, Description = d\<rparr>\<rparr>"
definition ServiceUnavailable :: "string \<Rightarrow> string \<Rightarrow> go_error" where
  "ServiceUnavailable c d = Exception \<lparr>HTTPStatus = 503, Err = \<lparr>Code = c, Description = d\<rparr>\<rparr>"

subsection \<open>PKCE\<close>

definition computeS256Challenge :: "string \<Rightarrow> string" where
  "computeS256Challenge verifier = RawURL_Encode (sha256 verifier)"

definition VerifyPKCES256 :: "string \<Rightarrow> string \<Rightarrow> bool" where
  "VerifyPKCES256 verifier challenge \<longleftrightarrow> computeS256Challenge verifier = challenge"

text \<open>Two verifiers answer the same challenge only if they have the same digest.\<close>

lemma VerifyPKCES256_same_digest:
  "VerifyPKCES256 v c \<Longrightarrow> VerifyPKCES256 v' c \<Longrightarrow> sha256 v = sha256 v'"
  by (simp add: VerifyPKCES256_def computeS256Challenge_def)
    (metis raw_url.enc_eq_iff)

end
