(* ===== verification/Go_Url.thy ===== *)
theory Go_Url
  imports Go_Std "HOL-Library.AList" "HOL-Library.List_Lexorder" "HOL-Library.Char_ord"
begin

text \<open>
  The escaping and query half of Go's \<^verbatim>\<open>net/url\<close>: \<^verbatim>\<open>QueryEscape\<close>, \<^verbatim>\<open>PathEscape\<close>, \<^verbatim>\<open>ParseQuery\<close>
  and \<^verbatim>\<open>Values.Set\<close>/\<^verbatim>\<open>Values.Encode\<close>. A \<^verbatim>\<open>url.Values\<close> is the list of its entries; \<open>Encode\<close> sorts
  them by key, as Go does. The round trip \<open>ParseQuery_Encode\<close> is what makes merging parameters into
  an existing query lossless.
\<close>

subsection \<open>Escaping\<close>

definition hex_char :: "nat \<Rightarrow> char" where
  "hex_char n = char_of (if n < 10 then n + 48 else n + 55)"

definition unhex :: "char \<Rightarrow> nat option" where
  "unhex c = (let n = byte_val c in
     if 48 \<le> n \<and> n \<le> 57 then Some (n - 48)
     else if 97 \<le> n \<and> n \<le> 102 then Some (n - 87)
     else if 65 \<le> n \<and> n \<le> 70 then Some (n - 55)
     else None)"

definition unreserved :: "char \<Rightarrow> bool" where
  "unreserved c \<longleftrightarrow> (let n = byte_val c in
     48 \<le> n \<and> n \<le> 57 \<or> 65 \<le> n \<and> n \<le> 90 \<or> 97 \<le> n \<and> n \<le> 122 \<or>
     n = 45 \<or> n = 95 \<or> n = 46 \<or> n = 126)"

definition percent :: "char \<Rightarrow> string" where
  "percent c = [CHR ''%'', hex_char (byte_val c div 16), hex_char (byte_val c mod 16)]"

definition query_escape_byte :: "char \<Rightarrow> string" where
  "query_escape_byte c =
     (if unreserved c then [c] else if c = CHR '' '' then ''+'' else percent c)"

definition QueryEscape :: "string \<Rightarrow> string" where
  "QueryEscape s = concat (map query_escape_byte s)"

definition PathEscape :: "string \<Rightarrow> string" where
  "PathEscape s = concat (map (\<lambda>c. if unreserved c \<or> c \<in> set ''$&+:=@'' then [c] else percent c) s)"

fun QueryUnescape :: "string \<Rightarrow> string option" where
  "QueryUnescape [] = Some []"
| "QueryUnescape (c # cs) =
     (if c = CHR ''%'' then
        (case cs of a # b # r \<Rightarrow>
           (case (unhex a, unhex b) of
              (Some x, Some y) \<Rightarrow> map_option ((#) (char_of (16 * x + y))) (QueryUnescape r)
            | _ \<Rightarrow> None)
         | _ \<Rightarrow> None)
      else map_option ((#) (if c = CHR ''+'' then CHR '' '' else c)) (QueryUnescape cs))"

lemma unhex_hex_char: "n < 16 \<Longrightarrow> unhex (hex_char n) = Some n"
  by (auto simp: unhex_def hex_char_def Let_def)

lemma hex_char_not_sep: "n < 16 \<Longrightarrow> hex_char n \<notin> {CHR ''&'', CHR ''='', CHR '';''}"
  by (auto simp: hex_char_def dest!: arg_cong [where f = "of_char :: char \<Rightarrow> nat"])

lemma unreserved_not_special:
  "unreserved c \<Longrightarrow> c \<notin> {CHR ''%'', CHR ''+'', CHR ''&'', CHR ''='', CHR '';''}"
  by (auto simp: unreserved_def)

lemma QueryUnescape_byte:
  "QueryUnescape (query_escape_byte c @ r) = map_option ((#) c) (QueryUnescape r)"
proof -
  have "byte_val c div 16 < 16" "byte_val c mod 16 < 16" by simp_all
  moreover have "char_of (16 * (byte_val c div 16) + byte_val c mod 16) = c" by simp
  ultimately show ?thesis
    using unreserved_not_special [of c]
    by (auto simp: query_escape_byte_def percent_def unhex_hex_char)
qed

lemma QueryUnescape_Escape: "QueryUnescape (QueryEscape s) = Some s"
proof (induction s)
  case (Cons c s)
  then show ?case
    by (simp add: QueryEscape_def QueryUnescape_byte del: QueryUnescape.simps(2))
qed (simp add: QueryEscape_def)

interpretation query: codec QueryEscape QueryUnescape
  by unfold_locales (rule QueryUnescape_Escape)

lemma query_escape_byte_seps:
  "set (query_escape_byte c) \<inter> {CHR ''&'', CHR ''='', CHR '';''} = {}"
  using unreserved_not_special [of c] hex_char_not_sep [of "byte_val c div 16"]
    hex_char_not_sep [of "byte_val c mod 16"]
  by (auto simp: query_escape_byte_def percent_def)

lemma QueryEscape_seps: "set (QueryEscape s) \<inter> {CHR ''&'', CHR ''='', CHR '';''} = {}"
  using query_escape_byte_seps by (fastforce simp: QueryEscape_def)

text \<open>What URL-safe base64 consists of.\<close>

lemma b64_char_unreserved: "n < 64 \<Longrightarrow> unreserved (b64_char True n) \<and> b64_char True n \<noteq> CHR ''.''"
  by (auto simp: unreserved_def b64_char_def Let_def dest!: arg_cong [where f = "of_char :: char \<Rightarrow> nat"] split: if_splits)

lemma b64_unreserved: "c \<in> set (b64_encode True s) \<Longrightarrow> unreserved c \<and> c \<noteq> CHR ''.''"
  by (induction True s rule: b64_encode.induct) (auto simp: sextets_lt b64_char_unreserved)

subsection \<open>Query strings\<close>

type_synonym url_values = "(string \<times> string list) list"

text \<open>\<^verbatim>\<open>strings.Cut(s, c)\<close> without its boolean.\<close>

definition go_cut :: "char \<Rightarrow> string \<Rightarrow> string \<times> string" where
  "go_cut c s = (takeWhile (\<lambda>x. x \<noteq> c) s, tl (dropWhile (\<lambda>x. x \<noteq> c) s))"

definition parse_pair :: "string \<Rightarrow> (string \<times> string) option" where
  "parse_pair p =
     (if CHR '';'' \<in> set p \<or> p = [] then None
      else let (k, v) = go_cut (CHR ''='') p in
        (case (QueryUnescape k, QueryUnescape v) of
           (Some k', Some v') \<Rightarrow> Some (k', v')
         | _ \<Rightarrow> None))"

fun values_add :: "string \<times> string \<Rightarrow> url_values \<Rightarrow> url_values" where
  "values_add (k, v) m =
     AList.update k ((case map_of m k of None \<Rightarrow> [] | Some vs \<Rightarrow> vs) @ [v]) m"

definition ParseQuery :: "string \<Rightarrow> url_values" where
  "ParseQuery s = fold values_add (List.map_filter parse_pair (go_split (CHR ''&'') s)) []"

definition values_set :: "string \<Rightarrow> string \<Rightarrow> url_values \<Rightarrow> url_values" where
  "values_set k v m = AList.update k [v] m"

definition value_pairs :: "url_values \<Rightarrow> (string \<times> string) list" where
  "value_pairs m = concat (map (\<lambda>(k, vs). map (Pair k) vs) m)"

definition encode_pair :: "string \<times> string \<Rightarrow> string" where
  "encode_pair kv = QueryEscape (fst kv) @ CHR ''='' # QueryEscape (snd kv)"

definition values_Encode :: "url_values \<Rightarrow> string" where
  "values_Encode m = go_join (CHR ''&'') (map encode_pair (value_pairs (sort_key fst m)))"

text \<open>The first value under a key, as \<^verbatim>\<open>Values.Get\<close>.\<close>

definition values_Get :: "string \<Rightarrow> url_values \<Rightarrow> string" where
  "values_Get k m = (case map_of m k of Some (v # _) \<Rightarrow> v | _ \<Rightarrow> [])"

lemma go_cut_append: "c \<notin> set p \<Longrightarrow> go_cut c (p @ c # s) = (p, s)"
  by (induction p) (auto simp: go_cut_def)

lemma parse_pair_encode: "parse_pair (encode_pair kv) = Some kv"
proof -
  have k: "CHR ''='' \<notin> set (QueryEscape (fst kv))" using QueryEscape_seps by blast
  then have cut: "go_cut (CHR ''='') (encode_pair kv) = (QueryEscape (fst kv), QueryEscape (snd kv))"
    by (simp add: go_cut_append encode_pair_def)
  have "CHR '';'' \<notin> set (encode_pair kv)"
    using QueryEscape_seps [of "fst kv"] QueryEscape_seps [of "snd kv"] by (auto simp: encode_pair_def)
  moreover have "encode_pair kv \<noteq> []" by (simp add: encode_pair_def)
  ultimately show ?thesis by (simp add: parse_pair_def cut QueryUnescape_Escape)
qed

lemma encode_pair_no_amp: "CHR ''&'' \<notin> set (encode_pair kv)"
  using QueryEscape_seps [of "fst kv"] QueryEscape_seps [of "snd kv"] by (auto simp: encode_pair_def)

lemma map_of_fold_add:
  "map_of (fold values_add ps m) k =
     (let old = (case map_of m k of None \<Rightarrow> [] | Some vs \<Rightarrow> vs);
          new = map snd (filter (\<lambda>p. fst p = k) ps)
      in if new = [] then map_of m k else Some (old @ new))"
  by (induction ps arbitrary: m) (auto simp: Let_def AList.update_conv' split: option.splits)

lemma ParseQuery_join:
  "map_of (ParseQuery (go_join (CHR ''&'') (map encode_pair ps))) k =
     (let vs = map snd (filter (\<lambda>p. fst p = k) ps) in if vs = [] then None else Some vs)"
proof (cases "ps = []")
  case True
  then show ?thesis by (simp add: ParseQuery_def parse_pair_def List.map_filter_def)
next
  case False
  then have "go_split (CHR ''&'') (go_join (CHR ''&'') (map encode_pair ps)) = map encode_pair ps"
    by (intro go_split_join) (auto simp: encode_pair_no_amp)
  moreover have "List.map_filter parse_pair (map encode_pair ps) = ps"
    by (simp add: List.map_filter_def parse_pair_encode comp_def)
  ultimately show ?thesis by (simp add: ParseQuery_def map_of_fold_add Let_def)
qed

lemma value_pairs_at:
  "distinct (map fst m) \<Longrightarrow> map snd (filter (\<lambda>p. fst p = k) (value_pairs m)) =
     (case map_of m k of None \<Rightarrow> [] | Some vs \<Rightarrow> vs)"
proof (induction m)
  case (Cons kv m)
  obtain k' vs where kv: "kv = (k', vs)" by (cases kv)
  have "map snd (filter (\<lambda>p. fst p = k) (map (Pair k') vs)) = (if k' = k then vs else [])"
    by (induction vs) auto
  moreover have "k \<notin> fst ` set m \<Longrightarrow> map_of m k = None" by (simp add: map_of_eq_None_iff)
  ultimately show ?case using Cons by (auto simp: kv value_pairs_def)
qed (simp add: value_pairs_def)

lemma map_of_sort_key: "distinct (map fst m) \<Longrightarrow> map_of (sort_key fst m) = map_of m"
  by (rule map_of_inject_set [THEN iffD2]) (auto simp: distinct_map inj_on_def distinct_sort)

lemma distinct_map_sort: "distinct (map fst m) \<Longrightarrow> distinct (map fst (sort_key fst m))"
  by (simp add: distinct_map)

text \<open>Every Go map of values the code builds has distinct keys and no empty value list.\<close>

definition values_wf :: "url_values \<Rightarrow> bool" where
  "values_wf m \<longleftrightarrow> distinct (map fst m) \<and> [] \<notin> snd ` set m"

lemma update_values: "snd ` set (AList.update k v m) \<subseteq> insert v (snd ` set m)"
  by (induction m) auto

lemma values_wf_update: "values_wf m \<Longrightarrow> v \<noteq> [] \<Longrightarrow> values_wf (AList.update k v m)"
  using update_values [of k v m] by (auto simp: values_wf_def distinct_update)

lemma values_wf_set [simp]: "values_wf m \<Longrightarrow> values_wf (values_set k v m)"
  by (simp add: values_set_def values_wf_update)

lemma values_wf_fold: "values_wf m \<Longrightarrow> values_wf (fold values_add ps m)"
  by (induction ps arbitrary: m) (auto simp: values_wf_update)

lemma ParseQuery_wf [simp]: "values_wf (ParseQuery s)"
  unfolding ParseQuery_def by (rule values_wf_fold) (simp add: values_wf_def)

lemma ParseQuery_Encode:
  assumes "values_wf m"
  shows "map_of (ParseQuery (values_Encode m)) = map_of m"
proof
  fix k
  have "map_of m k \<noteq> Some []" using assms by (force simp: values_wf_def dest: map_of_SomeD)
  then show "map_of (ParseQuery (values_Encode m)) k = map_of m k"
    using assms
    by (auto simp: values_wf_def values_Encode_def ParseQuery_join value_pairs_at distinct_map_sort
        map_of_sort_key Let_def split: option.splits)
qed

lemma map_of_values_set [simp]: "map_of (values_set k v m) = (map_of m)(k \<mapsto> [v])"
  by (simp add: values_set_def AList.update_conv')

end
