(* ===== verification/Example_Lib.thy ===== *)
theory Example_Lib
  imports Libs Go_Url
begin

text \<open>
  A concrete instance of the library record, on which the examples of the other theories are
  evaluated: one wallet \<open>client\<close> whose attestation (\<open>wia\<close>, \<open>pop\<close>) and DPoP proofs (\<open>dpop1\<close> for the
  PAR endpoint, \<open>dpop2\<close> and \<open>dpop3\<close> for the token endpoint) are literal strings.
\<close>

definition ex_base :: string where "ex_base = ''https://i''"

definition ex_wiaKey :: jwk where "ex_wiaKey = JWK [(''x'', JStr ''wia'')]"
definition ex_cnfKey :: jwk where "ex_cnfKey = JWK [(''x'', JStr ''cnf'')]"
definition ex_dpopKey :: jwk where "ex_dpopKey = JWK [(''x'', JStr ''dpop'')]"

definition ex_header :: "string \<Rightarrow> jwk \<Rightarrow> jws_headers" where
  "ex_header typ k = \<lparr>jh_Type = Some typ, jh_Algorithm = Some ES256, jh_KeyID = None, jh_JWK = Some k,
     jh_X509CertChain = None\<rparr>"

definition ex_jws_Parse :: "string \<Rightarrow> string + jws_message" where
  "ex_jws_Parse s =
     (if s = ''wia'' then Inr \<lparr>jm_Signatures = [ex_header ''wia+jwt'' ex_wiaKey], jm_Payload = []\<rparr>
      else if s = ''pop'' then Inr \<lparr>jm_Signatures = [ex_header ''pop+jwt'' ex_cnfKey], jm_Payload = []\<rparr>
      else if s \<in> {''dpop1'', ''dpop2'', ''dpop3''}
      then Inr \<lparr>jm_Signatures = [ex_header ''dpop+jwt'' ex_dpopKey], jm_Payload = []\<rparr>
      else Inl ''not a JWS'')"

definition ex_proof :: "string \<Rightarrow> string \<Rightarrow> jwt_token" where
  "ex_proof path jti = \<lparr>jt_Subject = None, jt_Audience = None, jt_IssuedAt = Some 0, jt_Expiration = None,
     jt_Claims = [(''htm'', JStr ''POST''), (''htu'', JStr (ex_base @ path)), (''jti'', JStr jti)]\<rparr>"

definition ex_jwt_Parse :: "string \<Rightarrow> jwk \<Rightarrow> string + jwt_token" where
  "ex_jwt_Parse s k =
     (if s = ''wia'' \<and> k = ex_wiaKey
      then Inr \<lparr>jt_Subject = Some ''client'', jt_Audience = None, jt_IssuedAt = None, jt_Expiration = None,
                jt_Claims = [(''cnf'', JObj [(''jwk'', JObj [])])]\<rparr>
      else if s = ''pop'' \<and> k = ex_cnfKey
      then Inr \<lparr>jt_Subject = None, jt_Audience = Some [ex_base], jt_IssuedAt = Some 0,
                jt_Expiration = None, jt_Claims = []\<rparr>
      else if s = ''dpop1'' \<and> k = ex_dpopKey then Inr (ex_proof ''/oid4vci/v1/par'' ''j1'')
      else if s = ''dpop2'' \<and> k = ex_dpopKey then Inr (ex_proof ''/oid4vci/v1/token'' ''j2'')
      else if s = ''dpop3'' \<and> k = ex_dpopKey then Inr (ex_proof ''/oid4vci/v1/token'' ''j3'')
      else Inl ''bad signature'')"

definition ex_lib :: lib where
  "ex_lib = \<lparr>json_Marshal = (\<lambda>_. Inr ''{}''), json_Unmarshal = (\<lambda>_. Inr JNull),
     url_Parse = (\<lambda>s. let (b, q) = go_cut (CHR ''?'') s in
        Inr \<lparr>url_Base = b, url_RawQuery = q, url_Fragment = []\<rparr>),
     url_String = (\<lambda>u. url_Base u @ (if url_RawQuery u = [] then [] else CHR ''?'' # url_RawQuery u)),
     jws_Parse = ex_jws_Parse, jws_Verify = (\<lambda>_ _. Inl ''bad signature''), jwt_Parse = ex_jwt_Parse,
     jwt_ParseInsecure = (\<lambda>_. Inl ''not a JWT''), jwt_Sign = (\<lambda>b h k. Inr ''signed''),
     jwk_Has = (\<lambda>k m. m = ''x''), jwk_Thumbprint = (\<lambda>k. Inr ''thumb''),
     jwk_ParseKey = (\<lambda>_. Inr ex_cnfKey), jwk_Import = (\<lambda>k. Inr ex_wiaKey),
     jwt_GetError = (\<lambda>_ _. ''no such claim''), strconv_Quote = (\<lambda>s. CHR 0x22 # s @ [CHR 0x22]), base64_Error = (\<lambda>_. ''illegal base64 data''),
     zlib_NewReader = Inr, zlib_ReadAll = Inr,
     x509_ParseCertificate = (\<lambda>d. Inr \<lparr>cert_Raw = d, cert_Subject = ''CN=wp'', cert_Issuer = ''CN=ca'',
        cert_NotBefore = 0, cert_NotAfter = minute, cert_IsCA = False,
        cert_PublicKey = Some \<lparr>ec_X = 1, ec_Y = 2\<rparr>,
        cert_KeyType = ''*ecdsa.PublicKey''\<rparr>),
     x509_CheckSignatureFrom = (\<lambda>c a. if cert_Issuer c = cert_Subject a then None else Some ''wrong issuer'')\<rparr>"

definition ex_anchor :: certificate where
  "ex_anchor = \<lparr>cert_Raw = [], cert_Subject = ''CN=ca'', cert_Issuer = ''CN=ca'', cert_NotBefore = 0,
     cert_NotAfter = minute, cert_IsCA = True, cert_PublicKey = None, cert_KeyType = ''*rsa.PublicKey''\<rparr>"

lemmas ex_lib_defs = ex_base_def ex_wiaKey_def ex_cnfKey_def ex_dpopKey_def ex_header_def ex_jws_Parse_def
  ex_proof_def ex_jwt_Parse_def ex_lib_def ex_anchor_def

end
