(* ===== verification/Dpop.thy ===== *)
theory Dpop
  imports OAuth2_Core Example_Lib
begin

text \<open>
  \<^verbatim>\<open>internal/oauth2/dpop.go\<close>: the bounded replay cache, the single-header rule, proof validation and
  the two comparisons it relies on. Shown: the cache never exceeds its bound and never forgets a
  proof before it is full; an accepted proof is rejected when it is presented again; the hand-written
  ASCII case folding is equality up to ASCII case; validation accepts exactly the proofs RFC 9449 asks for.
\<close>

definition dpopIATWindow :: duration where
  [const_defs]: "dpopIATWindow = 5 * minute"

subsection \<open>Replay cache\<close>

text \<open>
  The key set of the Go map, without repetition. \<open>rng\<close> is the order in which the eviction loop ranges
  over it; the loop deletes the first \<open>jtiStoreEvictCount\<close> keys it meets.
\<close>

type_synonym jti_store = "string list"

definition jtiStoreMaxSize :: nat where "jtiStoreMaxSize = 10000"
definition jtiStoreEvictCount :: nat where "jtiStoreEvictCount = 1000"

definition NewJTIStore :: jti_store where
  "NewJTIStore = []"

definition evict :: "(string list \<Rightarrow> string list) \<Rightarrow> jti_store \<Rightarrow> jti_store" where
  "evict rng s = filter (\<lambda>k. k \<notin> set (take jtiStoreEvictCount (rng s))) s"

definition Accept :: "(string list \<Rightarrow> string list) \<Rightarrow> string \<Rightarrow> jti_store \<Rightarrow> bool \<times> jti_store" where
  "Accept rng jti s =
     (if jti \<in> set s then (False, s)
      else (True, jti # (if length s \<ge> jtiStoreMaxSize then evict rng s else s)))"

definition jti_ok :: "jti_store \<Rightarrow> bool" where
  "jti_ok s \<longleftrightarrow> distinct s \<and> length s \<le> jtiStoreMaxSize"

text \<open>Go ranges over every key exactly once.\<close>

definition ranges_ok :: "(string list \<Rightarrow> string list) \<Rightarrow> bool" where
  "ranges_ok rng \<longleftrightarrow> (\<forall>s. distinct s \<longrightarrow> distinct (rng s) \<and> set (rng s) = set s)"

lemma jti_bounds: "jtiStoreEvictCount \<le> jtiStoreMaxSize" "0 < jtiStoreEvictCount" "0 < jtiStoreMaxSize"
  by (simp_all add: jtiStoreMaxSize_def jtiStoreEvictCount_def)

lemma evict_length:
  assumes "ranges_ok rng" and "distinct s" and "length s = jtiStoreMaxSize"
  shows "length (evict rng s) = jtiStoreMaxSize - jtiStoreEvictCount"
proof -
  let ?v = "set (take jtiStoreEvictCount (rng s))"
  have r: "distinct (rng s)" "set (rng s) = set s" using assms by (auto simp: ranges_ok_def)
  then have len: "length (rng s) = jtiStoreMaxSize" using assms(2,3) by (metis distinct_card)
  have "card ?v = length (take jtiStoreEvictCount (rng s))"
    by (rule distinct_card) (rule distinct_take [OF r(1)])
  then have card: "card ?v = jtiStoreEvictCount"
    using jti_bounds(1) len by (metis length_take min.absorb2)
  have "set (evict rng s) = set s - ?v" by (auto simp: evict_def)
  moreover have "?v \<subseteq> set s" using r(2) set_take_subset [of jtiStoreEvictCount "rng s"] by simp
  ultimately have "card (set (evict rng s)) = length s - jtiStoreEvictCount"
    using card assms(2) by (simp add: card_Diff_subset distinct_card)
  moreover have "distinct (evict rng s)" using assms(2) by (simp add: evict_def)
  ultimately show ?thesis using assms(3) by (simp add: distinct_card)
qed

lemma Accept_ok:
  assumes "ranges_ok rng" and "jti_ok s"
  shows "jti_ok (snd (Accept rng jti s))"
proof (cases "jti \<in> set s \<or> length s < jtiStoreMaxSize")
  case True
  then show ?thesis using assms(2) by (auto simp: Accept_def jti_ok_def)
next
  case False
  then have "length (evict rng s) = jtiStoreMaxSize - jtiStoreEvictCount"
    using assms by (intro evict_length) (auto simp: jti_ok_def)
  then show ?thesis using False assms(2)
    using jti_bounds by (auto simp: Accept_def jti_ok_def) (auto simp: evict_def)
qed

text \<open>Presenting a sequence of identifiers, each under its own iteration order.\<close>

fun accept_all :: "(nat \<Rightarrow> string list \<Rightarrow> string list) \<Rightarrow> string list \<Rightarrow> jti_store \<Rightarrow> jti_store" where
  "accept_all rngs [] s = s"
| "accept_all rngs (j # js) s = accept_all (rngs \<circ> Suc) js (snd (Accept (rngs 0) j s))"

lemma accept_all_ok:
  "(\<And>i. ranges_ok (rngs i)) \<Longrightarrow> jti_ok s \<Longrightarrow> jti_ok (accept_all rngs js s)"
  by (induction js arbitrary: rngs s) (auto simp: Accept_ok)

lemma Accept_grows: "length s < jtiStoreMaxSize \<Longrightarrow>
  set s \<union> {j} = set (snd (Accept rng j s)) \<and> length (snd (Accept rng j s)) \<le> Suc (length s)"
  by (auto simp: Accept_def)

lemma accept_all_keeps:
  "length s + length js \<le> jtiStoreMaxSize \<Longrightarrow> set (accept_all rngs js s) = set s \<union> set js"
proof (induction js arbitrary: rngs s)
  case (Cons j js)
  then have "length s < jtiStoreMaxSize" by simp
  note g = Accept_grows [OF this, of j "rngs 0"]
  then have "set (accept_all (rngs \<circ> Suc) js (snd (Accept (rngs 0) j s))) =
      set (snd (Accept (rngs 0) j s)) \<union> set js"
    using Cons.prems by (intro Cons.IH) auto
  then show ?case using g by auto
qed simp

text \<open>
  C40: whatever proof identifiers are presented and whatever order Go evicts in, the replay cache
  never holds more than 10 000 identifiers nor one twice; and as long as no more identifiers are presented than
  the cache has room for, every one of them is still recognised, so a replay of any is refused.
\<close>

theorem replay_cache_sound:
  assumes "\<And>i. ranges_ok (rngs i)" and "jti_ok s"
  shows "length (accept_all rngs js s) \<le> 10000 \<and> distinct (accept_all rngs js s) \<and>
    (length s + length js \<le> 10000 \<longrightarrow> j \<in> set s \<union> set js \<longrightarrow>
       fst (Accept rng j (accept_all rngs js s)) = False)"
  using accept_all_ok [OF assms] accept_all_keeps [of s js rngs]
  by (auto simp: jti_ok_def jtiStoreMaxSize_def Accept_def)

theorem replay_cache_sound_witness:
  "length (accept_all (\<lambda>_. rev) [''a'', ''b''] NewJTIStore) \<le> 10000 \<and>
   fst (Accept id ''a'' (accept_all (\<lambda>_. rev) [''a'', ''b''] NewJTIStore)) = False"
  using replay_cache_sound [of "\<lambda>_. rev" NewJTIStore "[''a'', ''b'']" "''a''" id]
  by (simp add: ranges_ok_def jti_ok_def NewJTIStore_def)

subsection \<open>Comparisons\<close>

definition SingleDPoPHeader :: "string list \<Rightarrow> go_error + string" where
  "SingleDPoPHeader values =
     (if length values > 1 then Inl (BadRequest InvalidRequest ''Multiple DPoP headers are not allowed'')
      else case values of [] \<Rightarrow> Inr [] | v # _ \<Rightarrow> Inr v)"

text \<open>\<open>lower_byte\<close> is the body of the loop: \<^verbatim>\<open>if 'A' <= c && c <= 'Z' { c += 'a' - 'A' }\<close>.\<close>

definition lower_byte :: "char \<Rightarrow> char" where
  "lower_byte c = (if 65 \<le> byte_val c \<and> byte_val c \<le> 90 then char_of (byte_val c + 32) else c)"

fun fold_loop :: "string \<Rightarrow> string \<Rightarrow> bool" where
  "fold_loop (a # as) (b # bs) = (if lower_byte a \<noteq> lower_byte b then False else fold_loop as bs)"
| "fold_loop _ _ = True"

definition equalFoldASCII :: "string \<Rightarrow> string \<Rightarrow> bool" where
  "equalFoldASCII a b = (if length a \<noteq> length b then False else fold_loop a b)"

definition strip_url :: "url \<Rightarrow> url" where
  "strip_url u = u\<lparr>url_RawQuery := [], url_Fragment := []\<rparr>"

definition htuMatches :: "lib \<Rightarrow> string \<Rightarrow> string \<Rightarrow> bool" where
  "htuMatches L claimed expected = (case (url_Parse L claimed, url_Parse L expected) of
     (Inr c, Inr e) \<Rightarrow> url_String L (strip_url c) = url_String L (strip_url e)
   | _ \<Rightarrow> claimed = expected)"

lemma fold_loop_map: "length a = length b \<Longrightarrow> fold_loop a b \<longleftrightarrow> map lower_byte a = map lower_byte b"
  by (induction a b rule: fold_loop.induct) auto

lemma equalFoldASCII_iff: "equalFoldASCII a b \<longleftrightarrow> map lower_byte a = map lower_byte b"
  by (auto simp: equalFoldASCII_def fold_loop_map dest: map_eq_imp_length_eq)

subsection \<open>Proof validation\<close>

definition ComputeATH :: "string \<Rightarrow> string" where
  "ComputeATH token = RawURL_Encode (sha256 token)"

definition DPoPThumbprint :: "lib \<Rightarrow> jwk \<Rightarrow> string + string" where
  "DPoPThumbprint L key = (case jwk_Thumbprint L key of
     Inl e \<Rightarrow> Inl (''oauth2: computing DPoP key thumbprint: '' @ e)
   | Inr t \<Rightarrow> Inr (RawURL_Encode t))"

definition ValidateDPoPProof ::
  "lib \<Rightarrow> time \<Rightarrow> (string list \<Rightarrow> string list) \<Rightarrow> string \<Rightarrow> string \<Rightarrow> string \<Rightarrow> string \<Rightarrow> jti_store \<Rightarrow>
   (go_error + jwk) \<times> jti_store" where
  "ValidateDPoPProof L now rng hdr htm htu ath jtis =
     (if hdr = [] then (Inl (BadRequest InvalidRequest ''Missing DPoP proof''), jtis)
      else case jws_Parse L hdr of
        Inl e \<Rightarrow> (Inl (BadRequest InvalidRequest (''Invalid DPoP proof: '' @ e)), jtis)
      | Inr msg \<Rightarrow>
     if length (jm_Signatures msg) \<noteq> 1
     then (Inl (BadRequest InvalidRequest ''Invalid DPoP proof: expected exactly one signature''), jtis)
     else let headers = jm_Signatures msg ! 0 in
     if jh_Type headers \<noteq> Some ''dpop+jwt''
     then (Inl (BadRequest InvalidRequest ''DPoP typ must be dpop+jwt''), jtis)
     else case jh_JWK headers of
        None \<Rightarrow> (Inl (BadRequest InvalidRequest ''DPoP must contain jwk header''), jtis)
      | Some walletJWK \<Rightarrow>
     if jwk_Has L walletJWK ''d''
     then (Inl (BadRequest InvalidRequest ''DPoP jwk header must not contain a private key''), jtis)
     else if jh_Algorithm headers \<noteq> Some ES256
     then (Inl (BadRequest InvalidRequest ''DPoP must use ES256''), jtis)
     else case jwt_Parse L hdr walletJWK of
        Inl _ \<Rightarrow> (Inl (BadRequest InvalidRequest ''DPoP signature invalid''), jtis)
      | Inr token \<Rightarrow>
     if \<not> equalFoldASCII (str_or_empty (map_of (jt_Claims token) ''htm'')) htm
     then (Inl (BadRequest InvalidRequest ''DPoP htm mismatch''), jtis)
     else if \<not> htuMatches L (str_or_empty (map_of (jt_Claims token) ''htu'')) htu
     then (Inl (BadRequest InvalidRequest ''DPoP htu mismatch''), jtis)
     else case jt_IssuedAt token of
        None \<Rightarrow> (Inl (BadRequest InvalidRequest ''DPoP proof expired''), jtis)
      | Some iat \<Rightarrow>
     if now - iat > dpopIATWindow \<or> now - iat < - dpopIATWindow
     then (Inl (BadRequest InvalidRequest ''DPoP proof expired''), jtis)
     else let jti = str_or_empty (map_of (jt_Claims token) ''jti'') in
     if jti = [] then (Inl (BadRequest InvalidRequest ''DPoP jti replay detected''), jtis)
     else let (fresh, jtis') = Accept rng jti jtis in
     if \<not> fresh then (Inl (BadRequest InvalidRequest ''DPoP jti replay detected''), jtis')
     else if ath \<noteq> [] \<and> str_or_empty (map_of (jt_Claims token) ''ath'') \<noteq> ath
     then (Inl (BadRequest InvalidRequest ''DPoP ath mismatch''), jtis')
     else (Inr walletJWK, jtis'))"

text \<open>The proof's identifier, as the wallet signed it under the key the proof carries.\<close>

definition proof_jti :: "lib \<Rightarrow> string \<Rightarrow> jwk \<Rightarrow> string" where
  "proof_jti L hdr key = (case jwt_Parse L hdr key of
     Inl _ \<Rightarrow> [] | Inr tok \<Rightarrow> str_or_empty (map_of (jt_Claims tok) ''jti''))"

text \<open>What RFC 9449 asks of a proof, apart from replay.\<close>

definition proof_ok :: "lib \<Rightarrow> time \<Rightarrow> string \<Rightarrow> string \<Rightarrow> string \<Rightarrow> string \<Rightarrow> jwk \<Rightarrow> bool" where
  "proof_ok L now hdr htm htu ath key \<longleftrightarrow> hdr \<noteq> [] \<and>
     (\<exists>msg h tok iat. jws_Parse L hdr = Inr msg \<and> jm_Signatures msg = [h] \<and>
        jh_Type h = Some ''dpop+jwt'' \<and> jh_JWK h = Some key \<and> \<not> jwk_Has L key ''d'' \<and>
        jh_Algorithm h = Some ES256 \<and> jwt_Parse L hdr key = Inr tok \<and>
        map lower_byte (str_or_empty (map_of (jt_Claims tok) ''htm'')) = map lower_byte htm \<and>
        htuMatches L (str_or_empty (map_of (jt_Claims tok) ''htu'')) htu \<and>
        jt_IssuedAt tok = Some iat \<and> \<bar>now - iat\<bar> \<le> dpopIATWindow \<and>
        (ath \<noteq> [] \<longrightarrow> str_or_empty (map_of (jt_Claims tok) ''ath'') = ath))"

lemma ValidateDPoPProof_Inr:
  "ValidateDPoPProof L now rng hdr htm htu ath jtis = (Inr key, jtis') \<longleftrightarrow>
     proof_ok L now hdr htm htu ath key \<and> proof_jti L hdr key \<noteq> [] \<and>
     Accept rng (proof_jti L hdr key) jtis = (True, jtis')"
  (is "?lhs \<longleftrightarrow> ?rhs")
proof
  assume ?lhs
  then show ?rhs
    unfolding ValidateDPoPProof_def Let_def
    by (auto simp: proof_ok_def proof_jti_def equalFoldASCII_iff length_Suc_conv abs_le_iff
        split: if_splits sum.splits option.splits prod.splits)
next
  assume ?rhs
  then show ?lhs
    by (auto simp: ValidateDPoPProof_def proof_ok_def proof_jti_def equalFoldASCII_iff Let_def abs_le_iff)
qed

text \<open>
  C21: an accepted DPoP proof is not accepted again: whatever identifiers are presented afterwards,
  at whatever endpoint, method and time the same proof comes back, validation fails as long as the
  cache has not had to evict.
\<close>

theorem dpop_proof_not_replayable:
  assumes "ValidateDPoPProof L t rng hdr htm htu ath js = (Inr key, js')"
    and "length js' + length later \<le> 10000"
  shows "isl (fst (ValidateDPoPProof L t' rng' hdr htm' htu' ath' (accept_all rngs later js')))"
proof (rule ccontr)
  let ?r = "ValidateDPoPProof L t' rng' hdr htm' htu' ath' (accept_all rngs later js')"
  assume "\<not> isl (fst ?r)"
  then obtain key' js'' where again: "?r = (Inr key', js'')"
    by (cases ?r; cases "fst ?r") auto
  have "key' = key" using assms(1) again
    by (auto simp: ValidateDPoPProof_Inr proof_ok_def)
  moreover have "proof_jti L hdr key \<in> set js'" using assms(1)
    by (auto simp: ValidateDPoPProof_Inr Accept_def split: if_splits)
  ultimately show False
    using again accept_all_keeps [of js' later rngs] assms(2)
    by (auto simp: ValidateDPoPProof_Inr Accept_def jtiStoreMaxSize_def split: if_splits)
qed

theorem dpop_proof_not_replayable_witness:
  "isl (fst (ValidateDPoPProof ex_lib 1 rev ''dpop1'' ''POST'' (ex_base @ ''/oid4vci/v1/par'') []
     (accept_all (\<lambda>_. id) [''other''] [''j1''])))"
proof (rule dpop_proof_not_replayable)
  show "ValidateDPoPProof ex_lib 0 id ''dpop1'' ''POST'' (ex_base @ ''/oid4vci/v1/par'') [] [] =
      (Inr ex_dpopKey, [''j1''])"
    by (simp add: ValidateDPoPProof_Inr proof_ok_def proof_jti_def Accept_def jtiStoreMaxSize_def)
      (simp add: htuMatches_def ex_lib_defs const_defs Let_def go_cut_def)
qed simp

end
