(* ===== verification/Client_Attestation.thy ===== *)
theory Client_Attestation
  imports Dpop
begin

text \<open>
  \<^verbatim>\<open>internal/oauth2/clientattestation.go\<close>: validation of a Wallet Instance Attestation (WIA) and its
  proof of possession (PoP), carried by headers or by the form. Shown: what an accepted client id
  rests on, that a pinned Wallet Provider anchor constrains attestations that carry a certificate
  chain, and that an attestation carrying a header key instead is accepted whatever the anchor.
  The clock is read for the expiry of each token and for the age of the PoP; these readings, a few signature checks
  apart, are taken as one instant \<open>now\<close>.
\<close>

definition HeaderClientAttestation :: string where
  "HeaderClientAttestation = ''OAuth-Client-Attestation''"
definition HeaderClientAttestationPoP :: string where
  "HeaderClientAttestationPoP = ''OAuth-Client-Attestation-PoP''"
definition ClientAssertionType :: string where
  "ClientAssertionType = ''urn:ietf:params:oauth:client-assertion-type:jwt-client-attestation''"

definition clientAttestationIATWindow :: duration where
  [const_defs]: "clientAttestationIATWindow = 5 * minute"

record client_attestation_validator =
  walletProviderAnchor :: "certificate option"
  expectedAudience :: string

definition NewClientAttestationValidator ::
  "certificate option \<Rightarrow> string \<Rightarrow> client_attestation_validator" where
  "NewClientAttestationValidator anchor aud =
     \<lparr>walletProviderAnchor = anchor, expectedAudience = aud\<rparr>"

definition malformed_leaf :: go_error where
  "malformed_leaf = Unauthorized InvalidClient
     ''Invalid client attestation: malformed x5c leaf certificate''"

definition resolveWiaKey ::
  "lib \<Rightarrow> client_attestation_validator \<Rightarrow> jws_headers \<Rightarrow> go_error + jwk" where
  "resolveWiaKey L v headers = (case jh_X509CertChain headers of
     Some (leafB64 # _) \<Rightarrow>
       (case Std_Decode leafB64 of
          None \<Rightarrow> Inl malformed_leaf
        | Some leafDER \<Rightarrow>
       case x509_ParseCertificate L leafDER of
          Inl _ \<Rightarrow> Inl malformed_leaf
        | Inr leaf \<Rightarrow>
       if (case walletProviderAnchor v of None \<Rightarrow> False
           | Some anchor \<Rightarrow> x509_CheckSignatureFrom L leaf anchor \<noteq> None)
       then Inl (Unauthorized InvalidClient ''WIA is not issued by a trusted Wallet Provider'')
       else case cert_PublicKey leaf of
          None \<Rightarrow> Inl (Unauthorized InvalidClient
            ''Cannot verify WIA signature: leaf certificate is not an EC key'')
        | Some leafECDSA \<Rightarrow>
            (case jwk_Import L leafECDSA of Inl e \<Rightarrow> Inl (ErrorString e) | Inr k \<Rightarrow> Inr k))
   | _ \<Rightarrow> (case jh_JWK headers of
       Some headerJWK \<Rightarrow> Inr headerJWK
     | None \<Rightarrow> Inl (Unauthorized InvalidClient
         ''Cannot verify WIA signature: no x5c or jwk in header'')))"

definition missing_cnf :: go_error where
  "missing_cnf = Unauthorized InvalidClient ''WIA missing cnf key for PoP verification''"

definition jkt_mismatch :: go_error where
  "jkt_mismatch = Unauthorized InvalidClient ''PoP key thumbprint does not match WIA cnf.jkt''"

definition resolveCnfKey :: "lib \<Rightarrow> jwt_token \<Rightarrow> string \<Rightarrow> go_error + jwk" where
  "resolveCnfKey L wiaToken popJWT = (case as_obj (map_of (jt_Claims wiaToken) ''cnf'') of
     None \<Rightarrow> Inl missing_cnf
   | Some cnf \<Rightarrow>
       (case map_of cnf ''jwk'' of
          Some rawJWK \<Rightarrow>
            (case json_Marshal L rawJWK of
               Inl _ \<Rightarrow> Inl missing_cnf
             | Inr bytes \<Rightarrow>
            case jwk_ParseKey L bytes of
               Inl _ \<Rightarrow> Inl missing_cnf
             | Inr key \<Rightarrow> Inr key)
        | None \<Rightarrow>
       let jkt = str_or_empty (map_of cnf ''jkt'') in
       if jkt = [] then Inl missing_cnf
       else case jws_Parse L popJWT of
          Inl _ \<Rightarrow> Inl missing_cnf
        | Inr popMsg \<Rightarrow>
       if length (jm_Signatures popMsg) \<noteq> 1 then Inl missing_cnf
       else case jh_JWK (jm_Signatures popMsg ! 0) of
          None \<Rightarrow> Inl jkt_mismatch
        | Some popHeaderKey \<Rightarrow>
       if DPoPThumbprint L popHeaderKey \<noteq> Inr jkt then Inl jkt_mismatch else Inr popHeaderKey))"

text \<open>
  The client id: \<^verbatim>\<open>sub\<close>, or the \<^verbatim>\<open>client_id\<close> claim where \<^verbatim>\<open>sub\<close> is absent or empty (and where that
  claim is not a string, what \<^verbatim>\<open>sub\<close> gave).
\<close>

definition wia_client_id :: "jwt_token \<Rightarrow> string" where
  "wia_client_id tok = (case jt_Subject tok of
     Some sub \<Rightarrow> if sub = [] then str_or_empty (map_of (jt_Claims tok) ''client_id'') else sub
   | None \<Rightarrow> str_or_empty (map_of (jt_Claims tok) ''client_id''))"

text \<open>\<^verbatim>\<open>aud, _ := popToken.Audience()\<close>.\<close>

definition audience_of :: "jwt_token \<Rightarrow> string list" where
  "audience_of tok = (case jt_Audience tok of None \<Rightarrow> [] | Some aud \<Rightarrow> aud)"

definition validateWiaAndPop ::
  "lib \<Rightarrow> client_attestation_validator \<Rightarrow> time \<Rightarrow> string \<Rightarrow> string \<Rightarrow> go_error + string" where
  "validateWiaAndPop L v now wia pop = (case jws_Parse L wia of
     Inl e \<Rightarrow> Inl (Unauthorized InvalidClient (''Invalid client attestation: '' @ e))
   | Inr wiaMsg \<Rightarrow>
  if length (jm_Signatures wiaMsg) \<noteq> 1
  then Inl (Unauthorized InvalidClient ''Invalid client attestation: expected exactly one signature'')
  else case resolveWiaKey L v (jm_Signatures wiaMsg ! 0) of
     Inl e \<Rightarrow> Inl e
   | Inr wiaKey \<Rightarrow>
  case jwt_Parse L wia wiaKey of
     Inl _ \<Rightarrow> Inl (Unauthorized InvalidClient ''Client Attestation JWT signature verification failed'')
   | Inr wiaToken \<Rightarrow>
  if (case jt_Expiration wiaToken of None \<Rightarrow> False | Some expiry \<Rightarrow> now > expiry)
  then Inl (Unauthorized InvalidClient ''Client Attestation JWT has expired'')
  else let clientID = wia_client_id wiaToken in
  case resolveCnfKey L wiaToken pop of
     Inl e \<Rightarrow> Inl e
   | Inr cnfKey \<Rightarrow>
  case jwt_Parse L pop cnfKey of
     Inl _ \<Rightarrow> Inl (Unauthorized InvalidClient ''PoP signature verification failed'')
   | Inr popToken \<Rightarrow>
  if expectedAudience v \<noteq> [] \<and>
     expectedAudience v \<notin> set (audience_of popToken)
  then Inl (Unauthorized InvalidClientAttestation ''PoP JWT aud does not match this authorization server'')
  else if (case jt_IssuedAt popToken of None \<Rightarrow> False
           | Some iat \<Rightarrow> now - iat > clientAttestationIATWindow \<or> now - iat < - clientAttestationIATWindow)
  then Inl (Unauthorized InvalidClient ''PoP JWT expired (iat too old)'')
  else if (case jt_Expiration popToken of None \<Rightarrow> False | Some expiry \<Rightarrow> now > expiry)
  then Inl (Unauthorized InvalidClient ''PoP JWT has expired'')
  else Inr clientID)"

text \<open>\<open>ValidateHeaders\<close> and \<open>ValidateForm\<close> return \<open>Inr []\<close> where no attestation is present.\<close>

definition ValidateHeaders ::
  "lib \<Rightarrow> client_attestation_validator \<Rightarrow> time \<Rightarrow> string \<Rightarrow> string \<Rightarrow> go_error + string" where
  "ValidateHeaders L v now wia pop =
     (if wia = [] \<and> pop = [] then Inr []
      else if wia = [] then Inl (Unauthorized InvalidClient ''Missing OAuth-Client-Attestation header'')
      else if pop = [] then Inl (Unauthorized InvalidClient ''Missing OAuth-Client-Attestation-PoP header'')
      else validateWiaAndPop L v now wia pop)"

definition ValidateForm ::
  "lib \<Rightarrow> client_attestation_validator \<Rightarrow> time \<Rightarrow> string \<Rightarrow> string \<Rightarrow> go_error + string" where
  "ValidateForm L v now assertionType assertion =
     (if assertionType = [] \<and> assertion = [] then Inr []
      else if assertionType \<noteq> ClientAssertionType
      then Inl (Unauthorized InvalidClient (''Unsupported client_assertion_type: '' @ assertionType))
      else if assertion = [] then Inl (Unauthorized InvalidClient ''Missing client_assertion'')
      else case go_split (CHR ''~'') assertion of
        [wia, pop] \<Rightarrow> validateWiaAndPop L v now wia pop
      | _ \<Rightarrow> Inl (Unauthorized InvalidClient
          ''client_assertion must contain WIA~PoP (two JWTs separated by ~)''))"

definition Resolve ::
  "lib \<Rightarrow> client_attestation_validator \<Rightarrow> time \<Rightarrow> string \<Rightarrow> string \<Rightarrow> string \<Rightarrow> string \<Rightarrow> go_error + string" where
  "Resolve L v now wiaHeader popHeader assertionType assertion =
     (case ValidateHeaders L v now wiaHeader popHeader of
        Inl e \<Rightarrow> Inl e
      | Inr clientID \<Rightarrow>
          if clientID \<noteq> [] then Inr clientID else ValidateForm L v now assertionType assertion)"

subsection \<open>What an accepted attestation rests on\<close>

text \<open>
  \<open>attested L v now wia pop c\<close>: the WIA is a single-signature JWS that verifies under the key its own
  header supplies and names client \<open>c\<close>; it is not past its expiry; the PoP verifies under the key
  the WIA's \<^verbatim>\<open>cnf\<close> binds, is addressed to this server, and is fresh where it says when it was made.
\<close>

definition attested ::
  "lib \<Rightarrow> client_attestation_validator \<Rightarrow> time \<Rightarrow> string \<Rightarrow> string \<Rightarrow> string \<Rightarrow> bool" where
  "attested L v now wia pop c \<longleftrightarrow>
     (\<exists>msg h wk wt ck pt. jws_Parse L wia = Inr msg \<and> jm_Signatures msg = [h] \<and>
        resolveWiaKey L v h = Inr wk \<and> jwt_Parse L wia wk = Inr wt \<and>
        (\<forall>expiry. jt_Expiration wt = Some expiry \<longrightarrow> now \<le> expiry) \<and> c = wia_client_id wt \<and>
        resolveCnfKey L wt pop = Inr ck \<and> jwt_Parse L pop ck = Inr pt \<and>
        (expectedAudience v \<noteq> [] \<longrightarrow> expectedAudience v \<in> set (audience_of pt)) \<and>
        (\<forall>iat. jt_IssuedAt pt = Some iat \<longrightarrow> \<bar>now - iat\<bar> \<le> clientAttestationIATWindow) \<and>
        (\<forall>expiry. jt_Expiration pt = Some expiry \<longrightarrow> now \<le> expiry))"

lemma validateWiaAndPop_Inr: "validateWiaAndPop L v now wia pop = Inr c \<longleftrightarrow> attested L v now wia pop c"
  (is "?lhs \<longleftrightarrow> ?rhs")
proof
  assume ?lhs
  then show ?rhs
    unfolding validateWiaAndPop_def Let_def attested_def
    by (auto simp: length_Suc_conv abs_le_iff split: if_splits sum.splits option.splits)
next
  assume ?rhs
  then obtain msg h wk wt ck pt where "jws_Parse L wia = Inr msg" "jm_Signatures msg = [h]"
    "resolveWiaKey L v h = Inr wk" "jwt_Parse L wia wk = Inr wt" "c = wia_client_id wt"
    "resolveCnfKey L wt pop = Inr ck" "jwt_Parse L pop ck = Inr pt"
    "\<forall>expiry. jt_Expiration wt = Some expiry \<longrightarrow> now \<le> expiry"
    "expectedAudience v \<noteq> [] \<longrightarrow> expectedAudience v \<in> set (audience_of pt)"
    "\<forall>iat. jt_IssuedAt pt = Some iat \<longrightarrow> \<bar>now - iat\<bar> \<le> clientAttestationIATWindow"
    "\<forall>expiry. jt_Expiration pt = Some expiry \<longrightarrow> now \<le> expiry"
    unfolding attested_def by blast
  then show ?lhs
    by (cases "jt_Expiration wt"; cases "jt_Expiration pt"; cases "jt_IssuedAt pt")
      (auto simp: validateWiaAndPop_def Let_def abs_le_iff)
qed

lemma Resolve_Inr:
  assumes "Resolve L v now wia pop aty asr = Inr c" and "c \<noteq> []"
  shows "attested L v now wia pop c \<and> wia \<noteq> [] \<and> pop \<noteq> [] \<or>
    aty = ClientAssertionType \<and>
      (\<exists>w p. go_split (CHR ''~'') asr = [w, p] \<and> attested L v now w p c)"
  using assms
  by (auto simp: Resolve_def ValidateHeaders_def ValidateForm_def validateWiaAndPop_Inr
      split: sum.splits if_splits list.splits)

lemma ex_leaf_decodes: "Std_Decode ''YWJj'' = Some ''abc''"
  by code_simp

text \<open>
  A certificate chain in the attestation's header is pinned: with a Wallet Provider anchor
  configured, a key is taken from the chain only if the anchor signed its leaf certificate and the
  leaf carries an EC key.
\<close>

lemma pinned_anchor_checked:
  assumes "walletProviderAnchor v = Some anchor" and "jh_X509CertChain h = Some (leaf64 # rest)"
    and "resolveWiaKey L v h = Inr k"
  shows "\<exists>der leaf pk. Std_Decode leaf64 = Some der \<and> x509_ParseCertificate L der = Inr leaf \<and>
    x509_CheckSignatureFrom L leaf anchor = None \<and> cert_PublicKey leaf = Some pk \<and>
    jwk_Import L pk = Inr k"
  using assms by (auto simp: resolveWiaKey_def split: option.splits sum.splits if_splits)

lemma pinned_anchor_checked_witness:
  "x509_CheckSignatureFrom ex_lib (projr (x509_ParseCertificate ex_lib ''abc'')) ex_anchor = None"
  using pinned_anchor_checked [of "NewClientAttestationValidator (Some ex_anchor) ex_base" ex_anchor
      "(ex_header ''wia+jwt'' ex_wiaKey)\<lparr>jh_X509CertChain := Some [''YWJj'']\<rparr>" "''YWJj''" "[]" ex_lib ex_wiaKey]
    ex_leaf_decodes
  by (simp add: resolveWiaKey_def NewClientAttestationValidator_def ex_lib_def ex_anchor_def ex_header_def)

text \<open>
  The anchor does not constrain an attestation without a certificate chain: for every anchor,
  a header that carries only a \<^verbatim>\<open>jwk\<close> yields that very key, so an attestation signed by a key its
  author made up passes exactly as it would with no anchor configured.
\<close>

lemma header_jwk_bypasses_anchor:
  assumes "jh_X509CertChain h \<in> {None, Some []}" and "jh_JWK h = Some k"
    and "jws_Parse L wia = Inr msg" and "jm_Signatures msg = [h]"
  shows "resolveWiaKey L v h = Inr k \<and>
    validateWiaAndPop L (v\<lparr>walletProviderAnchor := Some anchor\<rparr>) now wia pop =
    validateWiaAndPop L (v\<lparr>walletProviderAnchor := None\<rparr>) now wia pop"
proof -
  have "resolveWiaKey L v' h = Inr k" for v'
    using assms(1,2) by (auto simp: resolveWiaKey_def)
  then show ?thesis using assms(3,4)
    by (simp add: validateWiaAndPop_def Let_def split: sum.splits)
qed

lemma header_jwk_bypasses_anchor_witness:
  "validateWiaAndPop ex_lib (NewClientAttestationValidator (Some ex_anchor) ex_base) 0 ''wia'' ''pop'' = Inr ''client''"
  using header_jwk_bypasses_anchor [of "ex_header ''wia+jwt'' ex_wiaKey" ex_wiaKey ex_lib "''wia''"
      "\<lparr>jm_Signatures = [ex_header ''wia+jwt'' ex_wiaKey], jm_Payload = []\<rparr>"
      "NewClientAttestationValidator None ex_base" ex_anchor 0 "''pop''"]
  by (simp add: validateWiaAndPop_def resolveWiaKey_def resolveCnfKey_def wia_client_id_def audience_of_def
      NewClientAttestationValidator_def ex_lib_defs const_defs)

definition client_attested ::
  "lib \<Rightarrow> client_attestation_validator \<Rightarrow> time \<Rightarrow> string \<Rightarrow> string \<Rightarrow> string \<Rightarrow> string \<Rightarrow> string \<Rightarrow> bool" where
  "client_attested L v now wia pop aty asr c \<longleftrightarrow>
     attested L v now wia pop c \<and> wia \<noteq> [] \<and> pop \<noteq> [] \<or>
     aty = ClientAssertionType \<and> (\<exists>w p. go_split (CHR ''~'') asr = [w, p] \<and> attested L v now w p c)"

lemma Resolve_attested:
  "Resolve L v now wia pop aty asr = Inr c \<Longrightarrow> c \<noteq> [] \<Longrightarrow> client_attested L v now wia pop aty asr c"
  unfolding client_attested_def by (rule Resolve_Inr)

end
