(* ===== verification/Token_Mint.thy ===== *)
theory Token_Mint
  imports Dpop
begin

text \<open>
  \<^verbatim>\<open>internal/oauth2/token.go\<close> and the local signing key it uses
  (\<^verbatim>\<open>internal/crypto/signingkey.go\<close>): the token request, the token response and the minting of an
  RFC 9068 access token.
\<close>

record signing_key =
  sk_kid :: string
  sk_private :: int
  sk_public :: jwk

abbreviation SigningKey_KID :: "signing_key \<Rightarrow> string" where "SigningKey_KID k \<equiv> sk_kid k"
abbreviation SigningKey_Signer :: "signing_key \<Rightarrow> int" where "SigningKey_Signer k \<equiv> sk_private k"
abbreviation SigningKey_PublicJWK :: "signing_key \<Rightarrow> jwk" where "SigningKey_PublicJWK k \<equiv> sk_public k"

definition AuthorizationCodeGrantType :: string where
  "AuthorizationCodeGrantType = ''authorization_code''"
definition AccessTokenTTL :: duration where
  [const_defs]: "AccessTokenTTL = 5 * minute"
definition AccessTokenType :: string where
  "AccessTokenType = ''at+jwt''"

record token_request =
  tr_GrantType :: string
  tr_Code :: string
  tr_RedirectURI :: string
  tr_CodeVerifier :: string
  tr_ClientID :: string
  tr_ClientAssertionType :: string
  tr_ClientAssertion :: string

definition TokenRequestFromForm :: "params \<Rightarrow> token_request" where
  "TokenRequestFromForm form =
     \<lparr>tr_GrantType = idx form ''grant_type'', tr_Code = idx form ''code'',
      tr_RedirectURI = idx form ''redirect_uri'', tr_CodeVerifier = idx form ''code_verifier'',
      tr_ClientID = idx form ''client_id'', tr_ClientAssertionType = idx form ''client_assertion_type'',
      tr_ClientAssertion = idx form ''client_assertion''\<rparr>"

definition IsAuthorizationCode :: "token_request \<Rightarrow> bool" where
  "IsAuthorizationCode r \<longleftrightarrow> tr_GrantType r = AuthorizationCodeGrantType"

record token_response =
  AccessToken :: string
  TokenType :: string
  ExpiresIn :: int

record access_token_claims =
  atc_IssuanceRecordID :: string
  atc_CNonce :: string
  atc_ClientID :: string
  atc_DPoPKey :: jwk

record minter =
  mt_key :: signing_key
  mt_issuer :: string
  mt_audience :: string

definition NewMinter :: "signing_key \<Rightarrow> string \<Rightarrow> string \<Rightarrow> minter" where
  "NewMinter key issuer audience = \<lparr>mt_key = key, mt_issuer = issuer, mt_audience = audience\<rparr>"

definition RandomJTI :: "(nat \<Rightarrow> string) \<Rightarrow> string" where
  "RandomJTI draw = RawURL_Encode (draw 16)"

definition accessTokenHeaders :: "string \<Rightarrow> jws_headers" where
  "accessTokenHeaders kid =
     \<lparr>jh_Type = Some AccessTokenType, jh_Algorithm = None, jh_KeyID = Some kid, jh_JWK = None,
      jh_X509CertChain = None\<rparr>"

text \<open>The claims set handed to the JWT builder, given the thumbprint of the DPoP key.\<close>

definition access_token_body ::
  "minter \<Rightarrow> time \<Rightarrow> string \<Rightarrow> string \<Rightarrow> access_token_claims \<Rightarrow> jwt_builder" where
  "access_token_body m now jti thumbprint claims =
     \<lparr>jb_Issuer = mt_issuer m, jb_Audience = [mt_audience m], jb_IssuedAt = now,
      jb_Expiration = now + AccessTokenTTL, jb_JwtID = Some jti, jb_Subject = Some (atc_ClientID claims),
      jb_Claims = [(''client_id'', JStr (atc_ClientID claims)),
                   (''cnf'', JObj [(''jkt'', JStr thumbprint)]),
                   (''issuance_record_id'', JStr (atc_IssuanceRecordID claims))] @
        (if atc_CNonce claims \<noteq> [] then [(''c_nonce'', JStr (atc_CNonce claims))] else [])\<rparr>"

definition Mint ::
  "lib \<Rightarrow> minter \<Rightarrow> time \<Rightarrow> (nat \<Rightarrow> string) \<Rightarrow> access_token_claims \<Rightarrow> string + string \<times> string" where
  "Mint L m now draw claims = (case DPoPThumbprint L (atc_DPoPKey claims) of
     Inl e \<Rightarrow> Inl e
   | Inr thumbprint \<Rightarrow>
       (let jti = RandomJTI draw in
        case jwt_Sign L (access_token_body m now jti thumbprint claims)
               (accessTokenHeaders (SigningKey_KID (mt_key m))) (SigningKey_Signer (mt_key m)) of
          Inl e \<Rightarrow> Inl e
        | Inr tok \<Rightarrow> Inr (tok, jti)))"

definition DPoPToken :: "string \<Rightarrow> token_response" where
  "DPoPToken t = \<lparr>AccessToken = t, TokenType = ''DPoP'', ExpiresIn = AccessTokenTTL div second\<rparr>"

lemma Mint_Inr:
  "Mint L m now draw claims = Inr (t, jti) \<longleftrightarrow> jti = RandomJTI draw \<and>
     (\<exists>th. jwk_Thumbprint L (atc_DPoPKey claims) = Inr th \<and>
        jwt_Sign L (access_token_body m now jti (RawURL_Encode th) claims)
          (accessTokenHeaders (sk_kid (mt_key m))) (sk_private (mt_key m)) = Inr t)"
  by (auto simp: Mint_def DPoPThumbprint_def Let_def split: sum.splits)

end
