(* ===== verification/Issuer_Client.thy ===== *)
theory Issuer_Client
  imports OAuth2_Core Go_Url
begin

text \<open>
  \<^verbatim>\<open>internal/issuerclient/client.go\<close>: looking up and creating records at the Credential Issuer, over the
  network argument \<open>net\<close> (the claim metadata is in \<open>Issuer_Metadata\<close>). Decoding into a Go struct is
  modelled on the decoded value: keys match up to case, a wrong type is an error, null leaves
  the zero value.
\<close>

definition ascii_lower :: "string \<Rightarrow> string" where
  "ascii_lower s = map (\<lambda>c. if 65 \<le> byte_val c \<and> byte_val c \<le> 90 then char_of (byte_val c + 32) else c) s"

text \<open>
  Struct fields match keys up to Unicode case folding. The names are ASCII, and besides the ASCII
  capitals only the long s (bytes C5 BF) and the Kelvin sign (E2 84 AA) fold to an ASCII letter.
\<close>

fun fold_name :: "string \<Rightarrow> string" where
  "fold_name [] = []"
| "fold_name (c # s) =
     (if take 2 (c # s) = [CHR 0xC5, CHR 0xBF] then CHR ''s'' # fold_name (drop 1 s)
      else if take 3 (c # s) = [CHR 0xE2, CHR 0x84, CHR 0xAA] then CHR ''k'' # fold_name (drop 2 s)
      else ascii_lower [c] @ fold_name s)"

fun decode_field :: "string \<Rightarrow> json_map \<Rightarrow> string + string \<Rightarrow> string + string" where
  "decode_field k [] acc = acc"
| "decode_field k ((k', v) # kvs) acc =
     (if fold_name k' \<noteq> fold_name k then decode_field k kvs acc
      else case v of
        JStr s \<Rightarrow> decode_field k kvs (case acc of Inl e \<Rightarrow> Inl e | Inr _ \<Rightarrow> Inr s)
      | JNull \<Rightarrow> decode_field k kvs acc
      | _ \<Rightarrow> decode_field k kvs (Inl ''json: cannot unmarshal into Go struct field of type string''))"

text \<open>A struct with one string field named \<open>k\<close>.\<close>

definition decode_struct :: "string \<Rightarrow> json \<Rightarrow> string + string" where
  "decode_struct k j = (case j of
     JObj kvs \<Rightarrow> decode_field k kvs (Inr [])
   | JNull \<Rightarrow> Inr []
   | _ \<Rightarrow> Inl ''json: cannot unmarshal into Go value'')"

text \<open>
  \<^verbatim>\<open>get\<close>: \<open>Inr None\<close> is the 404 answer, \<open>Inr (Some j)\<close> a decoded 200 body.
\<close>

definition client_get :: "net \<Rightarrow> string \<Rightarrow> string \<Rightarrow> string + json option" where
  "client_get N baseURL path = (case net_NewRequest N ''GET'' (baseURL @ path) of
     Some e \<Rightarrow> Inl e
   | None \<Rightarrow>
  case net_Do N \<lparr>hq_Method = ''GET'', hq_URL = baseURL @ path, hq_Accept = [], hq_ContentType = [], hq_Body = []\<rparr> of
     Inl e \<Rightarrow> Inl (''issuerclient: GET '' @ path @ '': '' @ e)
   | Inr resp \<Rightarrow>
  if hr_StatusCode resp = 404 then Inr None
  else if hr_StatusCode resp \<noteq> 200
  then Inl (''issuerclient: GET '' @ path @ '': unexpected status '' @ nat_str (hr_StatusCode resp))
  else case net_Decode N (hr_Body resp) of
     Inl e \<Rightarrow> Inl (''issuerclient: GET '' @ path @ '': decoding response: '' @ e)
   | Inr j \<Rightarrow> Inr (Some j))"

text \<open>\<open>FindByIssuerState\<close>: \<open>Inr None\<close> where no record matches, else the record's id.\<close>

definition FindByIssuerState :: "net \<Rightarrow> string \<Rightarrow> string \<Rightarrow> string + string option" where
  "FindByIssuerState N baseURL issuerState =
     (let path = ''/oid4vci/v1/issuance/by-issuer-state/'' @ PathEscape issuerState in
      case client_get N baseURL path of
        Inl e \<Rightarrow> Inl e
      | Inr None \<Rightarrow> Inr None
      | Inr (Some j) \<Rightarrow>
          (case decode_struct ''id'' j of
             Inl e \<Rightarrow> Inl (''issuerclient: GET '' @ path @ '': decoding response: '' @ e)
           | Inr recID \<Rightarrow> Inr (Some recID)))"

record create_request =
  cr_CredentialType :: string
  cr_CredentialData :: json_map
  cr_SourceType :: string
  cr_SourceRef :: string

definition create_body :: "create_request \<Rightarrow> json" where
  "create_body r = JObj [(''credential_type'', JStr (cr_CredentialType r)),
     (''credential_data'', JObj (cr_CredentialData r)), (''source_type'', JStr (cr_SourceType r)),
     (''source_ref'', JStr (cr_SourceRef r))]"

definition issuer_Create :: "lib \<Rightarrow> net \<Rightarrow> string \<Rightarrow> create_request \<Rightarrow> string + string" where
  "issuer_Create L N baseURL req = (case json_Marshal L (create_body req) of
     Inl e \<Rightarrow> Inl e
   | Inr body \<Rightarrow>
  case net_NewRequest N ''POST'' (baseURL @ ''/oid4vci/v1/issuance'') of
     Some e \<Rightarrow> Inl e
   | None \<Rightarrow>
  case net_Do N \<lparr>hq_Method = ''POST'', hq_URL = baseURL @ ''/oid4vci/v1/issuance'',
                  hq_Accept = [], hq_ContentType = ''application/json'', hq_Body = body\<rparr> of
     Inl e \<Rightarrow> Inl (''issuerclient: creating issuance record: '' @ e)
   | Inr resp \<Rightarrow>
  if hr_StatusCode resp \<noteq> 200
  then Inl (''issuerclient: creating issuance record: unexpected status '' @ nat_str (hr_StatusCode resp))
  else case net_Decode N (hr_Body resp) of
     Inl e \<Rightarrow> Inl (''issuerclient: decoding issuance response: '' @ e)
   | Inr j \<Rightarrow>
       (case decode_struct ''issuance_id'' j of
          Inl e \<Rightarrow> Inl (''issuerclient: decoding issuance response: '' @ e)
        | Inr issuanceID \<Rightarrow> Inr issuanceID))"

end
