(* ===== verification/Authz.thy ===== *)
theory Authz
  imports Session_Store Client_Attestation Token_Mint Issuer_Client
begin

text \<open>
  \<^verbatim>\<open>internal/authz/service.go\<close>: the authorization server's handlers. The state is the session store
  and the DPoP replay cache; each handler returns its result (or error) and the state it leaves, also
  on its error paths. Clock readings and random draws of one call are numbered in the order the code
  makes them.
\<close>

subsection \<open>Service and state\<close>

record authz_service =
  az_baseURL :: string
  az_issuer :: string \<comment> \<open>base URL of the Credential Issuer\<close>
  az_minter :: minter
  az_attestations :: client_attestation_validator

record authz_state =
  sessions :: store
  jtis :: jti_store

definition NewService :: "string \<Rightarrow> string \<Rightarrow> minter \<Rightarrow> certificate option \<Rightarrow> authz_service" where
  "NewService baseURL issuer m anchor =
     \<lparr>az_baseURL = baseURL, az_issuer = issuer, az_minter = m,
      az_attestations = NewClientAttestationValidator anchor baseURL\<rparr>"

definition init_state :: authz_state where
  "init_state = \<lparr>sessions = NewStore, jtis = NewJTIStore\<rparr>"

definition boundClientIDKey :: string where "boundClientIDKey = ''_bound_client_id''"
definition pendingRequestURIKey :: string where "pendingRequestURIKey = ''_pending_request_uri''"
definition requestURIPrefix :: string where
  "requestURIPrefix = ''urn:ietf:params:oauth:request_uri:''"

definition identifiedScope :: "params \<Rightarrow> go_error + string" where
  "identifiedScope ps = (let scope = idx ps ''scope'' in
     if scope = []
     then Inl (BadRequest InvalidRequest
       ''Missing scope: cannot determine which credential is being identified for'')
     else Inr scope)"

subsection \<open>Redirects\<close>

record authorize_result =
  ar_Code :: string
  ar_RedirectURI :: string
  ar_State :: string
  ar_IdentifyRedirect :: string

definition BuildAuthorizationRedirect ::
  "lib \<Rightarrow> authorize_result \<Rightarrow> string \<Rightarrow> string + string" where
  "BuildAuthorizationRedirect L result issuer = (case url_Parse L (ar_RedirectURI result) of
     Inl e \<Rightarrow> Inl e
   | Inr u \<Rightarrow>
       (let q = values_set ''code'' (ar_Code result) (ParseQuery (url_RawQuery u));
            q = (if ar_State result \<noteq> [] then values_set ''state'' (ar_State result) q else q);
            q = values_set ''iss'' issuer q
        in Inr (url_String L (u\<lparr>url_RawQuery := values_Encode q\<rparr>))))"

subsection \<open>Pushed authorization requests\<close>

text \<open>
  The DPoP part of \<^verbatim>\<open>HandlePar\<close>: a proof attached to the request fixes \<^verbatim>\<open>dpop_jkt\<close>.
\<close>

definition bindDPoPKey ::
  "lib \<Rightarrow> authz_service \<Rightarrow> time \<Rightarrow> (string list \<Rightarrow> string list) \<Rightarrow> string \<Rightarrow> params \<Rightarrow> jti_store \<Rightarrow>
   (go_error + params) \<times> jti_store" where
  "bindDPoPKey L svc now rng dpopHeader ps js =
     (if dpopHeader = [] then (Inr ps, js)
      else case ValidateDPoPProof L now rng dpopHeader ''POST'' (az_baseURL svc @ ''/oid4vci/v1/par'') [] js of
        (Inl e, js') \<Rightarrow> (Inl e, js')
      | (Inr dpopKey, js') \<Rightarrow>
          (case DPoPThumbprint L dpopKey of
             Inl e \<Rightarrow> (Inl (BadRequest InvalidRequest (''Failed to compute DPoP thumbprint: '' @ e)), js')
           | Inr thumbprint \<Rightarrow>
               let declared = idx ps ''dpop_jkt'' in
               if declared \<noteq> [] \<and> declared \<noteq> thumbprint
               then (Inl (BadRequest InvalidRequest ''dpop_jkt does not match the DPoP proof's key''), js')
               else (Inr (ps(''dpop_jkt'' \<mapsto> thumbprint)), js')))"

definition HandlePar ::
  "lib \<Rightarrow> authz_service \<Rightarrow> world \<Rightarrow> params \<Rightarrow> string \<Rightarrow> string \<Rightarrow> string \<Rightarrow> authz_state \<Rightarrow>
   (go_error + string \<times> int) \<times> authz_state" where
  "HandlePar L svc w ps wiaHeader popHeader dpopHeader st =
     (if idx ps ''request_uri'' \<noteq> []
      then (Inl (BadRequest InvalidRequest
              ''request_uri must not be provided in a pushed authorization request''), st)
      else case Resolve L (az_attestations svc) (clk w 0) wiaHeader popHeader
                  (idx ps ''client_assertion_type'') (idx ps ''client_assertion'') of
        Inl e \<Rightarrow> (Inl e, st)
      | Inr clientID \<Rightarrow>
     if clientID = [] then (Inl (BadRequest InvalidRequest ''Client attestation is required''), st)
     else let ps = ps(boundClientIDKey \<mapsto> clientID) in
     if (case ps ''response_type'' of None \<Rightarrow> False | Some rt \<Rightarrow> rt \<noteq> ''code'')
     then (Inl (BadRequest UnsupportedResponseType ''Only response_type=code is supported''), st)
     else if idx ps ''code_challenge'' = []
     then (Inl (BadRequest InvalidRequest ''code_challenge is required''), st)
     else if idx ps ''code_challenge_method'' \<noteq> ''S256''
     then (Inl (BadRequest InvalidRequest ''Only S256 code_challenge_method is supported''), st)
     else case bindDPoPKey L svc (clk w 1) (ord w) dpopHeader ps (jtis st) of
        (Inl e, js) \<Rightarrow> (Inl e, st\<lparr>jtis := js\<rparr>)
      | (Inr ps, js) \<Rightarrow>
          (let requestURI = requestURIPrefix @ RandomToken 16 (rnd w 0) in
           (Inr (requestURI, 60),
            \<lparr>sessions = StoreParRequest (clk w 2) requestURI ps (sessions st), jtis = js\<rparr>)))"

subsection \<open>Authorization\<close>

definition authCodeMetadata :: "string \<Rightarrow> params \<Rightarrow> (string \<rightharpoonup> json)" where
  "authCodeMetadata recordID ps =
     (let m = [''issuanceRecordId'' \<mapsto> JStr recordID, boundClientIDKey \<mapsto> JStr (idx ps boundClientIDKey)];
          m = (if idx ps ''code_challenge'' \<noteq> [] then m(''code_challenge'' \<mapsto> JStr (idx ps ''code_challenge'')) else m)
      in if idx ps ''dpop_jkt'' \<noteq> [] then m(''dpop_jkt'' \<mapsto> JStr (idx ps ''dpop_jkt'')) else m)"

text \<open>Minting the code and the answer of a completed authorization (the two success branches).\<close>

definition completeAuthorize ::
  "time \<Rightarrow> (nat \<Rightarrow> nat \<Rightarrow> string) \<Rightarrow> string \<Rightarrow> params \<Rightarrow> store \<Rightarrow> authorize_result \<times> store" where
  "completeAuthorize now draws recordID ps s =
     (let (code, s') = CreateAuthCode now (draws 1)
            \<lparr>sd_SessionID = RandomToken 16 (draws 0), sd_CreatedAt = 0,
             sd_Metadata = authCodeMetadata recordID ps\<rparr> s
      in (\<lparr>ar_Code = code, ar_RedirectURI = idx ps ''redirect_uri'', ar_State = idx ps ''state'',
           ar_IdentifyRedirect = []\<rparr>, s'))"

definition HandleAuthorize ::
  "net \<Rightarrow> authz_service \<Rightarrow> world \<Rightarrow> string \<Rightarrow> string \<Rightarrow> string \<Rightarrow> authz_state \<Rightarrow>
   (go_error + authorize_result) \<times> authz_state" where
  "HandleAuthorize N svc w requestURI queryClientID identifiedCookie st =
     (if requestURI = [] then (Inl (BadRequest InvalidRequest ''Missing request_uri''), st)
      else case PeekParRequest (clk w 0) requestURI (sessions st) of
        (None, s) \<Rightarrow> (Inl (BadRequest InvalidRequest ''Invalid or expired request_uri''), st\<lparr>sessions := s\<rparr>)
      | (Some ps, s) \<Rightarrow>
     if queryClientID \<noteq> [] \<and> idx ps ''client_id'' \<noteq> [] \<and> queryClientID \<noteq> idx ps ''client_id''
     then (Inl (BadRequest InvalidRequest ''request_uri is bound to a different client''), st\<lparr>sessions := s\<rparr>)
     else let issuerState = idx ps ''issuer_state'' in
     case (if issuerState \<noteq> [] then FindByIssuerState N (az_issuer svc) issuerState else Inr None) of
        Inl e \<Rightarrow> (Inl (ServiceUnavailable InvalidRequest (''Credential Issuer unreachable: '' @ e)),
                   st\<lparr>sessions := s\<rparr>)
      | Inr found \<Rightarrow>
     let recordID = (case found of None \<Rightarrow> [] | Some r \<Rightarrow> r) in
     if recordID \<noteq> [] then
       (case ConsumeParRequest (clk w 1) requestURI s of
          (None, s') \<Rightarrow> (Inl (BadRequest InvalidRequest ''Invalid or expired request_uri''), st\<lparr>sessions := s'\<rparr>)
        | (Some ps, s') \<Rightarrow>
            (let (r, s'') = completeAuthorize (clk w 2) (rnd w) recordID ps s' in
             (Inr r, st\<lparr>sessions := s''\<rparr>)))
     else case CheckIdentified (clk w 1) identifiedCookie requestURI s of
        Some (identifiedRecordID, ps) \<Rightarrow>
          (let (r, s') = completeAuthorize (clk w 2) (rnd w) identifiedRecordID ps s in
           (Inr r, st\<lparr>sessions := s'\<rparr>))
      | None \<Rightarrow>
          (let (token, s') = StorePendingAuth (rnd w 0) (ps(pendingRequestURIKey \<mapsto> requestURI)) s in
           (Inr \<lparr>ar_Code = [], ar_RedirectURI = [], ar_State = [],
                 ar_IdentifyRedirect = az_baseURL svc @ ''/identify/?session='' @ token\<rparr>,
            st\<lparr>sessions := s'\<rparr>)))"

subsection \<open>End-user identification\<close>

definition invalid_session :: go_error where
  "invalid_session = BadRequest InvalidRequest ''Invalid or expired identification session''"

definition ResolveIdentifyScope :: "string \<Rightarrow> authz_state \<Rightarrow> go_error + string" where
  "ResolveIdentifyScope sessionToken st = (case GetPendingAuth sessionToken (sessions st) of
     None \<Rightarrow> Inl invalid_session
   | Some ps \<Rightarrow> identifiedScope ps)"

text \<open>The result is the redirect and the cookie value, empty on a replay.\<close>

definition CompleteIdentification ::
  "lib \<Rightarrow> net \<Rightarrow> authz_service \<Rightarrow> world \<Rightarrow> string \<Rightarrow> json_map \<Rightarrow> string \<Rightarrow> string \<Rightarrow> authz_state \<Rightarrow>
   (go_error + string \<times> string) \<times> authz_state" where
  "CompleteIdentification L N svc w sessionToken credentialData sourceType sourceRef st =
     (case GetIdentifyReplay (clk w 0) sessionToken (sessions st) of
        Some cached \<Rightarrow> (Inr (cached, []), st)
      | None \<Rightarrow>
     case ConsumePendingAuth sessionToken (sessions st) of
        (None, s) \<Rightarrow> (Inl invalid_session, st\<lparr>sessions := s\<rparr>)
      | (Some ps, s) \<Rightarrow>
     let requestURI = idx ps pendingRequestURIKey in
     if requestURI = []
     then (Inl (BadRequest InvalidRequest ''Identification session is missing its request_uri''),
           st\<lparr>sessions := s\<rparr>)
     else case identifiedScope ps of
        Inl e \<Rightarrow> (Inl e, st\<lparr>sessions := s\<rparr>)
      | Inr scope \<Rightarrow>
     case issuer_Create L N (az_issuer svc)
            \<lparr>cr_CredentialType = scope, cr_CredentialData = credentialData,
             cr_SourceType = sourceType, cr_SourceRef = sourceRef\<rparr> of
        Inl e \<Rightarrow> (Inl (ServiceUnavailable InvalidRequest (''Credential Issuer unreachable: '' @ e)),
                   st\<lparr>sessions := s\<rparr>)
      | Inr recID \<Rightarrow>
          (let (cookieValue, s') = MarkIdentified (clk w 1) (rnd w 0) requestURI recID ps s;
               redirect = az_baseURL svc @ ''/oid4vci/v1/authorize?request_uri='' @ QueryEscape requestURI
           in (Inr (redirect, cookieValue),
               st\<lparr>sessions := StoreIdentifyReplay (clk w 2) sessionToken redirect s'\<rparr>)))"

definition RejectIdentification ::
  "lib \<Rightarrow> world \<Rightarrow> string \<Rightarrow> authz_state \<Rightarrow> (go_error + string) \<times> authz_state" where
  "RejectIdentification L w sessionToken st =
     (case GetIdentifyReplay (clk w 0) sessionToken (sessions st) of
        Some cached \<Rightarrow> (Inr cached, st)
      | None \<Rightarrow>
     case ConsumePendingAuth sessionToken (sessions st) of
        (None, s) \<Rightarrow> (Inl invalid_session, st\<lparr>sessions := s\<rparr>)
      | (Some ps, s) \<Rightarrow>
     case url_Parse L (idx ps ''redirect_uri'') of
        Inl e \<Rightarrow> (Inl (BadRequest InvalidRequest (''Invalid redirect_uri: '' @ e)), st\<lparr>sessions := s\<rparr>)
      | Inr u \<Rightarrow>
          (let q = values_set ''error'' ''access_denied'' (ParseQuery (url_RawQuery u));
               q = values_set ''error_description'' ''The end-user denied the authorization request'' q;
               q = (if idx ps ''state'' \<noteq> [] then values_set ''state'' (idx ps ''state'') q else q);
               redirect = url_String L (u\<lparr>url_RawQuery := values_Encode q\<rparr>)
           in (Inr redirect, st\<lparr>sessions := StoreIdentifyReplay (clk w 1) sessionToken redirect s\<rparr>)))"

subsection \<open>Token endpoint\<close>

text \<open>
  The second half of \<^verbatim>\<open>HandleAuthCodeToken\<close>, once the code has been consumed: its bindings are checked
  against the request and the token is minted.
\<close>

definition grantToken ::
  "lib \<Rightarrow> authz_service \<Rightarrow> world \<Rightarrow> token_request \<Rightarrow> string \<Rightarrow> jwk \<Rightarrow> session_data \<Rightarrow> authz_state \<Rightarrow>
   (go_error + token_response) \<times> authz_state" where
  "grantToken L svc w req clientID dpopKey sess st =
     (let boundClientID = str_or_empty (sd_Metadata sess boundClientIDKey);
          boundJKT = str_or_empty (sd_Metadata sess ''dpop_jkt'');
          storedChallenge = str_or_empty (sd_Metadata sess ''code_challenge'') in
     if boundClientID \<noteq> [] \<and> boundClientID \<noteq> clientID
     then (Inl (BadRequest InvalidGrant ''Authorization code was not issued to this client''), st)
     else if boundJKT \<noteq> [] \<and> DPoPThumbprint L dpopKey \<noteq> Inr boundJKT
     then (Inl (BadRequest InvalidGrant
             ''DPoP proof key does not match the one bound at the PAR endpoint''), st)
     else if tr_CodeVerifier req = []
     then (Inl (BadRequest InvalidGrant ''Missing code_verifier''), st)
     else if storedChallenge = [] \<or> \<not> VerifyPKCES256 (tr_CodeVerifier req) storedChallenge
     then (Inl (BadRequest InvalidGrant ''PKCE verification failed''), st)
     else case Mint L (az_minter svc) (clk w 4) (rnd w 1)
            \<lparr>atc_IssuanceRecordID = str_or_empty (sd_Metadata sess ''issuanceRecordId''),
             atc_CNonce = GenerateNonce (rnd w 0), atc_ClientID = clientID, atc_DPoPKey = dpopKey\<rparr> of
        Inl e \<Rightarrow> (Inl (BadRequest InvalidRequest (''Failed to mint access token: '' @ e)), st)
      | Inr (accessToken, jti) \<Rightarrow>
          (Inr (DPoPToken accessToken),
           st\<lparr>sessions := RecordIssuedJTI (tr_Code req) jti (sessions st)\<rparr>))"

definition HandleAuthCodeToken ::
  "lib \<Rightarrow> authz_service \<Rightarrow> world \<Rightarrow> token_request \<Rightarrow> string \<Rightarrow> string \<Rightarrow> string \<Rightarrow> authz_state \<Rightarrow>
   (go_error + token_response) \<times> authz_state" where
  "HandleAuthCodeToken L svc w req dpopHeader wiaHeader popHeader st =
     (case Resolve L (az_attestations svc) (clk w 0) wiaHeader popHeader
             (tr_ClientAssertionType req) (tr_ClientAssertion req) of
        Inl e \<Rightarrow> (Inl e, st)
      | Inr clientID \<Rightarrow>
     if clientID = [] then (Inl (BadRequest InvalidRequest ''Client attestation is required''), st)
     else if tr_ClientID req \<noteq> [] \<and> tr_ClientID req \<noteq> clientID
     then (Inl (Unauthorized InvalidClient ''client_id does not match the attested client''), st)
     else case ValidateDPoPProof L (clk w 1) (ord w) dpopHeader ''POST''
                 (az_baseURL svc @ ''/oid4vci/v1/token'') [] (jtis st) of
        (Inl e, js) \<Rightarrow> (Inl e, st\<lparr>jtis := js\<rparr>)
      | (Inr dpopKey, js) \<Rightarrow>
     let st = st\<lparr>jtis := js\<rparr> in
     if tr_Code req = [] then (Inl (BadRequest InvalidGrant ''Missing authorization code''), st)
     else case ConsumeAuthCode (clk w 2) (tr_Code req) (sessions st) of
        ((None, reused), s) \<Rightarrow>
          (Inl (BadRequest InvalidGrant ''Invalid authorization code''),
           st\<lparr>sessions := (if reused then RevokeTokensForCode (clk w 3) (tr_Code req) s else s)\<rparr>)
      | ((Some sess, _), s) \<Rightarrow> grantToken L svc w req clientID dpopKey sess (st\<lparr>sessions := s\<rparr>))"

definition authz_RevokedJTIs :: "time \<Rightarrow> authz_state \<Rightarrow> string list \<times> authz_state" where
  "authz_RevokedJTIs now st =
     (let (live, s) = RevokedJTIs now (sessions st) in (live, st\<lparr>sessions := s\<rparr>))"

end
