(* ===== verification/Status_List.thy ===== *)
theory Status_List
  imports Example_Lib "HOL-Library.Signed_Division" "HOL-Library.AList"
begin

text \<open>
  \<^verbatim>\<open>internal/statuslistcheck/statuslistcheck.go\<close>: fetching a Token Status List and reading one entry.
  Indexes are Go \<^verbatim>\<open>int64\<close>s with wrap-around and truncating division, an entry is read from an 8-bit
  word. Shown: for the entry widths of the format the bits returned are exactly those of the entry in
  the bit string; what an accepted credential's entry is; and that negative indexes and fractional
  widths read as valid.
\<close>

subsection \<open>Go integers, durations and trimming\<close>

text \<open>An \<^verbatim>\<open>int64\<close> result is reduced to 64 bits, two's complement.\<close>

definition wrap64 :: "int \<Rightarrow> int" where
  "wrap64 n = signed_take_bit 63 n"

definition in_int64 :: "int \<Rightarrow> bool" where
  "in_int64 n \<longleftrightarrow> - (2 ^ 63) \<le> n \<and> n < 2 ^ 63"

lemma wrap64_id: "in_int64 n \<Longrightarrow> wrap64 n = n"
  by (simp add: in_int64_def wrap64_def signed_take_bit_int_eq_self)

text \<open>
  Conversion of a \<^verbatim>\<open>float64\<close> to \<^verbatim>\<open>int64\<close>: truncation; out of range, where the language leaves the
  value to the implementation, the least integer (as on amd64).
\<close>

definition trunc_rat :: "rat \<Rightarrow> int" where
  "trunc_rat r = (if 0 \<le> r then \<lfloor>r\<rfloor> else \<lceil>r\<rceil>)"

definition float_to_int64 :: "rat \<Rightarrow> int" where
  "float_to_int64 r = (if in_int64 (trunc_rat r) then trunc_rat r else - (2 ^ 63))"

text \<open>\<^verbatim>\<open>uint(n)\<close> of a 64-bit integer.\<close>

definition to_uint :: "int \<Rightarrow> nat" where
  "to_uint n = nat (n mod 2 ^ 64)"

definition int_str :: "int \<Rightarrow> string" where
  "int_str n = (if n < 0 then CHR ''-'' # nat_str (nat (- n)) else nat_str (nat n))"

text \<open>\<^verbatim>\<open>strings.TrimSpace\<close>: the UTF-8 encodings of the Unicode white space characters are removed at both ends.\<close>

definition space_seqs :: "string list" where
  "space_seqs = [
    [CHR 0x09], [CHR 0x0A], [CHR 0x0B], [CHR 0x0C], [CHR 0x0D], [CHR 0x20], [CHR 0xC2, CHR 0x85],
    [CHR 0xC2, CHR 0xA0], [CHR 0xE1, CHR 0x9A, CHR 0x80], [CHR 0xE2, CHR 0x80, CHR 0x80],
    [CHR 0xE2, CHR 0x80, CHR 0x81], [CHR 0xE2, CHR 0x80, CHR 0x82], [CHR 0xE2, CHR 0x80, CHR 0x83],
    [CHR 0xE2, CHR 0x80, CHR 0x84], [CHR 0xE2, CHR 0x80, CHR 0x85], [CHR 0xE2, CHR 0x80, CHR 0x86],
    [CHR 0xE2, CHR 0x80, CHR 0x87], [CHR 0xE2, CHR 0x80, CHR 0x88], [CHR 0xE2, CHR 0x80, CHR 0x89],
    [CHR 0xE2, CHR 0x80, CHR 0x8A], [CHR 0xE2, CHR 0x80, CHR 0xA8], [CHR 0xE2, CHR 0x80, CHR 0xA9],
    [CHR 0xE2, CHR 0x80, CHR 0xAF], [CHR 0xE2, CHR 0x81, CHR 0x9F], [CHR 0xE3, CHR 0x80, CHR 0x80]]"

fun strip_prefixes :: "nat \<Rightarrow> string list \<Rightarrow> string \<Rightarrow> string" where
  "strip_prefixes 0 seqs s = s"
| "strip_prefixes (Suc n) seqs s =
     (case find (\<lambda>p. take (length p) s = p) seqs of
        None \<Rightarrow> s | Some p \<Rightarrow> strip_prefixes n seqs (drop (length p) s))"

definition TrimSpace :: "string \<Rightarrow> string" where
  "TrimSpace s = (let t = strip_prefixes (length s) space_seqs s
     in rev (strip_prefixes (length t) (map rev space_seqs) (rev t)))"

text \<open>A text that begins and ends with an ASCII letter or digit is left alone.\<close>

definition alnum :: "char \<Rightarrow> bool" where
  "alnum c \<longleftrightarrow> (let n = byte_val c in 48 \<le> n \<and> n \<le> 57 \<or> 65 \<le> n \<and> n \<le> 90 \<or> 97 \<le> n \<and> n \<le> 122)"

lemma strip_none: "find (\<lambda>p. take (length p) s = p) seqs = None \<Longrightarrow> strip_prefixes n seqs s = s"
  by (cases n) simp_all

lemma space_ends: "p \<in> set space_seqs \<Longrightarrow> p \<noteq> [] \<and> \<not> alnum (hd p) \<and> \<not> alnum (last p)"
proof -
  have "list_all (\<lambda>p. p \<noteq> [] \<and> \<not> alnum (hd p) \<and> \<not> alnum (last p)) space_seqs"
    by (simp add: space_seqs_def alnum_def)
  then show "p \<in> set space_seqs \<Longrightarrow> ?thesis" by (simp add: list_all_iff)
qed

lemma find_space_none:
  assumes "alnum c"
  shows "find (\<lambda>p. take (length p) (c # cs) = p) space_seqs = None"
    "find (\<lambda>p. take (length p) (c # cs) = p) (map rev space_seqs) = None"
proof -
  have "hd p = c" if "take (length p) (c # cs) = p" "p \<noteq> []" for p
    using that by (cases p) auto
  then show "find (\<lambda>p. take (length p) (c # cs) = p) space_seqs = None"
    "find (\<lambda>p. take (length p) (c # cs) = p) (map rev space_seqs) = None"
    unfolding find_None_iff set_map using space_ends assms
    by (blast, metis (no_types, lifting) hd_rev imageE rev_is_Nil_conv)
qed

lemma TrimSpace_plain:
  assumes "alnum (hd s)" and "alnum (last s)" and "s \<noteq> []"
  shows "TrimSpace s = s"
proof -
  have "strip_prefixes (length s) space_seqs s = s"
    using assms(1,3) find_space_none(1) [of "hd s" "tl s"] by (intro strip_none) simp
  moreover have "strip_prefixes (length s) (map rev space_seqs) (rev s) = rev s"
    using assms(2,3) find_space_none(2) [of "last s" "tl (rev s)"] by (intro strip_none) (simp add: hd_rev [symmetric])
  ultimately show ?thesis by (simp add: TrimSpace_def)
qed

subsection \<open>Status lists\<close>

definition StatusValid :: "8 word" where "StatusValid = 0"
definition StatusInvalid :: "8 word" where "StatusInvalid = 1"
definition StatusSuspended :: "8 word" where "StatusSuspended = 2"
definition bitsPerEntry :: int where "bitsPerEntry = 2"

definition decompressLST :: "lib \<Rightarrow> string \<Rightarrow> string + string" where
  "decompressLST L lst = (case RawURL_Decode (TrimSpace lst) of
     None \<Rightarrow> Inl (''statuslistcheck: lst is not valid base64url: '' @ base64_Error L (TrimSpace lst))
   | Some compressed \<Rightarrow>
  case zlib_NewReader L compressed of
     Inl e \<Rightarrow> Inl (''statuslistcheck: lst is not a valid zlib stream: '' @ e)
   | Inr r \<Rightarrow>
  case zlib_ReadAll L r of
     Inl e \<Rightarrow> Inl (''statuslistcheck: inflating lst: '' @ e)
   | Inr raw \<Rightarrow> Inr raw)"

text \<open>
  The entry width a token announces: any positive number is taken, truncated; otherwise
  \<open>bitsPerEntry\<close>.
\<close>

definition entry_bits :: "json_map \<Rightarrow> int" where
  "entry_bits claim = (case as_num (map_of claim ''bits'') of
     Some b \<Rightarrow> if b > 0 then float_to_int64 b else bitsPerEntry
   | None \<Rightarrow> bitsPerEntry)"

text \<open>
  Reading the entry: \<open>None\<close> is the run-time panic of a shift by a negative count. The mask is
  computed in \<^verbatim>\<open>uint8\<close>, the type the constant takes in the conversion.
\<close>

definition entry_mask :: "nat \<Rightarrow> 8 word" where
  "entry_mask bits = push_bit bits 1 - 1"

definition read_entry :: "string \<Rightarrow> int \<Rightarrow> int \<Rightarrow> (string + 8 word) option" where
  "read_entry raw i bits =
     (let prod = wrap64 (i * bits);
          byteIndex = prod sdiv 8;
          bitOffset = to_uint (prod smod 8) in
      if byteIndex < 0 \<or> byteIndex \<ge> int (length raw)
      then Some (Inl (''statuslistcheck: idx '' @ int_str i @ '' out of range for a '' @
                      nat_str (length raw) @ ''-byte bitstring''))
      else if bits < 0 then None
      else Some (Inr (and (drop_bit bitOffset (of_nat (of_char (raw ! nat byteIndex)))) (entry_mask (nat bits)))))"

definition statusAt :: "lib \<Rightarrow> string \<Rightarrow> int \<Rightarrow> (string + 8 word) option" where
  "statusAt L token i = (case jwt_ParseInsecure L token of
     Inl e \<Rightarrow> Some (Inl (''statuslistcheck: parsing status list token: '' @ e))
   | Inr tok \<Rightarrow>
  case as_obj (map_of (jt_Claims tok) ''status_list'') of
     None \<Rightarrow> Some (Inl (''statuslistcheck: status list token has no status_list claim: '' @
               jwt_GetError L tok ''status_list''))
   | Some claim \<Rightarrow>
  let lst = str_or_empty (map_of claim ''lst'') in
  if lst = [] then Some (Inl ''statuslistcheck: status_list claim has no lst field'')
  else case decompressLST L lst of
     Inl e \<Rightarrow> Some (Inl e)
   | Inr raw \<Rightarrow> read_entry raw i (entry_bits claim))"

definition Fetch :: "lib \<Rightarrow> net \<Rightarrow> string \<Rightarrow> int \<Rightarrow> (string + 8 word) option" where
  "Fetch L N uri i = (case net_NewRequest N ''GET'' uri of
     Some e \<Rightarrow> Some (Inl (''statuslistcheck: building request for '' @ uri @ '': '' @ e))
   | None \<Rightarrow>
  case net_Do N \<lparr>hq_Method = ''GET'', hq_URL = uri, hq_Accept = ''application/statuslist+jwt'',
                 hq_ContentType = [], hq_Body = []\<rparr> of
     Inl e \<Rightarrow> Some (Inl (''statuslistcheck: fetching '' @ uri @ '': '' @ e))
   | Inr resp \<Rightarrow>
  if hr_StatusCode resp \<noteq> 200
  then Some (Inl (''statuslistcheck: fetching '' @ uri @ '': unexpected status '' @ nat_str (hr_StatusCode resp)))
  else case hr_Body resp of
     Inl e \<Rightarrow> Some (Inl (''statuslistcheck: reading '' @ uri @ '': '' @ e))
   | Inr body \<Rightarrow> statusAt L body i)"

record status_list_ref =
  slr_Idx :: int
  slr_URI :: string

text \<open>A nil \<^verbatim>\<open>status\<close> map reads as empty.\<close>

definition ParseRef :: "json_map option \<Rightarrow> status_list_ref option" where
  "ParseRef status = (case as_obj (map_of (case status of None \<Rightarrow> [] | Some m \<Rightarrow> m) ''status_list'') of
     None \<Rightarrow> None
   | Some inner \<Rightarrow>
  case as_num (map_of inner ''idx'') of
     None \<Rightarrow> None
   | Some idxFloat \<Rightarrow>
  let uri = str_or_empty (map_of inner ''uri'') in
  if uri = [] then None else Some \<lparr>slr_Idx = float_to_int64 idxFloat, slr_URI = uri\<rparr>)"

definition statusName :: "8 word \<Rightarrow> string" where
  "statusName s = (if s = StatusValid then ''VALID'' else if s = StatusInvalid then ''INVALID''
     else if s = StatusSuspended then ''SUSPENDED'' else ''UNKNOWN('' @ nat_str (unat s) @ '')'')"

text \<open>\<open>CheckValid\<close>: \<open>Some None\<close> is the nil error, the outer \<open>None\<close> again the panic.\<close>

definition CheckValid :: "lib \<Rightarrow> net \<Rightarrow> status_list_ref \<Rightarrow> string option option" where
  "CheckValid L N ref = (case Fetch L N (slr_URI ref) (slr_Idx ref) of
     None \<Rightarrow> None
   | Some (Inl e) \<Rightarrow> Some (Some (''statuslistcheck: checking status list entry '' @ int_str (slr_Idx ref) @
       '' at '' @ slr_URI ref @ '': '' @ e))
   | Some (Inr status) \<Rightarrow>
       if status \<noteq> StatusValid
       then Some (Some (''statuslistcheck: credential status is '' @ statusName status @ '', not VALID''))
       else Some None)"

subsection \<open>The entry read\<close>

text \<open>
  Reference reading of the format: the list is a string of bits, least significant bit of each byte
  first; entry \<open>i\<close> is the number written by the bits \<open>i * n, \<dots>, i * n + n - 1\<close>, lowest first.
\<close>

definition list_bit :: "string \<Rightarrow> nat \<Rightarrow> bool" where
  "list_bit raw n = bit (of_char (raw ! (n div 8)) :: nat) (n mod 8)"

definition entry_spec :: "string \<Rightarrow> nat \<Rightarrow> nat \<Rightarrow> 8 word" where
  "entry_spec raw n i = horner_sum of_bool 2 (map (\<lambda>k. list_bit raw (i * n + k)) [0..<n])"

lemma mod_dvd_add:
  fixes m n k d :: nat
  assumes "n dvd d" "k < n" "0 < d"
  shows "m * n mod d + k < d" "(m * n + k) div d = m * n div d" "(m * n + k) mod d = m * n mod d + k"
proof -
  from assms(1) obtain c where d: "d = n * c" by blast
  with assms have c: "0 < c" "0 < n" by auto
  have r: "m * n mod d = n * (m mod c)" by (simp add: d mult.commute)
  have "n * (m mod c) + k < n * Suc (m mod c)" using assms(2) by simp
  also have "\<dots> \<le> d" unfolding d using mod_less_divisor [OF c(1), of m] by (intro mult_le_mono2) simp
  finally show lt: "m * n mod d + k < d" by (simp add: r)
  have "m * n + k = d * (m * n div d) + (m * n mod d + k)" by simp
  then show "(m * n + k) div d = m * n div d" "(m * n + k) mod d = m * n mod d + k"
    using lt by (metis div_mult_self4 less_nat_zero_code add.commute add_0 div_less assms(3) nat_neq_iff)
      (metis lt mod_mult_self4 mod_less \<open>m * n + k = d * (m * n div d) + (m * n mod d + k)\<close>)
qed

lemma entry_mask_bit: "n \<le> 8 \<Longrightarrow> bit (entry_mask n) k \<longleftrightarrow> k < n \<and> k < 8"
  by (auto simp: entry_mask_def push_bit_of_1 bit_mask_iff simp flip: mask_eq_exp_minus_1)

lemma read_entry_spec:
  assumes "bits \<in> {1, 2, 4, 8}" and "int (i * bits) < 2 ^ 63" and "i * bits div 8 < length raw"
  shows "read_entry raw (int i) (int bits) = Some (Inr (entry_spec raw bits i))"
proof -
  have dvd: "bits dvd 8" and b: "bits \<le> 8" using assms(1) by auto
  have "- (2 ^ 63) \<le> int (i * bits)" by (rule order_trans [of _ 0]) simp_all
  then have prod: "wrap64 (int i * int bits) = int (i * bits)"
    using assms(2) wrap64_id [of "int (i * bits)"] by (simp add: in_int64_def)
  have div: "int (i * bits) sdiv 8 = int (i * bits div 8)" "int (i * bits) smod 8 = int (i * bits mod 8)"
    by (simp_all add: signed_divide_int_def signed_modulo_int_def zdiv_int zmod_int sgn_if minus_mult_div_eq_mod)
  have off: "to_uint (int (i * bits mod 8)) = i * bits mod 8"
  proof -
    have "i * bits mod 8 < 8" by simp
    then have "int (i * bits mod 8) mod 2 ^ 64 = int (i * bits mod 8)"
      by (intro mod_pos_pos_trivial) (simp, rule order.strict_trans [of _ 8], linarith, simp)
    then show ?thesis unfolding to_uint_def by simp
  qed
  have "and (drop_bit (i * bits mod 8) (of_nat (of_char (raw ! (i * bits div 8))))) (entry_mask bits) = entry_spec raw bits i"
  proof (rule bit_word_eqI)
    fix k assume k: "k < LENGTH(8)"
    show "bit (and (drop_bit (i * bits mod 8) (of_nat (of_char (raw ! (i * bits div 8))))) (entry_mask bits)) k =
        bit (entry_spec raw bits i) k"
    proof (cases "k < bits")
      case True
      note m = mod_dvd_add [OF dvd True, of i]
      show ?thesis using True k m b
        by (simp add: bit_simps entry_mask_bit entry_spec_def bit_horner_sum_bit_iff list_bit_def add.commute)
    next
      case False
      then show ?thesis using b by (simp add: bit_simps entry_mask_bit entry_spec_def bit_horner_sum_bit_iff)
    qed
  qed
  then show ?thesis unfolding read_entry_def Let_def prod div off using assms(3) by simp
qed

text \<open>
  \<open>status_list_of L body claim raw\<close>: the body is a token with this \<^verbatim>\<open>status_list\<close> claim, whose list
  inflates to \<open>raw\<close>.
\<close>

definition status_list_of :: "lib \<Rightarrow> string \<Rightarrow> json_map \<Rightarrow> string \<Rightarrow> bool" where
  "status_list_of L body claim raw \<longleftrightarrow> (\<exists>tok lst. jwt_ParseInsecure L body = Inr tok \<and>
     map_of (jt_Claims tok) ''status_list'' = Some (JObj claim) \<and> map_of claim ''lst'' = Some (JStr lst) \<and>
     lst \<noteq> [] \<and> decompressLST L lst = Inr raw)"

lemma as_obj_Some: "as_obj x = Some m \<longleftrightarrow> x = Some (JObj m)"
  by (cases x rule: as_obj.cases) auto

lemma str_or_empty_nonempty: "str_or_empty x \<noteq> [] \<Longrightarrow> \<exists>s. x = Some (JStr s) \<and> s \<noteq> []"
  by (cases x rule: str_or_empty.cases) auto

lemma statusAt_read: "status_list_of L body claim raw \<Longrightarrow> statusAt L body i = read_entry raw i (entry_bits claim)"
  by (auto simp: status_list_of_def statusAt_def Let_def)

lemma statusAt_Inr:
  assumes "statusAt L body i = Some (Inr w)"
  obtains claim raw where "status_list_of L body claim raw" "read_entry raw i (entry_bits claim) = Some (Inr w)"
  using assms unfolding statusAt_def Let_def status_list_of_def
  by (auto simp: as_obj_Some split: sum.splits option.splits if_splits dest!: str_or_empty_nonempty)

text \<open>
  C23: reading a status list agrees with the reference reading of the format: for a token of one of the
  entry widths of the format (1, 2, 4 or 8 bits, 2 when it announces none) and an index within its
  list, \<open>statusAt\<close> returns the entry's bits and nothing of its neighbours. (The width is the one the token announces in
  its \<^verbatim>\<open>bits\<close> claim, although the comment on \<^verbatim>\<open>bitsPerEntry\<close> says that it is not read off the token.)
\<close>

theorem status_entry_read:
  assumes "status_list_of L body claim raw" and "entry_bits claim = int n" and "n \<in> {1, 2, 4, 8}"
    and "int (i * n) < 2 ^ 63" and "i * n div 8 < length raw"
  shows "statusAt L body (int i) = Some (Inr (entry_spec raw n i))"
  using statusAt_read [OF assms(1), of "int i"] read_entry_spec [OF assms(3-5)] assms(2) by simp

definition ex_list_lib :: lib where
  "ex_list_lib = ex_lib\<lparr>jwt_ParseInsecure := (\<lambda>s. Inr \<lparr>jt_Subject = None, jt_Audience = None,
     jt_IssuedAt = None, jt_Expiration = None,
     jt_Claims = [(''status_list'', JObj [(''bits'', JNum 2), (''lst'', JStr ''YWJj'')])]\<rparr>)\<rparr>"

lemma ex_list:
  "status_list_of ex_list_lib ''token'' [(''bits'', JNum 2), (''lst'', JStr ''YWJj'')] ''abc''"
proof -
  have "TrimSpace ''YWJj'' = ''YWJj''" by (rule TrimSpace_plain) (simp_all add: alnum_def)
  moreover have "RawURL_Decode ''YWJj'' = Some ''abc''" by code_simp
  ultimately show ?thesis
    by (simp add: status_list_of_def ex_list_lib_def decompressLST_def ex_lib_def)
qed

lemma ex_list_bits: "entry_bits [(''bits'', JNum 2), (''lst'', JStr ''YWJj'')] = int 2"
  by (simp add: entry_bits_def float_to_int64_def trunc_rat_def in_int64_def)

theorem status_entry_read_witness:
  "statusAt ex_list_lib ''token'' 4 = Some (Inr (entry_spec ''abc'' 2 4)) \<and> entry_spec ''abc'' 2 4 = 2"
proof -
  have "entry_spec ''abc'' 2 4 = 2" by code_simp
  then show ?thesis using status_entry_read [OF ex_list ex_list_bits, of 4] by simp
qed

lemma drop_bit_big: "8 \<le> n \<Longrightarrow> drop_bit n (w :: 8 word) = 0"
  by (rule bit_word_eqI) (auto simp: bit_simps dest: bit_imp_le_length)

lemma read_entry_negative:
  assumes "raw \<noteq> []" and "- 8 < i * bits" and "i * bits < 0" and "0 < bits"
  shows "read_entry raw i bits = Some (Inr 0)"
proof -
  have "wrap64 (i * bits) = i * bits" using assms(2,3) by (intro wrap64_id) (simp add: in_int64_def)
  moreover have "i * bits sdiv 8 = 0" "i * bits smod 8 = i * bits"
    using assms(2,3) by (simp_all add: signed_divide_int_def signed_modulo_int_def sgn_if)
  moreover have "to_uint (i * bits) \<ge> 8"
  proof -
    have "i * bits mod 2 ^ 64 = (i * bits + 2 ^ 64) mod 2 ^ 64" by simp
    also have "\<dots> = i * bits + 2 ^ 64" using assms(2,3) by (intro mod_pos_pos_trivial) simp_all
    finally show ?thesis using assms(2) by (simp add: to_uint_def)
  qed
  ultimately show ?thesis using assms(1,4) by (simp add: read_entry_def Let_def drop_bit_big)
qed

text \<open>
  An index just below zero reads as valid: the wrapped bit offset is so large that the shift
  leaves nothing, so for every list that is not empty the entries \<open>-3\<close>, \<open>-2\<close> and \<open>-1\<close> (of two bits)
  are answered with status 0, while the check on the byte index lets them pass.
\<close>

lemma negative_index_reads_valid:
  assumes "status_list_of L body claim raw" and "entry_bits claim = 2" and "raw \<noteq> []"
    and "i \<in> {- 3, - 2, - 1}"
  shows "statusAt L body i = Some (Inr StatusValid)"
  using statusAt_read [OF assms(1), of i] read_entry_negative [OF assms(3), of i 2] assms(2,4)
  by (auto simp: StatusValid_def)

lemma negative_index_reads_valid_witness: "statusAt ex_list_lib ''token'' (- 1) = Some (Inr StatusValid)"
  using negative_index_reads_valid [OF ex_list] ex_list_bits by simp

text \<open>
  A credential passes the status check only if its status list was fetched, with the media type
  asked for, and the entry it names reads 0; in a list of one of the format's entry widths and for an
  index the list holds, that entry is 0 in the reference reading too. Every other status is refused.
\<close>

lemma accepted_status_is_zero:
  assumes "CheckValid L N ref = Some None"
  shows "\<exists>resp body claim raw.
    net_Do N \<lparr>hq_Method = ''GET'', hq_URL = slr_URI ref, hq_Accept = ''application/statuslist+jwt'',
      hq_ContentType = [], hq_Body = []\<rparr> = Inr resp \<and>
    hr_StatusCode resp = 200 \<and> hr_Body resp = Inr body \<and> status_list_of L body claim raw \<and>
    read_entry raw (slr_Idx ref) (entry_bits claim) = Some (Inr StatusValid) \<and>
    (\<forall>n i. entry_bits claim = int n \<longrightarrow> n \<in> {1, 2, 4, 8} \<longrightarrow> slr_Idx ref = int i \<longrightarrow>
       int (i * n) < 2 ^ 63 \<longrightarrow> i * n div 8 < length raw \<longrightarrow> entry_spec raw n i = 0)"
proof -
  have fetch: "Fetch L N (slr_URI ref) (slr_Idx ref) = Some (Inr StatusValid)"
    using assms by (auto simp: CheckValid_def split: option.splits sum.splits if_splits)
  then obtain resp body where r: "net_Do N \<lparr>hq_Method = ''GET'', hq_URL = slr_URI ref,
      hq_Accept = ''application/statuslist+jwt'', hq_ContentType = [], hq_Body = []\<rparr> = Inr resp"
    "hr_StatusCode resp = 200" "hr_Body resp = Inr body"
    "statusAt L body (slr_Idx ref) = Some (Inr StatusValid)"
    unfolding Fetch_def by (auto split: option.splits sum.splits if_splits)
  from r(4) obtain claim raw where c: "status_list_of L body claim raw"
    "read_entry raw (slr_Idx ref) (entry_bits claim) = Some (Inr StatusValid)" by (rule statusAt_Inr)
  have "entry_spec raw n i = 0" if "entry_bits claim = int n" "n \<in> {1, 2, 4, 8}" "slr_Idx ref = int i"
    "int (i * n) < 2 ^ 63" "i * n div 8 < length raw" for n i
    using read_entry_spec [OF that(2,4,5)] that(1,3) c(2) by (simp add: StatusValid_def)
  then show ?thesis using r(1-3) c by blast
qed

definition ex_list_net :: net where
  "ex_list_net = \<lparr>net_NewRequest = (\<lambda>_ _. None),
     net_Do = (\<lambda>r. Inr \<lparr>hr_StatusCode = 200, hr_Body = Inr ''token''\<rparr>), net_Decode = (\<lambda>_. Inr JNull)\<rparr>"

lemma accepted_status_is_zero_witness:
  "CheckValid ex_list_lib ex_list_net \<lparr>slr_Idx = 1, slr_URI = ''u''\<rparr> = Some None \<and> entry_spec ''abc'' 2 1 = 0"
proof -
  let ?claim = "[(''bits'', JNum 2), (''lst'', JStr ''YWJj'')]"
  have z: "entry_spec ''abc'' 2 1 = 0" by code_simp
  then have "statusAt ex_list_lib ''token'' 1 = Some (Inr 0)"
    using statusAt_read [OF ex_list, of 1] read_entry_spec [of 2 1 "''abc''"] ex_list_bits by simp
  then have "CheckValid ex_list_lib ex_list_net \<lparr>slr_Idx = 1, slr_URI = ''u''\<rparr> = Some None"
    by (simp add: CheckValid_def Fetch_def ex_list_net_def StatusValid_def)
  with accepted_status_is_zero [OF this] z show ?thesis by blast
qed

end
