(* ===== verification/Sdjwt_Verify.thy ===== *)
theory Sdjwt_Verify
  imports Status_List
begin

text \<open>
  \<^verbatim>\<open>internal/sdjwtverify/verify.go\<close>: verification of an SD-JWT VC presentation. A failure is the text
  of its \<^verbatim>\<open>*Error\<close>. Shown: an accepted presentation was signed by the key of the certificate it
  carries, every claim returned is one the issuer committed to, the key-binding JWT is signed by the
  holder key the issuer bound and names this verifier, this request and these disclosures; a
  key-binding JWT accepted for two presentations means they have the same digest.
\<close>

definition kbIATSkew :: duration where
  [const_defs]: "kbIATSkew = 5 * minute"

subsection \<open>Decoding into Go values\<close>

fun json_kind :: "json \<Rightarrow> string" where
  "json_kind JNull = ''null''"
| "json_kind (JBool b) = ''bool''"
| "json_kind (JNum r) = ''number''"
| "json_kind (JStr s) = ''string''"
| "json_kind (JArr xs) = ''array''"
| "json_kind (JObj m) = ''object''"
| "json_kind _ = ''value''"

text \<open>\<^verbatim>\<open>json.Unmarshal\<close> into a \<^verbatim>\<open>[]any\<close> or a \<^verbatim>\<open>map[string]any\<close>: null leaves it nil.\<close>

definition unmarshal_arr :: "lib \<Rightarrow> string \<Rightarrow> string + json list" where
  "unmarshal_arr L raw = (case json_Unmarshal L raw of
     Inl e \<Rightarrow> Inl e
   | Inr JNull \<Rightarrow> Inr []
   | Inr (JArr xs) \<Rightarrow> Inr xs
   | Inr j \<Rightarrow> Inl (''json: cannot unmarshal '' @ json_kind j @ '' into Go value of type []interface {}''))"

definition unmarshal_map :: "lib \<Rightarrow> string \<Rightarrow> string + json_map" where
  "unmarshal_map L raw = (case json_Unmarshal L raw of
     Inl e \<Rightarrow> Inl e
   | Inr JNull \<Rightarrow> Inr []
   | Inr (JObj m) \<Rightarrow> Inr m
   | Inr j \<Rightarrow> Inl (''json: cannot unmarshal '' @ json_kind j @ '' into Go value of type map[string]interface {}''))"

text \<open>\<^verbatim>\<open>Duration.Truncate(time.Second)\<close> printed with \<^verbatim>\<open>%s\<close>.\<close>

definition seconds_str :: "duration \<Rightarrow> string" where
  "seconds_str d = (let n = nat (\<bar>d\<bar> div second);
      body = (if n \<ge> 3600 then nat_str (n div 3600) @ ''h'' else []) @
             (if n \<ge> 60 then nat_str (n div 60 mod 60) @ ''m'' else []) @ nat_str (n mod 60) @ ''s''
    in if d < 0 \<and> n > 0 then CHR ''-'' # body else body)"

subsection \<open>Parsing\<close>

record disclosure =
  dc_encoded :: string
  dc_salt :: string
  dc_claimName :: string
  dc_claimValue :: json

record presentation_parts =
  pp_issuerJWT :: string
  pp_disclosures :: "disclosure list"
  pp_kbJWT :: string

definition parseDisclosure :: "lib \<Rightarrow> string \<Rightarrow> string + disclosure" where
  "parseDisclosure L encoded = (case RawURL_Decode (trim_right (CHR ''='') encoded) of
     None \<Rightarrow> Inl (''malformed disclosure: '' @ base64_Error L (trim_right (CHR ''='') encoded))
   | Some raw \<Rightarrow>
  case unmarshal_arr L raw of
     Inl e \<Rightarrow> Inl (''malformed disclosure: '' @ e)
   | Inr arr \<Rightarrow>
  if length arr \<noteq> 3
  then Inl (''disclosure must be a 3-element array, got '' @ nat_str (length arr))
  else case as_str (Some (arr ! 0)) of
     None \<Rightarrow> Inl ''disclosure salt is not a string''
   | Some salt \<Rightarrow>
  case as_str (Some (arr ! 1)) of
     None \<Rightarrow> Inl ''disclosure claim name is not a string''
   | Some name \<Rightarrow>
       Inr \<lparr>dc_encoded = encoded, dc_salt = salt, dc_claimName = name, dc_claimValue = arr ! 2\<rparr>)"

text \<open>The loop over the segments between the first and the last.\<close>

fun parse_segments :: "lib \<Rightarrow> string list \<Rightarrow> string + disclosure list" where
  "parse_segments L [] = Inr []"
| "parse_segments L (encoded # rest) =
     (if encoded = [] then parse_segments L rest
      else case parseDisclosure L encoded of
        Inl e \<Rightarrow> Inl e
      | Inr d \<Rightarrow> (case parse_segments L rest of Inl e \<Rightarrow> Inl e | Inr ds \<Rightarrow> Inr (d # ds)))"

definition parse_presentation :: "lib \<Rightarrow> string \<Rightarrow> string + presentation_parts" where
  "parse_presentation L presentation = (let parts = go_split (CHR ''~'') presentation in
     if length parts < 2
     then Inl ''malformed SD-JWT: expected at least one '~' separator''
     else let lst = length parts - 1 in
     case parse_segments L (drop 1 (take lst parts)) of
       Inl e \<Rightarrow> Inl e
     | Inr ds \<Rightarrow> Inr \<lparr>pp_issuerJWT = parts ! 0, pp_disclosures = ds, pp_kbJWT = parts ! lst\<rparr>)"

definition disclosure_digest :: "disclosure \<Rightarrow> string" where
  "disclosure_digest d = RawURL_Encode (sha256 (dc_encoded d))"

definition computeSdHash :: "string \<Rightarrow> string" where
  "computeSdHash presentation = (case last_index (CHR ''~'') presentation of
     None \<Rightarrow> []
   | Some lastTilde \<Rightarrow> RawURL_Encode (sha256 (take (lastTilde + 1) presentation)))"

subsection \<open>Signatures, digests and key binding\<close>

definition unverifiedStatusClaim :: "lib \<Rightarrow> string \<Rightarrow> json_map option" where
  "unverifiedStatusClaim L issuerJWT = (case jws_Parse L issuerJWT of
     Inl _ \<Rightarrow> None
   | Inr msg \<Rightarrow>
       (case unmarshal_map L (jm_Payload msg) of
          Inl _ \<Rightarrow> None | Inr claims \<Rightarrow> as_obj (map_of claims ''status'')))"

definition verifyIssuerSignature :: "lib \<Rightarrow> string \<Rightarrow> string + json_map" where
  "verifyIssuerSignature L issuerJWT = (case jws_Parse L issuerJWT of
     Inl e \<Rightarrow> Inl (''malformed issuer JWT: '' @ e)
   | Inr msg \<Rightarrow>
  if length (jm_Signatures msg) \<noteq> 1 then Inl ''issuer JWT must carry exactly one signature''
  else case jh_X509CertChain (jm_Signatures msg ! 0) of
     Some (leaf64 # _) \<Rightarrow>
  (case Std_Decode leaf64 of
     None \<Rightarrow> Inl (''issuer JWT x5c leaf is not valid base64: '' @ base64_Error L leaf64)
   | Some der \<Rightarrow>
  case x509_ParseCertificate L der of
     Inl e \<Rightarrow> Inl (''issuer JWT x5c leaf is not a valid certificate: '' @ e)
   | Inr cert \<Rightarrow>
  case cert_PublicKey cert of
     None \<Rightarrow> Inl (''issuer certificate public key is '' @ cert_KeyType cert @ '', not EC'')
   | Some issuerKey \<Rightarrow>
  case jws_Verify L issuerJWT issuerKey of
     Inl _ \<Rightarrow> Inl ''issuer JWT signature is invalid''
   | Inr payload \<Rightarrow>
  case unmarshal_map L payload of
     Inl e \<Rightarrow> Inl (''issuer JWT payload is not a JSON object: '' @ e)
   | Inr claims \<Rightarrow> Inr claims)
   | _ \<Rightarrow> Inl ''issuer JWT has no x5c certificate'')"

text \<open>The digests the issuer committed to: the strings among the entries of \<^verbatim>\<open>_sd\<close>.\<close>

definition committed :: "json_map \<Rightarrow> string list" where
  "committed claims = (case as_arr (map_of claims ''_sd'') of
     None \<Rightarrow> [] | Some sd \<Rightarrow> List.map_filter (\<lambda>j. as_str (Some j)) sd)"

fun check_digests :: "lib \<Rightarrow> string list \<Rightarrow> disclosure list \<Rightarrow> string option" where
  "check_digests L sd [] = None"
| "check_digests L sd (d # ds) =
     (if disclosure_digest d \<notin> set sd
      then Some (''disclosure '' @ strconv_Quote L (dc_claimName d) @ '' digest not found in _sd'')
      else check_digests L sd ds)"

definition verifyDisclosureDigests :: "lib \<Rightarrow> disclosure list \<Rightarrow> json_map \<Rightarrow> string option" where
  "verifyDisclosureDigests L ds claims = check_digests L (committed claims) ds"

definition verifyKeyBinding ::
  "lib \<Rightarrow> time \<Rightarrow> presentation_parts \<Rightarrow> json_map \<Rightarrow> string \<Rightarrow> string \<Rightarrow> string \<Rightarrow> string + jwk" where
  "verifyKeyBinding L now parsed issuerClaims presentation expectedAud expectedNonce =
     (if pp_kbJWT parsed = [] then Inl ''Key Binding JWT is missing''
      else case as_obj (map_of issuerClaims ''cnf'') of
        None \<Rightarrow> Inl ''issuer JWT has no cnf for key binding''
      | Some cnf \<Rightarrow>
     case as_obj (map_of cnf ''jwk'') of
        None \<Rightarrow> Inl ''issuer JWT has no cnf.jwk for key binding''
      | Some cnfJWK \<Rightarrow>
     case json_Marshal L (JObj cnfJWK) of
        Inl e \<Rightarrow> Inl (''issuer JWT cnf.jwk is unreadable: '' @ e)
      | Inr cnfJSON \<Rightarrow>
     case jwk_ParseKey L cnfJSON of
        Inl e \<Rightarrow> Inl (''issuer JWT cnf.jwk is not a valid JWK: '' @ e)
      | Inr holderKey \<Rightarrow>
     case jwt_Parse L (pp_kbJWT parsed) holderKey of
        Inl _ \<Rightarrow> Inl ''Key Binding JWT signature is invalid''
      | Inr token \<Rightarrow>
     if (case jt_Audience token of Some (a # _) \<Rightarrow> a \<noteq> expectedAud | _ \<Rightarrow> True)
     then Inl (''KB-JWT aud does not match client_id '' @ strconv_Quote L expectedAud)
     else if str_or_empty (map_of (jt_Claims token) ''nonce'') \<noteq> expectedNonce
     then Inl ''KB-JWT nonce does not match the request nonce''
     else if str_or_empty (map_of (jt_Claims token) ''sd_hash'') \<noteq> computeSdHash presentation
     then Inl ''KB-JWT sd_hash does not match the presentation''
     else case jt_IssuedAt token of
        None \<Rightarrow> Inl ''KB-JWT is missing iat''
      | Some iat \<Rightarrow>
     if now - iat > kbIATSkew \<or> now - iat < - kbIATSkew
     then Inl (''KB-JWT iat is outside the acceptable window (skew '' @ seconds_str (now - iat) @ '')'')
     else Inr holderKey)"

record sd_result =
  sdr_Claims :: json_map
  sdr_Status :: "json_map option"
  sdr_HolderKey :: "jwk option"

definition no_result :: sd_result where
  "no_result = \<lparr>sdr_Claims = [], sdr_Status = None, sdr_HolderKey = None\<rparr>"

definition disclosed :: "disclosure list \<Rightarrow> json_map" where
  "disclosed ds = fold (\<lambda>d m. AList.update (dc_claimName d) (dc_claimValue d) m) ds []"

text \<open>The result and the error, \<open>None\<close> where it is nil: on failure the result still carries the status claim.\<close>

definition VerifyWithStatus ::
  "lib \<Rightarrow> time \<Rightarrow> string \<Rightarrow> string \<Rightarrow> string \<Rightarrow> sd_result \<times> string option" where
  "VerifyWithStatus L now presentation expectedAud expectedNonce =
     (case parse_presentation L presentation of
        Inl e \<Rightarrow> (no_result, Some e)
      | Inr parsed \<Rightarrow>
     let status = unverifiedStatusClaim L (pp_issuerJWT parsed) in
     case verifyIssuerSignature L (pp_issuerJWT parsed) of
        Inl e \<Rightarrow> (no_result\<lparr>sdr_Status := status\<rparr>, Some e)
      | Inr issuerClaims \<Rightarrow>
     case verifyDisclosureDigests L (pp_disclosures parsed) issuerClaims of
        Some e \<Rightarrow> (no_result\<lparr>sdr_Status := status\<rparr>, Some e)
      | None \<Rightarrow>
     case verifyKeyBinding L now parsed issuerClaims presentation expectedAud expectedNonce of
        Inl e \<Rightarrow> (no_result\<lparr>sdr_Status := status\<rparr>, Some e)
      | Inr holderKey \<Rightarrow>
          (\<lparr>sdr_Claims = disclosed (pp_disclosures parsed),
            sdr_Status = as_obj (map_of issuerClaims ''status''), sdr_HolderKey = Some holderKey\<rparr>, None))"

definition sdjwt_Verify :: "lib \<Rightarrow> time \<Rightarrow> string \<Rightarrow> string \<Rightarrow> string \<Rightarrow> json_map \<times> string option" where
  "sdjwt_Verify L now presentation expectedAud expectedNonce =
     (let (r, e) = VerifyWithStatus L now presentation expectedAud expectedNonce in (sdr_Claims r, e))"

subsection \<open>What acceptance means\<close>

lemma parse_segments_Inr:
  "parse_segments L segs = Inr ds \<Longrightarrow> d \<in> set ds \<Longrightarrow>
     \<exists>seg\<in>set segs. parseDisclosure L seg = Inr d \<and> dc_encoded d = seg"
proof (induction segs arbitrary: ds)
  case (Cons encoded rest)
  have enc: "parseDisclosure L s = Inr x \<Longrightarrow> dc_encoded x = s" for s x
    by (auto simp: parseDisclosure_def split: option.splits sum.splits if_splits)
  show ?case
  proof (cases "encoded = []")
    case False
    then obtain d' ds' where d: "parseDisclosure L encoded = Inr d'" "parse_segments L rest = Inr ds'" "ds = d' # ds'"
      using Cons.prems(1) by (auto split: sum.splits)
    then show ?thesis using Cons.IH [OF d(2)] Cons.prems(2) enc by auto
  qed (use Cons in auto)
qed simp

lemma check_digests_None: "check_digests L sd ds = None \<longleftrightarrow> (\<forall>d\<in>set ds. disclosure_digest d \<in> set sd)"
  by (induction L sd ds rule: check_digests.induct) auto

lemma fold_update_in:
  "(k, v) \<in> set (fold (\<lambda>d m. AList.update (dc_claimName d) (dc_claimValue d) m) ds m) \<Longrightarrow>
     (\<exists>d\<in>set ds. dc_claimName d = k \<and> dc_claimValue d = v) \<or> (k, v) \<in> set m"
proof (induction ds arbitrary: m)
  case (Cons d ds)
  have upd: "(k, v) \<in> set (AList.update k' v' m) \<Longrightarrow> (k = k' \<and> v = v') \<or> (k, v) \<in> set m" for k' v'
    by (induction m) (auto split: if_splits)
  from Cons.IH [of "AList.update (dc_claimName d) (dc_claimValue d) m"] Cons.prems show ?case
    using upd by auto
qed simp

text \<open>The issuer JWT verifies under the key of the certificate it carries, and its payload is \<open>claims\<close>.\<close>

definition issuer_signed :: "lib \<Rightarrow> string \<Rightarrow> json_map \<Rightarrow> bool" where
  "issuer_signed L jwt claims \<longleftrightarrow> (\<exists>msg h leaf64 rest der cert key payload. jws_Parse L jwt = Inr msg \<and>
     jm_Signatures msg = [h] \<and> jh_X509CertChain h = Some (leaf64 # rest) \<and> Std_Decode leaf64 = Some der \<and>
     x509_ParseCertificate L der = Inr cert \<and> cert_PublicKey cert = Some key \<and>
     jws_Verify L jwt key = Inr payload \<and> unmarshal_map L payload = Inr claims)"

text \<open>
  The key-binding JWT verifies under the holder key the issuer put into the credential and says what
  the holder agreed to.
\<close>

definition holder_bound ::
  "lib \<Rightarrow> time \<Rightarrow> string \<Rightarrow> json_map \<Rightarrow> string \<Rightarrow> string \<Rightarrow> string \<Rightarrow> jwk \<Rightarrow> bool" where
  "holder_bound L now kb claims aud nonce sdHash key \<longleftrightarrow> kb \<noteq> [] \<and>
     (\<exists>cnf jwk bytes tok auds iat. map_of claims ''cnf'' = Some (JObj cnf) \<and> map_of cnf ''jwk'' = Some (JObj jwk) \<and>
        json_Marshal L (JObj jwk) = Inr bytes \<and> jwk_ParseKey L bytes = Inr key \<and> jwt_Parse L kb key = Inr tok \<and>
        jt_Audience tok = Some (aud # auds) \<and> str_or_empty (map_of (jt_Claims tok) ''nonce'') = nonce \<and>
        str_or_empty (map_of (jt_Claims tok) ''sd_hash'') = sdHash \<and>
        jt_IssuedAt tok = Some iat \<and> \<bar>now - iat\<bar> \<le> kbIATSkew)"

lemma verifyIssuerSignature_Inr: "verifyIssuerSignature L jwt = Inr claims \<longleftrightarrow> issuer_signed L jwt claims"
  (is "?lhs \<longleftrightarrow> ?rhs")
proof
  assume ?lhs
  then show ?rhs unfolding verifyIssuerSignature_def issuer_signed_def
    by (auto simp: length_Suc_conv split: sum.splits if_splits option.splits list.splits)
next
  assume ?rhs
  then show ?lhs by (auto simp: verifyIssuerSignature_def issuer_signed_def)
qed

lemma verifyKeyBinding_Inr:
  "verifyKeyBinding L now parsed claims p aud nonce = Inr key \<longleftrightarrow>
     holder_bound L now (pp_kbJWT parsed) claims aud nonce (computeSdHash p) key"
  (is "?lhs \<longleftrightarrow> ?rhs")
proof
  assume ?lhs
  then show ?rhs unfolding verifyKeyBinding_def holder_bound_def
    by (auto simp: as_obj_Some abs_le_iff split: sum.splits if_splits option.splits list.splits)
next
  assume ?rhs
  then show ?lhs by (auto simp: verifyKeyBinding_def holder_bound_def abs_le_iff)
qed

lemma VerifyWithStatus_None:
  "VerifyWithStatus L now p aud nonce = (r, None) \<longleftrightarrow>
     (\<exists>parsed claims key. parse_presentation L p = Inr parsed \<and> issuer_signed L (pp_issuerJWT parsed) claims \<and>
        (\<forall>d\<in>set (pp_disclosures parsed). disclosure_digest d \<in> set (committed claims)) \<and>
        holder_bound L now (pp_kbJWT parsed) claims aud nonce (computeSdHash p) key \<and>
        r = \<lparr>sdr_Claims = disclosed (pp_disclosures parsed), sdr_Status = as_obj (map_of claims ''status''),
             sdr_HolderKey = Some key\<rparr>)"
  (is "?lhs \<longleftrightarrow> ?rhs")
proof
  assume ?lhs
  then show ?rhs unfolding VerifyWithStatus_def Let_def verifyDisclosureDigests_def
    by (auto simp: check_digests_None verifyIssuerSignature_Inr verifyKeyBinding_Inr
        split: sum.splits option.splits)
next
  assume ?rhs
  then show ?lhs unfolding VerifyWithStatus_def Let_def verifyDisclosureDigests_def
    by (auto simp: check_digests_None [symmetric, where L = L] verifyIssuerSignature_Inr [symmetric]
        verifyKeyBinding_Inr [symmetric])
qed

text \<open>
  C11: an accepted SD-JWT presentation is sound: the issuer JWT is signed under the certificate it
  carries; every claim handed to the relying party is the content of a segment of the presentation
  whose SHA-256 digest is among those the issuer signed; and the key-binding JWT is signed by the
  holder key in the credential, is addressed to this verifier, answers this request's nonce, commits
  to exactly this presentation and was made within five minutes.
\<close>

theorem presentation_sound:
  assumes "VerifyWithStatus L now p aud nonce = (r, None)"
  shows "\<exists>issuerJWT kb claims key. issuerJWT = hd (go_split (CHR ''~'') p) \<and> kb = last (go_split (CHR ''~'') p) \<and>
    issuer_signed L issuerJWT claims \<and>
    (\<forall>(k, v)\<in>set (sdr_Claims r). \<exists>seg\<in>set (go_split (CHR ''~'') p). \<exists>salt.
       RawURL_Encode (sha256 seg) \<in> set (committed claims) \<and>
       parseDisclosure L seg = Inr \<lparr>dc_encoded = seg, dc_salt = salt, dc_claimName = k, dc_claimValue = v\<rparr>) \<and>
    holder_bound L now kb claims aud nonce (computeSdHash p) key \<and> sdr_HolderKey r = Some key"
proof -
  from assms obtain parsed claims key where a: "parse_presentation L p = Inr parsed"
    "issuer_signed L (pp_issuerJWT parsed) claims"
    "\<forall>d\<in>set (pp_disclosures parsed). disclosure_digest d \<in> set (committed claims)"
    "holder_bound L now (pp_kbJWT parsed) claims aud nonce (computeSdHash p) key"
    "r = \<lparr>sdr_Claims = disclosed (pp_disclosures parsed), sdr_Status = as_obj (map_of claims ''status''),
          sdr_HolderKey = Some key\<rparr>" by (auto simp: VerifyWithStatus_None)
  let ?parts = "go_split (CHR ''~'') p"
  from a(1) have len: "2 \<le> length ?parts" and kb: "pp_kbJWT parsed = last ?parts" and iss: "pp_issuerJWT parsed = hd ?parts"
    and segs: "parse_segments L (drop 1 (take (length ?parts - 1) ?parts)) = Inr (pp_disclosures parsed)"
    by (auto simp: parse_presentation_def Let_def last_conv_nth hd_conv_nth split: if_splits sum.splits)
  have "\<exists>seg\<in>set ?parts. \<exists>salt. RawURL_Encode (sha256 seg) \<in> set (committed claims) \<and>
      parseDisclosure L seg = Inr \<lparr>dc_encoded = seg, dc_salt = salt, dc_claimName = k, dc_claimValue = v\<rparr>"
    if kv: "(k, v) \<in> set (sdr_Claims r)" for k v
  proof -
    obtain d where d: "d \<in> set (pp_disclosures parsed)" "dc_claimName d = k" "dc_claimValue d = v"
      using kv fold_update_in [of k v "pp_disclosures parsed" "[]"] unfolding a(5) disclosed_def by auto
    obtain seg where seg: "seg \<in> set (drop 1 (take (length ?parts - 1) ?parts))" "parseDisclosure L seg = Inr d" "dc_encoded d = seg"
      using parse_segments_Inr [OF segs d(1)] by auto
    then have "seg \<in> set ?parts" by (meson in_set_dropD in_set_takeD)
    moreover have "RawURL_Encode (sha256 seg) \<in> set (committed claims)"
      using a(3) d(1) seg(3) by (auto simp: disclosure_digest_def)
    moreover have "d = \<lparr>dc_encoded = seg, dc_salt = dc_salt d, dc_claimName = k, dc_claimValue = v\<rparr>"
      using d seg(3) by simp
    ultimately show ?thesis using seg(2) by metis
  qed
  then show ?thesis using a(2,4,5) kb iss by (intro exI conjI ballI) auto
qed

text \<open>The example credential: one disclosure, whose digest the issuer committed to, and a holder key.\<close>

definition ex_seg :: string where "ex_seg = ''seg''"

definition ex_pres :: string where "ex_pres = ''iss~seg~kb''"

definition ex_claims :: json_map where
  "ex_claims = [(''_sd'', JArr [JStr (RawURL_Encode (sha256 ex_seg))]), (''cnf'', JObj [(''jwk'', JObj [])]),
     (''status'', JObj [(''status_list'', JObj [])])]"

definition ex_sd_lib :: "string \<Rightarrow> string \<Rightarrow> lib" where
  "ex_sd_lib aud nonce = ex_lib\<lparr>
     jws_Parse := (\<lambda>s. Inr \<lparr>jm_Signatures = [(ex_header ''dc+sd-jwt'' ex_wiaKey)\<lparr>jh_X509CertChain := Some [''YWJj'']\<rparr>],
       jm_Payload = ''payload''\<rparr>),
     jws_Verify := (\<lambda>s k. Inr ''payload''),
     json_Unmarshal := (\<lambda>s. if s = ''payload'' then Inr (JObj ex_claims)
       else Inr (JArr [JStr ''salt'', JStr ''family_name'', JStr ''Doe''])),
     jwt_Parse := (\<lambda>s k. Inr \<lparr>jt_Subject = None, jt_Audience = Some [aud], jt_IssuedAt = Some 0,
       jt_Expiration = None,
       jt_Claims = [(''nonce'', JStr nonce), (''sd_hash'', JStr (computeSdHash ex_pres))]\<rparr>)\<rparr>"

definition ex_sd_result :: sd_result where
  "ex_sd_result = \<lparr>sdr_Claims = [(''family_name'', JStr ''Doe'')], sdr_Status = Some [(''status_list'', JObj [])],
     sdr_HolderKey = Some ex_cnfKey\<rparr>"

lemma ex_seg_decodes: "RawURL_Decode (trim_right (CHR ''='') ''seg'') \<noteq> None"
  by code_simp

lemma ex_parse: "parse_presentation (ex_sd_lib aud nonce) ex_pres = Inr \<lparr>pp_issuerJWT = ''iss'',
    pp_disclosures = [\<lparr>dc_encoded = ''seg'', dc_salt = ''salt'', dc_claimName = ''family_name'', dc_claimValue = JStr ''Doe''\<rparr>],
    pp_kbJWT = ''kb''\<rparr>"
proof -
  obtain raw where raw: "RawURL_Decode (trim_right (CHR ''='') ''seg'') = Some raw" using ex_seg_decodes by blast
  then have "raw \<noteq> ''payload''" by (auto) (code_simp)
  then have "parseDisclosure (ex_sd_lib aud nonce) ''seg'' = Inr \<lparr>dc_encoded = ''seg'', dc_salt = ''salt'',
      dc_claimName = ''family_name'', dc_claimValue = JStr ''Doe''\<rparr>"
    using raw by (simp add: parseDisclosure_def unmarshal_arr_def ex_sd_lib_def)
  then show ?thesis by (simp add: parse_presentation_def ex_pres_def)
qed

lemma ex_accepted: "VerifyWithStatus (ex_sd_lib aud nonce) 0 ex_pres aud nonce = (ex_sd_result, None)"
proof -
  have "Std_Decode ''YWJj'' = Some ''abc''" by code_simp
  then have i: "verifyIssuerSignature (ex_sd_lib aud nonce) ''iss'' = Inr ex_claims"
    by (simp add: verifyIssuerSignature_def unmarshal_map_def ex_sd_lib_def ex_lib_def ex_header_def)
  have k: "verifyKeyBinding (ex_sd_lib aud nonce) 0 \<lparr>pp_issuerJWT = a, pp_disclosures = b, pp_kbJWT = ''kb''\<rparr> ex_claims ex_pres
      aud nonce = Inr ex_cnfKey" for a b
    by (simp add: verifyKeyBinding_def ex_claims_def ex_sd_lib_def ex_lib_def const_defs)
  have c: "committed ex_claims = [RawURL_Encode (sha256 ''seg'')]"
    by (simp add: committed_def ex_claims_def ex_seg_def List.map_filter_simps)
  show ?thesis
    by (simp add: VerifyWithStatus_def ex_parse i k verifyDisclosureDigests_def c disclosure_digest_def
        disclosed_def ex_sd_result_def)
      (simp add: ex_claims_def)
qed

theorem presentation_sound_witness:
  "\<exists>claims. issuer_signed (ex_sd_lib ''verifier'' ''n'') ''iss'' claims \<and>
     (\<exists>seg salt. RawURL_Encode (sha256 seg) \<in> set (committed claims) \<and>
        parseDisclosure (ex_sd_lib ''verifier'' ''n'') seg =
          Inr \<lparr>dc_encoded = seg, dc_salt = salt, dc_claimName = ''family_name'', dc_claimValue = JStr ''Doe''\<rparr>)"
proof -
  have "hd (go_split (CHR ''~'') ex_pres) = ''iss''" by (simp add: ex_pres_def)
  moreover have "(''family_name'', JStr ''Doe'') \<in> set (sdr_Claims ex_sd_result)" by (simp add: ex_sd_result_def)
  ultimately show ?thesis using presentation_sound [OF ex_accepted] by fastforce
qed

definition signed_part :: "string \<Rightarrow> string" where
  "signed_part p = (case last_index (CHR ''~'') p of None \<Rightarrow> [] | Some i \<Rightarrow> take (i + 1) p)"

lemma accepted_sd_hash:
  assumes "parse_presentation L p = Inr parsed"
  shows "computeSdHash p = RawURL_Encode (sha256 (signed_part p))"
proof -
  have "length (go_split (CHR ''~'') p) \<ge> 2" using assms
    by (auto simp: parse_presentation_def Let_def split: if_splits)
  then have "CHR ''~'' \<in> set p" using go_split_no_sep [of "CHR ''~''" p] by (cases "CHR ''~'' \<in> set p") auto
  then obtain i where "last_index (CHR ''~'') p = Some i" using last_index_None [of "CHR ''~''" p] by auto
  then show ?thesis by (simp add: computeSdHash_def signed_part_def)
qed

lemma parse_presentation_kb: "parse_presentation L p = Inr parsed \<Longrightarrow> pp_kbJWT parsed = last (go_split (CHR ''~'') p)"
  by (auto simp: parse_presentation_def Let_def last_conv_nth split: if_splits sum.splits)

text \<open>
  C24: a key-binding JWT cannot be moved to another presentation, verifier or request: once a presentation has been
  accepted, no presentation that ends in the same KB-JWT is accepted under the same holder key, at whatever
  time, if what precedes the KB-JWT (issuer JWT and disclosures) has another SHA-256 digest, or if it
  is checked for another audience or another nonce.
\<close>

theorem key_binding_binds_presentation:
  assumes "VerifyWithStatus L now p aud nonce = (r, None)"
    and "last (go_split (CHR ''~'') p') = last (go_split (CHR ''~'') p)"
    and "sha256 (signed_part p') \<noteq> sha256 (signed_part p) \<or> aud' \<noteq> aud \<or> nonce' \<noteq> nonce"
  shows "\<nexists>r'. VerifyWithStatus L now' p' aud' nonce' = (r', None) \<and> sdr_HolderKey r' = sdr_HolderKey r"
proof
  assume "\<exists>r'. VerifyWithStatus L now' p' aud' nonce' = (r', None) \<and> sdr_HolderKey r' = sdr_HolderKey r"
  then obtain r' where r': "VerifyWithStatus L now' p' aud' nonce' = (r', None)" "sdr_HolderKey r' = sdr_HolderKey r" by blast
  obtain parsed claims key where a: "parse_presentation L p = Inr parsed" "sdr_HolderKey r = Some key"
    "holder_bound L now (pp_kbJWT parsed) claims aud nonce (computeSdHash p) key"
    using assms(1) by (auto simp: VerifyWithStatus_None)
  obtain parsed' claims' key' where b: "parse_presentation L p' = Inr parsed'" "sdr_HolderKey r' = Some key'"
    "holder_bound L now' (pp_kbJWT parsed') claims' aud' nonce' (computeSdHash p') key'"
    using r'(1) by (auto simp: VerifyWithStatus_None)
  have "pp_kbJWT parsed = pp_kbJWT parsed'" "key = key'"
    using a(1,2) b(1,2) assms(2) r'(2) by (auto simp: parse_presentation_kb)
  then have "computeSdHash p = computeSdHash p' \<and> aud = aud' \<and> nonce = nonce'"
    using a(3) b(3) by (auto simp: holder_bound_def)
  then show False
    using assms(3) accepted_sd_hash [OF a(1)] accepted_sd_hash [OF b(1)] raw_url.enc_eq_iff by simp
qed

text \<open>
  The example: the presentation is accepted for its own audience and nonce; for another nonce and for another
  verifier it is not.
\<close>

theorem key_binding_binds_presentation_witness:
  "(\<exists>r. VerifyWithStatus (ex_sd_lib ''verifier'' ''n'') 0 ex_pres ''verifier'' ''n'' = (r, None) \<and> sdr_HolderKey r = Some ex_cnfKey) \<and>
   (\<nexists>r. VerifyWithStatus (ex_sd_lib ''verifier'' ''n'') 0 ex_pres ''verifier'' ''m'' = (r, None) \<and> sdr_HolderKey r = Some ex_cnfKey) \<and>
   (\<nexists>r. VerifyWithStatus (ex_sd_lib ''verifier'' ''n'') 0 ex_pres ''other'' ''n'' = (r, None) \<and> sdr_HolderKey r = Some ex_cnfKey)"
proof -
  have key: "sdr_HolderKey ex_sd_result = Some ex_cnfKey" by (simp add: ex_sd_result_def)
  note not_moved = key_binding_binds_presentation [OF ex_accepted refl, where now' = 0, unfolded key]
  from not_moved [of "''verifier''" "''verifier''" "''m''" "''n''"] not_moved [of "''other''" "''verifier''" "''n''" "''n''"]
    ex_accepted key
  show ?thesis by simp
qed

text \<open>
  The status claim read before any check is the one the accepted credential carries: where the
  JOSE library's \<^verbatim>\<open>Verify\<close> hands out the payload that \<^verbatim>\<open>Parse\<close> reads, the \<^verbatim>\<open>Status\<close> of the result is
  the unverified one whatever the outcome, so revocation can be looked up for rejected
  presentations too.
\<close>

lemma status_claim_always_read:
  assumes law: "\<And>s k payload. jws_Verify L s k = Inr payload \<Longrightarrow> \<exists>msg. jws_Parse L s = Inr msg \<and> jm_Payload msg = payload"
    and "parse_presentation L p = Inr parsed"
  shows "sdr_Status (fst (VerifyWithStatus L now p aud nonce)) = unverifiedStatusClaim L (pp_issuerJWT parsed)"
proof -
  have "as_obj (map_of claims ''status'') = unverifiedStatusClaim L jwt"
    if "verifyIssuerSignature L jwt = Inr claims" for claims jwt
    using that law by (fastforce simp: verifyIssuerSignature_Inr issuer_signed_def unverifiedStatusClaim_def)
  then show ?thesis using assms(2)
    by (auto simp: VerifyWithStatus_def Let_def no_result_def split: sum.splits option.splits)
qed

end
