(* ===== verification/Mdoc_Verify.thy ===== *)
theory Mdoc_Verify
  imports Status_List Example_Lib
begin

text \<open>
  \<^verbatim>\<open>internal/mdocverify\<close> (\<^verbatim>\<open>verify.go\<close>, \<^verbatim>\<open>cose.go\<close>, \<^verbatim>\<open>certchain.go\<close>, \<^verbatim>\<open>sessiontranscript.go\<close>):
  verification of an ISO 18013-5 DeviceResponse. A decoded CBOR item is a value of type \<open>cbor\<close>, with
  the two shapes of map the decoder produces kept apart; the CBOR library, ECDSA and RFC 3339 dates
  are the argument \<open>C\<close>. Go ranges over a map in the order of its entry list. Shown: what acceptance
  rests on, that a chain is accepted exactly when its links and its anchor are good, what the checks on a document
  establish for every decoder, and that the decoder's documented map type makes every DeviceResponse be rejected all the same.
\<close>

subsection \<open>CBOR values and the libraries\<close>

text \<open>
  \<open>CMap\<close> is a \<^verbatim>\<open>map[any]any\<close>, \<open>CSMap\<close> a \<^verbatim>\<open>map[string]any\<close>, \<open>CRaw\<close> an already encoded item
  (\<^verbatim>\<open>cbor.RawMessage\<close>), \<open>COther\<close> a value of any other Go type.
\<close>

datatype cbor =
    CNil
  | CInt int
  | CUint nat
  | CBytes string
  | CText string
  | CTime time
  | CArr "cbor list"
  | CMap "(cbor \<times> cbor) list"
  | CSMap "(string \<times> cbor) list"
  | CTag nat cbor
  | CRaw string
  | COther json

type_synonym cmap = "(string \<times> cbor) list"

record cose_sign1 =
  cs_Protected :: string
  cs_Unprotected :: "(int \<times> string) list"
  cs_Payload :: string
  cs_Signature :: string

record cbor_lib =
  cb_Marshal :: "cbor \<Rightarrow> string + string"
  cb_UnmarshalMap :: "string \<Rightarrow> string + cmap"
  cb_UnmarshalIntMap :: "string \<Rightarrow> string + (int \<times> cbor) list"
  cb_UnmarshalTag :: "string \<Rightarrow> string + nat \<times> cbor"
  cb_UnmarshalBytes :: "string \<Rightarrow> string + string"
  cb_UnmarshalBytesList :: "string \<Rightarrow> string + string list"
  cb_UnmarshalSign1 :: "string \<Rightarrow> string + cose_sign1"
  cb_Sprint :: "cbor \<Rightarrow> string" \<comment> \<open>\<^verbatim>\<open>%v\<close>\<close>
  cb_TypeName :: "cbor \<Rightarrow> string" \<comment> \<open>\<^verbatim>\<open>%T\<close>\<close>
  ecdsa_Verify :: "ec_public \<Rightarrow> string \<Rightarrow> int \<Rightarrow> int \<Rightarrow> bool"
  time_ParseRFC3339 :: "string \<Rightarrow> string + time"
  time_FormatRFC3339 :: "time \<Rightarrow> string"

text \<open>The type assertions of the source, on a value that may be absent.\<close>

fun c_text :: "cbor option \<Rightarrow> string option" where
  "c_text (Some (CText s)) = Some s" | "c_text _ = None"

fun c_bytes :: "cbor option \<Rightarrow> string option" where
  "c_bytes (Some (CBytes s)) = Some s" | "c_bytes _ = None"

fun c_arr :: "cbor option \<Rightarrow> cbor list option" where
  "c_arr (Some (CArr xs)) = Some xs" | "c_arr _ = None"

fun c_map :: "cbor option \<Rightarrow> (cbor \<times> cbor) list option" where
  "c_map (Some (CMap m)) = Some m" | "c_map _ = None"

fun c_smap :: "cbor option \<Rightarrow> cmap option" where
  "c_smap (Some (CSMap m)) = Some m" | "c_smap _ = None"

definition text_or_empty :: "cbor option \<Rightarrow> string" where
  "text_or_empty v = (case c_text v of None \<Rightarrow> [] | Some s \<Rightarrow> s)"

text \<open>\<^verbatim>\<open>new(big.Int).SetBytes\<close>: the bytes as a big-endian number.\<close>

definition big_of_bytes :: "string \<Rightarrow> int" where
  "big_of_bytes s = foldl (\<lambda>n c. 256 * n + of_char c) 0 s"

subsection \<open>COSE\<close>

definition coseAlgES256 :: int where "coseAlgES256 = - 7"
definition coseHeaderAlg :: int where "coseHeaderAlg = 1"
definition coseHeaderX5Chain :: int where "coseHeaderX5Chain = 33"
definition tagEncodedCBOR :: nat where "tagEncodedCBOR = 24"

text \<open>\<^verbatim>\<open>int64(n)\<close> of an unsigned 64-bit integer wraps.\<close>

fun toInt64 :: "cbor option \<Rightarrow> int option" where
  "toInt64 (Some (CInt n)) = Some n"
| "toInt64 (Some (CUint n)) = Some (wrap64 (int n))"
| "toInt64 _ = None"

definition verifyCoseSign1Detached ::
  "cbor_lib \<Rightarrow> cose_sign1 \<Rightarrow> string \<Rightarrow> ec_public \<Rightarrow> string option" where
  "verifyCoseSign1Detached C sign1 payload key = (case cb_UnmarshalIntMap C (cs_Protected sign1) of
     Inl e \<Rightarrow> Some (''COSE_Sign1 protected header is not a CBOR map: '' @ e)
   | Inr protectedHeader \<Rightarrow>
  case map_of protectedHeader coseHeaderAlg of
     None \<Rightarrow> Some ''COSE_Sign1 protected header has no alg''
   | Some alg \<Rightarrow>
  if toInt64 (Some alg) \<noteq> Some coseAlgES256
  then Some (''COSE_Sign1 alg is '' @ cb_Sprint C alg @ '', want ES256 (-7)'')
  else case cb_Marshal C (CArr [CText ''Signature1'', CBytes (cs_Protected sign1), CBytes [], CBytes payload]) of
     Inl e \<Rightarrow> Some e
   | Inr toBeSigned \<Rightarrow>
  if length (cs_Signature sign1) \<noteq> 64
  then Some (''COSE_Sign1 signature is '' @ nat_str (length (cs_Signature sign1)) @ '' bytes, want 64 (P-256 r||s)'')
  else let r = big_of_bytes (take 32 (cs_Signature sign1)); s = big_of_bytes (drop 32 (cs_Signature sign1)) in
  if \<not> ecdsa_Verify C key (sha256 toBeSigned) r s then Some ''COSE_Sign1 signature is invalid''
  else None)"

definition verifyCoseSign1Attached :: "cbor_lib \<Rightarrow> cose_sign1 \<Rightarrow> ec_public \<Rightarrow> string + string" where
  "verifyCoseSign1Attached C sign1 key = (case cb_UnmarshalBytes C (cs_Payload sign1) of
     Inl e \<Rightarrow> Inl (''COSE_Sign1 payload is not a byte string: '' @ e)
   | Inr payload \<Rightarrow>
       (case verifyCoseSign1Detached C sign1 payload key of Some e \<Rightarrow> Inl e | None \<Rightarrow> Inr payload))"

fun parse_certs :: "lib \<Rightarrow> string list \<Rightarrow> string + certificate list" where
  "parse_certs L [] = Inr []"
| "parse_certs L (der # ders) = (case x509_ParseCertificate L der of
     Inl e \<Rightarrow> Inl (''parsing x5chain certificate: '' @ e)
   | Inr cert \<Rightarrow> (case parse_certs L ders of Inl e \<Rightarrow> Inl e | Inr certs \<Rightarrow> Inr (cert # certs)))"

definition coseCertChain :: "lib \<Rightarrow> cbor_lib \<Rightarrow> cose_sign1 \<Rightarrow> string + certificate list" where
  "coseCertChain L C sign1 = (case map_of (cs_Unprotected sign1) coseHeaderX5Chain of
     None \<Rightarrow> Inr []
   | Some raw \<Rightarrow>
  case cb_UnmarshalBytes C raw of
     Inr single \<Rightarrow> parse_certs L [single]
   | Inl _ \<Rightarrow>
  case cb_UnmarshalBytesList C raw of
     Inl e \<Rightarrow> Inl (''x5chain is neither a byte string nor an array of them: '' @ e)
   | Inr multiple \<Rightarrow> parse_certs L multiple)"

subsection \<open>Certificate chains\<close>

definition requireCA :: "certificate \<Rightarrow> string option" where
  "requireCA cert = (if \<not> cert_IsCA cert then Some (''issuer certificate is not a CA: '' @ cert_Subject cert) else None)"

definition verifySignedBy :: "lib \<Rightarrow> certificate \<Rightarrow> certificate \<Rightarrow> string option" where
  "verifySignedBy L subject issuer = (case x509_CheckSignatureFrom L subject issuer of
     Some e \<Rightarrow> Some (''certificate '' @ cert_Subject subject @ '' is not signed by '' @ cert_Subject issuer @ '': '' @ e)
   | None \<Rightarrow> None)"

definition isSelfSigned :: "lib \<Rightarrow> certificate \<Rightarrow> bool" where
  "isSelfSigned L cert \<longleftrightarrow> cert_Subject cert = cert_Issuer cert \<and> x509_CheckSignatureFrom L cert cert = None"

fun check_dates :: "time \<Rightarrow> certificate list \<Rightarrow> string option" where
  "check_dates now [] = None"
| "check_dates now (cert # certs) =
     (if now < cert_NotBefore cert \<or> now > cert_NotAfter cert
      then Some (''certificate not valid (expired or not yet valid): '' @ cert_Subject cert)
      else check_dates now certs)"

fun check_links :: "lib \<Rightarrow> certificate list \<Rightarrow> string option" where
  "check_links L (subject # issuer # certs) = (case requireCA issuer of
     Some e \<Rightarrow> Some e
   | None \<Rightarrow> (case verifySignedBy L subject issuer of
       Some e \<Rightarrow> Some e | None \<Rightarrow> check_links L (issuer # certs)))"
| "check_links L _ = None"

text \<open>Two certificates are equal when their encodings are.\<close>

definition validateCertChain ::
  "lib \<Rightarrow> time \<Rightarrow> certificate list \<Rightarrow> certificate option \<Rightarrow> string option" where
  "validateCertChain L now chain trustAnchor =
     (if chain = [] then Some ''empty certificate chain''
      else case check_dates now chain of
        Some e \<Rightarrow> Some e
      | None \<Rightarrow>
     case check_links L chain of
        Some e \<Rightarrow> Some e
      | None \<Rightarrow>
     let top = last chain in
     case trustAnchor of
        Some anchor \<Rightarrow>
          if cert_Raw top \<noteq> cert_Raw anchor
          then (case requireCA anchor of Some e \<Rightarrow> Some e | None \<Rightarrow> verifySignedBy L top anchor)
          else None
      | None \<Rightarrow> if isSelfSigned L top then verifySignedBy L top top else None)"

subsection \<open>Session transcript\<close>

definition openID4VPHandover ::
  "cbor_lib \<Rightarrow> string \<Rightarrow> string \<Rightarrow> string option \<Rightarrow> string \<Rightarrow> string + string" where
  "openID4VPHandover C clientID nonce encJWKThumbprint responseURI =
     (let thumbprint = (case encJWKThumbprint of None \<Rightarrow> CNil | Some t \<Rightarrow> CBytes t) in
      case cb_Marshal C (CArr [CText clientID, CText nonce, thumbprint, CText responseURI]) of
        Inl e \<Rightarrow> Inl e
      | Inr handoverInfo \<Rightarrow>
          cb_Marshal C (CArr [CNil, CNil, CArr [CText ''OpenID4VPHandover'', CBytes (sha256 handoverInfo)]]))"

definition deviceAuthenticationBytes ::
  "cbor_lib \<Rightarrow> string \<Rightarrow> string \<Rightarrow> string \<Rightarrow> string + string" where
  "deviceAuthenticationBytes C sessionTranscript docType deviceNameSpacesBytes =
     (case cb_Marshal C (CArr [CText ''DeviceAuthentication'', CRaw sessionTranscript, CText docType,
                               CRaw deviceNameSpacesBytes]) of
        Inl e \<Rightarrow> Inl e
      | Inr deviceAuth \<Rightarrow> cb_Marshal C (CTag tagEncodedCBOR (CBytes deviceAuth)))"

subsection \<open>The DeviceResponse\<close>

definition validitySkew :: duration where
  [const_defs]: "validitySkew = 5 * minute"

text \<open>The zero \<^verbatim>\<open>time.Time\<close>, on the scale of the Unix epoch.\<close>

definition zero_time :: time where
  "zero_time = - 62135596800 * second"

fun bytesEqual :: "string \<Rightarrow> string \<Rightarrow> bool" where
  "bytesEqual (a # as) (b # bs) = (if length as \<noteq> length bs then False else if a \<noteq> b then False else bytesEqual as bs)"
| "bytesEqual [] [] = True"
| "bytesEqual _ _ = False"

text \<open>\<^verbatim>\<open>requireMap\<close>: a \<^verbatim>\<open>map[any]any\<close> is copied under its printed keys.\<close>

definition requireMap :: "cbor_lib \<Rightarrow> cmap \<Rightarrow> string \<Rightarrow> string \<Rightarrow> string + cmap" where
  "requireMap C parent key errMsg = (case map_of parent key of
     None \<Rightarrow> Inl errMsg
   | Some (CSMap m) \<Rightarrow> Inr m
   | Some (CMap m) \<Rightarrow> Inr (fold (\<lambda>(k, v) out. AList.update (cb_Sprint C k) v out) m [])
   | Some v \<Rightarrow> Inl (errMsg @ '': not a CBOR map ('' @ cb_TypeName C v @ '')''))"

definition decodeCoseSign1 :: "cbor_lib \<Rightarrow> cbor \<Rightarrow> string + cose_sign1" where
  "decodeCoseSign1 C raw = (case cb_Marshal C raw of Inl e \<Rightarrow> Inl e | Inr encoded \<Rightarrow> cb_UnmarshalSign1 C encoded)"

function cborToGo :: "cbor_lib \<Rightarrow> cbor \<Rightarrow> cbor" where
  "cborToGo C (CTag n v) =
     (case v of CText s \<Rightarrow> if n = 0 \<or> n = 1004 then CText s else cborToGo C v | _ \<Rightarrow> cborToGo C v)"
| "cborToGo C (CArr xs) = CArr (map (cborToGo C) xs)"
| "cborToGo C (CMap m) =
     CSMap (fold (\<lambda>(k, v) out. AList.update (cb_Sprint C k) v out) (map (\<lambda>(k, v). (k, cborToGo C v)) m) [])"
| "cborToGo C (CSMap m) = CSMap (map (\<lambda>(k, v). (k, cborToGo C v)) m)"
| "cborToGo C CNil = CNil"
| "cborToGo C (CInt n) = CInt n"
| "cborToGo C (CUint n) = CUint n"
| "cborToGo C (CBytes s) = CBytes s"
| "cborToGo C (CText s) = CText s"
| "cborToGo C (CTime t) = CTime t"
| "cborToGo C (CRaw s) = CRaw s"
| "cborToGo C (COther j) = COther j"
  by pat_completeness auto
termination
  by (relation "measure (size \<circ> snd)") (auto simp: less_Suc_eq_le elim!: size_list_estimation')

text \<open>\<^verbatim>\<open>parseSingleDocument\<close>, its last step first.\<close>

definition first_document :: "cmap \<Rightarrow> string + cmap" where
  "first_document deviceResponse = (case c_arr (map_of deviceResponse ''documents'') of
     None \<Rightarrow> Inl ''DeviceResponse has no documents''
   | Some documents \<Rightarrow>
  if documents = [] then Inl ''DeviceResponse has no documents''
  else case c_smap (Some (documents ! 0)) of
     None \<Rightarrow> Inl ''DeviceResponse document is not a CBOR map''
   | Some document \<Rightarrow> Inr document)"

definition parseSingleDocument :: "lib \<Rightarrow> cbor_lib \<Rightarrow> string \<Rightarrow> string + cmap" where
  "parseSingleDocument L C vpToken = (case RawURL_Decode (trim_right (CHR ''='') vpToken) of
     None \<Rightarrow> Inl (''vp_token is not valid base64url: '' @ base64_Error L (trim_right (CHR ''='') vpToken))
   | Some raw \<Rightarrow>
  case cb_UnmarshalMap C raw of
     Inl e \<Rightarrow> Inl (''malformed DeviceResponse CBOR: '' @ e)
   | Inr deviceResponse \<Rightarrow>
  let version = text_or_empty (map_of deviceResponse ''version'') in
  if version \<noteq> ''1.0'' then Inl (''unsupported DeviceResponse version: '' @ strconv_Quote L version)
  else case map_of deviceResponse ''status'' of
     Some status \<Rightarrow>
       if toInt64 (Some status) \<noteq> Some 0 then Inl (''DeviceResponse status is not OK: '' @ cb_Sprint C status)
       else first_document deviceResponse
   | None \<Rightarrow> first_document deviceResponse)"

text \<open>Unwrapping the MobileSecurityObject, the second half of \<^verbatim>\<open>verifyIssuerAuthAndExtractMSO\<close>.\<close>

definition extractMSO :: "cbor_lib \<Rightarrow> string \<Rightarrow> string + cmap" where
  "extractMSO C payload = (case cb_UnmarshalTag C payload of
     Inl e \<Rightarrow> Inl (''MSO payload is not a tagged CBOR item: '' @ e)
   | Inr tagged \<Rightarrow>
  if fst tagged \<noteq> tagEncodedCBOR
  then Inl (''MSO payload is tag '' @ nat_str (fst tagged) @ '', not 24 (MobileSecurityObjectBytes)'')
  else case c_bytes (Some (snd tagged)) of
     None \<Rightarrow> Inl ''MSO payload tag 24 content is not a byte string''
   | Some inner \<Rightarrow>
  case cb_UnmarshalMap C inner of
     Inl e \<Rightarrow> Inl (''malformed MobileSecurityObject: '' @ e)
   | Inr mso \<Rightarrow> Inr mso)"

definition verifyIssuerAuthAndExtractMSO ::
  "lib \<Rightarrow> cbor_lib \<Rightarrow> time \<Rightarrow> cmap \<Rightarrow> certificate option \<Rightarrow> string + cmap" where
  "verifyIssuerAuthAndExtractMSO L C now issuerSigned trustAnchor =
     and_then (present ''issuerSigned missing issuerAuth'' (map_of issuerSigned ''issuerAuth'')) (\<lambda>rawIssuerAuth.
     and_then (wrap_err ''malformed issuerAuth: '' (decodeCoseSign1 C rawIssuerAuth)) (\<lambda>sign1.
     and_then (wrap_err ''issuerAuth x5chain unreadable: '' (coseCertChain L C sign1)) (\<lambda>chain.
     if chain = [] then Inl ''issuerAuth has no x5chain certificate''
     else
     and_then (present (''issuer certificate public key is '' @ cert_KeyType (hd chain) @ '', not EC'')
                 (cert_PublicKey (hd chain))) (\<lambda>issuerKey.
     and_then (wrap_err ''issuerAuth signature is invalid: '' (verifyCoseSign1Attached C sign1 issuerKey)) (\<lambda>payload.
     and_then (wrap_err ''issuer certificate chain invalid: '' (no_error (validateCertChain L now chain trustAnchor))) (\<lambda>_.
     extractMSO C payload))))))"

definition verifyMSOMeta :: "lib \<Rightarrow> cmap \<Rightarrow> string option" where
  "verifyMSOMeta L mso = (let version = text_or_empty (map_of mso ''version'');
                              alg = text_or_empty (map_of mso ''digestAlgorithm'') in
     if version \<noteq> ''1.0'' then Some (''unsupported MSO version: '' @ strconv_Quote L version)
     else if alg \<noteq> ''SHA-256'' then Some (''unsupported MSO digestAlgorithm: '' @ strconv_Quote L alg)
     else None)"

definition verifyDocType :: "lib \<Rightarrow> string \<Rightarrow> cmap \<Rightarrow> string \<Rightarrow> string option" where
  "verifyDocType L docType mso expectedDocType = (let msoDocType = text_or_empty (map_of mso ''docType'') in
     if docType = [] \<or> docType \<noteq> msoDocType
     then Some (''Document docType '' @ strconv_Quote L docType @ '' does not match MSO docType '' @ strconv_Quote L msoDocType)
     else if expectedDocType \<noteq> [] \<and> expectedDocType \<noteq> docType
     then Some (''docType '' @ strconv_Quote L docType @ '' does not match requested '' @ strconv_Quote L expectedDocType)
     else None)"

fun lookupDigest :: "(cbor \<times> cbor) list \<Rightarrow> int \<Rightarrow> string + string" where
  "lookupDigest [] digestID = Inl ''not found''"
| "lookupDigest ((k, v) # m) digestID =
     (if toInt64 (Some k) = Some digestID
      then case c_bytes (Some v) of None \<Rightarrow> Inl ''digest is not a byte string'' | Some d \<Rightarrow> Inr d
      else lookupDigest m digestID)"

text \<open>The content of a tag-24 item.\<close>

fun tag24 :: "cbor \<Rightarrow> cbor option" where
  "tag24 (CTag number content) = (if number = tagEncodedCBOR then Some content else None)"
| "tag24 _ = None"

text \<open>The bodies of the two loops of \<^verbatim>\<open>verifyDigestsAndCollectClaims\<close>.\<close>

definition collectItem ::
  "lib \<Rightarrow> cbor_lib \<Rightarrow> string \<Rightarrow> (cbor \<times> cbor) list \<Rightarrow> cbor \<Rightarrow> cmap \<Rightarrow> string + cmap" where
  "collectItem L C ns nsDigests rawItem claims =
     and_then (present (''IssuerSignedItem in namespace '' @ ns @ '' is not tag 24'') (tag24 rawItem)) (\<lambda>content.
     and_then (present ''IssuerSignedItem tag 24 content is not a byte string'' (c_bytes (Some content))) (\<lambda>inner.
     and_then (cb_Marshal C (CTag tagEncodedCBOR (CBytes inner))) (\<lambda>taggedBytes.
     and_then (wrap_err (''malformed IssuerSignedItem in namespace '' @ ns @ '': '') (cb_UnmarshalMap C inner)) (\<lambda>item.
     and_then (present (''IssuerSignedItem in namespace '' @ ns @ '' has no digestID'')
                 (toInt64 (map_of item ''digestID''))) (\<lambda>digestID.
     let elementID = text_or_empty (map_of item ''elementIdentifier'') in
     and_then (replace_err (''no MSO digest for digestID '' @ int_str digestID @ '' in namespace '' @ ns)
                 (lookupDigest nsDigests digestID)) (\<lambda>expected.
     if \<not> bytesEqual expected (sha256 taggedBytes)
     then Inl (''digest mismatch for '' @ strconv_Quote L elementID @ '' (tampered IssuerSignedItem)'')
     else Inr (AList.update elementID
            (cborToGo C (case map_of item ''elementValue'' of None \<Rightarrow> CNil | Some v \<Rightarrow> v)) claims)))))))"

fun collectItems ::
  "lib \<Rightarrow> cbor_lib \<Rightarrow> string \<Rightarrow> (cbor \<times> cbor) list \<Rightarrow> cbor list \<Rightarrow> cmap \<Rightarrow> string + cmap" where
  "collectItems L C ns nsDigests [] claims = Inr claims"
| "collectItems L C ns nsDigests (i # is) claims = (case collectItem L C ns nsDigests i claims of
     Inl e \<Rightarrow> Inl e | Inr claims' \<Rightarrow> collectItems L C ns nsDigests is claims')"

fun collectNamespaces :: "lib \<Rightarrow> cbor_lib \<Rightarrow> cmap \<Rightarrow> cmap \<Rightarrow> cmap \<Rightarrow> string + cmap" where
  "collectNamespaces L C valueDigests [] claims = Inr claims"
| "collectNamespaces L C valueDigests ((ns, rawItems) # rest) claims = (case c_arr (Some rawItems) of
     None \<Rightarrow> Inl (''nameSpaces['' @ ns @ ''] is not an array'')
   | Some items \<Rightarrow>
  case c_map (map_of valueDigests ns) of
     None \<Rightarrow> Inl (''MSO has no valueDigests for namespace '' @ ns)
   | Some nsDigests \<Rightarrow>
  case collectItems L C ns nsDigests items claims of
     Inl e \<Rightarrow> Inl e
   | Inr claims' \<Rightarrow> collectNamespaces L C valueDigests rest claims')"

definition verifyDigestsAndCollectClaims :: "lib \<Rightarrow> cbor_lib \<Rightarrow> cmap \<Rightarrow> cmap \<Rightarrow> string + cmap" where
  "verifyDigestsAndCollectClaims L C issuerSigned mso =
     (case requireMap C issuerSigned ''nameSpaces'' ''issuerSigned missing nameSpaces'' of
        Inl e \<Rightarrow> Inl e
      | Inr nameSpaces \<Rightarrow>
     case requireMap C mso ''valueDigests'' ''MSO missing valueDigests'' of
        Inl e \<Rightarrow> Inl e
      | Inr valueDigests \<Rightarrow> collectNamespaces L C valueDigests nameSpaces [])"

definition parseTdate :: "cbor_lib \<Rightarrow> cbor option \<Rightarrow> string + time" where
  "parseTdate C value =
     (if value \<in> {None, Some CNil} then Inr zero_time
      else let v = (case value of Some (CTag n content) \<Rightarrow> content | Some v \<Rightarrow> v | None \<Rightarrow> CNil) in
      case v of
        CText s \<Rightarrow> (case time_ParseRFC3339 C s of Inl e \<Rightarrow> Inl (''invalid validityInfo date: '' @ e) | Inr t \<Rightarrow> Inr t)
      | CTime t \<Rightarrow> Inr t
      | _ \<Rightarrow> Inl (''invalid validityInfo date type '' @ cb_TypeName C v))"

definition verifyValidity :: "cbor_lib \<Rightarrow> time \<Rightarrow> cmap \<Rightarrow> string option" where
  "verifyValidity C now mso = (case requireMap C mso ''validityInfo'' ''MSO missing validityInfo'' of
     Inl e \<Rightarrow> Some e
   | Inr validity \<Rightarrow>
  case parseTdate C (map_of validity ''validFrom'') of
     Inl e \<Rightarrow> Some e
   | Inr validFrom \<Rightarrow>
  case parseTdate C (map_of validity ''validUntil'') of
     Inl e \<Rightarrow> Some e
   | Inr validUntil \<Rightarrow>
  if validFrom \<noteq> zero_time \<and> now + validitySkew < validFrom
  then Some (''credential is not yet valid (validFrom '' @ time_FormatRFC3339 C validFrom @ '')'')
  else if validUntil \<noteq> zero_time \<and> now - validitySkew > validUntil
  then Some (''credential is expired (validUntil '' @ time_FormatRFC3339 C validUntil @ '')'')
  else None)"

fun coseKeyBytes :: "(cbor \<times> cbor) list \<Rightarrow> int \<Rightarrow> string option" where
  "coseKeyBytes [] label = None"
| "coseKeyBytes ((k, v) # m) label =
     (if toInt64 (Some k) = Some label then c_bytes (Some v) else coseKeyBytes m label)"

definition deviceKeyFromMSO :: "cbor_lib \<Rightarrow> cmap \<Rightarrow> string + ec_public" where
  "deviceKeyFromMSO C mso = (case requireMap C mso ''deviceKeyInfo'' ''MSO missing deviceKeyInfo'' of
     Inl e \<Rightarrow> Inl e
   | Inr deviceKeyInfo \<Rightarrow>
  case c_map (map_of deviceKeyInfo ''deviceKey'') of
     None \<Rightarrow> Inl ''deviceKeyInfo missing deviceKey''
   | Some coseKey \<Rightarrow>
  case (coseKeyBytes coseKey (- 2), coseKeyBytes coseKey (- 3)) of
     (Some x, Some y) \<Rightarrow> Inr \<lparr>ec_X = big_of_bytes x, ec_Y = big_of_bytes y\<rparr>
   | _ \<Rightarrow> Inl ''deviceKey is missing its x or y coordinate'')"

definition verifyDeviceSignature ::
  "cbor_lib \<Rightarrow> cmap \<Rightarrow> cmap \<Rightarrow> string \<Rightarrow> string \<Rightarrow> string \<Rightarrow> string option \<Rightarrow> string \<Rightarrow> string + unit" where
  "verifyDeviceSignature C deviceSigned mso docType clientID nonce encJWKThumbprint responseURI =
     and_then (requireMap C deviceSigned ''deviceAuth'' ''deviceSigned missing deviceAuth'') (\<lambda>deviceAuth.
     and_then (present (if map_of deviceAuth ''deviceMac'' \<noteq> None
                        then ''deviceMac is not supported; deviceSignature required''
                        else ''deviceAuth missing deviceSignature'')
                 (map_of deviceAuth ''deviceSignature'')) (\<lambda>rawSignature.
     and_then (wrap_err ''malformed deviceSignature: '' (decodeCoseSign1 C rawSignature)) (\<lambda>sign1.
     and_then (deviceKeyFromMSO C mso) (\<lambda>deviceKey.
     and_then (present ''deviceSigned missing nameSpaces'' (map_of deviceSigned ''nameSpaces'')) (\<lambda>rawNameSpaces.
     and_then (wrap_err ''re-encoding deviceSigned nameSpaces: '' (cb_Marshal C rawNameSpaces)) (\<lambda>deviceNameSpacesBytes.
     and_then (openID4VPHandover C clientID nonce encJWKThumbprint responseURI) (\<lambda>sessionTranscript.
     and_then (deviceAuthenticationBytes C sessionTranscript docType deviceNameSpacesBytes) (\<lambda>deviceAuthBytes.
     wrap_err ''deviceSignature does not verify against the reconstructed SessionTranscript: ''
       (no_error (verifyCoseSign1Detached C sign1 deviceAuthBytes deviceKey))))))))))"

definition mdoc_Verify ::
  "lib \<Rightarrow> cbor_lib \<Rightarrow> world \<Rightarrow> string \<Rightarrow> string \<Rightarrow> string \<Rightarrow> string \<Rightarrow> string option \<Rightarrow> string \<Rightarrow>
   certificate option \<Rightarrow> string + cmap" where
  "mdoc_Verify L C w vpToken expectedDocType clientID nonce encJWKThumbprint responseURI trustAnchor =
     and_then (parseSingleDocument L C vpToken) (\<lambda>document.
     let docType = text_or_empty (map_of document ''docType'') in
     and_then (requireMap C document ''issuerSigned'' ''Document missing issuerSigned'') (\<lambda>issuerSigned.
     and_then (requireMap C document ''deviceSigned'' ''Document missing deviceSigned'') (\<lambda>deviceSigned.
     and_then (verifyIssuerAuthAndExtractMSO L C (clk w 0) issuerSigned trustAnchor) (\<lambda>mso.
     and_then (no_error (verifyMSOMeta L mso)) (\<lambda>_.
     and_then (no_error (verifyDocType L docType mso expectedDocType)) (\<lambda>_.
     and_then (verifyDigestsAndCollectClaims L C issuerSigned mso) (\<lambda>claims.
     and_then (no_error (verifyValidity C (clk w 1) mso)) (\<lambda>_.
     and_then (verifyDeviceSignature C deviceSigned mso docType clientID nonce encJWKThumbprint responseURI) (\<lambda>_.
     Inr claims)))))))))"

subsection \<open>Certificate chains: the check and its specification\<close>

text \<open>
  A chain is good at an instant when it is not empty, every certificate is within its dates, each
  one but the last is signed by the next, which is a CA, and the last one ends at the anchor: it is
  the anchor itself or signed by it, the anchor being a CA. Without an anchor nothing is asked of
  the last certificate.
\<close>

definition signed_by :: "lib \<Rightarrow> certificate \<Rightarrow> certificate \<Rightarrow> bool" where
  "signed_by L c i \<longleftrightarrow> cert_IsCA i \<and> x509_CheckSignatureFrom L c i = None"

definition ends_at :: "lib \<Rightarrow> certificate \<Rightarrow> certificate option \<Rightarrow> bool" where
  "ends_at L c anchor = (case anchor of None \<Rightarrow> True | Some a \<Rightarrow> cert_Raw c = cert_Raw a \<or> signed_by L c a)"

definition chain_ok :: "lib \<Rightarrow> time \<Rightarrow> certificate list \<Rightarrow> certificate option \<Rightarrow> bool" where
  "chain_ok L now chain anchor \<longleftrightarrow> chain \<noteq> [] \<and>
     (\<forall>c\<in>set chain. cert_NotBefore c \<le> now \<and> now \<le> cert_NotAfter c) \<and>
     successively (signed_by L) chain \<and>
     ends_at L (last chain) anchor"

lemma requireCA_None: "requireCA c = None \<longleftrightarrow> cert_IsCA c"
  by (simp add: requireCA_def)

lemma verifySignedBy_None: "verifySignedBy L c i = None \<longleftrightarrow> x509_CheckSignatureFrom L c i = None"
  by (simp add: verifySignedBy_def split: option.splits)

lemma check_dates_None:
  "check_dates now cs = None \<longleftrightarrow> (\<forall>c\<in>set cs. cert_NotBefore c \<le> now \<and> now \<le> cert_NotAfter c)"
  by (induction now cs rule: check_dates.induct) auto

lemma check_links_None: "check_links L cs = None \<longleftrightarrow> successively (signed_by L) cs"
  by (induction L cs rule: check_links.induct)
    (auto simp: requireCA_def verifySignedBy_def signed_by_def split: option.splits)

lemma ends_at_None:
  "(case anchor of
      Some a \<Rightarrow> if cert_Raw c \<noteq> cert_Raw a
        then (case requireCA a of Some e \<Rightarrow> Some e | None \<Rightarrow> verifySignedBy L c a) else None
    | None \<Rightarrow> if isSelfSigned L c then verifySignedBy L c c else None) = None \<longleftrightarrow> ends_at L c anchor"
  by (auto simp: ends_at_def signed_by_def isSelfSigned_def requireCA_def verifySignedBy_None
      split: option.splits)

lemma validateCertChain_None:
  "validateCertChain L now chain anchor = None \<longleftrightarrow> chain_ok L now chain anchor"
  unfolding validateCertChain_def chain_ok_def Let_def ends_at_None [symmetric]
    check_dates_None [symmetric] check_links_None [symmetric]
  by (auto simp del: not_None_eq split: option.split)

text \<open>C15: \<^verbatim>\<open>validateCertChain\<close> accepts exactly the good chains.\<close>

theorem cert_chain_accepted_iff:
  "validateCertChain L now chain anchor = None \<longleftrightarrow> chain_ok L now chain anchor"
  by (rule validateCertChain_None)

subsection \<open>What acceptance of a DeviceResponse rests on\<close>

lemma bytesEqual_iff [simp]: "bytesEqual a b \<longleftrightarrow> a = b"
  by (induction a b rule: bytesEqual.induct) auto


lemma c_arr_Some [simp]: "c_arr v = Some xs \<longleftrightarrow> v = Some (CArr xs)"
  by (cases v rule: c_arr.cases) auto

lemma c_map_Some [simp]: "c_map v = Some m \<longleftrightarrow> v = Some (CMap m)"
  by (cases v rule: c_map.cases) auto

lemma c_smap_Some [simp]: "c_smap v = Some m \<longleftrightarrow> v = Some (CSMap m)"
  by (cases v rule: c_smap.cases) auto

lemma c_bytes_Some [simp]: "c_bytes v = Some s \<longleftrightarrow> v = Some (CBytes s)"
  by (cases v rule: c_bytes.cases) auto

lemma tag24_Some [simp]: "tag24 v = Some c \<longleftrightarrow> v = CTag tagEncodedCBOR c"
  by (cases v rule: tag24.cases) auto
























lemma verifyMSOMeta_None:
  "verifyMSOMeta L mso = None \<longleftrightarrow> text_or_empty (map_of mso ''version'') = ''1.0'' \<and>
     text_or_empty (map_of mso ''digestAlgorithm'') = ''SHA-256''"
  by (simp add: verifyMSOMeta_def Let_def)


text \<open>
  What \<^verbatim>\<open>Verify\<close> makes of these checks: it accepts exactly when it can reach a document and each of them
  passes on it.
\<close>

lemma mdoc_Verify_Inr:
  "mdoc_Verify L C w vpToken expectedDocType clientID nonce thumbprint responseURI anchor = Inr claims \<longleftrightarrow>
   (\<exists>document issuerSigned deviceSigned mso docType.
     parseSingleDocument L C vpToken = Inr document \<and> docType = text_or_empty (map_of document ''docType'') \<and>
     requireMap C document ''issuerSigned'' ''Document missing issuerSigned'' = Inr issuerSigned \<and>
     requireMap C document ''deviceSigned'' ''Document missing deviceSigned'' = Inr deviceSigned \<and>
     verifyIssuerAuthAndExtractMSO L C (clk w 0) issuerSigned anchor = Inr mso \<and>
     verifyMSOMeta L mso = None \<and> verifyDocType L docType mso expectedDocType = None \<and>
     verifyDigestsAndCollectClaims L C issuerSigned mso = Inr claims \<and> verifyValidity C (clk w 1) mso = None \<and>
     verifyDeviceSignature C deviceSigned mso docType clientID nonce thumbprint responseURI = Inr ())"
  by (auto simp: mdoc_Verify_def Let_def)


subsection \<open>The decoder's own map type\<close>

text \<open>
  Decoding into \<^verbatim>\<open>any\<close>, the CBOR library produces \<^verbatim>\<open>map[any]any\<close> for every map, unless its
  options name another type: only the outermost value, decoded into a declared \<^verbatim>\<open>map[string]any\<close>,
  is keyed by strings.
\<close>

fun any_keyed :: "cbor \<Rightarrow> bool" where
  "any_keyed (CSMap m) = False"
| "any_keyed (CArr xs) = list_all any_keyed xs"
| "any_keyed (CTag n v) = any_keyed v"
| "any_keyed (CMap m) = list_all (\<lambda>(k, v). any_keyed k \<and> any_keyed v) m"
| "any_keyed _ = True"

definition default_map_type :: "cbor_lib \<Rightarrow> bool" where
  "default_map_type C \<longleftrightarrow> (\<forall>raw m. cb_UnmarshalMap C raw = Inr m \<longrightarrow> (\<forall>(k, v) \<in> set m. any_keyed v))"

text \<open>
  The example, under a decoder of this kind: a response with one document of one item. The parts of the document are
  what \<^verbatim>\<open>requireMap\<close> reads from it.
\<close>

definition ex_item :: cmap where
  "ex_item = [(''digestID'', CUint 0), (''elementIdentifier'', CText ''family_name''), (''elementValue'', CText ''Doe'')]"

definition ex_mso :: cmap where
  "ex_mso = [(''version'', CText ''1.0''), (''digestAlgorithm'', CText ''SHA-256''), (''docType'', CText ''pid''),
     (''valueDigests'', CMap [(CText ''ns'', CMap [(CUint 0, CBytes (sha256 ''enc''))])]), (''validityInfo'', CMap []),
     (''deviceKeyInfo'', CMap [(CText ''deviceKey'', CMap [(CInt (- 2), CBytes ''x''), (CInt (- 3), CBytes ''y'')])])]"

definition ex_issuer_signed :: "(cbor \<times> cbor) list" where
  "ex_issuer_signed = [(CText ''issuerAuth'', CText ''ia''),
     (CText ''nameSpaces'', CMap [(CText ''ns'', CArr [CTag 24 (CBytes ''item'')])])]"

definition ex_device_signed :: "(cbor \<times> cbor) list" where
  "ex_device_signed = [(CText ''deviceAuth'', CMap [(CText ''deviceSignature'', CText ''ds'')]), (CText ''nameSpaces'', CMap [])]"

definition ex_document :: cbor where
  "ex_document = CMap [(CText ''docType'', CText ''pid''), (CText ''issuerSigned'', CMap ex_issuer_signed),
     (CText ''deviceSigned'', CMap ex_device_signed)]"

definition ex_cbor :: cbor_lib where
  "ex_cbor = \<lparr>cb_Marshal = (\<lambda>_. Inr ''enc''),
     cb_UnmarshalMap = (\<lambda>s. Inr (if s = ''item'' then ex_item else if s = ''mso'' then ex_mso
       else [(''version'', CText ''1.0''), (''documents'', CArr [ex_document])])),
     cb_UnmarshalIntMap = (\<lambda>_. Inr [(1, CInt (- 7))]), cb_UnmarshalTag = (\<lambda>_. Inr (24, CBytes ''mso'')),
     cb_UnmarshalBytes = Inr, cb_UnmarshalBytesList = (\<lambda>_. Inl ''not a list''),
     cb_UnmarshalSign1 = (\<lambda>_. Inr \<lparr>cs_Protected = [], cs_Unprotected = [(33, ''der'')], cs_Payload = ''payload'',
        cs_Signature = replicate 64 (CHR ''s'')\<rparr>),
     cb_Sprint = (\<lambda>v. text_or_empty (Some v)), cb_TypeName = (\<lambda>_. []), ecdsa_Verify = (\<lambda>_ _ _ _. True),
     time_ParseRFC3339 = (\<lambda>_. Inl ''bad date''), time_FormatRFC3339 = (\<lambda>_. [])\<rparr>"

definition ex_now :: world where
  "ex_now = \<lparr>clk = (\<lambda>_. 0), rnd = (\<lambda>_ _. []), ord = id\<rparr>"

lemmas ex_mdoc_defs = ex_item_def ex_mso_def ex_document_def ex_issuer_signed_def ex_device_signed_def ex_cbor_def

lemma ex_cbor_default: "default_map_type ex_cbor"
  by (auto simp: default_map_type_def ex_mdoc_defs split: if_splits)

abbreviation ex_document_map :: cmap where
  "ex_document_map \<equiv> [(''docType'', CText ''pid''), (''issuerSigned'', CMap ex_issuer_signed),
     (''deviceSigned'', CMap ex_device_signed)]"

abbreviation ex_issuer_map :: cmap where
  "ex_issuer_map \<equiv> [(''issuerAuth'', CText ''ia''), (''nameSpaces'', CMap [(CText ''ns'', CArr [CTag 24 (CBytes ''item'')])])]"

abbreviation ex_device_map :: cmap where
  "ex_device_map \<equiv> [(''deviceAuth'', CMap [(CText ''deviceSignature'', CText ''ds'')]), (''nameSpaces'', CMap [])]"

lemma ex_parts:
  "requireMap ex_cbor ex_document_map ''issuerSigned'' e = Inr ex_issuer_map"
  "requireMap ex_cbor ex_document_map ''deviceSigned'' e = Inr ex_device_map"
  by (simp_all add: requireMap_def ex_mdoc_defs text_or_empty_def)



text \<open>
  C13: with the decoder's documented map type no DeviceResponse is ever accepted: the assertion that
  its first document is a \<^verbatim>\<open>map[string]any\<close> fails on every input (unlike the other reads, which go
  through \<^verbatim>\<open>requireMap\<close> and take both map types).
\<close>

theorem default_decoder_rejects_mdoc:
  assumes "default_map_type C"
  shows "\<exists>e. mdoc_Verify L C w vpToken expectedDocType clientID nonce thumbprint responseURI anchor = Inl e"
proof -
  have "parseSingleDocument L C vpToken \<noteq> Inr document" for document
  proof
    assume "parseSingleDocument L C vpToken = Inr document"
    then obtain raw m docs where m: "cb_UnmarshalMap C raw = Inr m" "map_of m ''documents'' = Some (CArr docs)"
      "docs \<noteq> []" "docs ! 0 = CSMap document"
      by (auto simp: parseSingleDocument_def first_document_def Let_def split: option.splits sum.splits if_splits)
    have "any_keyed (CArr docs)"
      using assms m(1) map_of_SomeD [OF m(2)] unfolding default_map_type_def by blast
    then show False using m(3,4) by (auto simp: list_all_length)
  qed
  then show ?thesis by (metis mdoc_Verify_Inr obj_sumE)
qed

text \<open>The example response: its document passes every check, and is rejected.\<close>

theorem default_decoder_rejects_mdoc_witness:
  "\<exists>e. mdoc_Verify ex_lib ex_cbor ex_now ''segx'' ''pid'' ''client'' ''n'' None ''https://v'' (Some ex_anchor) = Inl e"
  by (rule default_decoder_rejects_mdoc [OF ex_cbor_default])

end
