(* ===== verification/Keys.thy ===== *)
theory Keys
  imports Session_Store Token_Mint Sdjwt_Verify
begin

text \<open>
  \<^verbatim>\<open>internal/crypto\<close>: the three kinds of key of the service. The access-token key is read from PEM
  files (\<^verbatim>\<open>signingkey.go\<close>), the request-signing key wraps a remote signer and its certificate chain
  (\<^verbatim>\<open>requestsigningkey.go\<close>), the response-encryption key is generated per session
  (\<^verbatim>\<open>responseencryptionkey.go\<close>); \<^verbatim>\<open>walletprovider.go\<close> reads the optional trust anchor. Files, PEM, key
  parsing and JWE are the argument \<open>J\<close>.
\<close>

record crypto_signer =
  sg_handle :: int
  sg_Public :: ec_public

record key_lib =
  fs_Stat :: "string \<Rightarrow> bool" \<comment> \<open>\<^verbatim>\<open>os.Stat\<close> succeeds\<close>
  fs_ReadFile :: "string \<Rightarrow> (bool \<times> string) + string" \<comment> \<open>\<open>Inl (b, e)\<close>: failure, \<open>b\<close> when the file does not exist\<close>
  fs_Join :: "string \<Rightarrow> string \<Rightarrow> string"
  pem_Decode :: "string \<Rightarrow> string option"
  x509_ParsePKCS8 :: "string \<Rightarrow> string + crypto_signer option" \<comment> \<open>\<open>Inr None\<close>: a key of another kind\<close>
  x509_ParseEC :: "string \<Rightarrow> string + crypto_signer"
  ecdsa_GenerateKey :: "(nat \<Rightarrow> string) \<Rightarrow> string + crypto_signer"
  ecdh_Key :: "int \<Rightarrow> string + int"
  jwk_Set :: "jwk \<Rightarrow> string \<Rightarrow> json \<Rightarrow> string + jwk"
  jwk_SetJSON :: "jwk list \<Rightarrow> string + string"
  cert_AddString :: "string \<Rightarrow> string option" \<comment> \<open>\<open>None\<close>: accepted\<close>
  jwe_ParseKID :: "string \<Rightarrow> string + string option"
  jwe_Decrypt :: "string \<Rightarrow> int \<Rightarrow> string + string"

text \<open>\<^verbatim>\<open>jwk.Import\<close>, the RFC 7638 thumbprint as key id, and the three members every public key is given.\<close>

definition thumbprint_kid :: "lib \<Rightarrow> jwk \<Rightarrow> string + string" where
  "thumbprint_kid L k = and_then (jwk_Thumbprint L k) (\<lambda>t. Inr (RawURL_Encode t))"

definition annotated :: "key_lib \<Rightarrow> jwk \<Rightarrow> string \<Rightarrow> string \<Rightarrow> string \<Rightarrow> string + jwk" where
  "annotated J public kid alg use =
     and_then (jwk_Set J public ''kid'' (JStr kid)) (\<lambda>p1.
     and_then (jwk_Set J p1 ''alg'' (JStr alg)) (\<lambda>p2. jwk_Set J p2 ''use'' (JStr use)))"

subsection \<open>The access-token signing key\<close>

definition parseECPrivateKey :: "key_lib \<Rightarrow> string \<Rightarrow> string + crypto_signer" where
  "parseECPrivateKey J der = (case x509_ParsePKCS8 J der of
     Inr (Some ecKey) \<Rightarrow> Inr ecKey
   | Inr None \<Rightarrow> Inl ''not an EC private key''
   | Inl _ \<Rightarrow> x509_ParseEC J der)"

definition newSigningKey :: "lib \<Rightarrow> key_lib \<Rightarrow> crypto_signer \<Rightarrow> string + signing_key" where
  "newSigningKey L J private =
     and_then (jwk_Import L (sg_Public private)) (\<lambda>public.
     and_then (thumbprint_kid L public) (\<lambda>kid.
     and_then (annotated J public kid ES256 ''sig'') (\<lambda>published.
     Inr \<lparr>sk_kid = kid, sk_private = sg_handle private, sk_public = published\<rparr>)))"

abbreviation fileExists :: "key_lib \<Rightarrow> string \<Rightarrow> bool" where "fileExists J path \<equiv> fs_Stat J path"

text \<open>The UTF-8 bytes of the dash in an error text.\<close>

definition em_dash :: string where
  "em_dash = [CHR 0xE2, CHR 0x80, CHR 0x94]"

definition LoadFromPEM :: "lib \<Rightarrow> key_lib \<Rightarrow> string \<Rightarrow> string + signing_key" where
  "LoadFromPEM L J certsDir = (let keyPath = fs_Join J certsDir ''idp-key.pem'' in
     if \<not> fileExists J keyPath
     then Inl (''crypto: no access-token signing key configured '' @ em_dash @ '' place idp-key.pem in '' @ certsDir)
     else case fs_ReadFile J keyPath of
       Inl (_, e) \<Rightarrow> Inl (''crypto: reading '' @ keyPath @ '': '' @ e)
     | Inr keyPEM \<Rightarrow>
     case pem_Decode J keyPEM of
       None \<Rightarrow> Inl (''crypto: '' @ keyPath @ '': no PEM block found'')
     | Some block \<Rightarrow>
     case parseECPrivateKey J block of
       Inl e \<Rightarrow> Inl (''crypto: parsing '' @ keyPath @ '': '' @ e)
     | Inr private \<Rightarrow> newSigningKey L J private)"

definition JWKSetJSON :: "key_lib \<Rightarrow> signing_key \<Rightarrow> string + string" where
  "JWKSetJSON J k = jwk_SetJSON J [sk_public k]"

subsection \<open>The wallet provider anchor\<close>

definition LoadWalletProviderAnchor :: "lib \<Rightarrow> key_lib \<Rightarrow> string \<Rightarrow> string + certificate option" where
  "LoadWalletProviderAnchor L J certsDir = (case fs_ReadFile J (fs_Join J certsDir ''root-ca.crt'') of
     Inl (notExist, e) \<Rightarrow> if notExist then Inr None else Inl e
   | Inr content \<Rightarrow>
       (let der = (case pem_Decode J content of Some block \<Rightarrow> block | None \<Rightarrow> content) in
        and_then (x509_ParseCertificate L der) (\<lambda>c. Inr (Some c))))"

subsection \<open>The request-signing key\<close>

record request_signing_key =
  rsk_kid :: string
  rsk_signer :: crypto_signer
  rsk_x5cChain :: "string list"

abbreviation RequestSigningKey_KID :: "request_signing_key \<Rightarrow> string" where "RequestSigningKey_KID k \<equiv> rsk_kid k"
abbreviation RequestSigningKey_Signer :: "request_signing_key \<Rightarrow> crypto_signer" where "RequestSigningKey_Signer k \<equiv> rsk_signer k"
abbreviation X5CChain :: "request_signing_key \<Rightarrow> string list" where "X5CChain k \<equiv> rsk_x5cChain k"

definition NewRequestSigningKey :: "lib \<Rightarrow> crypto_signer \<Rightarrow> string list \<Rightarrow> string + request_signing_key" where
  "NewRequestSigningKey L signer certChainDER =
     and_then (jwk_Import L (sg_Public signer)) (\<lambda>pub.
     and_then (thumbprint_kid L pub) (\<lambda>kid.
     Inr \<lparr>rsk_kid = kid, rsk_signer = signer, rsk_x5cChain = certChainDER\<rparr>))"

definition LeafDER :: "request_signing_key \<Rightarrow> string" where
  "LeafDER k = (case rsk_x5cChain k of [] \<Rightarrow> [] | der # _ \<Rightarrow> der)"

fun add_certs :: "key_lib \<Rightarrow> string list \<Rightarrow> string + string list" where
  "add_certs J [] = Inr []"
| "add_certs J (der # ders) = (case cert_AddString J (Std_Encode der) of
     Some e \<Rightarrow> Inl e
   | None \<Rightarrow> and_then (add_certs J ders) (\<lambda>chain. Inr (Std_Encode der # chain)))"

definition JOSEX5CChain :: "key_lib \<Rightarrow> request_signing_key \<Rightarrow> string + string list option" where
  "JOSEX5CChain J k = (if rsk_x5cChain k = [] then Inr None
     else and_then (add_certs J (rsk_x5cChain k)) (\<lambda>chain. Inr (Some chain)))"

subsection \<open>Response-encryption keys\<close>

definition ResponseEncryptionAlg :: string where
  "ResponseEncryptionAlg = ''ECDH-ES''"

definition ResponseEncryptionEncValues :: "string list" where
  "ResponseEncryptionEncValues = [''A128GCM'', ''A256GCM'']"

definition GenerateResponseEncryptionKey ::
  "lib \<Rightarrow> key_lib \<Rightarrow> (nat \<Rightarrow> string) \<Rightarrow> string + response_encryption_key" where
  "GenerateResponseEncryptionKey L J draw =
     and_then (wrap_err ''crypto: generating response encryption key: '' (ecdsa_GenerateKey J draw)) (\<lambda>private.
     and_then (jwk_Import L (sg_Public private)) (\<lambda>public.
     and_then (thumbprint_kid L public) (\<lambda>kid.
     and_then (annotated J public kid ResponseEncryptionAlg ''enc'') (\<lambda>published.
     Inr \<lparr>rek_private = sg_handle private, rek_public = published, rek_kid = kid\<rparr>))))"

definition ThumbprintSHA256 :: "lib \<Rightarrow> response_encryption_key \<Rightarrow> string + string" where
  "ThumbprintSHA256 L k = jwk_Thumbprint L (rek_public k)"

fun jwk_json :: "jwk \<Rightarrow> json" where
  "jwk_json (JWK members) = JObj members"

definition rek_PublicJWK :: "lib \<Rightarrow> response_encryption_key \<Rightarrow> string + json_map" where
  "rek_PublicJWK L k = and_then (json_Marshal L (jwk_json (rek_public k))) (\<lambda>raw. unmarshal_map L raw)"

definition PeekResponseEncryptionKID :: "key_lib \<Rightarrow> string \<Rightarrow> string + string" where
  "PeekResponseEncryptionKID J compactJWE =
     and_then (wrap_err ''crypto: parsing direct_post.jwt response: '' (jwe_ParseKID J compactJWE)) (\<lambda>kid.
     Inr (case kid of None \<Rightarrow> [] | Some k \<Rightarrow> k))"

definition rek_Decrypt :: "key_lib \<Rightarrow> response_encryption_key \<Rightarrow> string \<Rightarrow> string + string" where
  "rek_Decrypt J k compactJWE =
     and_then (wrap_err ''crypto: converting response encryption key: '' (ecdh_Key J (rek_private k))) (\<lambda>ecdhKey.
     wrap_err ''crypto: decrypting direct_post.jwt response: '' (jwe_Decrypt J compactJWE ecdhKey))"

end
