(* ===== verification/Verifier.thy ===== *)
theory Verifier
  imports Sdjwt_Verify Mdoc_Verify Issuer_Client Keys
begin

text \<open>
  \<^verbatim>\<open>internal/verifier\<close> (\<^verbatim>\<open>service.go\<close>, \<^verbatim>\<open>requestobject.go\<close>): the OID4VP verifier. A verification session is
  created with a signed request object, the wallet's response is decrypted, attributed to the
  requested credentials and verified, and the outcome is recorded for the frontend's poll. The
  sessions live in the store of \<^verbatim>\<open>internal/session\<close>, which every operation takes and returns. Where a
  status list makes the code panic the result of \<open>HandleResponse\<close> is \<open>None\<close>.
\<close>

definition APIPrefix :: string where "APIPrefix = ''/oid4vp/v1''"
definition FormatSDJWTVC :: string where "FormatSDJWTVC = ''dc+sd-jwt''"
definition FormatMsoMdoc :: string where "FormatMsoMdoc = ''mso_mdoc''"
definition ResponseTypeVPToken :: string where "ResponseTypeVPToken = ''vp_token''"
definition JARType :: string where "JARType = ''oauth-authz-req+jwt''"
definition ResponseModeDirectPost :: string where "ResponseModeDirectPost = ''direct_post''"
definition ResponseModeDirectPostJWT :: string where "ResponseModeDirectPostJWT = ''direct_post.jwt''"
definition requestObjectTTL :: duration where [const_defs]: "requestObjectTTL = 5 * minute"

record verifier_service =
  vf_baseURL :: string
  vf_signingKey :: request_signing_key
  vf_responseMode :: string

definition verifier_NewService :: "string \<Rightarrow> request_signing_key \<Rightarrow> string \<Rightarrow> verifier_service" where
  "verifier_NewService baseURL signingKey responseMode =
     \<lparr>vf_baseURL = baseURL, vf_signingKey = signingKey,
      vf_responseMode = (if responseMode = [] then ResponseModeDirectPostJWT else responseMode)\<rparr>"

record credential_request =
  crq_ID :: string
  crq_CredentialType :: string
  crq_Claims :: "string list"
  crq_Format :: string

record create_session_result =
  csr_SessionID :: string
  csr_RequestURI :: string
  csr_ClientID :: string
  csr_State :: string

subsection \<open>The request\<close>

text \<open>
  \<^verbatim>\<open>strings.ToLower\<close> on UTF-8 bytes, as far as ASCII is concerned: besides the ASCII capitals only the
  dotted capital I (bytes C4 B0) and the Kelvin sign (E2 84 AA) have an ASCII lower case; the image of
  every other rune is not ASCII and is left as it is.
\<close>

fun ToLower :: "string \<Rightarrow> string" where
  "ToLower [] = []"
| "ToLower (c # s) =
     (if take 2 (c # s) = [CHR 0xC4, CHR 0xB0] then CHR ''i'' # ToLower (drop 1 s)
      else if take 3 (c # s) = [CHR 0xE2, CHR 0x84, CHR 0xAA] then CHR ''k'' # ToLower (drop 2 s)
      else ascii_lower [c] @ ToLower s)"

definition isMdocFormat :: "string \<Rightarrow> bool" where
  "isMdocFormat format \<longleftrightarrow> ToLower (TrimSpace format) \<in> {FormatMsoMdoc, ''mdoc'', ''iso_mdl''}"

definition dcql_credential :: "credential_request \<Rightarrow> dcql_credential_query" where
  "dcql_credential req =
     (if isMdocFormat (crq_Format req)
      then \<lparr>dcq_ID = crq_ID req, dcq_Format = FormatMsoMdoc,
            dcq_Meta = Some \<lparr>dm_VCTValues = [], dm_DoctypeValue = crq_CredentialType req\<rparr>,
            dcq_Claims = map (\<lambda>name. \<lparr>dclm_Path = [crq_CredentialType req, name], dclm_Values = [], dclm_Essential = None\<rparr>)
              (crq_Claims req)\<rparr>
      else \<lparr>dcq_ID = crq_ID req, dcq_Format = FormatSDJWTVC,
            dcq_Meta = Some \<lparr>dm_VCTValues = [crq_CredentialType req], dm_DoctypeValue = []\<rparr>,
            dcq_Claims = map (\<lambda>name. \<lparr>dclm_Path = [name], dclm_Values = [], dclm_Essential = None\<rparr>)
              (crq_Claims req)\<rparr>)"

definition buildDCQLQuery :: "credential_request list \<Rightarrow> dcql_query" where
  "buildDCQLQuery requests =
     \<lparr>dq_Credentials = map dcql_credential requests,
      dq_CredentialSets = (if length requests > 1 then [\<lparr>dcs_Options = [map crq_ID requests]\<rparr>] else [])\<rparr>"

text \<open>The JSON of a DCQL query, by the tags of its struct fields (\<^verbatim>\<open>omitempty\<close> drops an empty one).\<close>

definition json_strings :: "string list \<Rightarrow> json" where
  "json_strings xs = JArr (map JStr xs)"

definition claim_query_json :: "dcql_claim_query \<Rightarrow> json" where
  "claim_query_json c = JObj ([(''path'', json_strings (dclm_Path c))] @
     (if dclm_Values c = [] then [] else [(''values'', json_strings (dclm_Values c))]) @
     (case dclm_Essential c of None \<Rightarrow> [] | Some b \<Rightarrow> [(''essential'', JBool b)]))"

definition meta_json :: "dcql_meta \<Rightarrow> json" where
  "meta_json m = JObj ((if dm_VCTValues m = [] then [] else [(''vct_values'', json_strings (dm_VCTValues m))]) @
     (if dm_DoctypeValue m = [] then [] else [(''doctype_value'', JStr (dm_DoctypeValue m))]))"

definition credential_query_json :: "dcql_credential_query \<Rightarrow> json" where
  "credential_query_json c = JObj ([(''id'', JStr (dcq_ID c)), (''format'', JStr (dcq_Format c))] @
     (case dcq_Meta c of None \<Rightarrow> [] | Some m \<Rightarrow> [(''meta'', meta_json m)]) @
     (if dcq_Claims c = [] then [] else [(''claims'', JArr (map claim_query_json (dcq_Claims c)))]))"

definition dcql_json :: "dcql_query \<Rightarrow> json" where
  "dcql_json q = JObj ([(''credentials'', JArr (map credential_query_json (dq_Credentials q)))] @
     (if dq_CredentialSets q = [] then []
      else [(''credential_sets'',
        JArr (map (\<lambda>c. JObj [(''options'', JArr (map json_strings (dcs_Options c)))]) (dq_CredentialSets q)))]))"

definition vp_format :: "dcql_credential_query \<Rightarrow> json_map \<Rightarrow> json_map" where
  "vp_format cred formats =
     (if dcq_Format cred = FormatMsoMdoc
      then AList.update FormatMsoMdoc (JObj [(''alg'', JArr [JNum (- 7)])]) formats
      else if dcq_Format cred = FormatSDJWTVC
      then AList.update FormatSDJWTVC (JObj [(''sd-jwt_alg_values'', json_strings [''ES256'']),
             (''kb-jwt_alg_values'', json_strings [''ES256''])]) formats
      else formats)"

text \<open>
  \<open>None\<close> is the panic of \<^verbatim>\<open>PublicJWK\<close> on a nil key, which \<open>CreateSession\<close> never passes with an
  encrypted mode.
\<close>

definition buildClientMetadata ::
  "lib \<Rightarrow> verifier_service \<Rightarrow> dcql_query \<Rightarrow> response_encryption_key option \<Rightarrow> (string + json_map) option" where
  "buildClientMetadata L svc dcql encryptionKey =
     (let metadata = [(''vp_formats_supported'', JObj (fold vp_format (dq_Credentials dcql) []))] in
      if vf_responseMode svc = ResponseModeDirectPostJWT
      then case encryptionKey of
          None \<Rightarrow> None
        | Some key \<Rightarrow> Some (and_then (rek_PublicJWK L key) (\<lambda>publicJWK.
            Inr (metadata @ [(''jwks'', JObj [(''keys'', JArr [JObj publicJWK])]),
              (''encrypted_response_enc_values_supported'', json_strings ResponseEncryptionEncValues)])))
      else Some (Inr metadata))"

definition certHash :: "verifier_service \<Rightarrow> string + string" where
  "certHash svc = (let der = LeafDER (vf_signingKey svc) in
     if der = []
     then Inl ''verifier: x509_hash client_id requires a certificate, but the signing key has no x5c chain''
     else Inr (''x509_hash:'' @ RawURL_Encode (sha256 der)))"

definition verifier_clientID :: "verifier_service \<Rightarrow> string + string" where
  "verifier_clientID svc = certHash svc"

record authorization_request =
  ar_ResponseType :: string
  ar_ClientID :: string
  ar_ResponseMode :: string
  ar_ResponseURI :: string
  ar_Nonce :: string
  ar_State :: string
  ar_DCQLQuery :: dcql_query
  ar_ClientMetadata :: json_map
  ar_Audience :: string
  ar_Issuer :: string

definition requestObjectHeaders :: "key_lib \<Rightarrow> request_signing_key \<Rightarrow> string + jws_headers" where
  "requestObjectHeaders J key = and_then (JOSEX5CChain J key) (\<lambda>chain.
     Inr \<lparr>jh_Type = Some JARType, jh_Algorithm = None, jh_KeyID = Some (RequestSigningKey_KID key), jh_JWK = None,
          jh_X509CertChain = chain\<rparr>)"

definition request_body :: "time \<Rightarrow> authorization_request \<Rightarrow> jwt_builder" where
  "request_body now req =
     \<lparr>jb_Issuer = ar_Issuer req, jb_Audience = [ar_Audience req], jb_IssuedAt = now,
      jb_Expiration = now + requestObjectTTL, jb_JwtID = None, jb_Subject = None,
      jb_Claims = [(''response_type'', JStr (ar_ResponseType req)), (''client_id'', JStr (ar_ClientID req)),
        (''response_mode'', JStr (ar_ResponseMode req)), (''response_uri'', JStr (ar_ResponseURI req)),
        (''nonce'', JStr (ar_Nonce req)), (''state'', JStr (ar_State req)),
        (''dcql_query'', dcql_json (ar_DCQLQuery req)), (''client_metadata'', JObj (ar_ClientMetadata req))]\<rparr>"

definition signRequestObject ::
  "lib \<Rightarrow> key_lib \<Rightarrow> verifier_service \<Rightarrow> time \<Rightarrow> authorization_request \<Rightarrow> string + string" where
  "signRequestObject L J svc now req =
     and_then (requestObjectHeaders J (vf_signingKey svc)) (\<lambda>headers.
     jwt_Sign L (request_body now req) headers (sg_handle (RequestSigningKey_Signer (vf_signingKey svc))))"

definition session_key ::
  "lib \<Rightarrow> key_lib \<Rightarrow> verifier_service \<Rightarrow> (nat \<Rightarrow> string) \<Rightarrow> string + response_encryption_key option" where
  "session_key L J svc draw =
     (if vf_responseMode svc = ResponseModeDirectPostJWT
      then and_then (GenerateResponseEncryptionKey L J draw) (\<lambda>k. Inr (Some k)) else Inr None)"

text \<open>
  The request and the session \<open>CreateSession\<close> builds from the values it draws. The metadata is
  built from the key just generated.
\<close>

definition response_uri :: "verifier_service \<Rightarrow> string" where
  "response_uri svc = vf_baseURL svc @ APIPrefix @ ''/response''"

definition session_request ::
  "verifier_service \<Rightarrow> string \<Rightarrow> string \<Rightarrow> string \<Rightarrow> dcql_query \<Rightarrow> json_map \<Rightarrow> authorization_request" where
  "session_request svc clientID state nonce dcql clientMetadata =
     \<lparr>ar_ResponseType = ResponseTypeVPToken, ar_ClientID = clientID, ar_ResponseMode = vf_responseMode svc,
      ar_ResponseURI = response_uri svc, ar_Nonce = nonce, ar_State = state, ar_DCQLQuery = dcql,
      ar_ClientMetadata = clientMetadata, ar_Audience = ''https://self-issued.me/v2'', ar_Issuer = clientID\<rparr>"

definition new_session ::
  "verifier_service \<Rightarrow> world \<Rightarrow> credential_request list \<Rightarrow> string \<Rightarrow> response_encryption_key option \<Rightarrow> string \<Rightarrow>
   verification_session" where
  "new_session svc w creds clientID encryptionKey requestJWT =
     \<lparr>vs_SessionID = RandomToken 16 (rnd w 0), vs_State = RandomToken 32 (rnd w 1), vs_Nonce = RandomToken 32 (rnd w 2),
      vs_DCQLQuery = buildDCQLQuery creds, vs_ResponseMode = vf_responseMode svc, vs_ClientID = clientID,
      vs_ResponseURI = response_uri svc, vs_RequestJWT = requestJWT, vs_EncryptionKey = encryptionKey,
      vs_Status = ''pending'', vs_VPTokens = [], vs_VerifiedClaims = [], vs_SubjectID = [], vs_Error = [],
      vs_CreatedAt = zero_time\<rparr>"

definition CreateSession ::
  "lib \<Rightarrow> key_lib \<Rightarrow> verifier_service \<Rightarrow> world \<Rightarrow> credential_request list \<Rightarrow> store \<Rightarrow>
   (string + create_session_result) option \<times> store" where
  "CreateSession L J svc w creds s =
     (if creds = [] then (Some (Inl ''verifier: CreateSession requires at least one credential''), s)
      else let sessionID = RandomToken 16 (rnd w 0); state = RandomToken 32 (rnd w 1); nonce = RandomToken 32 (rnd w 2);
               dcql = buildDCQLQuery creds in
      case and_then (verifier_clientID svc) (\<lambda>clientID. and_then (session_key L J svc (rnd w 3)) (\<lambda>key. Inr (clientID, key))) of
        Inl e \<Rightarrow> (Some (Inl e), s)
      | Inr (clientID, encryptionKey) \<Rightarrow>
      case buildClientMetadata L svc dcql encryptionKey of
        None \<Rightarrow> (None, s)
      | Some metadata \<Rightarrow>
      case and_then metadata (\<lambda>clientMetadata.
             signRequestObject L J svc (clk w 0) (session_request svc clientID state nonce dcql clientMetadata)) of
        Inl e \<Rightarrow> (Some (Inl e), s)
      | Inr requestJWT \<Rightarrow>
        (Some (Inr \<lparr>csr_SessionID = sessionID, csr_RequestURI = vf_baseURL svc @ APIPrefix @ ''/request/'' @ sessionID,
           csr_ClientID = clientID, csr_State = state\<rparr>),
         StoreVerification (clk w 1) (new_session svc w creds clientID encryptionKey requestJWT) s))"

definition GetRequestObject :: "world \<Rightarrow> string \<Rightarrow> store \<Rightarrow> (go_error + string) \<times> store" where
  "GetRequestObject w sessionID s = (let (found, s1) = FindVerification (clk w 0) sessionID s in
     case found of
       None \<Rightarrow> (Inl (NotFound InvalidRequest ''Session not found or expired''), s1)
     | Some v \<Rightarrow> (Inr (vs_RequestJWT v), UpdateVerificationStatus (clk w 1) sessionID ''request_sent'' s1))"


subsection \<open>The response\<close>

record response_request =
  rr_VPToken :: string
  rr_State :: string
  rr_Response :: string

record verifier_result =
  vr_Status :: string
  vr_Claims :: json_map
  vr_Error :: string
  vr_ErrorDescription :: string

definition StatusSuccess :: string where "StatusSuccess = ''success''"
definition StatusError :: string where "StatusError = ''error''"

definition successResult :: "json_map \<Rightarrow> verifier_result" where
  "successResult claims = \<lparr>vr_Status = StatusSuccess, vr_Claims = claims, vr_Error = [], vr_ErrorDescription = []\<rparr>"

definition errorResult :: "string \<Rightarrow> string \<Rightarrow> verifier_result" where
  "errorResult code description =
     \<lparr>vr_Status = StatusError, vr_Claims = [], vr_Error = code, vr_ErrorDescription = description\<rparr>"

text \<open>The entries of a map in the order Go ranges over them.\<close>

definition ranged :: "world \<Rightarrow> (string \<times> 'a) list \<Rightarrow> (string \<times> 'a) list" where
  "ranged w m = map (\<lambda>k. (k, the (map_of m k))) (ord w (map fst m))"

definition jwkThumbprint :: "lib \<Rightarrow> jwk \<Rightarrow> string + string" where
  "jwkThumbprint L key = and_then (jwk_Thumbprint L key) (\<lambda>t. Inr (RawURL_Encode t))"

definition hex_digit :: "nat \<Rightarrow> char" where
  "hex_digit n = char_of (if n < 10 then n + 48 else n + 87)"

definition hex_EncodeToString :: "string \<Rightarrow> string" where
  "hex_EncodeToString s = concat (map (\<lambda>c. [hex_digit (byte_val c div 16), hex_digit (byte_val c mod 16)]) s)"

definition subjectIDFromHolderKeys :: "lib \<Rightarrow> world \<Rightarrow> (string \<times> jwk) list \<Rightarrow> string + string" where
  "subjectIDFromHolderKeys L w holderKeys = (case ranged w holderKeys of
     [] \<Rightarrow> Inl ''no holder-bound credential in this presentation to derive a subject id from''
   | (_, key) # _ \<Rightarrow> and_then (wrap_err ''computing subject id: '' (jwkThumbprint L key)) (\<lambda>thumb.
       Inr (hex_EncodeToString (sha256 thumb))))"

definition mergeClaims :: "world \<Rightarrow> (string \<times> json_map) list \<Rightarrow> json_map" where
  "mergeClaims w perCredential =
     fold (\<lambda>(_, claims) merged. fold (\<lambda>(k, v) m. AList.update k v m) (ranged w claims) merged) (ranged w perCredential) []"

text \<open>\<open>firstThumb\<close> is empty until the first key has been seen.\<close>

fun same_holder ::
  "lib \<Rightarrow> (string \<times> jwk) list \<Rightarrow> string \<Rightarrow> string \<Rightarrow> string option" where
  "same_holder L [] firstID firstThumb = None"
| "same_holder L ((cid, key) # keys) firstID firstThumb = (case jwkThumbprint L key of
     Inl e \<Rightarrow> Some (''credential '' @ strconv_Quote L cid @ '': computing holder key thumbprint: '' @ e)
   | Inr thumb \<Rightarrow>
       if firstThumb = [] then same_holder L keys cid thumb
       else if thumb \<noteq> firstThumb
       then Some (''credential '' @ strconv_Quote L cid @ '' is not bound to the same holder key as credential '' @
              strconv_Quote L firstID)
       else same_holder L keys firstID firstThumb)"

definition verifyCrossCredentialBinding :: "lib \<Rightarrow> world \<Rightarrow> (string \<times> jwk) list \<Rightarrow> string option" where
  "verifyCrossCredentialBinding L w holderKeys = same_holder L (ranged w holderKeys) [] []"

text \<open>The value of an mdoc claim as a dynamic Go value.\<close>

function any_of_cbor :: "cbor \<Rightarrow> json" where
  "any_of_cbor CNil = JNull"
| "any_of_cbor (CInt n) = JNum (of_int n)"
| "any_of_cbor (CUint n) = JNum (of_nat n)"
| "any_of_cbor (CBytes s) = JBytes s"
| "any_of_cbor (CText s) = JStr s"
| "any_of_cbor (CTime t) = JTime t"
| "any_of_cbor (CArr xs) = JArr (map any_of_cbor xs)"
| "any_of_cbor (CMap m) = JObj []"
| "any_of_cbor (CSMap m) = JObj (map (\<lambda>(k, v). (k, any_of_cbor v)) m)"
| "any_of_cbor (CTag n v) = any_of_cbor v"
| "any_of_cbor (CRaw s) = JBytes s"
| "any_of_cbor (COther j) = j"
  by pat_completeness auto
termination
  by (relation "measure size") (auto simp: less_Suc_eq_le elim!: size_list_estimation')

text \<open>
  \<open>cborToGo\<close> leaves neither a \<^verbatim>\<open>map[any]any\<close> nor a tag nor a raw message in what it returns; those
  cases of \<open>any_of_cbor\<close> do not arise.
\<close>

text \<open>The readings of the clock that remain after the first \<open>n\<close>.\<close>

definition after :: "nat \<Rightarrow> world \<Rightarrow> world" where
  "after n w = w\<lparr>clk := (\<lambda>i. clk w (n + i))\<rparr>"

lemma after_simps [simp]: "clk (after n w) i = clk w (n + i)" "ord (after n w) = ord w" "rnd (after n w) = rnd w"
  by (simp_all add: after_def)

text \<open>Claims and holder key of one credential; the outer \<open>None\<close> is a panic.\<close>

definition mdoc_thumbprint :: "lib \<Rightarrow> verification_session \<Rightarrow> (string + string option) option" where
  "mdoc_thumbprint L v =
     (if vs_ResponseMode v = ResponseModeDirectPostJWT
      then (case vs_EncryptionKey v of
              None \<Rightarrow> None
            | Some key \<Rightarrow> Some (and_then (ThumbprintSHA256 L key) (\<lambda>t. Inr (Some t))))
      else Some (Inr None))"

definition status_error :: "lib \<Rightarrow> net \<Rightarrow> json_map option \<Rightarrow> string option option" where
  "status_error L N status = (case ParseRef status of None \<Rightarrow> Some None | Some ref \<Rightarrow> CheckValid L N ref)"

definition verifyPresentation ::
  "lib \<Rightarrow> cbor_lib \<Rightarrow> net \<Rightarrow> world \<Rightarrow> verification_session \<Rightarrow> dcql_credential_query \<Rightarrow> string \<Rightarrow>
   (string + json_map \<times> jwk option) option" where
  "verifyPresentation L C N w v cred vpToken =
     (if dcq_Format cred = FormatMsoMdoc
      then map_option (\<lambda>r. and_then r (\<lambda>thumbprint.
          let docType = (case dcq_Meta cred of None \<Rightarrow> [] | Some m \<Rightarrow> dm_DoctypeValue m) in
          and_then (mdoc_Verify L C w vpToken docType (vs_ClientID v) (vs_Nonce v) thumbprint (vs_ResponseURI v) None)
            (\<lambda>claims. Inr (map (\<lambda>(k, c). (k, any_of_cbor c)) claims, None))))
        (mdoc_thumbprint L v)
      else let (result, verifyErr) = VerifyWithStatus L (clk w 0) vpToken (vs_ClientID v) (vs_Nonce v) in
      case status_error L N (sdr_Status result) of
        None \<Rightarrow> None
      | Some statusErr \<Rightarrow>
          (case (verifyErr, statusErr) of
             (Some e, _) \<Rightarrow> Some (Inl e)
           | (None, Some e) \<Rightarrow> Some (Inl e)
           | (None, None) \<Rightarrow> Some (Inr (sdr_Claims result, sdr_HolderKey result))))"

text \<open>The loop of \<^verbatim>\<open>verifyPresentations\<close>; the \<open>i\<close>-th credential reads the clock from \<open>2 * i\<close> on.\<close>

fun verify_each ::
  "lib \<Rightarrow> cbor_lib \<Rightarrow> net \<Rightarrow> world \<Rightarrow> verification_session \<Rightarrow> (string \<times> string) list \<Rightarrow> dcql_credential_query list \<Rightarrow>
   (string \<times> json_map) list \<Rightarrow> (string \<times> jwk) list \<Rightarrow> (string + (string \<times> json_map) list \<times> (string \<times> jwk) list) option" where
  "verify_each L C N w v toks [] claims keys = Some (Inr (claims, keys))"
| "verify_each L C N w v toks (cred # creds) claims keys = (case map_of toks (dcq_ID cred) of
     None \<Rightarrow> Some (Inl (''no presentation received for requested credential '' @ strconv_Quote L (dcq_ID cred)))
   | Some vpToken \<Rightarrow>
       if vpToken = [] then Some (Inl (''no presentation received for requested credential '' @ strconv_Quote L (dcq_ID cred)))
       else case verifyPresentation L C N w v cred vpToken of
         None \<Rightarrow> None
       | Some (Inl e) \<Rightarrow> Some (Inl (''credential '' @ strconv_Quote L (dcq_ID cred) @ '': '' @ e))
       | Some (Inr (credClaims, holderKey)) \<Rightarrow>
           verify_each L C N (after 2 w) v toks creds (AList.update (dcq_ID cred) credClaims claims)
             (case holderKey of None \<Rightarrow> keys | Some k \<Rightarrow> AList.update (dcq_ID cred) k keys))"

definition verifyPresentations ::
  "lib \<Rightarrow> cbor_lib \<Rightarrow> net \<Rightarrow> world \<Rightarrow> verification_session \<Rightarrow> (string \<times> string) list \<Rightarrow>
   (string + (string \<times> json_map) list \<times> (string \<times> jwk) list) option" where
  "verifyPresentations L C N w v vpTokens =
     (let creds = dq_Credentials (vs_DCQLQuery v) in
      map_option (\<lambda>r. and_then r (\<lambda>(claims, holderKeys).
        if length creds > 1
        then and_then (no_error (verifyCrossCredentialBinding L w holderKeys)) (\<lambda>_. Inr (claims, holderKeys))
        else Inr (claims, holderKeys))) (verify_each L C N w v vpTokens creds [] []))"

record decrypted_response =
  dr_vpToken :: json
  dr_state :: string

text \<open>An \<^verbatim>\<open>any\<close> field of a struct: the last entry whose key matches, null when there is none.\<close>

definition decode_any :: "string \<Rightarrow> json_map \<Rightarrow> json" where
  "decode_any k kvs = fold (\<lambda>(k', v) acc. if fold_name k' = fold_name k then v else acc) kvs JNull"

definition decryptResponse ::
  "lib \<Rightarrow> key_lib \<Rightarrow> response_encryption_key \<Rightarrow> string \<Rightarrow> string + decrypted_response" where
  "decryptResponse L J key jwe =
     and_then (wrap_err ''failed to decrypt response: '' (rek_Decrypt J key jwe)) (\<lambda>plaintext.
     wrap_err ''decrypted response is not JSON: '' (and_then (json_Unmarshal L plaintext) (\<lambda>payload.
     and_then (decode_struct ''state'' payload) (\<lambda>state.
     Inr \<lparr>dr_vpToken = (case payload of JObj kvs \<Rightarrow> decode_any ''vp_token'' kvs | _ \<Rightarrow> JNull), dr_state = state\<rparr>))))"

definition parseVPToken :: "lib \<Rightarrow> json \<Rightarrow> json" where
  "parseVPToken L raw = (case raw of
     JStr s \<Rightarrow> (case json_Unmarshal L s of Inr (JObj m) \<Rightarrow> JObj m | _ \<Rightarrow> JStr s)
   | _ \<Rightarrow> raw)"

fun firstOf :: "json \<Rightarrow> string" where
  "firstOf (JStr s) = s"
| "firstOf (JArr (v # vs)) = firstOf v"
| "firstOf _ = []"

definition allVPTokens :: "json \<Rightarrow> dcql_query \<Rightarrow> (string \<times> string) list option" where
  "allVPTokens raw query = (case raw of
     JStr v \<Rightarrow> if v = [] \<or> dq_Credentials query = [] then None else Some [(dcq_ID (hd (dq_Credentials query)), v)]
   | JObj m \<Rightarrow> Some (filter (\<lambda>(_, t). t \<noteq> []) (map (\<lambda>(k, v). (k, firstOf v)) m))
   | _ \<Rightarrow> None)"


text \<open>
  \<open>HandleResponse\<close> up to the point where the session and the token are known: the answer of an early
  return (an error of the endpoint, or a result), or the session with the raw \<^verbatim>\<open>vp_token\<close>.
\<close>

type_synonym early = "(go_error + verifier_result) option"

definition invalid_request_result :: "string \<Rightarrow> early" where
  "invalid_request_result d = Some (Inr (errorResult ''invalid_request'' d))"

definition locate_encrypted ::
  "lib \<Rightarrow> key_lib \<Rightarrow> time \<Rightarrow> string \<Rightarrow> store \<Rightarrow> (early + verification_session \<times> json) \<times> store" where
  "locate_encrypted L J now response s = (case PeekResponseEncryptionKID J response of
     Inl e \<Rightarrow> (Inl (invalid_request_result e), s)
   | Inr kid \<Rightarrow>
  let (found, s1) = FindVerificationByEncryptionKID now kid s in
  (case found of
     None \<Rightarrow> Inl (invalid_request_result ''Unknown or expired encryption key'')
   | Some v \<Rightarrow>
  case vs_EncryptionKey v of
     None \<Rightarrow> Inl None
   | Some key \<Rightarrow>
  case decryptResponse L J key response of
     Inl e \<Rightarrow> Inl (invalid_request_result e)
   | Inr decrypted \<Rightarrow>
  if dr_state decrypted = [] \<or> allVPTokens (parseVPToken L (dr_vpToken decrypted)) (vs_DCQLQuery v) = None
  then Inl (invalid_request_result ''Decrypted response is missing state or vp_token'')
  else if dr_state decrypted \<noteq> vs_State v
  then Inl (invalid_request_result (''Decrypted state does not match this encryption key'' @ [CHR 0x27] @ ''s session''))
  else Inr (v, dr_vpToken decrypted), s1))"

definition locate_plain ::
  "time \<Rightarrow> response_request \<Rightarrow> store \<Rightarrow> (early + verification_session \<times> json) \<times> store" where
  "locate_plain now req s =
     (if rr_State req = [] then (Inl (Some (Inl (BadRequest InvalidRequest ''Missing state parameter''))), s)
      else if rr_VPToken req = []
      then (Inl (Some (Inl (BadRequest InvalidRequest ''Missing vp_token or response parameter''))), s)
      else let (found, s1) = FindVerificationByState now (rr_State req) s in
      (case found of
         None \<Rightarrow> Inl (invalid_request_result ''Unknown or expired state parameter'')
       | Some v \<Rightarrow> Inr (v, JStr (rr_VPToken req)), s1))"

text \<open>
  The rest of \<open>HandleResponse\<close>: verify, derive the subject, record. A nil token map reads as empty.
\<close>

definition record_outcome ::
  "lib \<Rightarrow> cbor_lib \<Rightarrow> net \<Rightarrow> world \<Rightarrow> verification_session \<Rightarrow> json \<Rightarrow> store \<Rightarrow> verifier_result option \<times> store" where
  "record_outcome L C N w v rawVPToken s =
     (let vpTokens = (case allVPTokens (parseVPToken L rawVPToken) (vs_DCQLQuery v) of None \<Rightarrow> [] | Some t \<Rightarrow> t);
          done = clk w (2 * length (dq_Credentials (vs_DCQLQuery v))) in
      case verifyPresentations L C N w v vpTokens of
        None \<Rightarrow> (None, s)
      | Some r \<Rightarrow>
      case and_then r (\<lambda>(claims, holderKeys).
             and_then (subjectIDFromHolderKeys L w holderKeys) (\<lambda>subjectID. Inr (claims, subjectID))) of
        Inl e \<Rightarrow> (Some (errorResult ''invalid_presentation'' e),
                   UpdateVerificationResult done (vs_SessionID v) ''failed'' vpTokens [] [] e s)
      | Inr (claims, subjectID) \<Rightarrow>
          (Some (successResult (mergeClaims w claims)),
           UpdateVerificationResult done (vs_SessionID v) ''verified'' vpTokens claims subjectID [] s))"

definition HandleResponse ::
  "lib \<Rightarrow> key_lib \<Rightarrow> cbor_lib \<Rightarrow> net \<Rightarrow> world \<Rightarrow> response_request \<Rightarrow> store \<Rightarrow>
   (go_error + verifier_result \<times> verification_session option) option \<times> store" where
  "HandleResponse L J C N w req s =
     (let (located, s1) = (if rr_Response req \<noteq> [] then locate_encrypted L J (clk w 0) (rr_Response req) s
                           else locate_plain (clk w 0) req s) in
      case located of
        Inl early \<Rightarrow> (map_option (map_sum id (\<lambda>r. (r, None))) early, s1)
      | Inr (v, rawVPToken) \<Rightarrow>
          (let (r, s2) = record_outcome L C N (after 1 w) v rawVPToken s1
           in (map_option (\<lambda>r. Inr (r, Some v)) r, s2)))"

definition GetResult :: "world \<Rightarrow> string \<Rightarrow> store \<Rightarrow> (go_error + verifier_result) \<times> store" where
  "GetResult w sessionID s = (let (found, s1) = FindVerification (clk w 0) sessionID s in
     (case found of
        None \<Rightarrow> Inl (NotFound ''not_found'' ''Session not found'')
      | Some v \<Rightarrow>
          if vs_Status v = ''verified'' then Inr (successResult (mergeClaims w (vs_VerifiedClaims v)))
          else if vs_Status v = ''failed'' then Inr (errorResult ''verification_failed'' (vs_Error v))
          else Inr (errorResult ''pending'' ''Verification not yet completed''), s1))"

definition verifier_Session :: "time \<Rightarrow> string \<Rightarrow> store \<Rightarrow> verification_session option \<times> store" where
  "verifier_Session now sessionID s = FindVerification now sessionID s"

definition ResultURI :: "verifier_service \<Rightarrow> string \<Rightarrow> string" where
  "ResultURI svc sessionID = vf_baseURL svc @ APIPrefix @ ''/result/'' @ sessionID"

end
