(* ===== verification/Issuer_Metadata.thy ===== *)
theory Issuer_Metadata
  imports Issuer_Client "HOL-Library.AList"
begin

text \<open>
  Decoding JSON into Go structs (\<^verbatim>\<open>encoding/json\<close>), and the part of \<^verbatim>\<open>internal/issuerclient/client.go\<close>
  that needs it: the claim metadata behind the identification form. A decoder takes the value so far
  and the JSON value, and returns the new value with the first error. As in Go, a value of the wrong
  type is reported but does not stop the decoding of the rest. The wording of such an
  error, from the Go type and the offending value, is the argument \<open>E\<close>.
\<close>

subsection \<open>Decoders\<close>

type_synonym type_error = "string \<Rightarrow> json \<Rightarrow> string"
type_synonym 'a decoder = "'a \<Rightarrow> json \<Rightarrow> 'a \<times> string option"

definition first_error :: "string option \<Rightarrow> string option \<Rightarrow> string option" where
  "first_error a b = (case a of None \<Rightarrow> b | Some e \<Rightarrow> Some e)"

fun dec_string :: "type_error \<Rightarrow> string decoder" where
  "dec_string E cur (JStr s) = (s, None)"
| "dec_string E cur JNull = (cur, None)"
| "dec_string E cur j = (cur, Some (E ''string'' j))"

fun dec_bool :: "type_error \<Rightarrow> bool decoder" where
  "dec_bool E cur (JBool b) = (b, None)"
| "dec_bool E cur JNull = (cur, None)"
| "dec_bool E cur j = (cur, Some (E ''bool'' j))"

text \<open>A slice, its elements decoded from the zero value \<open>z\<close>.\<close>

fun dec_slice :: "type_error \<Rightarrow> 'a \<Rightarrow> 'a decoder \<Rightarrow> 'a list decoder" where
  "dec_slice E z d cur (JArr js) =
     (map (\<lambda>j. fst (d z j)) js, foldl first_error None (map (\<lambda>j. snd (d z j)) js))"
| "dec_slice E z d cur JNull = ([], None)"
| "dec_slice E z d cur j = (cur, Some (E ''slice'' j))"

text \<open>A \<^verbatim>\<open>map[string]any\<close>: the entries are added to what is there.\<close>

fun dec_any_map :: "type_error \<Rightarrow> json_map decoder" where
  "dec_any_map E cur (JObj kvs) = (fold (\<lambda>(k, v). AList.update k v) kvs cur, None)"
| "dec_any_map E cur JNull = ([], None)"
| "dec_any_map E cur j = (cur, Some (E ''map'' j))"

fun dec_map :: "type_error \<Rightarrow> 'a \<Rightarrow> 'a decoder \<Rightarrow> (string \<rightharpoonup> 'a) decoder" where
  "dec_map E z d cur (JObj kvs) =
     (foldl (\<lambda>m (k, j). m(k \<mapsto> fst (d z j))) cur kvs, foldl first_error None (map (\<lambda>(k, j). snd (d z j)) kvs))"
| "dec_map E z d cur JNull = (Map.empty, None)"
| "dec_map E z d cur j = (cur, Some (E ''map'' j))"

text \<open>A struct: each entry goes to the field whose name it matches, unknown ones are dropped.\<close>

fun field_for :: "(string \<times> 'a decoder) list \<Rightarrow> string \<Rightarrow> 'a decoder option" where
  "field_for [] k = None"
| "field_for ((name, d) # fs) k = (if fold_name k = fold_name name then Some d else field_for fs k)"

fun dec_entries :: "(string \<times> 'a decoder) list \<Rightarrow> 'a \<Rightarrow> string option \<Rightarrow> json_map \<Rightarrow> 'a \<times> string option" where
  "dec_entries fs cur err [] = (cur, err)"
| "dec_entries fs cur err ((k, j) # kvs) = (case field_for fs k of
     None \<Rightarrow> dec_entries fs cur err kvs
   | Some d \<Rightarrow> dec_entries fs (fst (d cur j)) (first_error err (snd (d cur j))) kvs)"

fun dec_struct :: "type_error \<Rightarrow> (string \<times> 'a decoder) list \<Rightarrow> 'a decoder" where
  "dec_struct E fs cur (JObj kvs) = dec_entries fs cur None kvs"
| "dec_struct E fs cur JNull = (cur, None)"
| "dec_struct E fs cur j = (cur, Some (E ''struct'' j))"

text \<open>A field of a record, read with \<open>get\<close> and replaced with \<open>upd\<close>.\<close>

definition field :: "('a \<Rightarrow> 'b) \<Rightarrow> ('b \<Rightarrow> 'a \<Rightarrow> 'a) \<Rightarrow> 'b decoder \<Rightarrow> 'a decoder" where
  "field get upd d cur j = (upd (fst (d (get cur) j)) cur, snd (d (get cur) j))"

subsection \<open>Claim metadata\<close>

record claim_display =
  cd_Name :: string
  cd_Locale :: string

record claim =
  cm_Path :: "string list"
  cm_Display :: "claim_display list"
  cm_Mandatory :: bool
  cm_IsDate :: bool

record credential_config =
  cfg_Claims :: "claim list"

record issuer_metadata =
  im_CredentialConfigurationsSupported :: "string \<rightharpoonup> credential_config"

definition zero_display :: claim_display where "zero_display = \<lparr>cd_Name = [], cd_Locale = []\<rparr>"
definition zero_claim :: claim where
  "zero_claim = \<lparr>cm_Path = [], cm_Display = [], cm_Mandatory = False, cm_IsDate = False\<rparr>"
definition zero_config :: credential_config where "zero_config = \<lparr>cfg_Claims = []\<rparr>"
definition zero_metadata :: issuer_metadata where
  "zero_metadata = \<lparr>im_CredentialConfigurationsSupported = Map.empty\<rparr>"

definition dec_display :: "type_error \<Rightarrow> claim_display decoder" where
  "dec_display E = dec_struct E
     [(''name'', field cd_Name (\<lambda>x. cd_Name_update (\<lambda>_. x)) (dec_string E)),
      (''locale'', field cd_Locale (\<lambda>x. cd_Locale_update (\<lambda>_. x)) (dec_string E))]"

definition dec_claim :: "type_error \<Rightarrow> claim decoder" where
  "dec_claim E = dec_struct E
     [(''path'', field cm_Path (\<lambda>x. cm_Path_update (\<lambda>_. x)) (dec_slice E [] (dec_string E))),
      (''display'', field cm_Display (\<lambda>x. cm_Display_update (\<lambda>_. x)) (dec_slice E zero_display (dec_display E))),
      (''mandatory'', field cm_Mandatory (\<lambda>x. cm_Mandatory_update (\<lambda>_. x)) (dec_bool E)),
      (''is_date'', field cm_IsDate (\<lambda>x. cm_IsDate_update (\<lambda>_. x)) (dec_bool E))]"

definition dec_config :: "type_error \<Rightarrow> credential_config decoder" where
  "dec_config E = dec_struct E [(''credential_metadata'', dec_struct E
     [(''claims'', field cfg_Claims (\<lambda>x. cfg_Claims_update (\<lambda>_. x)) (dec_slice E zero_claim (dec_claim E)))])]"

definition dec_metadata :: "type_error \<Rightarrow> issuer_metadata decoder" where
  "dec_metadata E = dec_struct E [(''credential_configurations_supported'',
     field im_CredentialConfigurationsSupported (\<lambda>x. im_CredentialConfigurationsSupported_update (\<lambda>_. x))
       (dec_map E zero_config (dec_config E)))]"

definition CredentialClaims :: "lib \<Rightarrow> type_error \<Rightarrow> net \<Rightarrow> string \<Rightarrow> string \<Rightarrow> string + claim list" where
  "CredentialClaims L E N baseURL credentialConfigID =
     (let path = ''/.well-known/openid-credential-issuer'' in
      and_then (client_get N baseURL path) (\<lambda>body.
      and_then (case body of
          None \<Rightarrow> Inr zero_metadata
        | Some j \<Rightarrow> (case dec_metadata E zero_metadata j of
              (metadata, None) \<Rightarrow> Inr metadata
            | (_, Some e) \<Rightarrow> Inl (''issuerclient: GET '' @ path @ '': decoding response: '' @ e))) (\<lambda>metadata.
      case im_CredentialConfigurationsSupported metadata credentialConfigID of
        None \<Rightarrow> Inl (''issuerclient: credential issuer does not offer '' @ strconv_Quote L credentialConfigID)
      | Some cfg \<Rightarrow> Inr (cfg_Claims cfg))))"

text \<open>
  The JSON of the claims as they are passed on: \<^verbatim>\<open>omitempty\<close> drops empty labels and false dates. Nil
  and empty slices are one value here; Go writes a nil \<^verbatim>\<open>path\<close> as null, which reads back the same.
\<close>

definition display_json :: "claim_display \<Rightarrow> json" where
  "display_json d = JObj [(''name'', JStr (cd_Name d)), (''locale'', JStr (cd_Locale d))]"

definition claim_json :: "claim \<Rightarrow> json" where
  "claim_json c = JObj ([(''path'', JArr (map JStr (cm_Path c)))] @
     (if cm_Display c = [] then [] else [(''display'', JArr (map display_json (cm_Display c)))]) @
     [(''mandatory'', JBool (cm_Mandatory c))] @
     (if cm_IsDate c then [(''is_date'', JBool True)] else []))"

lemma dec_display_json [simp]: "dec_display E z (display_json d) = (z\<lparr>cd_Name := cd_Name d, cd_Locale := cd_Locale d\<rparr>, None)"
  by (simp add: dec_display_def display_json_def field_def first_error_def ascii_lower_def)

lemma foldl_first_error: "foldl first_error None (map (\<lambda>x. None) xs) = None"
  by (induction xs) (simp_all add: first_error_def)

lemma dec_claim_json [simp]: "dec_claim E zero_claim (claim_json c) = (c, None)"
proof -
  have "map (\<lambda>d. \<lparr>cd_Name = cd_Name d, cd_Locale = cd_Locale d\<rparr>) ds = ds" for ds
    by (rule map_idI) simp
  then show ?thesis
    by (cases c) (auto simp: dec_claim_def claim_json_def field_def first_error_def ascii_lower_def zero_claim_def
      zero_display_def comp_def foldl_first_error)
qed

end
