(* ===== verification/Http_Api.thy ===== *)
theory Http_Api
  imports Authz Verifier Issuer_Metadata
begin

text \<open>
  \<^verbatim>\<open>internal/httpapi\<close>: the endpoints. What \<^verbatim>\<open>net/http\<close> hands to a handler is the record
  \<open>server_request\<close>, what a handler writes is a \<open>reply\<close>; the argument \<open>H\<close> holds what is left to
  Go's libraries (MIME types, reading a JSON body, the wording of decoding errors) and the embedded
  documentation pages. A handler that panics gives no reply.
\<close>

subsection \<open>Requests and replies\<close>

text \<open>
  \<open>sq_Header\<close> gives the values of a header, in any spelling of its name; \<open>sq_PathID\<close> is the path's
  \<^verbatim>\<open>{id}\<close>.
\<close>

record server_request =
  sq_Method :: string
  sq_PathID :: string
  sq_RawQuery :: string
  sq_Header :: "string \<Rightarrow> string list"
  sq_Cookies :: "(string \<times> string) list"
  sq_BasicAuth :: "(string \<times> string) option"
  sq_Body :: "string + string" \<comment> \<open>\<open>Inl\<close>: reading the body fails\<close>

record cookie =
  ck_Name :: string
  ck_Value :: string
  ck_Path :: string
  ck_MaxAge :: int
  ck_HttpOnly :: bool
  ck_Secure :: bool
  ck_SameSite :: string

datatype reply_body =
    JsonBody json
  | BytesBody string
  | ErrorPage oauth_error \<comment> \<open>\<^verbatim>\<open>authorize_error.html\<close> on this error\<close>
  | RedirectBody string
  | NoBody

record reply =
  rp_Status :: nat
  rp_Headers :: "(string \<times> string) list"
  rp_Cookie :: "cookie option"
  rp_Body :: reply_body

record http_lib =
  hl_ParseMediaType :: "string \<Rightarrow> string \<times> string option"
  hl_DecodeBody :: "string + string \<Rightarrow> string + json"
  hl_TypeError :: type_error
  hl_openAPISpec :: string

definition header_Get :: "server_request \<Rightarrow> string \<Rightarrow> string" where
  "header_Get r k = (case sq_Header r k of [] \<Rightarrow> [] | v # _ \<Rightarrow> v)"

definition query_Get :: "server_request \<Rightarrow> string \<Rightarrow> string" where
  "query_Get r k = values_Get k (ParseQuery (sq_RawQuery r))"

subsection \<open>Forms\<close>

text \<open>
  \<^verbatim>\<open>Request.ParseForm\<close>: the error of \<^verbatim>\<open>url.ParseQuery\<close> besides the pairs it keeps, and the form of a
  request body of at most 10 MB.
\<close>

fun escape_error :: "string \<Rightarrow> string option" where
  "escape_error [] = None"
| "escape_error (c # cs) =
     (if c = CHR ''%'' then
        (case cs of a # b # r \<Rightarrow>
           if unhex a \<noteq> None \<and> unhex b \<noteq> None then escape_error r else Some (take 3 (c # cs))
         | _ \<Rightarrow> Some (take 3 (c # cs)))
      else escape_error cs)"

definition pair_error :: "lib \<Rightarrow> string \<Rightarrow> string option \<Rightarrow> string option" where
  "pair_error L p err =
     (if CHR '';'' \<in> set p then Some ''invalid semicolon separator in query''
      else if p = [] then err
      else let (k, v) = go_cut (CHR ''='') p in
        first_error err (map_option (\<lambda>e. ''invalid URL escape '' @ strconv_Quote L e)
          (first_error (escape_error k) (escape_error v))))"

definition query_error :: "lib \<Rightarrow> string \<Rightarrow> string option" where
  "query_error L s = fold (pair_error L) (go_split (CHR ''&'') s) None"

definition maxFormSize :: nat where "maxFormSize = 10 * 2 ^ 20"

definition parsePostForm :: "lib \<Rightarrow> http_lib \<Rightarrow> server_request \<Rightarrow> url_values \<times> string option" where
  "parsePostForm L H r =
     (let ct = header_Get r ''Content-Type'';
          (mt, err) = hl_ParseMediaType H (if ct = [] then ''application/octet-stream'' else ct) in
      if mt \<noteq> ''application/x-www-form-urlencoded'' then ([], err)
      else case sq_Body r of
        Inl e \<Rightarrow> ([], first_error err (Some e))
      | Inr b \<Rightarrow>
          if length b > maxFormSize then ([], Some ''http: POST too large'')
          else (ParseQuery b, first_error err (query_error L b)))"

definition parseForm :: "lib \<Rightarrow> http_lib \<Rightarrow> server_request \<Rightarrow> string + params" where
  "parseForm L H r =
     (let (post, err) = (if sq_Method r \<in> {''POST'', ''PUT'', ''PATCH''} then parsePostForm L H r else ([], None)) in
      case first_error err (query_error L (sq_RawQuery r)) of
        Some e \<Rightarrow> Inl e
      | None \<Rightarrow> Inr (\<lambda>k. case map_of post k of Some (v # _) \<Rightarrow> if v = [] then None else Some v | _ \<Rightarrow> None))"

definition clientAttestationHeaders :: "server_request \<Rightarrow> string \<times> string" where
  "clientAttestationHeaders r = (header_Get r HeaderClientAttestation, header_Get r HeaderClientAttestationPoP)"

subsection \<open>Writing\<close>

definition writeJSON :: "nat \<Rightarrow> json \<Rightarrow> reply" where
  "writeJSON status body =
     \<lparr>rp_Status = status, rp_Headers = [(''Content-Type'', ''application/json'')], rp_Cookie = None, rp_Body = JsonBody body\<rparr>"

definition error_json :: "oauth_error \<Rightarrow> json" where
  "error_json e = JObj ((''error'', JStr (Code e)) #
     (if Description e = [] then [] else [(''error_description'', JStr (Description e))]))"

definition served_error :: "go_error \<Rightarrow> nat \<times> oauth_error" where
  "served_error e = (case e of
     Exception x \<Rightarrow> (HTTPStatus x, Err x)
   | ErrorString s \<Rightarrow> (500, \<lparr>Code = InvalidRequest, Description = s\<rparr>))"

definition writeOAuthError :: "go_error \<Rightarrow> reply" where
  "writeOAuthError e = (case served_error e of (status, err) \<Rightarrow> writeJSON status (error_json err))"

definition writeAuthorizeError :: "go_error \<Rightarrow> reply" where
  "writeAuthorizeError e = (case served_error e of (status, err) \<Rightarrow>
     \<lparr>rp_Status = status, rp_Headers = [(''Content-Type'', ''text/html; charset=utf-8'')], rp_Cookie = None,
      rp_Body = ErrorPage err\<rparr>)"

definition http_Redirect :: "string \<Rightarrow> reply" where
  "http_Redirect target = \<lparr>rp_Status = 302, rp_Headers = [(''Location'', target)], rp_Cookie = None, rp_Body = RedirectBody target\<rparr>"

definition invalid_form :: "string \<Rightarrow> reply" where
  "invalid_form e = writeOAuthError (BadRequest InvalidRequest (''Invalid form body: '' @ e))"

definition invalid_body :: "string \<Rightarrow> reply" where
  "invalid_body e = writeOAuthError (BadRequest InvalidRequest (''Invalid request body: '' @ e))"

subsection \<open>The handler\<close>

record handler =
  hd_baseURL :: string
  hd_signingKey :: signing_key
  hd_authz :: authz_service
  hd_issuer :: string \<comment> \<open>base URL of the issuer client\<close>
  hd_verifier :: "verifier_service option"

definition NewHandler :: "string \<Rightarrow> signing_key \<Rightarrow> authz_service \<Rightarrow> string \<Rightarrow> verifier_service option \<Rightarrow> handler" where
  "NewHandler baseURL signingKey authzService issuer verifierService =
     \<lparr>hd_baseURL = baseURL, hd_signingKey = signingKey, hd_authz = authzService, hd_issuer = issuer,
      hd_verifier = verifierService\<rparr>"

subsection \<open>OAuth endpoints\<close>

definition api_par :: "lib \<Rightarrow> http_lib \<Rightarrow> handler \<Rightarrow> world \<Rightarrow> server_request \<Rightarrow> authz_state \<Rightarrow> reply \<times> authz_state" where
  "api_par L H h w r st = (case parseForm L H r of
     Inl e \<Rightarrow> (invalid_form e, st)
   | Inr form \<Rightarrow>
  let (wiaHeader, popHeader) = clientAttestationHeaders r in
  case SingleDPoPHeader (sq_Header r ''DPoP'') of
     Inl e \<Rightarrow> (writeOAuthError e, st)
   | Inr dpopHeader \<Rightarrow>
  let (result, st') = HandlePar L (hd_authz h) w form wiaHeader popHeader dpopHeader st in
  (case result of
     Inl e \<Rightarrow> writeOAuthError e
   | Inr (requestURI, expiresIn) \<Rightarrow>
       writeJSON 201 (JObj [(''request_uri'', JStr requestURI), (''expires_in'', JNum (of_int expiresIn))]), st'))"

definition IdentifiedCookieName :: string where
  "IdentifiedCookieName = ''fikua_idp_identified''"

definition api_authorize ::
  "lib \<Rightarrow> net \<Rightarrow> handler \<Rightarrow> world \<Rightarrow> server_request \<Rightarrow> authz_state \<Rightarrow> reply \<times> authz_state" where
  "api_authorize L N h w r st =
     (let identifiedCookie = (case map_of (sq_Cookies r) IdentifiedCookieName of None \<Rightarrow> [] | Some v \<Rightarrow> v);
          (result, st') = HandleAuthorize N (hd_authz h) w (query_Get r ''request_uri'') (query_Get r ''client_id'')
            identifiedCookie st in
      (case result of
         Inl e \<Rightarrow> writeAuthorizeError e
       | Inr ar \<Rightarrow>
           if ar_IdentifyRedirect ar \<noteq> [] then http_Redirect (ar_IdentifyRedirect ar)
           else case BuildAuthorizationRedirect L ar (hd_baseURL h) of
             Inl e \<Rightarrow> writeAuthorizeError (BadRequest InvalidRequest (''Invalid redirect_uri: '' @ e))
           | Inr redirect \<Rightarrow> http_Redirect redirect, st'))"

definition token_json :: "token_response \<Rightarrow> json" where
  "token_json t = JObj [(''access_token'', JStr (AccessToken t)), (''token_type'', JStr (TokenType t)),
     (''expires_in'', JNum (of_int (ExpiresIn t)))]"

definition no_store :: "reply \<Rightarrow> reply" where
  "no_store p = p\<lparr>rp_Headers := (''Cache-Control'', ''no-store'') # rp_Headers p\<rparr>"

text \<open>The request to the token endpoint: the form, with the user name of HTTP Basic as client id.\<close>

definition token_request_of :: "server_request \<Rightarrow> params \<Rightarrow> token_request" where
  "token_request_of r form = (let req = TokenRequestFromForm form in
     case sq_BasicAuth r of
       Some (basicClientID, _) \<Rightarrow> if tr_ClientID req = [] then req\<lparr>tr_ClientID := basicClientID\<rparr> else req
     | None \<Rightarrow> req)"

definition api_token :: "lib \<Rightarrow> http_lib \<Rightarrow> handler \<Rightarrow> world \<Rightarrow> server_request \<Rightarrow> authz_state \<Rightarrow> reply \<times> authz_state" where
  "api_token L H h w r st = (case parseForm L H r of
     Inl e \<Rightarrow> (invalid_form e, st)
   | Inr form \<Rightarrow>
  let req = token_request_of r form in
  if \<not> IsAuthorizationCode req
  then (no_store (writeOAuthError (BadRequest UnsupportedGrantType ''Only the authorization_code grant is supported'')), st)
  else case SingleDPoPHeader (sq_Header r ''DPoP'') of
     Inl e \<Rightarrow> (no_store (writeOAuthError e), st)
   | Inr dpopHeader \<Rightarrow>
  let (wiaHeader, popHeader) = clientAttestationHeaders r;
      (result, st') = HandleAuthCodeToken L (hd_authz h) w req dpopHeader wiaHeader popHeader st in
  (no_store (case result of Inl e \<Rightarrow> writeOAuthError e | Inr resp \<Rightarrow> writeJSON 200 (token_json resp)), st'))"

subsection \<open>Identification endpoints\<close>

definition api_identifyClaims ::
  "lib \<Rightarrow> http_lib \<Rightarrow> net \<Rightarrow> handler \<Rightarrow> server_request \<Rightarrow> authz_state \<Rightarrow> reply" where
  "api_identifyClaims L H N h r st = (case ResolveIdentifyScope (query_Get r ''session'') st of
     Inl e \<Rightarrow> writeOAuthError e
   | Inr credentialConfigID \<Rightarrow>
  case CredentialClaims L (hl_TypeError H) N (hd_issuer h) credentialConfigID of
     Inl e \<Rightarrow> writeOAuthError (ServiceUnavailable InvalidRequest (''Could not load claim metadata: '' @ e))
   | Inr claims \<Rightarrow> writeJSON 200 (JObj [(''credential_configuration_id'', JStr credentialConfigID),
       (''claims'', JArr (map claim_json claims))]))"

record identify_complete_request =
  icq_Session :: string
  icq_CredentialData :: json_map
  icq_SourceType :: string
  icq_SourceRef :: string

definition dec_complete :: "type_error \<Rightarrow> identify_complete_request decoder" where
  "dec_complete E = dec_struct E
     [(''session'', field icq_Session (\<lambda>x. icq_Session_update (\<lambda>_. x)) (dec_string E)),
      (''credential_data'', field icq_CredentialData (\<lambda>x. icq_CredentialData_update (\<lambda>_. x)) (dec_any_map E)),
      (''source_type'', field icq_SourceType (\<lambda>x. icq_SourceType_update (\<lambda>_. x)) (dec_string E)),
      (''source_ref'', field icq_SourceRef (\<lambda>x. icq_SourceRef_update (\<lambda>_. x)) (dec_string E))]"

text \<open>\<^verbatim>\<open>json.NewDecoder(r.Body).Decode(&req)\<close>: what ends up in \<^verbatim>\<open>req\<close>, and the error.\<close>

definition decode_body :: "http_lib \<Rightarrow> (type_error \<Rightarrow> 'a decoder) \<Rightarrow> 'a \<Rightarrow> server_request \<Rightarrow> 'a \<times> string option" where
  "decode_body H d zero r = (case hl_DecodeBody H (sq_Body r) of
     Inl e \<Rightarrow> (zero, Some e)
   | Inr j \<Rightarrow> d (hl_TypeError H) zero j)"

definition setIdentifiedCookie :: "handler \<Rightarrow> string \<Rightarrow> cookie" where
  "setIdentifiedCookie h v = \<lparr>ck_Name = IdentifiedCookieName, ck_Value = v, ck_Path = ''/oid4vci/v1/authorize'',
     ck_MaxAge = 60, ck_HttpOnly = True, ck_Secure = (take 8 (hd_baseURL h) = ''https://''), ck_SameSite = ''Lax''\<rparr>"

definition api_identifyComplete ::
  "lib \<Rightarrow> http_lib \<Rightarrow> net \<Rightarrow> handler \<Rightarrow> world \<Rightarrow> server_request \<Rightarrow> authz_state \<Rightarrow> reply \<times> authz_state" where
  "api_identifyComplete L H N h w r st =
     (case decode_body H dec_complete
        \<lparr>icq_Session = [], icq_CredentialData = [], icq_SourceType = [], icq_SourceRef = []\<rparr> r of
        (_, Some e) \<Rightarrow> (invalid_body e, st)
      | (req, None) \<Rightarrow>
     let (result, st') = CompleteIdentification L N (hd_authz h) w (icq_Session req) (icq_CredentialData req)
           (icq_SourceType req) (icq_SourceRef req) st in
     (case result of
        Inl e \<Rightarrow> writeOAuthError e
      | Inr (redirect, cookieValue) \<Rightarrow>
          (writeJSON 200 (JObj [(''redirect'', JStr redirect)]))
            \<lparr>rp_Cookie := (if cookieValue \<noteq> [] then Some (setIdentifiedCookie h cookieValue) else None)\<rparr>, st'))"

record identify_reject_request =
  irq_Session :: string

definition dec_reject :: "type_error \<Rightarrow> identify_reject_request decoder" where
  "dec_reject E = dec_struct E [(''session'', field irq_Session (\<lambda>x. irq_Session_update (\<lambda>_. x)) (dec_string E))]"

definition api_identifyReject ::
  "lib \<Rightarrow> http_lib \<Rightarrow> handler \<Rightarrow> world \<Rightarrow> server_request \<Rightarrow> authz_state \<Rightarrow> reply \<times> authz_state" where
  "api_identifyReject L H h w r st = (case decode_body H dec_reject \<lparr>irq_Session = []\<rparr> r of
     (_, Some e) \<Rightarrow> (invalid_body e, st)
   | (req, None) \<Rightarrow>
  let (result, st') = RejectIdentification L w (irq_Session req) st in
  (case result of
     Inl e \<Rightarrow> writeOAuthError e
   | Inr redirect \<Rightarrow> writeJSON 200 (JObj [(''redirect'', JStr redirect)]), st'))"

subsection \<open>Verifier endpoints\<close>

record create_session_request =
  cse_Credentials :: "credential_request list"
  cse_CredentialType :: string
  cse_Claims :: "string list"
  cse_Format :: string

definition zero_credential :: credential_request where
  "zero_credential = \<lparr>crq_ID = [], crq_CredentialType = [], crq_Claims = [], crq_Format = []\<rparr>"

definition dec_credential :: "type_error \<Rightarrow> credential_request decoder" where
  "dec_credential E = dec_struct E
     [(''id'', field crq_ID (\<lambda>x. crq_ID_update (\<lambda>_. x)) (dec_string E)),
      (''credential_type'', field crq_CredentialType (\<lambda>x. crq_CredentialType_update (\<lambda>_. x)) (dec_string E)),
      (''claims'', field crq_Claims (\<lambda>x. crq_Claims_update (\<lambda>_. x)) (dec_slice E [] (dec_string E))),
      (''format'', field crq_Format (\<lambda>x. crq_Format_update (\<lambda>_. x)) (dec_string E))]"

definition dec_session :: "type_error \<Rightarrow> create_session_request decoder" where
  "dec_session E = dec_struct E
     [(''credentials'', field cse_Credentials (\<lambda>x. cse_Credentials_update (\<lambda>_. x))
         (dec_slice E zero_credential (dec_credential E))),
      (''credential_type'', field cse_CredentialType (\<lambda>x. cse_CredentialType_update (\<lambda>_. x)) (dec_string E)),
      (''claims'', field cse_Claims (\<lambda>x. cse_Claims_update (\<lambda>_. x)) (dec_slice E [] (dec_string E))),
      (''format'', field cse_Format (\<lambda>x. cse_Format_update (\<lambda>_. x)) (dec_string E))]"

definition defaultCredentialType :: string where "defaultCredentialType = ''eu.europa.ec.eudi.pid.1''"
definition defaultClaims :: "string list" where "defaultClaims = [''given_name'', ''family_name'', ''birth_date'']"
definition defaultCredentialID :: string where "defaultCredentialID = ''requested_credential''"

text \<open>The credentials asked for: the list, or the flat fields with their defaults.\<close>

definition requested_credentials :: "create_session_request \<Rightarrow> credential_request list" where
  "requested_credentials req =
     (if cse_Credentials req \<noteq> [] then cse_Credentials req
      else [\<lparr>crq_ID = defaultCredentialID,
             crq_CredentialType = (if cse_CredentialType req = [] then defaultCredentialType else cse_CredentialType req),
             crq_Claims = (if cse_Claims req = [] then defaultClaims else cse_Claims req),
             crq_Format = cse_Format req\<rparr>])"

definition oid4vpCreateSession ::
  "lib \<Rightarrow> key_lib \<Rightarrow> http_lib \<Rightarrow> verifier_service \<Rightarrow> world \<Rightarrow> server_request \<Rightarrow> store \<Rightarrow> reply option \<times> store" where
  "oid4vpCreateSession L J H v w r s =
     (let (req, _) = decode_body H dec_session
            \<lparr>cse_Credentials = [], cse_CredentialType = [], cse_Claims = [], cse_Format = []\<rparr> r;
          (result, s') = CreateSession L J v w (requested_credentials req) s in
      (map_option (\<lambda>x. case x of
          Inl e \<Rightarrow> writeOAuthError (BadRequest InvalidRequest (''Failed to create verification session: '' @ e))
        | Inr res \<Rightarrow> writeJSON 201 (JObj [(''session_id'', JStr (csr_SessionID res)), (''request_uri'', JStr (csr_RequestURI res)),
            (''client_id'', JStr (csr_ClientID res)), (''state'', JStr (csr_State res))])) result, s'))"

definition oid4vpRequestObject :: "world \<Rightarrow> server_request \<Rightarrow> store \<Rightarrow> reply \<times> store" where
  "oid4vpRequestObject w r s = (let (result, s') = GetRequestObject w (sq_PathID r) s in
     (case result of
        Inl e \<Rightarrow> writeOAuthError e
      | Inr requestObject \<Rightarrow>
          no_store \<lparr>rp_Status = 200, rp_Headers = [(''Content-Type'', ''application/'' @ JARType)], rp_Cookie = None,
            rp_Body = BytesBody requestObject\<rparr>, s'))"

definition result_json :: "verifier_result \<Rightarrow> json" where
  "result_json res = JObj ([(''status'', JStr (vr_Status res))] @
     (if vr_Claims res = [] then [] else [(''claims'', JObj (vr_Claims res))]) @
     (if vr_Error res = [] then [] else [(''error'', JStr (vr_Error res))]) @
     (if vr_ErrorDescription res = [] then [] else [(''error_description'', JStr (vr_ErrorDescription res))]))"

definition oid4vpResponse ::
  "lib \<Rightarrow> key_lib \<Rightarrow> cbor_lib \<Rightarrow> http_lib \<Rightarrow> net \<Rightarrow> verifier_service \<Rightarrow> world \<Rightarrow> server_request \<Rightarrow> store \<Rightarrow>
   reply option \<times> store" where
  "oid4vpResponse L J C H N v w r s = (case parseForm L H r of
     Inl e \<Rightarrow> (Some (invalid_form e), s)
   | Inr form \<Rightarrow>
  let (result, s') = HandleResponse L J C N w
        \<lparr>rr_VPToken = idx form ''vp_token'', rr_State = idx form ''state'', rr_Response = idx form ''response''\<rparr> s in
  (map_option (\<lambda>x. case x of
      Inl e \<Rightarrow> writeOAuthError e
    | Inr (res, session) \<Rightarrow>
        if vr_Status res \<noteq> StatusSuccess then writeJSON 400 (result_json res)
        else writeJSON 200 (JObj [(''redirect_uri'',
          JStr (ResultURI v (case session of None \<Rightarrow> [] | Some x \<Rightarrow> vs_SessionID x)))])) result, s'))"

definition oid4vpResult :: "world \<Rightarrow> server_request \<Rightarrow> store \<Rightarrow> reply \<times> store" where
  "oid4vpResult w r s = (let (result, s') = GetResult w (sq_PathID r) s in
     (case result of Inl e \<Rightarrow> writeOAuthError e | Inr res \<Rightarrow> writeJSON 200 (result_json res), s'))"

subsection \<open>Metadata and keys\<close>

definition buildHAIPAuthServerMetadata :: "string \<Rightarrow> json" where
  "buildHAIPAuthServerMetadata baseURL = JObj
     [(''issuer'', JStr baseURL),
      (''token_endpoint'', JStr (baseURL @ ''/oid4vci/v1/token'')),
      (''authorization_endpoint'', JStr (baseURL @ ''/oid4vci/v1/authorize'')),
      (''pushed_authorization_request_endpoint'', JStr (baseURL @ ''/oid4vci/v1/par'')),
      (''jwks_uri'', JStr (baseURL @ ''/oid4vci/v1/jwks'')),
      (''response_types_supported'', json_strings [''code'']),
      (''grant_types_supported'', json_strings [''authorization_code'']),
      (''code_challenge_methods_supported'', json_strings [''S256'']),
      (''token_endpoint_auth_methods_supported'', json_strings [''attest_jwt_client_auth'']),
      (''dpop_signing_alg_values_supported'', json_strings [''ES256'']),
      (''client_attestation_signing_alg_values_supported'', json_strings [''ES256'']),
      (''client_attestation_pop_signing_alg_values_supported'', json_strings [''ES256'']),
      (''require_pushed_authorization_requests'', JBool True),
      (''token_endpoint_auth_signing_alg_values_supported'', json_strings [''ES256'']),
      (''authorization_response_iss_parameter_supported'', JBool True),
      (''subject_types_supported'', json_strings [''public''])]"

definition api_jwks :: "key_lib \<Rightarrow> handler \<Rightarrow> reply" where
  "api_jwks J h = (case JWKSetJSON J (hd_signingKey h) of
     Inl e \<Rightarrow> writeOAuthError (BadRequest InvalidRequest (''Failed to build JWK Set: '' @ e))
   | Inr body \<Rightarrow> \<lparr>rp_Status = 200, rp_Headers = [(''Content-Type'', ''application/json''), (''Cache-Control'', ''max-age=600'')],
       rp_Cookie = None, rp_Body = BytesBody body\<rparr>)"

definition api_revokedTokens :: "world \<Rightarrow> authz_state \<Rightarrow> reply \<times> authz_state" where
  "api_revokedTokens w st = (let (live, st') = authz_RevokedJTIs (clk w 0) st in
     (writeJSON 200 (JObj [(''revoked_jti'', json_strings live)]), st'))"

subsection \<open>Routes\<close>

text \<open>\<^verbatim>\<open>swagger.go\<close>: the page of the API documentation, and the embedded specification it loads.\<close>

definition swaggerPage :: string where
  "swaggerPage = go_join (CHR 0x0A) [
     ''<!doctype html>'',
     ''<html>'',
     ''<head>'',
     ''  <meta charset='' @ [CHR 0x22] @ ''utf-8'' @ [CHR 0x22] @ ''>'',
     ''  <title>Fikua IdP &mdash; API docs</title>'',
     ''  <link rel='' @ [CHR 0x22] @ ''stylesheet'' @ [CHR 0x22] @ '' href='' @ [CHR 0x22] @
       ''https://cdnjs.cloudflare.com/ajax/libs/swagger-ui/5.17.14/swagger-ui.min.css'' @ [CHR 0x22] @ ''>'',
     ''</head>'',
     ''<body>'',
     ''  <div id='' @ [CHR 0x22] @ ''swagger-ui'' @ [CHR 0x22] @ ''></div>'',
     ''  <script src='' @ [CHR 0x22] @
       ''https://cdnjs.cloudflare.com/ajax/libs/swagger-ui/5.17.14/swagger-ui-bundle.min.js'' @ [CHR 0x22] @ ''></script>'',
     ''  <script>'',
     ''    window.onload = () => {'',
     ''      window.ui = SwaggerUIBundle({'',
     ''        url: '' @ [CHR 0x27] @ ''/openapi.yaml'' @ [CHR 0x27] @ '','',
     ''        dom_id: '' @ [CHR 0x27] @ ''#swagger-ui'' @ [CHR 0x27] @ '','',
     ''        presets: [SwaggerUIBundle.presets.apis],'',
     ''      });'',
     ''    };'',
     ''  </script>'',
     ''</body>'',
     ''</html>'']"

definition api_swaggerUI :: reply where
  "api_swaggerUI = \<lparr>rp_Status = 200, rp_Headers = [(''Content-Type'', ''text/html; charset=utf-8'')], rp_Cookie = None,
     rp_Body = BytesBody swaggerPage\<rparr>"

definition api_openAPISpec :: "http_lib \<Rightarrow> reply" where
  "api_openAPISpec H = \<lparr>rp_Status = 200, rp_Headers = [(''Content-Type'', ''application/yaml'')], rp_Cookie = None,
     rp_Body = BytesBody (hl_openAPISpec H)\<rparr>"

datatype endpoint =
    Health | SwaggerUI | OpenAPISpec | AuthServerMetadata | Jwks
  | Par | Authorize | Token | RevokedTokens
  | IdentifyClaims | IdentifyComplete | IdentifyReject
  | VpCreateSession | VpRequestObject | VpResponse | VpResult

text \<open>The patterns registered on the mux, each with its endpoint.\<close>

definition api_Routes :: "handler \<Rightarrow> (string \<times> endpoint) list" where
  "api_Routes h =
     [(''GET /health'', Health), (''GET /swagger'', SwaggerUI), (''GET /openapi.yaml'', OpenAPISpec),
      (''GET /.well-known/oauth-authorization-server'', AuthServerMetadata),
      (''GET /oid4vci/v1/jwks'', Jwks), (''POST /oid4vci/v1/par'', Par), (''GET /oid4vci/v1/authorize'', Authorize),
      (''POST /oid4vci/v1/token'', Token), (''GET /oid4vci/v1/revoked-tokens'', RevokedTokens),
      (''GET /identify/claims'', IdentifyClaims), (''POST /identify/complete'', IdentifyComplete),
      (''POST /identify/reject'', IdentifyReject)] @
     (case hd_verifier h of None \<Rightarrow> [] | Some _ \<Rightarrow>
       [(''POST '' @ APIPrefix @ ''/session'', VpCreateSession), (''GET '' @ APIPrefix @ ''/request/{id}'', VpRequestObject),
        (''POST '' @ APIPrefix @ ''/request/{id}'', VpRequestObject), (''POST '' @ APIPrefix @ ''/response'', VpResponse),
        (''GET '' @ APIPrefix @ ''/result/{id}'', VpResult)])"

text \<open>A verifier endpoint of a handler without a verifier dereferences a nil pointer: no reply.\<close>

definition with_verifier ::
  "handler \<Rightarrow> authz_state \<Rightarrow> (verifier_service \<Rightarrow> store \<Rightarrow> reply option \<times> store) \<Rightarrow> reply option \<times> authz_state" where
  "with_verifier h st f = (case hd_verifier h of
     None \<Rightarrow> (None, st)
   | Some v \<Rightarrow> map_prod id (\<lambda>s. st\<lparr>sessions := s\<rparr>) (f v (sessions st)))"

fun serve_api ::
  "lib \<Rightarrow> key_lib \<Rightarrow> cbor_lib \<Rightarrow> http_lib \<Rightarrow> net \<Rightarrow> handler \<Rightarrow> world \<Rightarrow> endpoint \<Rightarrow> server_request \<Rightarrow> authz_state \<Rightarrow>
   reply option \<times> authz_state" where
  "serve_api L J C H N h w Health r st = (Some (writeJSON 200 (JObj [(''status'', JStr ''ok'')])), st)"
| "serve_api L J C H N h w SwaggerUI r st = (Some api_swaggerUI, st)"
| "serve_api L J C H N h w OpenAPISpec r st = (Some (api_openAPISpec H), st)"
| "serve_api L J C H N h w AuthServerMetadata r st =
     (Some (writeJSON 200 (buildHAIPAuthServerMetadata (hd_baseURL h))), st)"
| "serve_api L J C H N h w Jwks r st = (Some (api_jwks J h), st)"
| "serve_api L J C H N h w Par r st = map_prod Some id (api_par L H h w r st)"
| "serve_api L J C H N h w Authorize r st = map_prod Some id (api_authorize L N h w r st)"
| "serve_api L J C H N h w Token r st = map_prod Some id (api_token L H h w r st)"
| "serve_api L J C H N h w RevokedTokens r st = map_prod Some id (api_revokedTokens w st)"
| "serve_api L J C H N h w IdentifyClaims r st = (Some (api_identifyClaims L H N h r st), st)"
| "serve_api L J C H N h w IdentifyComplete r st = map_prod Some id (api_identifyComplete L H N h w r st)"
| "serve_api L J C H N h w IdentifyReject r st = map_prod Some id (api_identifyReject L H h w r st)"
| "serve_api L J C H N h w VpCreateSession r st = with_verifier h st (\<lambda>v. oid4vpCreateSession L J H v w r)"
| "serve_api L J C H N h w VpRequestObject r st = with_verifier h st (\<lambda>v s. map_prod Some id (oid4vpRequestObject w r s))"
| "serve_api L J C H N h w VpResponse r st = with_verifier h st (\<lambda>v. oid4vpResponse L J C H N v w r)"
| "serve_api L J C H N h w VpResult r st = with_verifier h st (\<lambda>v s. map_prod Some id (oid4vpResult w r s))"

subsection \<open>Cross-origin requests\<close>

definition cors_headers :: "(string \<times> string) list" where
  "cors_headers = [(''Access-Control-Allow-Origin'', ''*''), (''Access-Control-Allow-Methods'', ''GET, POST, OPTIONS''),
     (''Access-Control-Allow-Headers'',
      ''Content-Type, Authorization, DPoP, OAuth-Client-Attestation, OAuth-Client-Attestation-PoP'')]"

definition WithCORS ::
  "(server_request \<Rightarrow> 's \<Rightarrow> reply option \<times> 's) \<Rightarrow> server_request \<Rightarrow> 's \<Rightarrow> reply option \<times> 's" where
  "WithCORS next r s =
     (if sq_Method r = ''OPTIONS''
      then (Some \<lparr>rp_Status = 204, rp_Headers = cors_headers, rp_Cookie = None, rp_Body = NoBody\<rparr>, s)
      else let (p, s') = next r s in (map_option (rp_Headers_update (\<lambda>hs. cors_headers @ hs)) p, s'))"

subsection \<open>Forms read back\<close>

lemma escape_error_None: "escape_error s = None \<longleftrightarrow> QueryUnescape s \<noteq> None"
  by (induction s rule: QueryUnescape.induct) (auto split: list.splits option.splits)

lemma pair_error_encode: "pair_error L (encode_pair kv) err = err"
proof -
  have k: "CHR ''='' \<notin> set (QueryEscape (fst kv))" "CHR '';'' \<notin> set (encode_pair kv)"
    using QueryEscape_seps [of "fst kv"] QueryEscape_seps [of "snd kv"] by (auto simp: encode_pair_def)
  moreover have "encode_pair kv \<noteq> []" by (simp add: encode_pair_def)
  moreover have "escape_error (QueryEscape s) = None" for s by (simp add: escape_error_None QueryUnescape_Escape)
  ultimately show ?thesis
    by (simp add: pair_error_def encode_pair_def go_cut_append first_error_def split: option.split)
qed

lemma query_error_Encode: "query_error L (values_Encode m) = None"
proof -
  have none: "fold (pair_error L) (map encode_pair ps) None = None" for ps
    by (induction ps) (simp_all add: pair_error_encode)
  define ps where "ps = value_pairs (sort_key fst m)"
  have "fold (pair_error L) (go_split (CHR ''&'') (go_join (CHR ''&'') (map encode_pair ps))) None = None"
  proof (cases "ps = []")
    case True
    then show ?thesis by (simp add: pair_error_def)
  next
    case False
    then have "go_split (CHR ''&'') (go_join (CHR ''&'') (map encode_pair ps)) = map encode_pair ps"
      by (intro go_split_join) (auto simp: encode_pair_no_amp)
    then show ?thesis using none by simp
  qed
  then show ?thesis by (simp add: query_error_def values_Encode_def ps_def)
qed

text \<open>A url-encoded POST of the values \<open>m\<close>.\<close>

definition posts_form :: "http_lib \<Rightarrow> server_request \<Rightarrow> url_values \<Rightarrow> bool" where
  "posts_form H r m \<longleftrightarrow> sq_Method r = ''POST'' \<and> sq_RawQuery r = [] \<and> sq_Body r = Inr (values_Encode m) \<and>
     length (values_Encode m) \<le> maxFormSize \<and> header_Get r ''Content-Type'' \<noteq> [] \<and>
     hl_ParseMediaType H (header_Get r ''Content-Type'') = (''application/x-www-form-urlencoded'', None)"

lemma parseForm_posted:
  assumes "values_wf m" "posts_form H r m"
  shows "parseForm L H r = Inr (\<lambda>k. if values_Get k m = [] then None else Some (values_Get k m))"
proof -
  have "query_error L [] = None" by (simp add: query_error_def pair_error_def)
  moreover have "parsePostForm L H r = (ParseQuery (values_Encode m), None)"
    using assms(2) by (simp add: parsePostForm_def posts_form_def query_error_Encode first_error_def Let_def)
  ultimately show ?thesis
    using assms ParseQuery_Encode [OF assms(1)]
    by (auto simp: parseForm_def posts_form_def first_error_def values_Get_def fun_eq_iff split: option.splits list.splits)
qed

lemma query_Get_Encode: "values_wf m \<Longrightarrow> sq_RawQuery r = values_Encode m \<Longrightarrow> query_Get r k = values_Get k m"
  by (simp add: query_Get_def values_Get_def ParseQuery_Encode)

text \<open>
  C38: a form posted in the standard encoding is read back: whatever parameters a client sends, with
  whatever bytes in names and values, the endpoints see the first value of each parameter, and no
  parameter whose value is empty.
\<close>

theorem posted_form_read_back:
  assumes "values_wf m" and "sq_Method r = ''POST''" and "sq_RawQuery r = []" and "sq_Body r = Inr (values_Encode m)"
    and "length (values_Encode m) \<le> maxFormSize" and "sq_Header r ''Content-Type'' = [ct]" and "ct \<noteq> []"
    and "hl_ParseMediaType H ct = (''application/x-www-form-urlencoded'', None)"
  shows "\<exists>form. parseForm L H r = Inr form \<and> (\<forall>k. idx form k = values_Get k m) \<and> [] \<notin> ran form"
proof -
  have "posts_form H r m" using assms by (simp add: posts_form_def header_Get_def)
  from parseForm_posted [OF assms(1) this] show ?thesis
    by (auto simp: idx_def ran_def)
qed

definition ex_http :: http_lib where
  "ex_http = \<lparr>hl_ParseMediaType = (\<lambda>s. (s, None)), hl_DecodeBody = (\<lambda>b. Inr (JObj [(''session'', JStr (case b of Inr s \<Rightarrow> s | Inl _ \<Rightarrow> []))])),
     hl_TypeError = (\<lambda>t j. ''cannot unmarshal''), hl_openAPISpec = []\<rparr>"

definition ex_post :: "(string \<Rightarrow> string list) \<Rightarrow> string \<Rightarrow> server_request" where
  "ex_post hs body = \<lparr>sq_Method = ''POST'', sq_PathID = [], sq_RawQuery = [],
     sq_Header = hs(''Content-Type'' := [''application/x-www-form-urlencoded'']), sq_Cookies = [], sq_BasicAuth = None,
     sq_Body = Inr body\<rparr>"

theorem posted_form_read_back_witness:
  "\<forall>L. \<exists>form. parseForm L ex_http (ex_post (\<lambda>_. []) (values_Encode [(''a'', [''b c&'', ''d'']), (''e'', [[]])])) = Inr form \<and>
     idx form ''a'' = ''b c&'' \<and> form ''e'' = None"
proof
  fix L :: lib
  let ?m = "[(''a'', [''b c&'', ''d'']), (''e'', [[]])]"
  have "length (values_Encode ?m) \<le> 20" by code_simp
  then have "length (values_Encode ?m) \<le> maxFormSize" by (simp add: maxFormSize_def)
  moreover have "values_wf ?m" by (simp add: values_wf_def)
  ultimately obtain form where f: "parseForm L ex_http (ex_post (\<lambda>_. []) (values_Encode ?m)) = Inr form"
    "\<forall>k. idx form k = values_Get k ?m" "[] \<notin> ran form"
    using posted_form_read_back [of ?m "ex_post (\<lambda>_. []) (values_Encode ?m)" "''application/x-www-form-urlencoded''" ex_http L]
    by (auto simp: ex_post_def ex_http_def)
  have "form ''e'' \<noteq> Some []" using f(3) by (auto simp: ran_def)
  then have "form ''e'' = None" using f(2) [rule_format, of "''e''"] by (auto simp: idx_def values_Get_def split: option.splits)
  with f show "\<exists>form. parseForm L ex_http (ex_post (\<lambda>_. []) (values_Encode ?m)) = Inr form \<and>
      idx form ''a'' = ''b c&'' \<and> form ''e'' = None" by (simp add: values_Get_def)
qed

end
