(* ===== verification/Verifier_Sessions.thy ===== *)
theory Verifier_Sessions
  imports Verifier
begin

text \<open>
  Properties of the OID4VP verifier: what a verified session rests on (an invariant over all runs of
  its four operations, by rule induction), that a good presentation verifies its session, the refinement of
  the sessions to a four-valued phase, and the request object. The examples run one session from creation to a successful poll.
\<close>

subsection \<open>What verification of a response establishes\<close>

text \<open>Go ranges over every key of a map exactly once.\<close>

definition ord_ok :: "world \<Rightarrow> bool" where
  "ord_ok w \<longleftrightarrow> (\<forall>ks. set (ord w ks) = set ks \<and> length (ord w ks) = length ks)"

lemma ranged_entry:
  assumes "ord_ok w"
  shows "(k, v) \<in> set (ranged w m) \<longleftrightarrow> map_of m k = Some v"
proof -
  have "set (ord w (map fst m)) = fst ` set m"
    using assms unfolding ord_ok_def by (metis set_map)
  then show ?thesis
    by (auto simp: ranged_def image_iff) (metis option.sel weak_map_of_SomeI, metis fst_conv map_of_SomeD)
qed

text \<open>
  A credential is presented, with its claims and, for an SD-JWT, its holder key, when the token filed
  under its id verifies for the client identifier and nonce of the session and its status list entry is
  valid (SD-JWT), respectively when the device response verifies for the requested document type (mdoc).
  \<open>N\<close> and \<open>w\<close> are the network and the world of the request that brought the tokens.
\<close>

definition sd_presented ::
  "lib \<Rightarrow> net \<Rightarrow> world \<Rightarrow> verification_session \<Rightarrow> (string \<times> string) list \<Rightarrow> string \<Rightarrow> jwk \<Rightarrow> json_map \<Rightarrow> bool" where
  "sd_presented L N w v toks cid key claims \<longleftrightarrow>
     (\<exists>tok i res. map_of toks cid = Some tok \<and> tok \<noteq> [] \<and>
        VerifyWithStatus L (clk w i) tok (vs_ClientID v) (vs_Nonce v) = (res, None) \<and>
        status_error L N (sdr_Status res) = Some None \<and> sdr_HolderKey res = Some key \<and> sdr_Claims res = claims)"

definition mdoc_presented ::
  "lib \<Rightarrow> cbor_lib \<Rightarrow> world \<Rightarrow> verification_session \<Rightarrow> (string \<times> string) list \<Rightarrow> dcql_credential_query \<Rightarrow> json_map \<Rightarrow> bool" where
  "mdoc_presented L C w v toks cred claims \<longleftrightarrow>
     (\<exists>tok i thumbprint cl. map_of toks (dcq_ID cred) = Some tok \<and> tok \<noteq> [] \<and>
        mdoc_thumbprint L v = Some (Inr thumbprint) \<and>
        mdoc_Verify L C (after i w) tok (case dcq_Meta cred of None \<Rightarrow> [] | Some m \<Rightarrow> dm_DoctypeValue m)
          (vs_ClientID v) (vs_Nonce v) thumbprint (vs_ResponseURI v) None = Inr cl \<and>
        claims = map (\<lambda>(k, c). (k, any_of_cbor c)) cl)"

definition presented ::
  "lib \<Rightarrow> cbor_lib \<Rightarrow> net \<Rightarrow> world \<Rightarrow> verification_session \<Rightarrow> (string \<times> string) list \<Rightarrow> dcql_credential_query \<Rightarrow>
   jwk option \<Rightarrow> json_map \<Rightarrow> bool" where
  "presented L C N w v toks cred key claims \<longleftrightarrow>
     (if dcq_Format cred = FormatMsoMdoc then key = None \<and> mdoc_presented L C w v toks cred claims
      else \<exists>k. key = Some k \<and> sd_presented L N w v toks (dcq_ID cred) k claims)"

lemma VerifyWithStatus_holder:
  "VerifyWithStatus L now p aud nonce = (res, None) \<Longrightarrow> \<exists>k. sdr_HolderKey res = Some k"
  by (auto simp: VerifyWithStatus_def Let_def split: sum.splits option.splits)

lemma after_after [simp]: "after i (after n w) = after (n + i) w"
  by (simp add: after_def add.assoc)

lemma after_0 [simp]: "after 0 w = w"
  by (simp add: after_def)

text \<open>The later readings of a clock are readings of the clock.\<close>

lemma presented_after: "presented L C N (after n w) v toks cred key claims \<Longrightarrow> presented L C N w v toks cred key claims"
  unfolding presented_def sd_presented_def mdoc_presented_def after_after after_simps by metis

lemma verifyPresentation_presented:
  assumes p: "verifyPresentation L C N w v cred tok = Some (Inr (claims, key))"
    and "map_of toks (dcq_ID cred) = Some tok" "tok \<noteq> []"
  shows "presented L C N w v toks cred key claims"
proof (cases "dcq_Format cred = FormatMsoMdoc")
  case True
  with assms show ?thesis unfolding presented_def mdoc_presented_def verifyPresentation_def
    by (auto simp: Let_def split: option.splits intro: exI [of _ "0 :: nat"])
next
  case False
  from p False obtain res where "VerifyWithStatus L (clk w 0) tok (vs_ClientID v) (vs_Nonce v) = (res, None)"
    "status_error L N (sdr_Status res) = Some None" "key = sdr_HolderKey res" "claims = sdr_Claims res"
    by (auto simp: verifyPresentation_def split: option.splits prod.splits)
  with VerifyWithStatus_holder [OF this(1)] assms(2,3) False show ?thesis unfolding presented_def sd_presented_def by metis
qed

text \<open>What the loop over the requested credentials \<open>CS\<close> has collected at any moment.\<close>

definition collected ::
  "lib \<Rightarrow> cbor_lib \<Rightarrow> net \<Rightarrow> world \<Rightarrow> verification_session \<Rightarrow> (string \<times> string) list \<Rightarrow> dcql_credential_query set \<Rightarrow>
   (string \<times> json_map) list \<Rightarrow> (string \<times> jwk) list \<Rightarrow> bool" where
  "collected L C N w v toks CS claims keys \<longleftrightarrow> distinct (map fst claims) \<and>
     (\<forall>cid k. map_of keys cid = Some k \<longrightarrow> (\<exists>cl. sd_presented L N w v toks cid k cl)) \<and>
     dom (map_of keys) \<subseteq> dcq_ID ` {cred \<in> CS. dcq_Format cred \<noteq> FormatMsoMdoc} \<and>
     (\<forall>cid cl. map_of claims cid = Some cl \<longrightarrow> (\<exists>cred\<in>CS. \<exists>key. dcq_ID cred = cid \<and>
        presented L C N w v toks cred key cl \<and> (\<forall>k. key = Some k \<longrightarrow> map_of keys cid = Some k)))"

lemma collected_update:
  assumes "collected L C N w v toks CS claims keys" "cred \<in> CS" "presented L C N w v toks cred key cl"
  shows "collected L C N w v toks CS (AList.update (dcq_ID cred) cl claims)
    (case key of None \<Rightarrow> keys | Some k \<Rightarrow> AList.update (dcq_ID cred) k keys)"
proof (cases key)
  case None
  with assms show ?thesis unfolding collected_def by (auto simp: update_conv' distinct_update)
next
  case (Some k)
  then have k: "sd_presented L N w v toks (dcq_ID cred) k cl" "dcq_Format cred \<noteq> FormatMsoMdoc"
    using assms(3) by (auto simp: presented_def split: if_splits)
  show ?thesis using assms k unfolding collected_def Some by (auto simp: update_conv' distinct_update)
qed

lemma verify_each_Inr:
  assumes "verify_each L C N (after n w) v toks creds claims keys = Some (Inr (claims', keys'))"
    and "collected L C N w v toks CS claims keys" "set creds \<subseteq> CS"
  shows "collected L C N w v toks CS claims' keys' \<and> dom (map_of keys) \<subseteq> dom (map_of keys') \<and>
    dom (map_of claims') = dom (map_of claims) \<union> dcq_ID ` set creds \<and>
    (\<forall>cred\<in>set creds. if dcq_Format cred = FormatMsoMdoc then \<exists>cl. mdoc_presented L C w v toks cred cl
       else dcq_ID cred \<in> dom (map_of keys'))"
  using assms
proof (induction creds arbitrary: n claims keys)
  case (Cons cred creds)
  from Cons.prems(1) obtain tok cl key where tok: "map_of toks (dcq_ID cred) = Some tok" "tok \<noteq> []"
    and p: "verifyPresentation L C N (after n w) v cred tok = Some (Inr (cl, key))"
    and rest: "verify_each L C N (after (n + 2) w) v toks creds (AList.update (dcq_ID cred) cl claims)
        (case key of None \<Rightarrow> keys | Some k \<Rightarrow> AList.update (dcq_ID cred) k keys) = Some (Inr (claims', keys'))"
    by (auto split: option.splits if_splits sum.splits)
  have pr: "presented L C N w v toks cred key cl"
    using presented_after [OF verifyPresentation_presented [OF p tok]] .
  have "cred \<in> CS" using Cons.prems(3) by simp
  from Cons.IH [OF rest collected_update [OF Cons.prems(2) this pr]] Cons.prems(3) pr show ?case
    by (auto simp: presented_def update_conv' dom_def split: if_splits option.splits)
qed auto

text \<open>A SHA-256 thumbprint is never empty.\<close>

definition thumbprints_ok :: "lib \<Rightarrow> bool" where
  "thumbprints_ok L \<longleftrightarrow> (\<forall>k t. jwk_Thumbprint L k = Inr t \<longrightarrow> t \<noteq> [])"

lemma RawURL_Encode_nonempty: "s \<noteq> [] \<Longrightarrow> RawURL_Encode s \<noteq> []"
  by (metis raw_url.enc_eq_iff b64_encode.simps(1) RawURL_Encode_def)

lemma jwkThumbprint_nonempty: "thumbprints_ok L \<Longrightarrow> jwkThumbprint L k = Inr t \<Longrightarrow> t \<noteq> []"
  by (auto simp: jwkThumbprint_def thumbprints_ok_def RawURL_Encode_nonempty)

lemma same_holder_None:
  assumes "thumbprints_ok L" "same_holder L keys i t = None"
  shows "\<exists>t'. (t \<noteq> [] \<longrightarrow> t' = t) \<and> (\<forall>(cid, k)\<in>set keys. jwkThumbprint L k = Inr t')"
  using assms
proof (induction L keys i t rule: same_holder.induct)
  case (2 L cid key keys i t)
  from 2(4) obtain th where th: "jwkThumbprint L key = Inr th" by (cases "jwkThumbprint L key") simp_all
  then have ne: "th \<noteq> []" using jwkThumbprint_nonempty [OF 2(3)] by blast
  show ?case
  proof (cases "t = []")
    case True
    then have "same_holder L keys cid th = None" using 2(4) th by simp
    from 2(1) [OF th True 2(3) this] ne obtain t' where "t' = th" "\<forall>(cid, k)\<in>set keys. jwkThumbprint L k = Inr t'"
      by blast
    with True th show ?thesis by (intro exI [of _ th]) simp
  next
    case False
    then have "th = t" "same_holder L keys i t = None" using 2(4) th by (simp_all split: if_splits)
    from 2(2) [OF th False _ 2(3) this(2)] \<open>th = t\<close> False obtain t'
      where "t' = t" "\<forall>(cid, k)\<in>set keys. jwkThumbprint L k = Inr t'" by blast
    with False th \<open>th = t\<close> show ?thesis by (intro exI [of _ t]) simp
  qed
qed auto

lemma subjectID_Inr:
  assumes "ord_ok w" "subjectIDFromHolderKeys L w keys = Inr sub"
  shows "\<exists>cid k t. map_of keys cid = Some k \<and> jwkThumbprint L k = Inr t \<and> sub = hex_EncodeToString (sha256 t)"
proof -
  from assms(2) obtain cid k r where r: "ranged w keys = (cid, k) # r"
    and t: "\<exists>t. jwkThumbprint L k = Inr t \<and> sub = hex_EncodeToString (sha256 t)"
    by (auto simp: subjectIDFromHolderKeys_def split: list.splits)
  from r have "(cid, k) \<in> set (ranged w keys)" by simp
  then have "map_of keys cid = Some k" by (simp add: ranged_entry [OF assms(1)])
  with t show ?thesis by blast
qed

text \<open>
  The evidence behind a verified session: every requested credential was presented, at least one is
  an SD-JWT, all SD-JWT credentials carry holder keys of one thumbprint, of which the subject
  identifier is the hash, and the claims are those of the presentations, filed under the ids requested.
\<close>

definition justified ::
  "lib \<Rightarrow> cbor_lib \<Rightarrow> net \<Rightarrow> world \<Rightarrow> verification_session \<Rightarrow> (string \<times> string) list \<Rightarrow> (string \<times> json_map) list \<Rightarrow> string \<Rightarrow> bool" where
  "justified L C N w v toks claims subject \<longleftrightarrow>
     (let creds = set (dq_Credentials (vs_DCQLQuery v)) in
      \<exists>thumb. subject = hex_EncodeToString (sha256 thumb) \<and>
        (\<exists>cred\<in>creds. dcq_Format cred \<noteq> FormatMsoMdoc) \<and>
        (\<forall>cred\<in>creds. \<exists>key cl. presented L C N w v toks cred key cl \<and> (\<forall>k. key = Some k \<longrightarrow> jwkThumbprint L k = Inr thumb)) \<and>
        distinct (map fst claims) \<and> dom (map_of claims) = dcq_ID ` creds \<and>
        (\<forall>cid cl. map_of claims cid = Some cl \<longrightarrow> (\<exists>cred\<in>creds. \<exists>key. dcq_ID cred = cid \<and>
           presented L C N w v toks cred key cl \<and> (\<forall>k. key = Some k \<longrightarrow> jwkThumbprint L k = Inr thumb))))"

lemma verifyPresentations_justified:
  assumes L: "thumbprints_ok L" and w: "ord_ok w"
    and v: "verifyPresentations L C N (after n w) v toks = Some (Inr (claims, keys))"
    and s: "subjectIDFromHolderKeys L (after n w) keys = Inr sub"
  shows "justified L C N w v toks claims sub"
proof -
  let ?creds = "dq_Credentials (vs_DCQLQuery v)"
  from v have e: "verify_each L C N (after n w) v toks ?creds [] [] = Some (Inr (claims, keys))"
    and b: "length ?creds > 1 \<Longrightarrow> verifyCrossCredentialBinding L (after n w) keys = None"
    by (auto simp: verifyPresentations_def Let_def split: if_splits)
  have w': "ord_ok (after n w)" using w by (simp add: ord_ok_def)
  have "collected L C N w v toks (set ?creds) [] []" by (simp add: collected_def)
  from verify_each_Inr [OF e this subset_refl] have col: "collected L C N w v toks (set ?creds) claims keys"
    and dc: "dom (map_of claims) = dcq_ID ` set ?creds"
    and creds: "\<forall>cred\<in>set ?creds. if dcq_Format cred = FormatMsoMdoc then \<exists>cl. mdoc_presented L C w v toks cred cl
       else dcq_ID cred \<in> dom (map_of keys)" by simp_all
  from subjectID_Inr [OF w' s] obtain cid k t where
    k: "map_of keys cid = Some k" "jwkThumbprint L k = Inr t" "sub = hex_EncodeToString (sha256 t)" by blast
  have dom: "dom (map_of keys) \<subseteq> dcq_ID ` {cred \<in> set ?creds. dcq_Format cred \<noteq> FormatMsoMdoc}" using col by (simp add: collected_def)
  have same: "jwkThumbprint L k' = Inr t" if k': "map_of keys cid' = Some k'" for cid' k'
  proof (cases "length ?creds > 1")
    case True
    from same_holder_None [OF L b [OF True, unfolded verifyCrossCredentialBinding_def]]
    obtain t' where t': "\<forall>(cid, k)\<in>set (ranged (after n w) keys). jwkThumbprint L k = Inr t'" by blast
    have "(cid, k) \<in> set (ranged (after n w) keys)" "(cid', k') \<in> set (ranged (after n w) keys)"
      using k(1) k' by (simp_all add: ranged_entry [OF w'])
    with t' have "jwkThumbprint L k = Inr t'" "jwkThumbprint L k' = Inr t'" by auto
    with k(2) show ?thesis by simp
  next
    case False
    then have "card (dcq_ID ` set ?creds) \<le> 1"
      by (metis card_image_le card_length finite_set le_trans not_less)
    moreover have "{cid, cid'} \<subseteq> dcq_ID ` set ?creds" using dom k(1) k' by blast
    ultimately have "card {cid, cid'} \<le> 1" by (meson List.finite_set card_mono finite_imageI le_trans)
    then have "cid' = cid" by (auto simp: card_insert_if split: if_splits)
    then show ?thesis using k k' by simp
  qed
  have each: "\<exists>key cl. presented L C N w v toks cred key cl \<and> (\<forall>k. key = Some k \<longrightarrow> jwkThumbprint L k = Inr t)"
    if "cred \<in> set ?creds" for cred
  proof (cases "dcq_Format cred = FormatMsoMdoc")
    case False
    then have "dcq_ID cred \<in> dom (map_of keys)" using bspec [OF creds that] by simp
    then obtain k where k: "map_of keys (dcq_ID cred) = Some k" by blast
    then obtain cl where "sd_presented L N w v toks (dcq_ID cred) k cl" using col unfolding collected_def by blast
    with False same [OF k] show ?thesis by (auto simp: presented_def)
  next
    case True
    then show ?thesis using bspec [OF creds that] by (auto simp: presented_def)
  qed
  have "\<exists>cred\<in>set ?creds. dcq_Format cred \<noteq> FormatMsoMdoc" using dom k(1) by auto
  moreover have "\<exists>cred\<in>set ?creds. \<exists>key. dcq_ID cred = cid \<and> presented L C N w v toks cred key cl \<and>
      (\<forall>k. key = Some k \<longrightarrow> jwkThumbprint L k = Inr t)" if "map_of claims cid = Some cl" for cid cl
    using that same col unfolding collected_def by blast
  ultimately show ?thesis using k(3) each dc col unfolding justified_def Let_def collected_def by blast
qed

subsection \<open>The sessions of the verifier\<close>

definition verifier_statuses :: "string set" where
  "verifier_statuses = {''pending'', ''request_sent'', ''verified'', ''failed''}"

text \<open>What no operation changes of a session: all but its outcome and its age.\<close>

definition as_asked :: "verification_session \<Rightarrow> verification_session" where
  "as_asked v = v\<lparr>vs_Status := [], vs_VPTokens := [], vs_VerifiedClaims := [], vs_SubjectID := [], vs_Error := [], vs_CreatedAt := 0\<rparr>"

lemma as_asked_updates [simp]:
  "as_asked (v\<lparr>vs_Status := a\<rparr>) = as_asked v" "as_asked (v\<lparr>vs_CreatedAt := t\<rparr>) = as_asked v"
  "as_asked (v\<lparr>vs_Status := a, vs_VPTokens := b, vs_VerifiedClaims := c, vs_SubjectID := d, vs_Error := e\<rparr>) = as_asked v"
  by (simp_all add: as_asked_def)

text \<open>
  A response carries tokens for a session when it names the session by its state: in the clear, or inside what
  the session's own key decrypts. A session has earned an outcome when one of the responses \<open>W\<close> received by
  the service, each with the network and the world of its request, carries the tokens and justifies it.
\<close>

type_synonym received = "net \<times> world \<times> response_request"

definition names_session :: "lib \<Rightarrow> key_lib \<Rightarrow> response_request \<Rightarrow> verification_session \<Rightarrow> json \<Rightarrow> bool" where
  "names_session L J req v raw \<longleftrightarrow>
     (if rr_Response req = [] then rr_State req = vs_State v \<and> raw = JStr (rr_VPToken req)
      else \<exists>key d. vs_EncryptionKey v = Some key \<and> decryptResponse L J key (rr_Response req) = Inr d \<and>
        dr_state d = vs_State v \<and> raw = dr_vpToken d)"

definition carries :: "lib \<Rightarrow> key_lib \<Rightarrow> response_request \<Rightarrow> verification_session \<Rightarrow> (string \<times> string) list \<Rightarrow> bool" where
  "carries L J req v toks \<longleftrightarrow> (\<exists>raw. names_session L J req v raw \<and>
     toks = (case allVPTokens (parseVPToken L raw) (vs_DCQLQuery v) of None \<Rightarrow> [] | Some t \<Rightarrow> t))"

definition earned ::
  "lib \<Rightarrow> key_lib \<Rightarrow> cbor_lib \<Rightarrow> received set \<Rightarrow> verification_session \<Rightarrow> (string \<times> string) list \<Rightarrow> (string \<times> json_map) list \<Rightarrow>
   string \<Rightarrow> bool" where
  "earned L J C W v toks claims subject \<longleftrightarrow>
     (\<exists>(N, w, req)\<in>W. carries L J req v toks \<and> justified L C N w v toks claims subject)"

lemma as_asked_eq:
  assumes "as_asked v = as_asked v'"
  shows "vs_SessionID v = vs_SessionID v'" "vs_State v = vs_State v'" "vs_DCQLQuery v = vs_DCQLQuery v'"
    "vs_ResponseMode v = vs_ResponseMode v'" "vs_EncryptionKey v = vs_EncryptionKey v'"
    "earned L J C W v toks claims sub = earned L J C W v' toks claims sub"
proof -
  have "earned L J C W (as_asked v) toks claims sub = earned L J C W v toks claims sub" for v
    by (simp add: as_asked_def earned_def carries_def names_session_def justified_def presented_def sd_presented_def mdoc_presented_def mdoc_thumbprint_def)
  then show "earned L J C W v toks claims sub = earned L J C W v' toks claims sub" using assms by metis
qed (use assms in \<open>cases v; cases v'; simp add: as_asked_def\<close>)+

lemma earned_mono: "earned L J C W v toks claims sub \<Longrightarrow> W \<subseteq> W' \<Longrightarrow> earned L J C W' v toks claims sub"
  unfolding earned_def by blast

text \<open>
  What holds of a stored session at all times: it asks for a credential, an encrypted mode comes
  with its key, its status is one of four, and \<^verbatim>\<open>verified\<close> is backed by evidence.
\<close>

definition session_ok :: "lib \<Rightarrow> key_lib \<Rightarrow> cbor_lib \<Rightarrow> received set \<Rightarrow> verification_session \<Rightarrow> bool" where
  "session_ok L J C W v \<longleftrightarrow> dq_Credentials (vs_DCQLQuery v) \<noteq> [] \<and>
     (vs_ResponseMode v = ResponseModeDirectPostJWT \<longrightarrow> vs_EncryptionKey v \<noteq> None) \<and>
     vs_Status v \<in> verifier_statuses \<and>
     (vs_Status v = ''verified'' \<longrightarrow> earned L J C W v (vs_VPTokens v) (vs_VerifiedClaims v) (vs_SubjectID v))"

definition verifier_inv :: "lib \<Rightarrow> key_lib \<Rightarrow> cbor_lib \<Rightarrow> received set \<Rightarrow> store \<Rightarrow> bool" where
  "verifier_inv L J C W s \<longleftrightarrow> verif_wf s \<and> (\<forall>sid v. verifications s sid = Some v \<longrightarrow> session_ok L J C W v)"

text \<open>The identifiers drawn by \<open>CreateSession\<close> have not been used before.\<close>

definition fresh_draws :: "lib \<Rightarrow> key_lib \<Rightarrow> verifier_service \<Rightarrow> world \<Rightarrow> store \<Rightarrow> bool" where
  "fresh_draws L J svc w s \<longleftrightarrow> verifications s (RandomToken 16 (rnd w 0)) = None \<and>
     verificationIDByState s (RandomToken 32 (rnd w 1)) = None \<and>
     (\<forall>k. session_key L J svc (rnd w 3) = Inr (Some k) \<longrightarrow> verificationIDByEncKID s (rek_KID k) = None)"

text \<open>
  The steps of the store under the verifier's four operations, at any instant, and for the responses
  \<open>W\<close> (any set of them: what is shown of a session speaks of these); the rest of the service shares the store but never touches its sessions.
\<close>

inductive verifier_step :: "lib \<Rightarrow> key_lib \<Rightarrow> cbor_lib \<Rightarrow> verifier_service \<Rightarrow> received set \<Rightarrow> store \<Rightarrow> store \<Rightarrow> bool"
  for L J C svc W where
  step_create: "fresh_draws L J svc w s \<Longrightarrow> verifier_step L J C svc W s (snd (CreateSession L J svc w creds s))"
| step_fetch: "verifier_step L J C svc W s (snd (GetRequestObject w sid s))"
| step_respond: "ord_ok w \<Longrightarrow> (N, w, req) \<in> W \<Longrightarrow> verifier_step L J C svc W s (snd (HandleResponse L J C N w req s))"
| step_poll: "verifier_step L J C svc W s (snd (GetResult w sid s))"
| step_elsewhere: "verifications s' = verifications s \<Longrightarrow> verificationIDByState s' = verificationIDByState s \<Longrightarrow>
    verificationIDByEncKID s' = verificationIDByEncKID s \<Longrightarrow> verifier_step L J C svc W s s'"

inductive verifier_reachable :: "lib \<Rightarrow> key_lib \<Rightarrow> cbor_lib \<Rightarrow> verifier_service \<Rightarrow> received set \<Rightarrow> store \<Rightarrow> bool"
  for L J C svc W where
  verifier_start: "verifier_reachable L J C svc W NewStore"
| verifier_next: "verifier_reachable L J C svc W s \<Longrightarrow> verifier_step L J C svc W s s' \<Longrightarrow> verifier_reachable L J C svc W s'"

text \<open>Lookups only ever remove sessions, updates change one session in place.\<close>

lemma find_keeps_inv: "verifier_inv L J C W s \<Longrightarrow> verifier_inv L J C W (snd (findVerificationLocked now sid s))"
  unfolding verifier_inv_def
  by (auto simp: findVerificationLocked_wf) (auto simp: findVerificationLocked_def deleteVerificationLocked_def
      split: option.splits if_splits)

lemma lookups_keep_inv:
  assumes "verifier_inv L J C W s"
  shows "verifier_inv L J C W (snd (FindVerification now sid s))"
    "verifier_inv L J C W (snd (FindVerificationByState now st s))"
    "verifier_inv L J C W (snd (FindVerificationByEncryptionKID now kid s))"
  using assms find_keeps_inv
  by (auto simp: FindVerification_def FindVerificationByState_def FindVerificationByEncryptionKID_def
      split: option.splits)

lemma pointer_update_inv:
  assumes inv: "verifier_inv L J C W s"
    and f: "\<And>v. vs_SessionID (f v) = vs_SessionID v \<and> vs_State (f v) = vs_State v \<and>
               vs_EncryptionKey (f v) = vs_EncryptionKey v"
    and ok: "\<And>v. verifications s sid = Some v \<Longrightarrow> session_ok L J C W v \<Longrightarrow> session_ok L J C W (f v)"
  shows "verifier_inv L J C W (findVerificationPointerLocked now sid f s)"
  using inv pointer_update_wf [of s f, OF _ f] ok unfolding verifier_inv_def
  by (auto simp: findVerificationPointerLocked_def deleteVerificationLocked_def split: option.splits if_splits)

text \<open>What a session has earned depends only on what no operation changes of it.\<close>

lemma session_ok_age [simp]: "session_ok L J C W (v\<lparr>vs_CreatedAt := t\<rparr>) = session_ok L J C W v"
  using as_asked_eq(6) [of "v\<lparr>vs_CreatedAt := t\<rparr>" v] by (simp add: session_ok_def)

lemma session_ok_outcome:
  assumes "session_ok L J C W v" "st = ''failed'' \<or> st = ''verified'' \<and> earned L J C W v toks cl sub"
  shows "session_ok L J C W (v\<lparr>vs_Status := st, vs_VPTokens := toks, vs_VerifiedClaims := cl, vs_SubjectID := sub, vs_Error := e\<rparr>)"
proof -
  have "earned L J C W (v\<lparr>vs_Status := st, vs_VPTokens := toks, vs_VerifiedClaims := cl, vs_SubjectID := sub, vs_Error := e\<rparr>) toks cl sub =
      earned L J C W v toks cl sub" by (rule as_asked_eq(6)) simp
  then show ?thesis using assms by (auto simp: session_ok_def verifier_statuses_def)
qed

abbreviation locate :: "lib \<Rightarrow> key_lib \<Rightarrow> time \<Rightarrow> response_request \<Rightarrow> store \<Rightarrow> (early + verification_session \<times> json) \<times> store" where
  "locate L J now req s \<equiv> (if rr_Response req \<noteq> [] then locate_encrypted L J now (rr_Response req) s else locate_plain now req s)"

lemma locate_found:
  assumes "locate L J now req s = (Inr (v, raw), s1)"
  shows "\<exists>sid. findVerificationLocked now sid s = (Some v, s1) \<and>
    (rr_Response req = [] \<longrightarrow> verificationIDByState s (rr_State req) = Some sid) \<and>
    ((rr_Response req = [] \<longrightarrow> vs_State v = rr_State req) \<longrightarrow> names_session L J req v raw)"
  using assms by (auto simp: locate_encrypted_def locate_plain_def FindVerificationByState_def names_session_def
      FindVerificationByEncryptionKID_def Let_def split: if_splits sum.splits option.splits prod.splits)

lemma located_session:
  assumes inv: "verifier_inv L' J' C W s" and l: "locate L J now req s = (Inr (v, raw), s1)"
  shows "s1 = s \<and> verifications s (vs_SessionID v) = Some v \<and> now - vs_CreatedAt v \<le> verificationSessionTTL \<and> names_session L J req v raw"
proof -
  from locate_found [OF l] obtain sid where sid: "findVerificationLocked now sid s = (Some v, s1)"
    "rr_Response req = [] \<Longrightarrow> verificationIDByState s (rr_State req) = Some sid"
    "(rr_Response req = [] \<longrightarrow> vs_State v = rr_State req) \<longrightarrow> names_session L J req v raw" by blast
  from sid(1) have v: "verifications s sid = Some v" "s1 = s" "now - vs_CreatedAt v \<le> verificationSessionTTL"
    by (auto simp: findVerificationLocked_def split: option.splits if_splits)
  moreover have "vs_SessionID v = sid" "rr_Response req = [] \<longrightarrow> vs_State v = rr_State req"
    using inv v(1) sid(2) by (auto simp: verifier_inv_def verif_wf_def index_ok_def)
  ultimately show ?thesis using sid(3) by simp
qed

lemma locate_keeps_inv: "verifier_inv L J C W s \<Longrightarrow> verifier_inv L J C W (snd (locate L' J' now req s))"
  using lookups_keep_inv [of L J C W s]
  by (auto simp: locate_encrypted_def locate_plain_def Let_def split: sum.splits prod.splits) (metis snd_conv)+

text \<open>What a response that names a session records: nothing, a failure, or what the session has earned by it.\<close>

lemma record_outcome_updates:
  assumes "thumbprints_ok L" "ord_ok w" "(N, w, req) \<in> W" "names_session L J req v raw"
  obtains (same) "snd (record_outcome L C N (after n w) v raw s) = s"
  | (outcome) t st toks cl sub e where
    "snd (record_outcome L C N (after n w) v raw s) = UpdateVerificationResult t (vs_SessionID v) st toks cl sub e s"
    "st = ''failed'' \<or> st = ''verified'' \<and> earned L J C W v toks cl sub"
proof -
  define toks where "toks = (case allVPTokens (parseVPToken L raw) (vs_DCQLQuery v) of None \<Rightarrow> [] | Some t \<Rightarrow> t)"
  have "carries L J req v toks" using assms(4) by (auto simp: carries_def toks_def)
  then have earn: "earned L J C W v toks claims sub"
    if "verifyPresentations L C N (after n w) v toks = Some (Inr (claims, keys))" "subjectIDFromHolderKeys L (after n w) keys = Inr sub"
    for claims keys sub
    using verifyPresentations_justified [OF assms(1,2) that] assms(3) by (auto simp: earned_def)
  have "snd (record_outcome L C N (after n w) v raw s) = s \<or>
      (\<exists>t e. snd (record_outcome L C N (after n w) v raw s) = UpdateVerificationResult t (vs_SessionID v) ''failed'' toks [] [] e s) \<or>
      (\<exists>t cl sub. snd (record_outcome L C N (after n w) v raw s) = UpdateVerificationResult t (vs_SessionID v) ''verified'' toks cl sub [] s \<and>
        earned L J C W v toks cl sub)"
    unfolding record_outcome_def toks_def [symmetric] Let_def
    by (auto split: option.splits sum.splits prod.splits dest: earn)
  then show thesis using same outcome by blast
qed

lemma record_outcome_inv:
  assumes inv: "verifier_inv L J C W s" and v: "verifications s (vs_SessionID v) = Some v"
    and L: "thumbprints_ok L" and w: "ord_ok w" and req: "(N, w, req) \<in> W" "names_session L J req v raw"
  shows "verifier_inv L J C W (snd (record_outcome L C N (after n w) v raw s))"
proof (cases rule: record_outcome_updates [OF L w req, where C = C and n = n and s = s])
  case (2 t st toks cl sub e)
  have "session_ok L J C W v" using inv v by (auto simp: verifier_inv_def)
  then show ?thesis unfolding 2(1) UpdateVerificationResult_def
    using session_ok_outcome [OF _ 2(2)] v by (intro pointer_update_inv [OF inv]) simp_all
qed (simp add: inv)

lemma HandleResponse_inv:
  assumes inv: "verifier_inv L J C W s" and "thumbprints_ok L" "ord_ok w" "(N, w, req) \<in> W"
  shows "verifier_inv L J C W (snd (HandleResponse L J C N w req s))"
proof -
  obtain loc s1 where l: "locate L J (clk w 0) req s = (loc, s1)" by fastforce
  show ?thesis
  proof (cases loc)
    case (Inl e)
    then show ?thesis using locate_keeps_inv [OF inv, where L' = L and J' = J and now = "clk w 0" and req = req] by (simp add: HandleResponse_def l)
  next
    case (Inr p)
    obtain v raw where p: "p = (v, raw)" by fastforce
    from located_session [OF inv l [unfolded Inr p]] have "s1 = s" "verifications s (vs_SessionID v) = Some v" "names_session L J req v raw" by auto
    with record_outcome_inv [OF inv _ assms(2-4), of v raw 1] show ?thesis
      by (simp add: HandleResponse_def l Inr p case_prod_unfold Let_def)
  qed
qed

text \<open>What \<open>CreateSession\<close> stores, when it stores anything.\<close>

lemma CreateSession_cases:
  obtains "snd (CreateSession L J svc w creds s) = s" "\<And>r. fst (CreateSession L J svc w creds s) \<noteq> Some (Inr r)"
  | clientID key metadata jwt where "creds \<noteq> []" "verifier_clientID svc = Inr clientID"
    "session_key L J svc (rnd w 3) = Inr key"
    "buildClientMetadata L svc (buildDCQLQuery creds) key = Some (Inr metadata)"
    "signRequestObject L J svc (clk w 0) (session_request svc clientID (RandomToken 32 (rnd w 1)) (RandomToken 32 (rnd w 2))
        (buildDCQLQuery creds) metadata) = Inr jwt"
    "CreateSession L J svc w creds s =
      (Some (Inr \<lparr>csr_SessionID = RandomToken 16 (rnd w 0),
         csr_RequestURI = vf_baseURL svc @ APIPrefix @ ''/request/'' @ RandomToken 16 (rnd w 0),
         csr_ClientID = clientID, csr_State = RandomToken 32 (rnd w 1)\<rparr>),
       StoreVerification (clk w 1) (new_session svc w creds clientID key jwt) s)"
proof (cases "\<exists>r. fst (CreateSession L J svc w creds s) = Some (Inr r)")
  case True
  then obtain clientID key metadata jwt where *: "creds \<noteq> []" "verifier_clientID svc = Inr clientID"
    "session_key L J svc (rnd w 3) = Inr key"
    "buildClientMetadata L svc (buildDCQLQuery creds) key = Some (Inr metadata)"
    "signRequestObject L J svc (clk w 0) (session_request svc clientID (RandomToken 32 (rnd w 1)) (RandomToken 32 (rnd w 2))
        (buildDCQLQuery creds) metadata) = Inr jwt"
    by (auto simp: CreateSession_def Let_def split: if_splits sum.splits option.splits prod.splits)
  then show thesis using that(2) [OF *] by (simp add: CreateSession_def Let_def)
next
  case False
  then show thesis
    by (intro that(1)) (auto simp: CreateSession_def Let_def split: if_splits sum.splits option.splits prod.splits)
qed

text \<open>The session a call of \<open>CreateSession\<close> makes from what it draws.\<close>

definition opens :: "lib \<Rightarrow> key_lib \<Rightarrow> verifier_service \<Rightarrow> world \<Rightarrow> credential_request list \<Rightarrow> verification_session \<Rightarrow> bool" where
  "opens L J svc w creds v \<longleftrightarrow> creds \<noteq> [] \<and> (\<exists>clientID key metadata jwt. verifier_clientID svc = Inr clientID \<and>
     session_key L J svc (rnd w 3) = Inr key \<and> buildClientMetadata L svc (buildDCQLQuery creds) key = Some (Inr metadata) \<and>
     signRequestObject L J svc (clk w 0) (session_request svc clientID (RandomToken 32 (rnd w 1)) (RandomToken 32 (rnd w 2))
       (buildDCQLQuery creds) metadata) = Inr jwt \<and>
     v = new_session svc w creds clientID key jwt)"

lemma opens_session:
  assumes "opens L J svc w creds v"
  shows "vs_SessionID v = RandomToken 16 (rnd w 0)" "session_ok L J C W v"
  using assms
  by (auto simp: opens_def session_ok_def verifier_statuses_def new_session_def buildDCQLQuery_def session_key_def)

lemma CreateSession_opens:
  obtains "snd (CreateSession L J svc w creds s) = s" "\<And>r. fst (CreateSession L J svc w creds s) \<noteq> Some (Inr r)"
  | r v where "opens L J svc w creds v" "csr_SessionID r = RandomToken 16 (rnd w 0)"
    "CreateSession L J svc w creds s = (Some (Inr r), StoreVerification (clk w 1) v s)"
proof (cases rule: CreateSession_cases [of L J svc w creds s])
  case (2 clientID key metadata jwt)
  then show thesis by (intro that(2) [OF _ _ 2(6)]) (auto simp: opens_def)
qed (rule that(1))

lemma StoreVerification_inv:
  assumes inv: "verifier_inv L J C W s" and v: "fresh_verification v s" "session_ok L J C W v"
  shows "verifier_inv L J C W (StoreVerification now v s)"
proof -
  have "session_ok L J C W (v\<lparr>vs_CreatedAt := now\<rparr>)" using v(2) by simp
  then show ?thesis using inv StoreVerification_wf [OF _ v(1)]
    by (auto simp: verifier_inv_def StoreVerification_def Let_def)
qed

lemma CreateSession_inv:
  assumes inv: "verifier_inv L J C W s" and fresh: "fresh_draws L J svc w s"
  shows "verifier_inv L J C W (snd (CreateSession L J svc w creds s))"
proof (cases rule: CreateSession_opens [of L J svc w creds s])
  case (2 r v)
  have "fresh_verification v s"
    using fresh 2(1) by (auto simp: fresh_verification_def fresh_draws_def kid_of_def opens_def new_session_def split: option.splits)
  then show ?thesis using StoreVerification_inv [OF inv _ opens_session(2) [OF 2(1)]] 2(3) by simp
qed (simp add: inv)

lemma GetRequestObject_inv: "verifier_inv L J C W s \<Longrightarrow> verifier_inv L J C W (snd (GetRequestObject w sid s))"
proof -
  assume inv: "verifier_inv L J C W s"
  have "verifier_inv L J C W (UpdateVerificationStatus t sid ''request_sent'' s1)" if "verifier_inv L J C W s1" for t s1
    unfolding UpdateVerificationStatus_def
    by (rule pointer_update_inv [OF that]) (auto simp: session_ok_def verifier_statuses_def)
  with lookups_keep_inv(1) [OF inv, of "clk w 0" sid] show ?thesis
    by (auto simp: GetRequestObject_def Let_def split: prod.splits option.splits)
qed

lemma snd_GetResult: "snd (GetResult w sid s) = snd (FindVerification (clk w 0) sid s)"
  by (simp add: GetResult_def Let_def split: prod.split)

lemma verifier_step_inv:
  "verifier_step L J C svc W s s' \<Longrightarrow> thumbprints_ok L \<Longrightarrow> verifier_inv L J C W s \<Longrightarrow> verifier_inv L J C W s'"
proof (induction rule: verifier_step.induct)
  case (step_poll s w sid)
  then show ?case by (simp add: snd_GetResult lookups_keep_inv)
next
  case (step_elsewhere s' s)
  then show ?case using verif_wf_cong [of s' s] by (simp add: verifier_inv_def)
qed (auto simp: CreateSession_inv GetRequestObject_inv HandleResponse_inv)

lemma verifier_reachable_inv:
  assumes "verifier_reachable L J C svc W s" "thumbprints_ok L"
  shows "verifier_inv L J C W s"
  using assms(1)
proof induction
  case verifier_start
  show ?case using NewStore_wf by (simp add: verifier_inv_def) (simp add: NewStore_def)
qed (use assms(2) verifier_step_inv in blast)


subsection \<open>The claims reported\<close>

text \<open>
  The claims reported for a session, against those filed under the ids of its credentials: each comes from one of the
  credentials, and every claim of every credential is reported under its name.
\<close>

definition reported :: "json_map \<Rightarrow> (string \<times> json_map) list \<Rightarrow> bool" where
  "reported claims per \<longleftrightarrow>
     (\<forall>k x. map_of claims k = Some x \<longrightarrow> (\<exists>cid cl. map_of per cid = Some cl \<and> map_of cl k = Some x)) \<and>
     (\<forall>cid cl k. map_of per cid = Some cl \<longrightarrow> map_of cl k \<noteq> None \<longrightarrow> map_of claims k \<noteq> None)"

lemma map_of_fold_update: "map_of (fold (\<lambda>(k, v) m. AList.update k v m) kvs m) = map_of m ++ map_of (rev kvs)"
  by (induction kvs arbitrary: m) (auto simp: update_conv' split: prod.splits)

lemma mergeClaims_entries:
  "map_of (mergeClaims w per) = map_of (rev (concat (map (\<lambda>(_, cl). ranged w cl) (ranged w per))))"
proof -
  have "fold (\<lambda>(_, cl) m. fold (\<lambda>(k, v) m. AList.update k v m) (ranged w cl) m) ps m =
      fold (\<lambda>(k, v) m. AList.update k v m) (concat (map (\<lambda>(_, cl). ranged w cl) ps)) m"
    for ps :: "(string \<times> json_map) list" and m
    by (induction ps arbitrary: m) (auto split: prod.splits)
  then show ?thesis unfolding mergeClaims_def by (simp only: map_of_fold_update) simp
qed

lemma mergeClaims_reported:
  assumes "ord_ok w"
  shows "reported (mergeClaims w per) per"
proof -
  let ?all = "concat (map (\<lambda>(_, cl). ranged w cl) (ranged w per))"
  have e: "(k, x) \<in> set ?all \<longleftrightarrow> (\<exists>cid cl. map_of per cid = Some cl \<and> map_of cl k = Some x)" for k x
    by (force simp: ranged_entry [OF assms])
  have "(k, x) \<in> set ?all" if "map_of (mergeClaims w per) k = Some x" for k x
    using map_of_SomeD [OF that [unfolded mergeClaims_entries]] by (simp only: set_rev)
  moreover have "map_of (mergeClaims w per) k \<noteq> None" if "(k, x) \<in> set ?all" for k x
    using that weak_map_of_SomeI [of k x "rev ?all"] unfolding mergeClaims_entries set_rev by fastforce
  ultimately show ?thesis unfolding reported_def e by blast
qed

subsection \<open>Properties\<close>

text \<open>
  A session that asks for mdoc credentials only never becomes verified, whatever is presented: no
  mdoc carries a holder key, so no subject identifier can be derived.
\<close>

lemma mdoc_only_never_verified:
  assumes "verifier_reachable L J C svc W s" and "thumbprints_ok L" and "verifications s sid = Some v"
    and "\<forall>cred \<in> set (dq_Credentials (vs_DCQLQuery v)). dcq_Format cred = FormatMsoMdoc"
  shows "vs_Status v \<in> {''pending'', ''request_sent'', ''failed''}"
proof -
  have "session_ok L J C W v" using verifier_reachable_inv [OF assms(1,2)] assms(3) by (auto simp: verifier_inv_def)
  then show ?thesis using assms(4) by (auto simp: session_ok_def verifier_statuses_def earned_def justified_def Let_def)
qed

text \<open>
  The verification of an SD-JWT credential does not depend on what was asked for: with the same
  token the outcome is the same for every requested credential type and every list of claims.
\<close>

lemma sd_jwt_query_not_enforced:
  assumes "dcq_Format cred \<noteq> FormatMsoMdoc" and "dcq_Format cred' \<noteq> FormatMsoMdoc"
  shows "verifyPresentation L C N w v cred tok = verifyPresentation L C N w v cred' tok"
  using assms by (simp add: verifyPresentation_def)

lemma ranged_single: "ord_ok w \<Longrightarrow> ranged w [(k, x)] = [(k, x)]"
proof -
  assume "ord_ok w"
  then have "set (ord w [k]) = {k}" "length (ord w [k]) = 1" by (simp_all add: ord_ok_def)
  then have "ord w [k] = [k]" by (cases "ord w [k]") auto
  then show ?thesis by (simp add: ranged_def)
qed

text \<open>
  C8: and a good presentation does verify its session. When a response in plain form names a live session that asks for
  one SD-JWT credential, and the token verifies for the client identifier and nonce of that session, is not
  revoked and is bound to a holder key, then the answer reports success with the claims disclosed, and the session
  is stored as verified with the token, these claims, and the subject derived from the thumbprint of the
  holder key; nothing else changes in the store. The credential type and the claims that were asked for play no part:
  a presentation of any other type verifies the session just the same.
\<close>

theorem good_presentation_verifies_session:
  assumes "verificationIDByState s (rr_State req) = Some (vs_SessionID v)" "verifications s (vs_SessionID v) = Some v"
    and "clk w 0 - vs_CreatedAt v \<le> verificationSessionTTL" "clk w 3 - vs_CreatedAt v \<le> verificationSessionTTL" and w: "ord_ok w"
    and "rr_Response req = []" "rr_State req \<noteq> []" "rr_VPToken req \<noteq> []"
    and "parseVPToken L (JStr (rr_VPToken req)) = JStr (rr_VPToken req)"
    and cred: "dq_Credentials (vs_DCQLQuery v) = [cred]" "dcq_Format cred \<noteq> FormatMsoMdoc"
    and r: "VerifyWithStatus L (clk w 1) (rr_VPToken req) (vs_ClientID v) (vs_Nonce v) = (r, None)"
      "status_error L N (sdr_Status r) = Some None" "sdr_HolderKey r = Some key" "jwkThumbprint L key = Inr thumb"
  shows "\<exists>claims. reported claims [(dcq_ID cred, sdr_Claims r)] \<and>
    HandleResponse L J C N w req s = (Some (Inr (successResult claims, Some v)),
      s\<lparr>verifications := (verifications s)(vs_SessionID v \<mapsto> v\<lparr>vs_Status := ''verified'',
        vs_VPTokens := [(dcq_ID cred, rr_VPToken req)], vs_VerifiedClaims := [(dcq_ID cred, sdr_Claims r)],
        vs_SubjectID := hex_EncodeToString (sha256 thumb), vs_Error := []\<rparr>)\<rparr>)"
proof -
  have w': "ord_ok (after 1 w)" using w by (simp add: ord_ok_def)
  have l: "locate_plain (clk w 0) req s = (Inr (v, JStr (rr_VPToken req)), s)"
    using assms(1-3,7,8) by (simp add: locate_plain_def FindVerificationByState_def findVerificationLocked_def)
  have "verifyPresentation L C N (after 1 w) v cred (rr_VPToken req) = Some (Inr (sdr_Claims r, Some key))"
    using r(1-3) cred(2) by (simp add: verifyPresentation_def)
  then have p: "verifyPresentations L C N (after 1 w) v [(dcq_ID cred, rr_VPToken req)] =
      Some (Inr ([(dcq_ID cred, sdr_Claims r)], [(dcq_ID cred, key)]))"
    using assms(8) cred(1) by (simp add: verifyPresentations_def)
  have "record_outcome L C N (after 1 w) v (JStr (rr_VPToken req)) s =
      (Some (successResult (mergeClaims (after 1 w) [(dcq_ID cred, sdr_Claims r)])),
       UpdateVerificationResult (clk w 3) (vs_SessionID v) ''verified'' [(dcq_ID cred, rr_VPToken req)]
         [(dcq_ID cred, sdr_Claims r)] (hex_EncodeToString (sha256 thumb)) [] s)"
    using p cred(1) assms(8,9) r(4) w'
    by (simp add: record_outcome_def allVPTokens_def ranged_single subjectIDFromHolderKeys_def Let_def numeral_3_eq_3)
  then show ?thesis using l assms(2,4,6) mergeClaims_reported [OF w']
    by (auto simp: HandleResponse_def UpdateVerificationResult_def findVerificationPointerLocked_def)
qed

text \<open>
  An outcome that has been recorded is lost when the request object is fetched again: the session
  goes back to \<^verbatim>\<open>request_sent\<close> and the poll reports it as pending.
\<close>

lemma refetch_discards_outcome:
  assumes "verifications s sid = Some v"
    and "clk w 0 - vs_CreatedAt v \<le> verificationSessionTTL" "clk w 1 - vs_CreatedAt v \<le> verificationSessionTTL"
    and "clk w' 0 - vs_CreatedAt v \<le> verificationSessionTTL"
  shows "GetRequestObject w sid s = (Inr (vs_RequestJWT v), s\<lparr>verifications := (verifications s)(sid \<mapsto> v\<lparr>vs_Status := ''request_sent''\<rparr>)\<rparr>) \<and>
    fst (GetResult w' sid (snd (GetRequestObject w sid s))) =
      Inr (errorResult ''pending'' ''Verification not yet completed'')"
  using assms by (simp add: GetRequestObject_def GetResult_def store_defs)


subsection \<open>Refinement of a session to its phase\<close>

text \<open>
  What a client of the verifier sees of a session: it does not exist (any more), it waits for a
  presentation, or it is settled. The specification has one move per operation; the store and its
  clock-driven deletions implement it.
\<close>

datatype phase = Absent | Waiting | Verified "(string \<times> json_map) list" string | Rejected string

definition status_phase :: "verification_session \<Rightarrow> phase" where
  "status_phase v = (if vs_Status v = ''verified'' then Verified (vs_VerifiedClaims v) (vs_SubjectID v)
     else if vs_Status v = ''failed'' then Rejected (vs_Error v) else Waiting)"

definition phase_at :: "time \<Rightarrow> store \<Rightarrow> string \<Rightarrow> phase" where
  "phase_at t s sid = (case verifications s sid of
     None \<Rightarrow> Absent
   | Some v \<Rightarrow> if t - vs_CreatedAt v > verificationSessionTTL then Absent else status_phase v)"

definition settle :: "phase \<Rightarrow> phase \<Rightarrow> phase" where
  "settle p old = (if old = Absent then Absent else p)"

fun poll_answer :: "world \<Rightarrow> phase \<Rightarrow> go_error + verifier_result" where
  "poll_answer w Absent = Inl (NotFound ''not_found'' ''Session not found'')"
| "poll_answer w Waiting = Inr (errorResult ''pending'' ''Verification not yet completed'')"
| "poll_answer w (Verified claims sub) = Inr (successResult (mergeClaims w claims))"
| "poll_answer w (Rejected e) = Inr (errorResult ''verification_failed'' e)"

text \<open>The outcome a response settles its session with, against the answer the wallet gets.\<close>

fun outcome_of :: "world \<Rightarrow> phase \<Rightarrow> verifier_result \<Rightarrow> bool" where
  "outcome_of w (Verified claims sub) r = (r = successResult (mergeClaims w claims))"
| "outcome_of w (Rejected e) r = (r = errorResult ''invalid_presentation'' e)"
| "outcome_of w p r = False"

lemma status_phase_not_Absent [simp]: "status_phase v \<noteq> Absent"
  by (simp add: status_phase_def)

lemma phase_at_find:
  assumes "verif_wf s" "now \<le> t"
  shows "phase_at t (snd (findVerificationLocked now sid s)) = phase_at t s"
  using assms verif_wfD(1) [OF assms(1)]
  by (auto simp: findVerificationLocked_def deleteVerificationLocked_def phase_at_def fun_eq_iff split: option.splits)

lemmas phase_at_lookups = phase_at_find [folded FindVerification_def]

lemma phase_at_update:
  assumes "verif_wf s" "now \<le> t" "\<And>v. vs_CreatedAt (f v) = vs_CreatedAt v" "\<And>v. status_phase (f v) = p"
  shows "phase_at t (findVerificationPointerLocked now sid f s) = (phase_at t s)(sid := settle p (phase_at t s sid))"
  using assms verif_wfD(1) [OF assms(1)]
  by (auto simp: findVerificationPointerLocked_def deleteVerificationLocked_def phase_at_def settle_def fun_eq_iff
      split: option.splits)

lemma phase_at_locate:
  assumes "verif_wf s" "now \<le> t"
  shows "phase_at t (snd (if rr_Response req \<noteq> [] then locate_encrypted L J now (rr_Response req) s
     else locate_plain now req s)) = phase_at t s"
proof -
  have "phase_at t (snd (FindVerificationByState now st s)) = phase_at t s"
    "phase_at t (snd (FindVerificationByEncryptionKID now kid s)) = phase_at t s" for st kid
    using phase_at_find [OF assms]
    by (auto simp: FindVerificationByState_def FindVerificationByEncryptionKID_def split: option.splits)
  then show ?thesis
    by (auto simp: locate_encrypted_def locate_plain_def Let_def split: sum.splits prod.splits) (metis snd_conv)+
qed

lemma record_outcome_phase:
  assumes "verif_wf s" "\<forall>i. clk w i \<le> t" "record_outcome L C N w v raw s = (Some r, s')"
  shows "\<exists>p. outcome_of w p r \<and> phase_at t s' = (phase_at t s)(vs_SessionID v := settle p (phase_at t s (vs_SessionID v)))"
proof -
  have verified: "phase_at t (UpdateVerificationResult (clk w i) sid ''verified'' toks cl sub e s) =
      (phase_at t s)(sid := settle (Verified cl sub) (phase_at t s sid))" for i sid toks cl sub e
    unfolding UpdateVerificationResult_def
    by (rule phase_at_update [OF assms(1)]) (use assms(2) in \<open>auto simp: status_phase_def\<close>)
  have failed: "phase_at t (UpdateVerificationResult (clk w i) sid ''failed'' toks cl sub e s) =
      (phase_at t s)(sid := settle (Rejected e) (phase_at t s sid))" for i sid toks cl sub e
    unfolding UpdateVerificationResult_def
    by (rule phase_at_update [OF assms(1)]) (use assms(2) in \<open>auto simp: status_phase_def\<close>)
  have "\<exists>toks i. (\<exists>e. r = errorResult ''invalid_presentation'' e \<and>
        s' = UpdateVerificationResult (clk w i) (vs_SessionID v) ''failed'' toks [] [] e s) \<or>
     (\<exists>cl sub. r = successResult (mergeClaims w cl) \<and>
        s' = UpdateVerificationResult (clk w i) (vs_SessionID v) ''verified'' toks cl sub [] s)"
    using assms(3) by (simp add: record_outcome_def Let_def split: option.splits sum.splits prod.splits) blast+
  then obtain toks i where
    "(\<exists>e. r = errorResult ''invalid_presentation'' e \<and>
        s' = UpdateVerificationResult (clk w i) (vs_SessionID v) ''failed'' toks [] [] e s) \<or>
     (\<exists>cl sub. r = successResult (mergeClaims w cl) \<and>
        s' = UpdateVerificationResult (clk w i) (vs_SessionID v) ''verified'' toks cl sub [] s)" by blast
  then show ?thesis
  proof (elim disjE exE conjE)
    fix e assume "r = errorResult ''invalid_presentation'' e"
      "s' = UpdateVerificationResult (clk w i) (vs_SessionID v) ''failed'' toks [] [] e s"
    then show ?thesis by (intro exI [of _ "Rejected e"]) (simp add: failed)
  next
    fix cl sub assume "r = successResult (mergeClaims w cl)"
      "s' = UpdateVerificationResult (clk w i) (vs_SessionID v) ''verified'' toks cl sub [] s"
    then show ?thesis by (intro exI [of _ "Verified cl sub"]) (simp add: verified)
  qed
qed


lemma GetRequestObject_phase:
  assumes wf: "verif_wf s" and t: "\<And>i. clk w i \<le> t"
  shows "phase_at t (snd (GetRequestObject w sid s)) = (phase_at t s)(sid := settle Waiting (phase_at t s sid))"
proof (cases "fst (FindVerification (clk w 0) sid s)")
  case None
  then have "phase_at t s sid = Absent" using t [of 0]
    by (auto simp: FindVerification_def findVerificationLocked_def phase_at_def split: option.splits if_splits)
  with phase_at_lookups [OF wf t, of 0 sid] None show ?thesis
    by (auto simp: GetRequestObject_def settle_def split: prod.splits)
next
  case (Some v)
  then have "snd (GetRequestObject w sid s) = UpdateVerificationStatus (clk w 1) sid ''request_sent'' s"
    by (auto simp: GetRequestObject_def FindVerification_def findVerificationLocked_def split: option.splits if_splits)
  then show ?thesis unfolding UpdateVerificationStatus_def
    by (simp add: phase_at_update [OF wf t] status_phase_def)
qed

lemma early_cases:
  fixes e :: early
  obtains "e = None" | x where "e = Some (Inl x)" | r where "e = Some (Inr r)"
  by (cases e) (auto elim: sumE)

lemma HandleResponse_phase:
  assumes inv: "verifier_inv L J C W s" and t: "\<And>i. clk w i \<le> t"
  shows "case HandleResponse L J C N w req s of
       (Some (Inr (r, Some v)), s') \<Rightarrow> \<exists>p. outcome_of w p r \<and>
          phase_at t s' = (phase_at t s)(vs_SessionID v := settle p (phase_at t s (vs_SessionID v)))
     | (_, s') \<Rightarrow> phase_at t s' = phase_at t s"
proof -
  have wf: "verif_wf s" using inv by (simp add: verifier_inv_def)
  obtain loc s1 where l: "(if rr_Response req \<noteq> [] then locate_encrypted L J (clk w 0) (rr_Response req) s
      else locate_plain (clk w 0) req s) = (loc, s1)" by fastforce
  have s1: "phase_at t s1 = phase_at t s" using phase_at_locate [OF wf t, of req L J 0] by (simp add: l)
  show ?thesis
  proof (cases loc)
    case (Inl early)
    then have "HandleResponse L J C N w req s = (map_option (map_sum id (\<lambda>r. (r, None))) early, s1)"
      by (simp add: HandleResponse_def l)
    then show ?thesis using s1 by (cases early rule: early_cases) auto
  next
    case (Inr vr)
    obtain v raw where vr: "vr = (v, raw)" by fastforce
    have "s1 = s" using located_session [OF inv l [unfolded Inr vr]] by simp
    obtain r s2 where o: "record_outcome L C N (after (Suc 0) w) v raw s = (r, s2)" by fastforce
    have out: "outcome_of (after (Suc 0) w) p x = outcome_of w p x" for p x
      by (cases p) (simp_all add: mergeClaims_def ranged_def)
    show ?thesis
    proof (cases r)
      case None
      then have "s2 = s" using o by (auto simp: record_outcome_def Let_def split: option.splits sum.splits prod.splits)
      then show ?thesis using None by (simp add: HandleResponse_def l Inr vr \<open>s1 = s\<close> o)
    next
      case (Some x)
      from record_outcome_phase [OF wf _ o [unfolded Some], of t] t
      show ?thesis by (simp add: HandleResponse_def l Inr vr \<open>s1 = s\<close> o Some out)
    qed
  qed
qed

text \<open>
  C14: the verifier implements the phase machine. At any instant not earlier than the call: fetching
  the request object sends an existing session back to waiting; polling answers what the phase says
  and changes no phase; a response that was attributed to a session settles exactly that session with
  the outcome the wallet is told, and any other response changes no phase.
\<close>

theorem verifier_refines_phases:
  assumes "verifier_reachable L J C svc W s" and "thumbprints_ok L" and "\<forall>i. clk w i \<le> t"
  shows "phase_at t (snd (GetRequestObject w sid s)) = (phase_at t s)(sid := settle Waiting (phase_at t s sid)) \<and>
    phase_at t (snd (GetResult w sid s)) = phase_at t s \<and>
    fst (GetResult w sid s) = poll_answer w (phase_at (clk w 0) s sid) \<and>
    (case HandleResponse L J C N w req s of
       (Some (Inr (r, Some v)), s') \<Rightarrow> \<exists>p. outcome_of w p r \<and>
          phase_at t s' = (phase_at t s)(vs_SessionID v := settle p (phase_at t s (vs_SessionID v)))
     | (_, s') \<Rightarrow> phase_at t s' = phase_at t s)"
proof (intro conjI)
  have inv: "verifier_inv L J C W s" using assms(1,2) by (rule verifier_reachable_inv)
  then have wf: "verif_wf s" by (simp add: verifier_inv_def)
  have t: "clk w i \<le> t" for i using assms(3) by blast
  show "phase_at t (snd (GetRequestObject w sid s)) = (phase_at t s)(sid := settle Waiting (phase_at t s sid))"
    using GetRequestObject_phase [OF wf t] .
  show "phase_at t (snd (GetResult w sid s)) = phase_at t s"
    by (simp add: snd_GetResult phase_at_lookups [OF wf t])
  show "fst (GetResult w sid s) = poll_answer w (phase_at (clk w 0) s sid)"
    by (auto simp: GetResult_def FindVerification_def findVerificationLocked_def phase_at_def status_phase_def
        split: option.splits)
  show "case HandleResponse L J C N w req s of
       (Some (Inr (r, Some v)), s') \<Rightarrow> \<exists>p. outcome_of w p r \<and>
          phase_at t s' = (phase_at t s)(vs_SessionID v := settle p (phase_at t s (vs_SessionID v)))
     | (_, s') \<Rightarrow> phase_at t s' = phase_at t s"
    using HandleResponse_phase [OF inv t] .
qed


subsection \<open>The request object\<close>

lemma add_certs_decode: "add_certs J ders = Inr chain \<Longrightarrow> map Std_Decode chain = map Some ders"
  by (induction J ders arbitrary: chain rule: add_certs.induct) (auto split: option.splits simp: std.dec_enc)

text \<open>
  C22: a created session can be found by its state and its request object authenticates it: the signed
  body carries the state, nonce and response address the session is stored with and expires five
  minutes after it was signed, and the certificate a wallet decodes from the first entry of the
  \<^verbatim>\<open>x5c\<close> header hashes to the client identifier the request and the session name. (That is the \<^verbatim>\<open>x509_hash\<close> scheme of
  \<^verbatim>\<open>Service.clientID\<close>; the comments on \<^verbatim>\<open>signRequestObject\<close>, \<^verbatim>\<open>NewService\<close> and \<^verbatim>\<open>VerifierBaseURL\<close> still
  describe a client identifier made of the host and checked against the SAN.)
\<close>

theorem request_object_authenticates_session:
  assumes "CreateSession L J svc w creds s = (Some (Inr res), s')"
    and "clk w 1 \<le> t" "t - clk w 1 \<le> verificationSessionTTL"
  shows "\<exists>v body hdr chain leaf rest. fst (FindVerificationByState t (csr_State res) s') = Some v \<and>
    vs_SessionID v = csr_SessionID res \<and> vs_State v = csr_State res \<and>
    jwt_Sign L body hdr (sg_handle (rsk_signer (vf_signingKey svc))) = Inr (vs_RequestJWT v) \<and>
    map_of (jb_Claims body) ''state'' = Some (JStr (vs_State v)) \<and>
    map_of (jb_Claims body) ''nonce'' = Some (JStr (vs_Nonce v)) \<and>
    map_of (jb_Claims body) ''response_uri'' = Some (JStr (vs_ResponseURI v)) \<and>
    map_of (jb_Claims body) ''client_id'' = Some (JStr (vs_ClientID v)) \<and>
    map_of (jb_Claims body) ''dcql_query'' = Some (dcql_json (vs_DCQLQuery v)) \<and>
    jb_Expiration body = jb_IssuedAt body + 5 * minute \<and>
    jh_Type hdr = Some JARType \<and> jh_X509CertChain hdr = Some chain \<and>
    map Std_Decode chain = Some leaf # rest \<and> vs_ClientID v = ''x509_hash:'' @ RawURL_Encode (sha256 leaf)"
proof (cases rule: CreateSession_cases [of L J svc w creds s])
  case (2 clientID key metadata jwt)
  let ?v = "new_session svc w creds clientID key jwt\<lparr>vs_CreatedAt := clk w 1\<rparr>"
  let ?req = "session_request svc clientID (RandomToken 32 (rnd w 1)) (RandomToken 32 (rnd w 2)) (buildDCQLQuery creds) metadata"
  have r: "csr_SessionID res = RandomToken 16 (rnd w 0)" "csr_State res = RandomToken 32 (rnd w 1)"
    "s' = StoreVerification (clk w 1) (new_session svc w creds clientID key jwt) s"
    using assms(1) 2(6) by auto
  from 2(5) obtain hdr where h: "requestObjectHeaders J (vf_signingKey svc) = Inr hdr"
    "jwt_Sign L (request_body (clk w 0) ?req) hdr (sg_handle (rsk_signer (vf_signingKey svc))) = Inr jwt"
    by (auto simp: signRequestObject_def)
  from 2(2) obtain leaf ders where ders: "rsk_x5cChain (vf_signingKey svc) = leaf # ders"
    "clientID = ''x509_hash:'' @ RawURL_Encode (sha256 leaf)"
    by (auto simp: verifier_clientID_def certHash_def LeafDER_def Let_def split: list.splits if_splits)
  from h(1) ders obtain chain where chain: "jh_X509CertChain hdr = Some chain" "jh_Type hdr = Some JARType"
    "map Std_Decode chain = Some leaf # map Some ders"
    by (auto simp: requestObjectHeaders_def JOSEX5CChain_def simp del: add_certs.simps dest!: add_certs_decode)
  have f: "fst (FindVerificationByState t (csr_State res) s') = Some ?v" using assms(3) r(2,3)
    by (simp add: FindVerificationByState_def findVerificationLocked_def StoreVerification_def new_session_def Let_def)
  let ?body = "request_body (clk w 0) ?req"
  have jwt: "jwt_Sign L ?body hdr (sg_handle (rsk_signer (vf_signingKey svc))) = Inr (vs_RequestJWT ?v)"
    using h(2) by (simp add: new_session_def)
  have ids: "vs_SessionID ?v = csr_SessionID res" "vs_State ?v = csr_State res"
    "vs_ClientID ?v = ''x509_hash:'' @ RawURL_Encode (sha256 leaf)"
    using r ders(2) by (simp_all add: new_session_def)
  have body: "map_of (jb_Claims ?body) ''state'' = Some (JStr (vs_State ?v))"
    "map_of (jb_Claims ?body) ''nonce'' = Some (JStr (vs_Nonce ?v))"
    "map_of (jb_Claims ?body) ''response_uri'' = Some (JStr (vs_ResponseURI ?v))"
    "map_of (jb_Claims ?body) ''client_id'' = Some (JStr (vs_ClientID ?v))"
    "map_of (jb_Claims ?body) ''dcql_query'' = Some (dcql_json (vs_DCQLQuery ?v))"
    "jb_Expiration ?body = jb_IssuedAt ?body + 5 * minute"
    by (simp_all add: request_body_def session_request_def new_session_def requestObjectTTL_def)
  show ?thesis by (intro exI conjI) (rule f ids jwt body chain)+
next
  case 1
  from 1(2) [of res] assms(1) show ?thesis by simp
qed

subsection \<open>An example run\<close>

text \<open>A verifier in plain mode, one requested credential, and the presentation of the SD-JWT example.\<close>

definition ex_rsk :: request_signing_key where
  "ex_rsk = \<lparr>rsk_kid = ''kid'', rsk_signer = \<lparr>sg_handle = 1, sg_Public = \<lparr>ec_X = 1, ec_Y = 2\<rparr>\<rparr>, rsk_x5cChain = [''der'']\<rparr>"

definition ex_verifier :: verifier_service where
  "ex_verifier = verifier_NewService ''https://v'' ex_rsk ResponseModeDirectPost"

definition ex_draws :: world where
  "ex_draws = \<lparr>clk = (\<lambda>_. 0), rnd = (\<lambda>i n. [char_of (i + 97)]), ord = id\<rparr>"

definition ex_clientID :: string where
  "ex_clientID = ''x509_hash:'' @ RawURL_Encode (sha256 ''der'')"

definition ex_vf_lib :: lib where
  "ex_vf_lib = ex_sd_lib ex_clientID (RandomToken 32 (rnd ex_draws 2))"

definition ex_key_lib :: key_lib where
  "ex_key_lib = \<lparr>fs_Stat = (\<lambda>_. False), fs_ReadFile = (\<lambda>_. Inl (True, ''no such file'')), fs_Join = (\<lambda>d f. d @ ''/'' @ f),
     pem_Decode = (\<lambda>_. None), x509_ParsePKCS8 = (\<lambda>_. Inl ''bad key''), x509_ParseEC = (\<lambda>_. Inl ''bad key''),
     ecdsa_GenerateKey = (\<lambda>draw. Inr (rsk_signer ex_rsk)), ecdh_Key = Inr,
     jwk_Set = (\<lambda>k m v. Inr k), jwk_SetJSON = (\<lambda>_. Inr ''{}''), cert_AddString = (\<lambda>_. None),
     jwe_ParseKID = (\<lambda>_. Inr None), jwe_Decrypt = (\<lambda>_ _. Inl ''bad JWE'')\<rparr>"

definition ex_request :: "string \<Rightarrow> credential_request" where
  "ex_request format = \<lparr>crq_ID = ''pid'', crq_CredentialType = ''urn:pid'', crq_Claims = [''family_name''], crq_Format = format\<rparr>"

definition ex_new_session :: "credential_request \<Rightarrow> verification_session" where
  "ex_new_session q = new_session ex_verifier ex_draws [q] ex_clientID None ''signed''"

definition ex_waiting :: "credential_request \<Rightarrow> store" where
  "ex_waiting q = StoreVerification 0 (ex_new_session q) NewStore"

definition ex_response :: response_request where
  "ex_response = \<lparr>rr_VPToken = ex_pres, rr_State = RandomToken 32 (rnd ex_draws 1), rr_Response = []\<rparr>"

definition ex_offline :: net where
  "ex_offline = \<lparr>net_NewRequest = (\<lambda>_ _. None), net_Do = (\<lambda>_. Inl ''unreachable''), net_Decode = (\<lambda>_. Inl ''no body'')\<rparr>"

definition ex_verified :: store where
  "ex_verified = snd (HandleResponse ex_vf_lib ex_key_lib ex_cbor ex_offline ex_draws ex_response (ex_waiting (ex_request ''sd'')))"

lemmas ex_vf_defs = ex_rsk_def ex_verifier_def ex_key_lib_def ex_request_def verifier_NewService_def

lemma ex_modes [simp]: "vf_responseMode ex_verifier = ResponseModeDirectPost" "vf_signingKey ex_verifier = ex_rsk"
  "ResponseModeDirectPost \<noteq> ResponseModeDirectPostJWT"
  by (simp_all add: ex_verifier_def verifier_NewService_def ResponseModeDirectPost_def ResponseModeDirectPostJWT_def)

lemma ex_draws_simps [simp]: "clk ex_draws i = 0" "ord ex_draws = id"
  by (simp_all add: ex_draws_def)

lemma ttl_positive [simp]: "\<not> verificationSessionTTL < 0" "0 \<le> verificationSessionTTL"
  by (simp_all add: const_defs)

lemma ex_signs:
  "verifier_clientID ex_verifier = Inr ex_clientID" "session_key ex_vf_lib ex_key_lib ex_verifier d = Inr None"
  "\<exists>m. buildClientMetadata ex_vf_lib ex_verifier (buildDCQLQuery [q]) None = Some (Inr m)"
  "signRequestObject ex_vf_lib ex_key_lib ex_verifier t r = Inr ''signed''"
  by (simp_all add: verifier_clientID_def certHash_def LeafDER_def ex_rsk_def ex_clientID_def session_key_def buildClientMetadata_def
      Let_def signRequestObject_def requestObjectHeaders_def JOSEX5CChain_def ex_key_lib_def ex_vf_lib_def ex_sd_lib_def ex_lib_def)

lemma ex_create: "CreateSession ex_vf_lib ex_key_lib ex_verifier ex_draws [q] NewStore =
    (Some (Inr \<lparr>csr_SessionID = RandomToken 16 (rnd ex_draws 0),
       csr_RequestURI = vf_baseURL ex_verifier @ APIPrefix @ ''/request/'' @ RandomToken 16 (rnd ex_draws 0),
       csr_ClientID = ex_clientID, csr_State = RandomToken 32 (rnd ex_draws 1)\<rparr>), ex_waiting q)"
  using ex_signs(3) [of q] by (auto simp: CreateSession_def ex_waiting_def ex_new_session_def ex_signs(1,2,4) Let_def)

lemma ex_waiting_reachable: "verifier_reachable ex_vf_lib ex_key_lib ex_cbor ex_verifier W (ex_waiting q)"
proof -
  have "fresh_draws ex_vf_lib ex_key_lib ex_verifier ex_draws NewStore"
    by (simp add: fresh_draws_def NewStore_def)
  from verifier_next [OF verifier_start step_create [OF this, of ex_cbor W "[q]"]]
  show ?thesis by (simp add: ex_create)
qed

lemma ex_thumbprints: "thumbprints_ok ex_vf_lib"
  by (simp add: thumbprints_ok_def ex_vf_lib_def ex_sd_lib_def ex_lib_def)

lemma ex_verified_reachable: "verifier_reachable ex_vf_lib ex_key_lib ex_cbor ex_verifier {(ex_offline, ex_draws, ex_response)} ex_verified"
  unfolding ex_verified_def
  by (rule verifier_next [OF ex_waiting_reachable step_respond]) (simp_all add: ord_ok_def ex_draws_def)

lemma ex_found: "FindVerificationByState 0 (RandomToken 32 (rnd ex_draws 1)) (ex_waiting q) =
    (Some ((ex_new_session q)\<lparr>vs_CreatedAt := 0\<rparr>), ex_waiting q)"
  by (simp add: FindVerificationByState_def findVerificationLocked_def ex_waiting_def StoreVerification_def
      ex_new_session_def new_session_def const_defs Let_def)

lemma ex_sd_format: "isMdocFormat ''sd'' = False"
  by code_simp

lemma ex_outcome:
  assumes "\<not> isMdocFormat (crq_Format q)"
  shows "record_outcome ex_vf_lib ex_cbor ex_offline (after (Suc 0) ex_draws)
    ((ex_new_session q)\<lparr>vs_CreatedAt := 0\<rparr>) (JStr ex_pres) s =
    (Some (successResult [(''family_name'', JStr ''Doe'')]),
     UpdateVerificationResult 0 (RandomToken 16 (rnd ex_draws 0)) ''verified'' [(crq_ID q, ex_pres)]
       [(crq_ID q, [(''family_name'', JStr ''Doe'')])] (hex_EncodeToString (sha256 (RawURL_Encode ''thumb''))) [] s)"
proof -
  let ?v = "(ex_new_session q)\<lparr>vs_CreatedAt := 0\<rparr>"
  have q: "dq_Credentials (vs_DCQLQuery (ex_new_session q)) = [dcql_credential q]"
    by (simp add: ex_new_session_def new_session_def buildDCQLQuery_def)
  have c: "dcq_ID (dcql_credential q) = crq_ID q" "dcq_Format (dcql_credential q) \<noteq> FormatMsoMdoc"
    using assms by (simp_all add: dcql_credential_def FormatSDJWTVC_def FormatMsoMdoc_def)
  have v: "vs_ClientID (ex_new_session q) = ex_clientID"
    "vs_Nonce (ex_new_session q) = RandomToken 32 (rnd ex_draws 2)" "vs_SessionID (ex_new_session q) = RandomToken 16 (rnd ex_draws 0)"
    by (simp_all add: ex_new_session_def new_session_def)
  have t: "allVPTokens (parseVPToken ex_vf_lib (JStr ex_pres)) (vs_DCQLQuery (ex_new_session q)) = Some [(crq_ID q, ex_pres)]"
    by (simp add: parseVPToken_def allVPTokens_def q c ex_vf_lib_def ex_sd_lib_def) (simp add: ex_pres_def)
  have st: "status_error L N (sdr_Status ex_sd_result) = Some None" for L N
    by (simp add: status_error_def ParseRef_def ex_sd_result_def)
  have p: "verifyPresentation ex_vf_lib ex_cbor ex_offline w ?v (dcql_credential q) ex_pres =
      Some (Inr ([(''family_name'', JStr ''Doe'')], Some ex_cnfKey))" if "clk w 0 = 0" for w
    using c(2) that by (simp add: verifyPresentation_def v ex_vf_lib_def ex_accepted st) (simp add: ex_sd_result_def)
  have k: "jwkThumbprint ex_vf_lib ex_cnfKey = Inr (RawURL_Encode ''thumb'')"
    by (simp add: jwkThumbprint_def ex_vf_lib_def ex_sd_lib_def ex_lib_def)
  have ne: "ex_pres \<noteq> []" by (simp add: ex_pres_def)
  have e: "verify_each ex_vf_lib ex_cbor ex_offline (after (Suc 0) ex_draws) ?v [(crq_ID q, ex_pres)]
      [dcql_credential q] [] [] =
      Some (Inr ([(crq_ID q, [(''family_name'', JStr ''Doe'')])], [(crq_ID q, ex_cnfKey)]))"
    using ne by (simp add: p c(1))
  have "verifyPresentations ex_vf_lib ex_cbor ex_offline (after (Suc 0) ex_draws) ?v [(crq_ID q, ex_pres)] =
      Some (Inr ([(crq_ID q, [(''family_name'', JStr ''Doe'')])], [(crq_ID q, ex_cnfKey)]))"
    by (simp add: verifyPresentations_def e q del: verify_each.simps)
  then show ?thesis
    by (simp add: record_outcome_def t subjectIDFromHolderKeys_def mergeClaims_def ranged_def k v(3) Let_def)
qed

lemma ex_handled:
  assumes "\<not> isMdocFormat (crq_Format q)"
  shows "HandleResponse ex_vf_lib ex_key_lib ex_cbor ex_offline ex_draws ex_response (ex_waiting q) =
    (Some (Inr (successResult [(''family_name'', JStr ''Doe'')], Some ((ex_new_session q)\<lparr>vs_CreatedAt := 0\<rparr>))),
     UpdateVerificationResult 0 (RandomToken 16 (rnd ex_draws 0)) ''verified'' [(crq_ID q, ex_pres)]
       [(crq_ID q, [(''family_name'', JStr ''Doe'')])] (hex_EncodeToString (sha256 (RawURL_Encode ''thumb''))) [] (ex_waiting q))"
proof -
  have "locate_plain 0 ex_response (ex_waiting q) =
      (Inr ((ex_new_session q)\<lparr>vs_CreatedAt := 0\<rparr>, JStr ex_pres), ex_waiting q)"
    using ex_found [of q]
    by (simp add: locate_plain_def ex_response_def RandomToken_def RawURL_Encode_nonempty ex_draws_def) (simp add: ex_pres_def)
  moreover have "clk ex_draws 0 = 0" "rr_Response ex_response = []" by (simp_all add: ex_draws_def ex_response_def)
  ultimately show ?thesis by (simp add: HandleResponse_def ex_outcome [OF assms])
qed

lemma ex_verified_state: "ex_verified = UpdateVerificationResult 0 (RandomToken 16 (rnd ex_draws 0)) ''verified'' [(''pid'', ex_pres)]
       [(''pid'', [(''family_name'', JStr ''Doe'')])] (hex_EncodeToString (sha256 (RawURL_Encode ''thumb''))) [] (ex_waiting (ex_request ''sd''))"
  using ex_handled [of "ex_request ''sd''"] ex_sd_format by (simp add: ex_verified_def ex_request_def)

lemma ex_waiting_session: "verifications (ex_waiting q) (RandomToken 16 (rnd ex_draws 0)) =
    Some ((ex_new_session q)\<lparr>vs_CreatedAt := 0\<rparr>)"
  by (simp add: ex_waiting_def StoreVerification_def ex_new_session_def new_session_def Let_def)

text \<open>
  The example token carries no type at all; a session that asks for the type \<^verbatim>\<open>urn:pid\<close> is verified by it.
\<close>

theorem good_presentation_verifies_session_witness:
  "map_of (sdr_Claims ex_sd_result) ''vct'' = None \<and>
   dcq_Meta (dcql_credential (ex_request ''sd'')) = Some \<lparr>dm_VCTValues = [''urn:pid''], dm_DoctypeValue = []\<rparr> \<and>
   (\<exists>claims v s'. reported claims [(''pid'', [(''family_name'', JStr ''Doe'')])] \<and>
      HandleResponse ex_vf_lib ex_key_lib ex_cbor ex_offline ex_draws ex_response (ex_waiting (ex_request ''sd'')) =
        (Some (Inr (successResult claims, Some v)), s'))"
proof -
  let ?q = "ex_request ''sd''" and ?v = "(ex_new_session (ex_request ''sd''))\<lparr>vs_CreatedAt := 0\<rparr>"
  have v: "vs_SessionID (ex_new_session q) = RandomToken 16 (rnd ex_draws 0)" "vs_State (ex_new_session q) = RandomToken 32 (rnd ex_draws 1)"
    "vs_ClientID (ex_new_session q) = ex_clientID" "vs_Nonce (ex_new_session q) = RandomToken 32 (rnd ex_draws 2)"
    "dq_Credentials (vs_DCQLQuery (ex_new_session q)) = [dcql_credential q]" for q
    by (simp_all add: ex_new_session_def new_session_def buildDCQLQuery_def)
  have index: "verificationIDByState (ex_waiting q) (rr_State ex_response) = Some (RandomToken 16 (rnd ex_draws 0))" for q
    by (simp add: ex_waiting_def StoreVerification_def ex_response_def v Let_def)
  have sd: "dcq_Format (dcql_credential ?q) \<noteq> FormatMsoMdoc" "dcq_ID (dcql_credential ?q) = ''pid''"
    "dcq_Meta (dcql_credential ?q) = Some \<lparr>dm_VCTValues = [''urn:pid''], dm_DoctypeValue = []\<rparr>"
    by (simp_all add: dcql_credential_def ex_request_def ex_sd_format FormatSDJWTVC_def FormatMsoMdoc_def)
  have req: "rr_Response ex_response = []" "rr_State ex_response \<noteq> []" "rr_VPToken ex_response = ex_pres" "ex_pres \<noteq> []"
    by (simp_all add: ex_response_def RandomToken_def RawURL_Encode_nonempty ex_draws_def ex_pres_def)
  have tok: "parseVPToken ex_vf_lib (JStr ex_pres) = JStr ex_pres"
    by (simp add: parseVPToken_def ex_vf_lib_def ex_sd_lib_def) (simp add: ex_pres_def)
  have ok: "VerifyWithStatus ex_vf_lib 0 ex_pres ex_clientID (RandomToken 32 (rnd ex_draws 2)) = (ex_sd_result, None)"
    unfolding ex_vf_lib_def by (rule ex_accepted)
  have st: "status_error L N (sdr_Status ex_sd_result) = Some None" for L N
    by (simp add: status_error_def ParseRef_def ex_sd_result_def)
  have k: "jwkThumbprint ex_vf_lib ex_cnfKey = Inr (RawURL_Encode ''thumb'')"
    by (simp add: jwkThumbprint_def ex_vf_lib_def ex_sd_lib_def ex_lib_def)
  have c: "sdr_Claims ex_sd_result = [(''family_name'', JStr ''Doe'')]" "sdr_HolderKey ex_sd_result = Some ex_cnfKey"
    by (simp_all add: ex_sd_result_def)
  have "ord_ok ex_draws" by (simp add: ord_ok_def)
  from good_presentation_verifies_session [where s = "ex_waiting ?q" and req = ex_response and v = ?v and w = ex_draws and L = ex_vf_lib
      and cred = "dcql_credential ?q" and r = ex_sd_result and N = ex_offline and key = ex_cnfKey and J = ex_key_lib and C = ex_cbor,
      OF _ _ _ _ this _ _ _ _ _ _ _ _ _ k]
  show ?thesis using index ex_waiting_session v sd req tok ok st c by simp blast
qed

lemma mdoc_only_never_verified_witness:
  "vs_Status ((ex_new_session (ex_request ''mdoc''))\<lparr>vs_CreatedAt := 0\<rparr>) \<in> {''pending'', ''request_sent'', ''failed''}"
proof (rule mdoc_only_never_verified [OF ex_waiting_reachable ex_thumbprints ex_waiting_session])
  have "isMdocFormat ''mdoc''" by code_simp
  then show "\<forall>cred\<in>set (dq_Credentials (vs_DCQLQuery ((ex_new_session (ex_request ''mdoc''))\<lparr>vs_CreatedAt := 0\<rparr>))).
      dcq_Format cred = FormatMsoMdoc"
    by (simp add: ex_new_session_def new_session_def buildDCQLQuery_def dcql_credential_def ex_request_def)
qed

lemma sd_jwt_query_not_enforced_witness:
  "verifyPresentation ex_vf_lib ex_cbor ex_offline ex_draws (ex_new_session (ex_request ''sd'')) (dcql_credential (ex_request ''sd'')) ex_pres =
   verifyPresentation ex_vf_lib ex_cbor ex_offline ex_draws (ex_new_session (ex_request ''sd''))
     ((dcql_credential (ex_request ''sd''))\<lparr>dcq_Meta := Some \<lparr>dm_VCTValues = [''urn:other''], dm_DoctypeValue = []\<rparr>\<rparr>) ex_pres"
  by (rule sd_jwt_query_not_enforced)
    (simp_all add: dcql_credential_def ex_request_def ex_sd_format FormatSDJWTVC_def FormatMsoMdoc_def)

lemma ex_verified_session: "\<exists>v. verifications ex_verified (RandomToken 16 (rnd ex_draws 0)) = Some v \<and>
    vs_CreatedAt v = 0 \<and> vs_Status v = ''verified''"
  by (simp add: ex_verified_state UpdateVerificationResult_def findVerificationPointerLocked_def ex_waiting_session)

lemma refetch_discards_outcome_witness:
  "fst (GetResult ex_draws (RandomToken 16 (rnd ex_draws 0)) ex_verified) \<noteq>
     Inr (errorResult ''pending'' ''Verification not yet completed'') \<and>
   fst (GetResult ex_draws (RandomToken 16 (rnd ex_draws 0))
     (snd (GetRequestObject ex_draws (RandomToken 16 (rnd ex_draws 0)) ex_verified))) =
     Inr (errorResult ''pending'' ''Verification not yet completed'')"
proof -
  obtain v where v: "verifications ex_verified (RandomToken 16 (rnd ex_draws 0)) = Some v" "vs_CreatedAt v = 0"
    "vs_Status v = ''verified''" using ex_verified_session by blast
  have "fst (GetResult ex_draws (RandomToken 16 (rnd ex_draws 0)) ex_verified) \<noteq>
     Inr (errorResult ''pending'' ''Verification not yet completed'')"
    using v by (simp add: GetResult_def store_defs successResult_def errorResult_def)
  moreover have "clk ex_draws i - vs_CreatedAt v \<le> verificationSessionTTL" for i using v(2) by simp
  ultimately show ?thesis using refetch_discards_outcome [OF v(1), of ex_draws ex_draws] by blast
qed

theorem verifier_refines_phases_witness:
  "phase_at 0 (snd (GetRequestObject ex_draws (RandomToken 16 (rnd ex_draws 0)) ex_verified)) (RandomToken 16 (rnd ex_draws 0)) = Waiting"
proof -
  have "phase_at 0 ex_verified (RandomToken 16 (rnd ex_draws 0)) \<noteq> Absent"
    using ex_verified_session by (auto simp: phase_at_def)
  moreover have "\<forall>i. clk ex_draws i \<le> 0" by simp
  ultimately show ?thesis
    using conjunct1 [OF verifier_refines_phases [OF ex_verified_reachable ex_thumbprints, of ex_draws 0 "RandomToken 16 (rnd ex_draws 0)"]]
    by (simp add: settle_def)
qed

theorem request_object_authenticates_session_witness:
  "\<exists>v leaf. fst (FindVerificationByState second (RandomToken 32 (rnd ex_draws 1)) (ex_waiting (ex_request ''sd''))) = Some v \<and>
     vs_ClientID v = ''x509_hash:'' @ RawURL_Encode (sha256 leaf)"
proof -
  have "clk ex_draws 1 \<le> second" "second - clk ex_draws 1 \<le> verificationSessionTTL" by (simp_all add: const_defs)
  from request_object_authenticates_session [OF ex_create [of "ex_request ''sd''"] this]
  show ?thesis by (simp only: create_session_result.simps) blast
qed

end
