(* ===== verification/Oidc_Clients.thy ===== *)
theory Oidc_Clients
  imports Keys Go_Std
begin

text \<open>
  \<^verbatim>\<open>internal/oidcclients/registry.go\<close>: the registry of OpenID Connect relying parties and of the scopes
  that select a credential, loaded from a YAML document and validated entry by entry. Reading the file
  is the \<open>fs_ReadFile\<close> of the file system, decoding it the argument \<open>unmarshal\<close>. Shown: loading succeeds
  exactly on documents whose entries are valid and named once, the registry then holds exactly these
  entries, and the scan for a scope agrees with splitting at spaces.
\<close>

record oidc_client =
  oc_ClientID :: string
  oc_TokenEndpointAuthMethod :: string
  oc_RedirectURIs :: "string list"
  oc_Scope :: string

record credential_scope =
  csc_Name :: string
  csc_CredentialType :: string
  csc_Claims :: "string list"

record registry =
  rg_clients :: "string \<rightharpoonup> oidc_client"
  rg_credentialScopes :: "string \<rightharpoonup> credential_scope"

record registry_doc =
  rd_Clients :: "oidc_client list"
  rd_CredentialScopes :: "credential_scope list"

subsection \<open>Validation\<close>

text \<open>The scan over byte positions \<open>i\<close>, the current word beginning at \<open>start\<close>.\<close>

function scope_scan :: "string \<Rightarrow> string \<Rightarrow> nat \<Rightarrow> nat \<Rightarrow> bool" where
  "scope_scan scope want start i =
     (if i > length scope then False
      else if i = length scope \<or> scope ! i = CHR '' ''
      then (if drop start (take i scope) = want then True else scope_scan scope want (i + 1) (i + 1))
      else scope_scan scope want start (i + 1))"
  by pat_completeness auto
termination by (relation "measure (\<lambda>(scope, want, start, i). Suc (length scope) - i)") auto

declare scope_scan.simps [simp del]

definition containsScope :: "string \<Rightarrow> string \<Rightarrow> bool" where
  "containsScope scope want = scope_scan scope want 0 0"

definition validateClient :: "lib \<Rightarrow> oidc_client \<Rightarrow> string option" where
  "validateClient L c =
     (if oc_ClientID c = [] then Some ''client_id is required''
      else if oc_TokenEndpointAuthMethod c \<noteq> ''none''
      then Some (''token_endpoint_auth_method must be '' @ [CHR 0x22] @ ''none'' @ [CHR 0x22] @ '' (public client + PKCE) '' @
             em_dash @ '' '' @ strconv_Quote L (oc_TokenEndpointAuthMethod c) @ '' is not supported'')
      else if oc_RedirectURIs c = [] then Some ''redirect_uris must list at least one URI''
      else if \<not> containsScope (oc_Scope c) ''openid''
      then Some (''scope must include '' @ [CHR 0x22] @ ''openid'' @ [CHR 0x22])
      else None)"

definition validateCredentialScope :: "credential_scope \<Rightarrow> string option" where
  "validateCredentialScope cs =
     (if csc_Name cs = [] then Some ''name is required''
      else if csc_CredentialType cs = [] then Some ''credential_type is required''
      else None)"

subsection \<open>Loading\<close>

fun load_clients :: "lib \<Rightarrow> oidc_client list \<Rightarrow> (string \<rightharpoonup> oidc_client) \<Rightarrow> string + (string \<rightharpoonup> oidc_client)" where
  "load_clients L [] m = Inr m"
| "load_clients L (c # cs) m = (case validateClient L c of
     Some e \<Rightarrow> Inl (''oidcclients: client '' @ strconv_Quote L (oc_ClientID c) @ '': '' @ e)
   | None \<Rightarrow>
       if m (oc_ClientID c) \<noteq> None then Inl (''oidcclients: duplicate client_id '' @ strconv_Quote L (oc_ClientID c))
       else load_clients L cs (m(oc_ClientID c \<mapsto> c)))"

definition standard_scopes :: "string list" where
  "standard_scopes = [''openid'', ''offline_access'', ''profile'', ''email'']"

fun load_scopes ::
  "lib \<Rightarrow> credential_scope list \<Rightarrow> (string \<rightharpoonup> credential_scope) \<Rightarrow> string + (string \<rightharpoonup> credential_scope)" where
  "load_scopes L [] m = Inr m"
| "load_scopes L (cs # css) m = (case validateCredentialScope cs of
     Some e \<Rightarrow> Inl (''oidcclients: credential scope '' @ strconv_Quote L (csc_Name cs) @ '': '' @ e)
   | None \<Rightarrow>
       if m (csc_Name cs) \<noteq> None
       then Inl (''oidcclients: duplicate credential scope name '' @ strconv_Quote L (csc_Name cs))
       else if csc_Name cs \<in> set standard_scopes
       then Inl (''oidcclients: credential scope '' @ strconv_Quote L (csc_Name cs) @
              '' collides with a standard OIDC scope name'')
       else load_scopes L css (m(csc_Name cs \<mapsto> cs)))"

definition registry_of :: "lib \<Rightarrow> registry_doc \<Rightarrow> string + registry" where
  "registry_of L doc =
     and_then (load_clients L (rd_Clients doc) Map.empty) (\<lambda>clients.
     and_then (load_scopes L (rd_CredentialScopes doc) Map.empty) (\<lambda>scopes.
     Inr \<lparr>rg_clients = clients, rg_credentialScopes = scopes\<rparr>))"

definition registry_Load ::
  "lib \<Rightarrow> key_lib \<Rightarrow> (string \<Rightarrow> string + registry_doc) \<Rightarrow> string \<Rightarrow> string + registry" where
  "registry_Load L J unmarshal path = (case fs_ReadFile J path of
     Inl (_, e) \<Rightarrow> Inl (''oidcclients: reading '' @ path @ '': '' @ e)
   | Inr content \<Rightarrow>
       and_then (wrap_err (''oidcclients: parsing '' @ path @ '': '') (unmarshal content)) (\<lambda>doc. registry_of L doc))"

subsection \<open>Lookups\<close>

definition registry_Lookup :: "registry \<Rightarrow> string \<Rightarrow> oidc_client option" where
  "registry_Lookup r clientID = rg_clients r clientID"

fun ResolveCredentialScope :: "registry \<Rightarrow> string list \<Rightarrow> credential_scope option" where
  "ResolveCredentialScope r [] = None"
| "ResolveCredentialScope r (s # ss) = (case rg_credentialScopes r s of
     Some cs \<Rightarrow> Some cs
   | None \<Rightarrow> ResolveCredentialScope r ss)"

definition IsCredentialScope :: "registry \<Rightarrow> string \<Rightarrow> bool" where
  "IsCredentialScope r scope \<longleftrightarrow> rg_credentialScopes r scope \<noteq> None"

subsection \<open>Properties\<close>

lemma scope_scan_split:
  assumes "start \<le> i" "i \<le> length scope" "CHR '' '' \<notin> set (drop start (take i scope))"
  shows "scope_scan scope want start i \<longleftrightarrow> want \<in> set (go_split (CHR '' '') (drop start scope))"
  using assms
proof (induction scope want start i rule: scope_scan.induct)
  case (1 scope want start i)
  have w: "drop start scope = drop start (take i scope) @ drop i scope"
    using 1(3) by (metis append_take_drop_id drop_append length_take min.absorb2 1(4) diff_is_0_eq drop0)
  consider "i = length scope" | "i < length scope" "scope ! i = CHR '' ''" | "i < length scope" "scope ! i \<noteq> CHR '' ''"
    using 1(4) by fastforce
  then show ?case
  proof cases
    case 1
    then have "scope_scan scope want (i + 1) (i + 1) = False" by (subst scope_scan.simps) simp
    moreover have "go_split (CHR '' '') (drop start scope) = [drop start scope]"
      using "1.prems"(3) 1 by (intro go_split_no_sep) simp
    ultimately show ?thesis using 1 by (subst scope_scan.simps) auto
  next
    case 2
    then have d: "drop start scope = drop start (take i scope) @ CHR '' '' # drop (i + 1) scope"
      using w by (metis Cons_nth_drop_Suc Suc_eq_plus1)
    have "scope_scan scope want (i + 1) (i + 1) \<longleftrightarrow> want \<in> set (go_split (CHR '' '') (drop (i + 1) scope))"
      if "drop start (take i scope) \<noteq> want"
      using 1(1) [OF _ _ that] 2 by simp
    then show ?thesis using 2 unfolding d go_split_append_sep [OF "1.prems"(3)]
      by (subst scope_scan.simps) auto
  next
    case 3
    then have "drop start (take (i + 1) scope) = drop start (take i scope) @ [scope ! i]"
      using 1(3) by (simp add: take_Suc_conv_app_nth)
    then have "scope_scan scope want start (i + 1) \<longleftrightarrow> want \<in> set (go_split (CHR '' '') (drop start scope))"
      using 1(2) 3 1(3,5) by simp
    then show ?thesis using 3 by (subst scope_scan.simps) simp
  qed
qed

lemma containsScope_iff_split: "containsScope scope want \<longleftrightarrow> want \<in> set (go_split (CHR '' '') scope)"
  unfolding containsScope_def by (subst scope_scan_split) simp_all

text \<open>C36: the scan for a scope finds exactly the words between single spaces.\<close>

theorem containsScope_iff: "containsScope scope want \<longleftrightarrow> want \<in> set (go_split (CHR '' '') scope)"
  by (rule containsScope_iff_split)

definition client_valid :: "oidc_client \<Rightarrow> bool" where
  "client_valid c \<longleftrightarrow> oc_ClientID c \<noteq> [] \<and> oc_TokenEndpointAuthMethod c = ''none'' \<and> oc_RedirectURIs c \<noteq> [] \<and>
     ''openid'' \<in> set (go_split (CHR '' '') (oc_Scope c))"

definition scope_valid :: "credential_scope \<Rightarrow> bool" where
  "scope_valid cs \<longleftrightarrow> csc_Name cs \<noteq> [] \<and> csc_CredentialType cs \<noteq> [] \<and>
     csc_Name cs \<notin> {''openid'', ''offline_access'', ''profile'', ''email''}"

lemma validateClient_None: "validateClient L c = None \<longleftrightarrow> client_valid c"
  by (auto simp: validateClient_def client_valid_def containsScope_iff_split)

text \<open>What both loading loops compute: all entries valid, their keys new and distinct, all of them added.\<close>

definition keyed :: "('a \<Rightarrow> bool) \<Rightarrow> ('a \<Rightarrow> 'k) \<Rightarrow> ('k \<rightharpoonup> 'a) \<Rightarrow> 'a list \<Rightarrow> ('k \<rightharpoonup> 'a) \<Rightarrow> bool" where
  "keyed valid f m cs m' \<longleftrightarrow> (\<forall>c\<in>set cs. valid c) \<and> distinct (map f cs) \<and> (\<forall>c\<in>set cs. m (f c) = None) \<and>
     m' = m ++ map_of (map (\<lambda>c. (f c, c)) cs)"

lemma keyed_Nil [simp]: "keyed valid f m [] m' \<longleftrightarrow> m' = m"
  by (simp add: keyed_def)

lemma keyed_Cons [simp]:
  "keyed valid f m (c # cs) m' \<longleftrightarrow> valid c \<and> m (f c) = None \<and> keyed valid f (m(f c \<mapsto> c)) cs m'"
proof -
  have "m(f c \<mapsto> c) ++ map_of (map (\<lambda>c. (f c, c)) cs) = m ++ (map_of (map (\<lambda>c. (f c, c)) cs))(f c \<mapsto> c)"
    if "f c \<notin> f ` set cs"
    unfolding map_add_upd using that
    by (intro map_add_upd_left) (simp add: dom_map_of_conv_image_fst image_image)
  moreover have "(\<forall>x\<in>set cs. (m(f c \<mapsto> c)) (f x) = None) \<longleftrightarrow> f c \<notin> f ` set cs \<and> (\<forall>x\<in>set cs. m (f x) = None)"
    by (auto simp: image_iff)
  ultimately show ?thesis unfolding keyed_def by (auto simp del: fun_upd_apply)
qed

lemma load_clients_Inr: "load_clients L cs m = Inr m' \<longleftrightarrow> keyed client_valid oc_ClientID m cs m'"
proof (induction L cs m rule: load_clients.induct)
  case (2 L c cs m)
  then show ?case using validateClient_None [of L c] by (auto simp del: fun_upd_apply split: option.splits)
qed auto

lemma load_scopes_Inr: "load_scopes L cs m = Inr m' \<longleftrightarrow> keyed scope_valid csc_Name m cs m'"
proof (induction L cs m rule: load_scopes.induct)
  case (2 L c cs m)
  have "validateCredentialScope c = None \<and> csc_Name c \<notin> set standard_scopes \<longleftrightarrow> scope_valid c"
    by (auto simp: validateCredentialScope_def scope_valid_def standard_scopes_def)
  then show ?case using 2 by (auto simp del: fun_upd_apply split: option.splits)
qed auto

text \<open>
  C35: a registry loads exactly from the documents in which every client is a named public client with
  a redirect address and the \<^verbatim>\<open>openid\<close> scope, every credential scope is named, typed and not called
  \<^verbatim>\<open>openid\<close>, \<^verbatim>\<open>offline_access\<close>, \<^verbatim>\<open>profile\<close> or \<^verbatim>\<open>email\<close>, and no name occurs twice; it then holds exactly these
  entries under their names. The names \<^verbatim>\<open>phone\<close> and \<^verbatim>\<open>address\<close>, which \<^verbatim>\<open>oidcserver/client.go\<close> counts among the standard scopes,
  do load.
\<close>

theorem registry_loads_iff:
  "registry_of L doc = Inr r \<longleftrightarrow>
     (\<forall>c\<in>set (rd_Clients doc). client_valid c) \<and> distinct (map oc_ClientID (rd_Clients doc)) \<and>
     (\<forall>cs\<in>set (rd_CredentialScopes doc). scope_valid cs) \<and> distinct (map csc_Name (rd_CredentialScopes doc)) \<and>
     r = \<lparr>rg_clients = map_of (map (\<lambda>c. (oc_ClientID c, c)) (rd_Clients doc)),
          rg_credentialScopes = map_of (map (\<lambda>c. (csc_Name c, c)) (rd_CredentialScopes doc))\<rparr>"
  by (auto simp: registry_of_def load_clients_Inr load_scopes_Inr keyed_def)

definition ex_registry_doc :: registry_doc where
  "ex_registry_doc = \<lparr>rd_Clients = [\<lparr>oc_ClientID = ''rp'', oc_TokenEndpointAuthMethod = ''none'',
       oc_RedirectURIs = [''https://rp/cb''], oc_Scope = ''openid profile''\<rparr>],
     rd_CredentialScopes = [\<lparr>csc_Name = ''padro'', csc_CredentialType = ''urn:padro'', csc_Claims = []\<rparr>]\<rparr>"

definition ex_registry :: registry where
  "ex_registry = \<lparr>rg_clients = [''rp'' \<mapsto> hd (rd_Clients ex_registry_doc)],
     rg_credentialScopes = [''padro'' \<mapsto> hd (rd_CredentialScopes ex_registry_doc)]\<rparr>"

text \<open>The example loads; renamed to \<^verbatim>\<open>phone\<close> its scope loads too, renamed to \<^verbatim>\<open>email\<close> it does not.\<close>

definition ex_renamed :: "string \<Rightarrow> registry_doc" where
  "ex_renamed name = ex_registry_doc\<lparr>rd_CredentialScopes := [\<lparr>csc_Name = name, csc_CredentialType = ''urn:padro'', csc_Claims = []\<rparr>]\<rparr>"

theorem registry_loads_iff_witness:
  "\<forall>L. registry_of L ex_registry_doc = Inr ex_registry \<and> (\<exists>r. registry_of L (ex_renamed ''phone'') = Inr r) \<and>
     (\<nexists>r. registry_of L (ex_renamed ''email'') = Inr r)"
proof -
  have "''openid'' \<in> set (go_split (CHR '' '') ''openid profile'')" by code_simp
  then show ?thesis
    unfolding registry_loads_iff
    by (simp add: ex_registry_doc_def ex_registry_def ex_renamed_def client_valid_def scope_valid_def)
qed

end
