(* ===== verification/Oidc_Server.thy ===== *)
theory Oidc_Server
  imports Verifier_Sessions Oidc_Clients
begin

text \<open>
  \<^verbatim>\<open>internal/oidcserver\<close>: the OpenID Connect bridge. Its own store of authorization requests, codes and
  refresh tokens (\<^verbatim>\<open>store.go\<close>), the storage callbacks the OpenID library makes (\<^verbatim>\<open>storage.go\<close>, with
  \<^verbatim>\<open>client.go\<close>, \<^verbatim>\<open>authrequest.go\<close> and \<^verbatim>\<open>refreshtoken.go\<close>) and the login page that completes a request
  from a verified presentation (\<^verbatim>\<open>login.go\<close>). The library itself (\<^verbatim>\<open>zitadel/oidc\<close>) is not modelled: its
  calls are the events of the system in \<open>Oidc_Login\<close>. The store holds pointers to authorization
  requests; a request is reached through its entry only, so the login page's assignment to its fields
  is an update of that entry.
\<close>

definition authRequestTTL :: duration where [const_defs]: "authRequestTTL = 5 * minute"
definition oidc_authCodeTTL :: duration where [const_defs]: "oidc_authCodeTTL = minute"
definition refreshTokenTTL :: duration where [const_defs]: "refreshTokenTTL = 30 * minute"

subsection \<open>Data\<close>

record code_challenge =
  cc_Challenge :: string
  cc_Method :: string

record auth_request =
  arq_id :: string
  arq_clientID :: string
  arq_redirectURI :: string
  arq_state :: string
  arq_nonce :: string
  arq_scopes :: "string list"
  arq_responseType :: string
  arq_codeChallenge :: code_challenge
  arq_createdAt :: time
  arq_subject :: string
  arq_doneAt :: time

definition arq_Done :: "auth_request \<Rightarrow> bool" where
  "arq_Done a \<longleftrightarrow> arq_subject a \<noteq> []"

definition arq_GetAudience :: "auth_request \<Rightarrow> string list" where
  "arq_GetAudience a = [arq_clientID a]"

record auth_request_entry =
  are_req :: auth_request
  are_expiresAt :: time
  are_verificationSessionID :: string

record auth_code_entry =
  ace_authRequestID :: string
  ace_expiresAt :: time

record refresh_token_entry =
  rte_subject :: string
  rte_clientID :: string
  rte_scopes :: "string list"
  rte_expiresAt :: time

record oidc_store =
  os_authRequests :: "string \<rightharpoonup> auth_request_entry"
  os_authCodes :: "string \<rightharpoonup> auth_code_entry"
  os_refreshTokens :: "string \<rightharpoonup> refresh_token_entry"

named_theorems oidc_defs \<open>unfolds the operations of the bridge's store\<close>

definition newStore :: oidc_store where
  [oidc_defs]: "newStore = \<lparr>os_authRequests = Map.empty, os_authCodes = Map.empty, os_refreshTokens = Map.empty\<rparr>"

subsection \<open>The store\<close>

definition putAuthRequest :: "time \<Rightarrow> auth_request \<Rightarrow> oidc_store \<Rightarrow> oidc_store" where
  [oidc_defs]: "putAuthRequest now req s = s\<lparr>os_authRequests := (os_authRequests s)(arq_id req \<mapsto>
     \<lparr>are_req = req, are_expiresAt = now + authRequestTTL, are_verificationSessionID = []\<rparr>)\<rparr>"

definition deleteAuthRequest :: "string \<Rightarrow> oidc_store \<Rightarrow> oidc_store" where
  [oidc_defs]: "deleteAuthRequest i s = s\<lparr>os_authRequests := (os_authRequests s)(i := None)\<rparr>"

definition getAuthRequest :: "time \<Rightarrow> string \<Rightarrow> oidc_store \<Rightarrow> auth_request option \<times> oidc_store" where
  [oidc_defs]: "getAuthRequest now i s = (case os_authRequests s i of
     None \<Rightarrow> (None, deleteAuthRequest i s)
   | Some e \<Rightarrow> if now > are_expiresAt e then (None, deleteAuthRequest i s) else (Some (are_req e), s))"

definition linkVerificationSession :: "string \<Rightarrow> string \<Rightarrow> oidc_store \<Rightarrow> oidc_store" where
  [oidc_defs]: "linkVerificationSession i vsid s = (case os_authRequests s i of
     None \<Rightarrow> s
   | Some e \<Rightarrow> s\<lparr>os_authRequests := (os_authRequests s)(i \<mapsto> e\<lparr>are_verificationSessionID := vsid\<rparr>)\<rparr>)"

definition getVerificationSession :: "string \<Rightarrow> oidc_store \<Rightarrow> string option" where
  [oidc_defs]: "getVerificationSession i s = (case os_authRequests s i of
     None \<Rightarrow> None
   | Some e \<Rightarrow> if are_verificationSessionID e = [] then None else Some (are_verificationSessionID e))"

definition putAuthCode :: "time \<Rightarrow> string \<Rightarrow> string \<Rightarrow> oidc_store \<Rightarrow> oidc_store" where
  [oidc_defs]: "putAuthCode now code i s = s\<lparr>os_authCodes := (os_authCodes s)(code \<mapsto>
     \<lparr>ace_authRequestID = i, ace_expiresAt = now + oidc_authCodeTTL\<rparr>)\<rparr>"

definition consumeAuthCode :: "time \<Rightarrow> string \<Rightarrow> oidc_store \<Rightarrow> string option \<times> oidc_store" where
  [oidc_defs]: "consumeAuthCode now code s = (let s' = s\<lparr>os_authCodes := (os_authCodes s)(code := None)\<rparr> in
     case os_authCodes s code of
       None \<Rightarrow> (None, s')
     | Some e \<Rightarrow> if now > ace_expiresAt e then (None, s') else (Some (ace_authRequestID e), s'))"

definition putRefreshToken ::
  "time \<Rightarrow> string \<Rightarrow> string \<Rightarrow> string \<Rightarrow> string list \<Rightarrow> oidc_store \<Rightarrow> oidc_store" where
  [oidc_defs]: "putRefreshToken now tok subject clientID scopes s =
     s\<lparr>os_refreshTokens := (os_refreshTokens s)(tok \<mapsto> \<lparr>rte_subject = subject, rte_clientID = clientID,
        rte_scopes = scopes, rte_expiresAt = now + refreshTokenTTL\<rparr>)\<rparr>"

definition deleteRefreshToken :: "string \<Rightarrow> oidc_store \<Rightarrow> oidc_store" where
  [oidc_defs]: "deleteRefreshToken tok s = s\<lparr>os_refreshTokens := (os_refreshTokens s)(tok := None)\<rparr>"

definition getRefreshToken :: "time \<Rightarrow> string \<Rightarrow> oidc_store \<Rightarrow> refresh_token_entry option \<times> oidc_store" where
  [oidc_defs]: "getRefreshToken now tok s = (case os_refreshTokens s tok of
     None \<Rightarrow> (None, deleteRefreshToken tok s)
   | Some e \<Rightarrow> if now > rte_expiresAt e then (None, deleteRefreshToken tok s) else (Some e, s))"

subsection \<open>Storage callbacks\<close>

text \<open>The errors handed to the OpenID library, by its constructors, with their description.\<close>

datatype oidc_error =
    ErrInvalidClient string
  | ErrInvalidRequest string
  | ErrInvalidGrant string
  | NotFoundError
  | ErrInvalidRefreshToken
  | OtherError string

record oidc_storage =
  sto_clients :: registry
  sto_signingKey :: signing_key
  sto_loginBasePath :: string

definition NewStorage :: "registry \<Rightarrow> signing_key \<Rightarrow> string \<Rightarrow> oidc_storage \<times> oidc_store" where
  "NewStorage clients signingKey loginBasePath =
     (\<lparr>sto_clients = clients, sto_signingKey = signingKey, sto_loginBasePath = loginBasePath\<rparr>, newStore)"

record op_client =
  cl_cfg :: oidc_client
  cl_loginBasePath :: string
  cl_registry :: registry

definition storage_client :: "oidc_storage \<Rightarrow> string \<Rightarrow> oidc_error + op_client" where
  "storage_client sto clientID = (case registry_Lookup (sto_clients sto) clientID of
     None \<Rightarrow> Inl (ErrInvalidClient ''unknown client_id'')
   | Some cfg \<Rightarrow> Inr \<lparr>cl_cfg = cfg, cl_loginBasePath = sto_loginBasePath sto, cl_registry = sto_clients sto\<rparr>)"

definition GetClientByClientID :: "oidc_storage \<Rightarrow> string \<Rightarrow> oidc_error + op_client" where
  "GetClientByClientID sto clientID = storage_client sto clientID"

definition LoginURL :: "op_client \<Rightarrow> string \<Rightarrow> string" where
  "LoginURL c authRequestID = cl_loginBasePath c @ ''?id='' @ authRequestID"

definition IsScopeAllowed :: "op_client \<Rightarrow> string \<Rightarrow> bool" where
  "IsScopeAllowed c scope = IsCredentialScope (cl_registry c) scope"

text \<open>What the library parsed from the authorization request.\<close>

record oidc_auth_params =
  oap_ClientID :: string
  oap_RedirectURI :: string
  oap_State :: string
  oap_Nonce :: string
  oap_Scopes :: "string list"
  oap_ResponseType :: string
  oap_CodeChallenge :: string
  oap_CodeChallengeMethod :: string

definition CodeChallengeMethodPlain :: string where "CodeChallengeMethodPlain = ''plain''"
definition CodeChallengeMethodS256 :: string where "CodeChallengeMethodS256 = ''S256''"

definition CreateAuthRequest ::
  "world \<Rightarrow> oidc_auth_params \<Rightarrow> oidc_store \<Rightarrow> (oidc_error + auth_request) \<times> oidc_store" where
  "CreateAuthRequest w req s =
     (if oap_CodeChallenge req = [] then (Inl (ErrInvalidRequest ''code_challenge is required''), s)
      else if oap_CodeChallengeMethod req \<noteq> CodeChallengeMethodS256 \<and> oap_CodeChallengeMethod req \<noteq> [] \<and>
              oap_CodeChallengeMethod req \<noteq> CodeChallengeMethodPlain
      then (Inl (ErrInvalidRequest ''only S256 code_challenge_method is supported''), s)
      else let method = (if oap_CodeChallengeMethod req = CodeChallengeMethodS256
                         then CodeChallengeMethodS256 else CodeChallengeMethodPlain) in
      if method \<noteq> CodeChallengeMethodS256
      then (Inl (ErrInvalidRequest ''only S256 code_challenge_method is supported''), s)
      else let ar = \<lparr>arq_id = RandomToken 16 (rnd w 0), arq_clientID = oap_ClientID req,
               arq_redirectURI = oap_RedirectURI req, arq_state = oap_State req, arq_nonce = oap_Nonce req,
               arq_scopes = oap_Scopes req, arq_responseType = oap_ResponseType req,
               arq_codeChallenge = \<lparr>cc_Challenge = oap_CodeChallenge req, cc_Method = method\<rparr>,
               arq_createdAt = clk w 0, arq_subject = [], arq_doneAt = zero_time\<rparr> in
      (Inr ar, putAuthRequest (clk w 1) ar s))"

definition AuthRequestByID :: "time \<Rightarrow> string \<Rightarrow> oidc_store \<Rightarrow> (oidc_error + auth_request) \<times> oidc_store" where
  "AuthRequestByID now i s = (let (ar, s1) = getAuthRequest now i s in
     (case ar of None \<Rightarrow> Inl NotFoundError | Some a \<Rightarrow> Inr a, s1))"

definition AuthRequestByCode :: "world \<Rightarrow> string \<Rightarrow> oidc_store \<Rightarrow> (oidc_error + auth_request) \<times> oidc_store" where
  "AuthRequestByCode w code s = (let (i, s1) = consumeAuthCode (clk w 0) code s in
     case i of
       None \<Rightarrow> (Inl (ErrInvalidGrant ''invalid or expired authorization code''), s1)
     | Some i \<Rightarrow> (let (ar, s2) = getAuthRequest (clk w 1) i s1 in
         (case ar of None \<Rightarrow> Inl (ErrInvalidGrant ''authorization request expired'') | Some a \<Rightarrow> Inr a, s2)))"

definition SaveAuthCode :: "time \<Rightarrow> string \<Rightarrow> string \<Rightarrow> oidc_store \<Rightarrow> oidc_store" where
  "SaveAuthCode now i code s = putAuthCode now code i s"

definition DeleteAuthRequest :: "string \<Rightarrow> oidc_store \<Rightarrow> oidc_store" where
  "DeleteAuthRequest i s = deleteAuthRequest i s"

definition CreateAccessToken :: "world \<Rightarrow> string \<times> time" where
  "CreateAccessToken w = (RandomToken 16 (rnd w 0), clk w 0 + 5 * minute)"

text \<open>
  A token request is one of the bridge's own two types, both with a client id.
\<close>

record op_token_request =
  otr_Subject :: string
  otr_ClientID :: string
  otr_Scopes :: "string list"

definition CreateAccessAndRefreshTokens ::
  "world \<Rightarrow> op_token_request \<Rightarrow> string \<Rightarrow> oidc_store \<Rightarrow> (string \<times> string \<times> time) \<times> oidc_store" where
  "CreateAccessAndRefreshTokens w req currentRefreshToken s =
     (let accessTokenID = RandomToken 16 (rnd w 0);
          expiration = clk w 0 + 5 * minute;
          s1 = (if currentRefreshToken \<noteq> [] then deleteRefreshToken currentRefreshToken s else s);
          newRefreshToken = RandomToken 32 (rnd w 1) in
      ((accessTokenID, newRefreshToken, expiration),
       putRefreshToken (clk w 1) newRefreshToken (otr_Subject req) (otr_ClientID req) (otr_Scopes req) s1))"

definition TokenRequestByRefreshToken ::
  "time \<Rightarrow> string \<Rightarrow> oidc_store \<Rightarrow> (oidc_error + op_token_request) \<times> oidc_store" where
  "TokenRequestByRefreshToken now tok s = (let (entry, s1) = getRefreshToken now tok s in
     (case entry of
        None \<Rightarrow> Inl ErrInvalidRefreshToken
      | Some e \<Rightarrow> Inr \<lparr>otr_Subject = rte_subject e, otr_ClientID = rte_clientID e, otr_Scopes = rte_scopes e\<rparr>, s1))"

definition SetCurrentScopes :: "string list \<Rightarrow> op_token_request \<Rightarrow> op_token_request" where
  "SetCurrentScopes scopes r = r\<lparr>otr_Scopes := scopes\<rparr>"

definition RevokeToken :: "string \<Rightarrow> oidc_store \<Rightarrow> oidc_store" where
  "RevokeToken tok s = deleteRefreshToken tok s"

definition GetRefreshTokenInfo ::
  "time \<Rightarrow> string \<Rightarrow> string \<Rightarrow> oidc_store \<Rightarrow> (oidc_error + string \<times> string) \<times> oidc_store" where
  "GetRefreshTokenInfo now clientID tok s = (let (entry, s1) = getRefreshToken now tok s in
     (case entry of
        None \<Rightarrow> Inl ErrInvalidRefreshToken
      | Some e \<Rightarrow> if rte_clientID e \<noteq> clientID then Inl ErrInvalidRefreshToken else Inr (rte_subject e, tok), s1))"

text \<open>The calls the OpenID library makes to the storage, in any order.\<close>

datatype provider_call =
    CallAuthorize world oidc_auth_params
  | CallByID time string
  | CallByCode world string
  | CallSave time string string
  | CallDelete string
  | CallTokens world op_token_request string
  | CallRefresh time string
  | CallInfo time string string
  | CallRevoke string

fun exec_call :: "provider_call \<Rightarrow> oidc_store \<Rightarrow> oidc_store" where
  "exec_call (CallAuthorize w req) s = snd (CreateAuthRequest w req s)"
| "exec_call (CallByID now i) s = snd (AuthRequestByID now i s)"
| "exec_call (CallByCode w code) s = snd (AuthRequestByCode w code s)"
| "exec_call (CallSave now i code) s = SaveAuthCode now i code s"
| "exec_call (CallDelete i) s = DeleteAuthRequest i s"
| "exec_call (CallTokens w tr cur) s = snd (CreateAccessAndRefreshTokens w tr cur s)"
| "exec_call (CallRefresh now tok) s = snd (TokenRequestByRefreshToken now tok s)"
| "exec_call (CallInfo now cid tok) s = snd (GetRefreshTokenInfo now cid tok s)"
| "exec_call (CallRevoke tok) s = RevokeToken tok s"

text \<open>The answers of the library about a user: nothing but the subject, whatever the scopes.\<close>

record user_info =
  ui_Subject :: string
  ui_Claims :: json_map

definition SetUserinfoFromRequest :: "string \<Rightarrow> user_info \<Rightarrow> user_info" where
  "SetUserinfoFromRequest subject u = u\<lparr>ui_Subject := subject\<rparr>"

definition SetUserinfoFromToken :: "string \<Rightarrow> user_info \<Rightarrow> user_info" where
  "SetUserinfoFromToken subject u = u\<lparr>ui_Subject := subject\<rparr>"

record introspection =
  in_Subject :: string
  in_ClientID :: string
  in_Active :: bool

definition SetIntrospectionFromToken :: "string \<Rightarrow> string \<Rightarrow> introspection \<Rightarrow> introspection" where
  "SetIntrospectionFromToken subject clientID r = r\<lparr>in_Subject := subject, in_ClientID := clientID, in_Active := True\<rparr>"

text \<open>The callbacks of flows the bridge does not offer, and those with nothing to do.\<close>

definition TerminateSession :: "string \<Rightarrow> string \<Rightarrow> oidc_store \<Rightarrow> oidc_store" where
  "TerminateSession userID clientID s = s"

definition AuthorizeClientIDSecret :: "string \<Rightarrow> string \<Rightarrow> oidc_error + unit" where
  "AuthorizeClientIDSecret clientID clientSecret =
     Inl (OtherError ''oidcserver: this AS has no confidential OpenID Connect clients'')"

definition SetUserinfoFromScopes :: "string \<Rightarrow> string \<Rightarrow> string list \<Rightarrow> user_info \<Rightarrow> user_info" where
  "SetUserinfoFromScopes userID clientID scopes u = u"

definition GetPrivateClaimsFromScopes :: "string \<Rightarrow> string \<Rightarrow> string list \<Rightarrow> json_map" where
  "GetPrivateClaimsFromScopes userID clientID scopes = []"

definition GetKeyByIDAndClientID :: "string \<Rightarrow> string \<Rightarrow> oidc_error + jwk" where
  "GetKeyByIDAndClientID keyID clientID = Inl (OtherError ''oidcserver: no per-client keys are registered'')"

definition ValidateJWTProfileScopes :: "string \<Rightarrow> string list \<Rightarrow> oidc_error + string list" where
  "ValidateJWTProfileScopes userID scopes = Inl (OtherError ''oidcserver: the JWT Profile grant is not supported'')"

text \<open>
  \<^verbatim>\<open>signingkey.go\<close>: the access-token key as the key of ID tokens. \<open>key\<close> is the signer on one side, the
  exported public key on the other, \<open>export\<close> being \<^verbatim>\<open>jwk.Export\<close> (its error ignored: \<open>None\<close>).
\<close>

record 'k op_key =
  opk_ID :: string
  opk_Algorithm :: string
  opk_Use :: string
  opk_Key :: 'k

definition signingKey_adapter :: "signing_key \<Rightarrow> int op_key" where
  "signingKey_adapter k = \<lparr>opk_ID = SigningKey_KID k, opk_Algorithm = ES256, opk_Use = ''sig'', opk_Key = SigningKey_Signer k\<rparr>"

definition publicKey_adapter :: "(jwk \<Rightarrow> ec_public option) \<Rightarrow> signing_key \<Rightarrow> ec_public option op_key" where
  "publicKey_adapter export k = \<lparr>opk_ID = SigningKey_KID k, opk_Algorithm = ES256, opk_Use = ''sig'', opk_Key = export (SigningKey_PublicJWK k)\<rparr>"

definition storage_SigningKey :: "oidc_storage \<Rightarrow> int op_key" where
  "storage_SigningKey sto = signingKey_adapter (sto_signingKey sto)"

definition KeySet :: "(jwk \<Rightarrow> ec_public option) \<Rightarrow> oidc_storage \<Rightarrow> ec_public option op_key list" where
  "KeySet export sto = [publicKey_adapter export (sto_signingKey sto)]"

definition SignatureAlgorithms :: "string list" where
  "SignatureAlgorithms = [ES256]"

text \<open>\<^verbatim>\<open>client.go\<close>: what a registered client may do.\<close>

definition client_GetID :: "op_client \<Rightarrow> string" where
  "client_GetID c = oc_ClientID (cl_cfg c)"

definition client_RedirectURIs :: "op_client \<Rightarrow> string list" where
  "client_RedirectURIs c = oc_RedirectURIs (cl_cfg c)"

definition client_ResponseTypes :: "string list" where
  "client_ResponseTypes = [''code'']"

definition client_GrantTypes :: "string list" where
  "client_GrantTypes = [''authorization_code'', ''refresh_token'']"

definition IDTokenLifetime :: duration where
  "IDTokenLifetime = 5 * minute"

subsection \<open>The login page\<close>

text \<open>
  \<open>lh_authCallback\<close> is the library's \<^verbatim>\<open>op.AuthCallbackURL\<close>, on the issuer taken from the context and the
  request id.
\<close>

record login_handler =
  lh_clients :: registry
  lh_verifier :: verifier_service
  lh_authCallback :: "string \<Rightarrow> string \<Rightarrow> string"
  lh_issuer :: string

definition NewLoginHandler ::
  "registry \<Rightarrow> verifier_service \<Rightarrow> (string \<Rightarrow> string \<Rightarrow> string) \<Rightarrow> string \<Rightarrow> login_handler" where
  "NewLoginHandler clients verifierService authCallbackURL issuer =
     \<lparr>lh_clients = clients, lh_verifier = verifierService, lh_authCallback = authCallbackURL, lh_issuer = issuer\<rparr>"

definition callbackURL :: "login_handler \<Rightarrow> string \<Rightarrow> string" where
  "callbackURL h requestID = lh_authCallback h (lh_issuer h) requestID"

datatype login_response =
    HttpError nat string
  | RedirectTo string
  | LoginPage string string
  | JSONStatus nat "(string \<times> string) list"

record bridge_state =
  bs_oidc :: oidc_store
  bs_sessions :: store

definition login_credential :: "credential_scope \<Rightarrow> credential_request" where
  "login_credential cs = \<lparr>crq_ID = ''requested_credential'', crq_CredentialType = csc_CredentialType cs,
     crq_Claims = csc_Claims cs, crq_Format = []\<rparr>"

abbreviation verificationSessionFor :: "auth_request \<Rightarrow> oidc_store \<Rightarrow> string option" where
  "verificationSessionFor ar \<equiv> getVerificationSession (arq_id ar)"

abbreviation verifierSessionResult :: "time \<Rightarrow> string \<Rightarrow> store \<Rightarrow> verification_session option \<times> store" where
  "verifierSessionResult t sid \<equiv> verifier_Session t sid"

text \<open>The verification session of a page: the one already linked, or a new one. \<open>None\<close> is a panic.\<close>

definition start_login ::
  "lib \<Rightarrow> key_lib \<Rightarrow> login_handler \<Rightarrow> world \<Rightarrow> string \<Rightarrow> auth_request \<Rightarrow> credential_scope \<Rightarrow> bridge_state \<Rightarrow>
   login_response option \<times> bridge_state" where
  "start_login L J h w authRequestID ar cs b = (case verificationSessionFor ar (bs_oidc b) of
     Some vsid \<Rightarrow> (Some (LoginPage authRequestID vsid), b)
   | None \<Rightarrow> (let (r, s1) = CreateSession L J (lh_verifier h) w [login_credential cs] (bs_sessions b) in
       case r of
         None \<Rightarrow> (None, b\<lparr>bs_sessions := s1\<rparr>)
       | Some (Inl e) \<Rightarrow> (Some (HttpError 502 (''failed to start verification: '' @ e)), b\<lparr>bs_sessions := s1\<rparr>)
       | Some (Inr result) \<Rightarrow>
           (Some (LoginPage authRequestID (csr_SessionID result)),
            \<lparr>bs_oidc = linkVerificationSession (arq_id ar) (csr_SessionID result) (bs_oidc b), bs_sessions = s1\<rparr>)))"

definition login_ServeHTTP ::
  "lib \<Rightarrow> key_lib \<Rightarrow> login_handler \<Rightarrow> world \<Rightarrow> string \<Rightarrow> bridge_state \<Rightarrow> login_response option \<times> bridge_state" where
  "login_ServeHTTP L J h w authRequestID b =
     (if authRequestID = [] then (Some (HttpError 400 ''missing id''), b)
      else let (found, o1) = getAuthRequest (clk w 0) authRequestID (bs_oidc b); b1 = b\<lparr>bs_oidc := o1\<rparr> in
      case found of
        None \<Rightarrow> (Some (HttpError 404 ''unknown or expired login request''), b1)
      | Some ar \<Rightarrow>
          if arq_Done ar then (Some (RedirectTo (callbackURL h (arq_id ar))), b1)
          else if registry_Lookup (lh_clients h) (arq_clientID ar) = None
          then (Some (HttpError 400 ''unknown client''), b1)
          else case ResolveCredentialScope (lh_clients h) (arq_scopes ar) of
            None \<Rightarrow> (Some (HttpError 400 ''the requested scope names no known credential to present''), b1)
          | Some cs \<Rightarrow> start_login L J h (after 1 w) authRequestID ar cs b1)"

text \<open>The assignment to the fields of the request the entry points to.\<close>

definition complete_request :: "string \<Rightarrow> string \<Rightarrow> time \<Rightarrow> oidc_store \<Rightarrow> oidc_store" where
  [oidc_defs]: "complete_request i subject t s = (case os_authRequests s i of
     None \<Rightarrow> s
   | Some e \<Rightarrow> s\<lparr>os_authRequests := (os_authRequests s)(i \<mapsto>
       e\<lparr>are_req := (are_req e)\<lparr>arq_subject := subject, arq_doneAt := t\<rparr>\<rparr>)\<rparr>)"

definition PollHandler :: "login_handler \<Rightarrow> world \<Rightarrow> string \<Rightarrow> bridge_state \<Rightarrow> login_response \<times> bridge_state" where
  "PollHandler h w authRequestID b =
     (let (found, o1) = getAuthRequest (clk w 0) authRequestID (bs_oidc b); b1 = b\<lparr>bs_oidc := o1\<rparr> in
      case found of
        None \<Rightarrow> (JSONStatus 404 [(''status'', ''not_found'')], b1)
      | Some ar \<Rightarrow>
      if arq_Done ar then (JSONStatus 200 [(''status'', ''done''), (''redirect'', callbackURL h (arq_id ar))], b1)
      else case verificationSessionFor ar o1 of
        None \<Rightarrow> (JSONStatus 200 [(''status'', ''pending'')], b1)
      | Some vsid \<Rightarrow>
      let (session, s1) = verifierSessionResult (clk w 1) vsid (bs_sessions b1); b2 = b1\<lparr>bs_sessions := s1\<rparr> in
      case session of
        None \<Rightarrow> (JSONStatus 200 [(''status'', ''pending'')], b2)
      | Some v \<Rightarrow>
          if vs_Status v = ''verified''
          then if vs_SubjectID v = []
               then (JSONStatus 200 [(''status'', ''error''),
                      (''error'', ''verification succeeded but produced no subject identifier'')], b2)
               else (JSONStatus 200 [(''status'', ''done''), (''redirect'', callbackURL h (arq_id ar))],
                     b2\<lparr>bs_oidc := complete_request authRequestID (vs_SubjectID v) (clk w 2) o1\<rparr>)
          else if vs_Status v = ''failed'' then (JSONStatus 200 [(''status'', ''error''), (''error'', vs_Error v)], b2)
          else (JSONStatus 200 [(''status'', ''pending'')], b2))"

text \<open>The body written for a JSON status: Go-quoted pairs in the order Go ranges over the map.\<close>

definition writeJSONStatus :: "lib \<Rightarrow> world \<Rightarrow> (string \<times> string) list \<Rightarrow> string" where
  "writeJSONStatus L w body = ''{'' @
     go_join (CHR '','') (map (\<lambda>(k, v). strconv_Quote L k @ '':'' @ strconv_Quote L v) (ranged w body)) @ ''}''"


subsection \<open>Wiring\<close>

definition BasePath :: string where "BasePath = ''/oidc/v1''"
definition LoginPath :: string where "LoginPath = BasePath @ ''/login''"

record op_config =
  opc_CryptoKey :: string
  opc_CodeMethodS256 :: bool
  opc_GrantTypeRefreshToken :: bool
  opc_SupportedScopes :: "string list"

text \<open>
  The library's part: building the provider (its failure), and its callback URL. Drawing the key
  fails with the error \<open>rl_rand\<close>, when there is one.
\<close>

record provider_lib =
  rl_rand :: "string option"
  rl_NewProvider :: "op_config \<Rightarrow> string \<Rightarrow> string option"
  rl_AuthCallbackURL :: "string \<Rightarrow> string \<Rightarrow> string"

definition oidc_New ::
  "lib \<Rightarrow> key_lib \<Rightarrow> (string \<Rightarrow> string + registry_doc) \<Rightarrow> provider_lib \<Rightarrow> world \<Rightarrow> string \<Rightarrow> signing_key \<Rightarrow>
   verifier_service option \<Rightarrow> string \<Rightarrow> string + (oidc_storage \<times> oidc_store \<times> login_handler) option" where
  "oidc_New L J unmarshal P w clientsPath key verifier baseURL =
     (if clientsPath = [] then Inr None
      else
      and_then (present (''oidcserver: OIDC_CLIENTS_PATH is set but no OID4VP Verifier is configured (FIKUA_DSS_URL) '' @
          em_dash @ '' this bridge has no login method without one'') verifier) (\<lambda>verifierService.
      and_then (registry_Load L J unmarshal clientsPath) (\<lambda>registry.
      let (storage, st) = NewStorage registry key (baseURL @ LoginPath) in
      and_then (wrap_err ''oidcserver: generating access-token encryption key: '' (no_error (rl_rand P))) (\<lambda>_.
      and_then (wrap_err ''oidcserver: building OpenID Connect provider: '' (no_error (rl_NewProvider P
          \<lparr>opc_CryptoKey = rnd w 0 32, opc_CodeMethodS256 = True, opc_GrantTypeRefreshToken = True,
           opc_SupportedScopes = [''openid'', ''offline_access'']\<rparr> (baseURL @ BasePath)))) (\<lambda>_.
      Inr (Some (storage, st,
        NewLoginHandler registry verifierService (rl_AuthCallbackURL P) (baseURL @ BasePath))))))))"

end
