(* ===== verification/Http_Mux.thy ===== *)
theory Http_Mux
  imports Go_Url
begin

text \<open>
  The \<^verbatim>\<open>http.ServeMux\<close> of Go's standard library, as far as the service uses it: patterns such as
  \<^verbatim>\<open>GET /oid4vp/v1/result/{id}\<close>, their parsing, the conflicts that make a registration panic, and the
  search for the handler of a request. The search walks the path segment by segment, preferring a
  literal to a wildcard and a wildcard to a trailing slash; the theorem of this theory is that in a
  mux whose registrations did not panic this finds the most specific of all patterns that match.
\<close>

subsection \<open>Paths\<close>

fun PathUnescape :: "string \<Rightarrow> string option" where
  "PathUnescape [] = Some []"
| "PathUnescape (c # cs) =
     (if c = CHR ''%'' then
        (case cs of a # b # r \<Rightarrow>
           (case (unhex a, unhex b) of
              (Some x, Some y) \<Rightarrow> map_option ((#) (char_of (16 * x + y))) (PathUnescape r)
            | _ \<Rightarrow> None)
         | _ \<Rightarrow> None)
      else map_option ((#) c) (PathUnescape cs))"

text \<open>The mux keeps a segment that is not validly escaped as it is.\<close>

definition unescape_seg :: "string \<Rightarrow> string" where
  "unescape_seg s = (case PathUnescape s of None \<Rightarrow> s | Some t \<Rightarrow> t)"

text \<open>The segments of a path; that of a trailing slash is \<^verbatim>\<open>/\<close>.\<close>

definition path_segs :: "string \<Rightarrow> string list" where
  "path_segs p = (let ss = go_split (CHR ''/'') (tl p) in if last ss = [] then butlast ss @ [''/''] else ss)"

text \<open>\<^verbatim>\<open>cleanPath\<close>: no empty, \<^verbatim>\<open>.\<close> or \<^verbatim>\<open>..\<close> segments; a trailing slash is kept.\<close>

fun clean_segs :: "string list \<Rightarrow> string list \<Rightarrow> string list" where
  "clean_segs out [] = out"
| "clean_segs out (s # ss) =
     clean_segs (if s = [] \<or> s = ''.'' then out else if s = ''..'' then butlast out else out @ [s]) ss"

definition clean_path :: "string \<Rightarrow> string" where
  "clean_path p = (let q = (if p = [] \<or> hd p \<noteq> CHR ''/'' then CHR ''/'' # p else p);
       np = CHR ''/'' # go_join (CHR ''/'') (clean_segs [] (go_split (CHR ''/'') (tl q))) in
     if last q = CHR ''/'' \<and> np \<noteq> ''/'' then np @ ''/'' else np)"

subsection \<open>Patterns\<close>

text \<open>\<^verbatim>\<open>{$}\<close> is the literal \<^verbatim>\<open>/\<close>; a trailing slash is a nameless wildcard for the rest of the path.\<close>

datatype segment = Lit string | Wild string | Multi string

record mux_pattern =
  pt_Method :: string
  pt_Host :: string
  pt_Segments :: "segment list"

definition word_char :: "bool \<Rightarrow> char \<Rightarrow> bool" where
  "word_char first c \<longleftrightarrow> (let n = byte_val c in
     65 \<le> n \<and> n \<le> 90 \<or> 97 \<le> n \<and> n \<le> 122 \<or> n = 95 \<or> \<not> first \<and> 48 \<le> n \<and> n \<le> 57)"

fun isValidWildcardName :: "string \<Rightarrow> bool" where
  "isValidWildcardName [] = False"
| "isValidWildcardName (c # cs) = (word_char True c \<and> list_all (word_char False) cs)"

definition cut_dots :: "string \<Rightarrow> string \<times> bool" where
  "cut_dots name = (if drop (length name - 3) name = ''...'' then (take (length name - 3) name, True) else (name, False))"

fun parse_segs :: "string list \<Rightarrow> string list \<Rightarrow> string + segment list" where
  "parse_segs seen [] = Inr []"
| "parse_segs seen (seg # rest) =
     (if seg = [] \<and> rest = [] then Inr [Multi []]
      else if CHR ''{'' \<notin> set seg then and_then (parse_segs seen rest) (\<lambda>ps. Inr (Lit (unescape_seg seg) # ps))
      else if hd seg \<noteq> CHR ''{'' then Inl ''bad wildcard segment (must start with '{')''
      else if last seg \<noteq> CHR ''}'' then Inl ''bad wildcard segment (must end with '}')''
      else if butlast (tl seg) = ''$'' then (if rest \<noteq> [] then Inl ''{$} not at end'' else Inr [Lit ''/''])
      else let (name, multi) = cut_dots (butlast (tl seg)) in
        if multi \<and> rest \<noteq> [] then Inl ''{...} wildcard not at end''
        else if name = [] then Inl ''empty wildcard''
        else if \<not> isValidWildcardName name then Inl ''bad wildcard name''
        else if name \<in> set seen then Inl ''duplicate wildcard name''
        else and_then (parse_segs (name # seen) rest) (\<lambda>ps. Inr ((if multi then Multi name else Wild name) # ps)))"

definition blank :: "char \<Rightarrow> bool" where
  "blank c \<longleftrightarrow> c = CHR '' '' \<or> c = CHR 0x09"

text \<open>The method of a pattern is always a constant of the source, so its syntax is not checked here.\<close>

definition parse_pattern :: "string \<Rightarrow> string + mux_pattern" where
  "parse_pattern s =
     (let method = (if list_ex blank s then takeWhile (\<lambda>c. \<not> blank c) s else []);
          rest = (if list_ex blank s then dropWhile blank (dropWhile (\<lambda>c. \<not> blank c) s) else s);
          host = takeWhile (\<lambda>c. c \<noteq> CHR ''/'') rest;
          path = dropWhile (\<lambda>c. c \<noteq> CHR ''/'') rest in
      if path = [] then Inl ''host/path missing /''
      else if CHR ''{'' \<in> set host then Inl ''host contains '{' (missing initial '/'?)''
      else if method \<noteq> [] \<and> method \<noteq> ''CONNECT'' \<and> path \<noteq> clean_path path
      then Inl ''non-CONNECT pattern with unclean path can never match''
      else and_then (parse_segs [] (go_split (CHR ''/'') (tl path))) (\<lambda>segs.
        Inr \<lparr>pt_Method = method, pt_Host = host, pt_Segments = segs\<rparr>))"

subsection \<open>Conflicts\<close>

datatype relationship = Equivalent | MoreGeneral | MoreSpecific | Disjoint | Overlaps

fun inverseRelationship :: "relationship \<Rightarrow> relationship" where
  "inverseRelationship MoreSpecific = MoreGeneral"
| "inverseRelationship MoreGeneral = MoreSpecific"
| "inverseRelationship r = r"

fun combineRelationships :: "relationship \<Rightarrow> relationship \<Rightarrow> relationship" where
  "combineRelationships Equivalent r = r"
| "combineRelationships Disjoint r = Disjoint"
| "combineRelationships Overlaps r = (if r = Disjoint then Disjoint else Overlaps)"
| "combineRelationships r1 r2 =
     (if r2 = Equivalent then r1 else if r2 = inverseRelationship r1 then Overlaps else r2)"

fun compareSegments :: "segment \<Rightarrow> segment \<Rightarrow> relationship" where
  "compareSegments (Multi _) (Multi _) = Equivalent"
| "compareSegments (Multi _) _ = MoreGeneral"
| "compareSegments _ (Multi _) = MoreSpecific"
| "compareSegments (Wild _) (Wild _) = Equivalent"
| "compareSegments (Wild _) (Lit l) = (if l = ''/'' then Disjoint else MoreGeneral)"
| "compareSegments (Lit l) (Wild _) = (if l = ''/'' then Disjoint else MoreSpecific)"
| "compareSegments (Lit l) (Lit m) = (if l = m then Equivalent else Disjoint)"

definition ends_multi :: "segment list \<Rightarrow> bool" where
  "ends_multi ps \<longleftrightarrow> ps \<noteq> [] \<and> (case last ps of Multi _ \<Rightarrow> True | _ \<Rightarrow> False)"

fun compare_loop :: "bool \<Rightarrow> bool \<Rightarrow> relationship \<Rightarrow> segment list \<Rightarrow> segment list \<Rightarrow> relationship" where
  "compare_loop m1 m2 rel (p # ps) (q # qs) =
     (let rel' = combineRelationships rel (compareSegments p q) in
      if rel' = Disjoint then Disjoint else compare_loop m1 m2 rel' ps qs)"
| "compare_loop m1 m2 rel [] [] = rel"
| "compare_loop m1 m2 rel [] (q # qs) = (if m1 then combineRelationships rel MoreGeneral else Disjoint)"
| "compare_loop m1 m2 rel (p # ps) [] = (if m2 then combineRelationships rel MoreSpecific else Disjoint)"

definition comparePaths :: "segment list \<Rightarrow> segment list \<Rightarrow> relationship" where
  "comparePaths ps qs =
     (if length ps \<noteq> length qs \<and> \<not> ends_multi ps \<and> \<not> ends_multi qs then Disjoint
      else compare_loop (ends_multi ps) (ends_multi qs) Equivalent ps qs)"

definition compareMethods :: "string \<Rightarrow> string \<Rightarrow> relationship" where
  "compareMethods m1 m2 =
     (if m1 = m2 then Equivalent else if m1 = [] then MoreGeneral else if m2 = [] then MoreSpecific
      else if m1 = ''GET'' \<and> m2 = ''HEAD'' then MoreGeneral
      else if m2 = ''GET'' \<and> m1 = ''HEAD'' then MoreSpecific else Disjoint)"

definition comparePathsAndMethods :: "mux_pattern \<Rightarrow> mux_pattern \<Rightarrow> relationship" where
  "comparePathsAndMethods p q = (let mrel = compareMethods (pt_Method p) (pt_Method q) in
     if mrel = Disjoint then Disjoint
     else combineRelationships mrel (comparePaths (pt_Segments p) (pt_Segments q)))"

definition conflictsWith :: "mux_pattern \<Rightarrow> mux_pattern \<Rightarrow> bool" where
  "conflictsWith p q \<longleftrightarrow> pt_Host p = pt_Host q \<and> comparePathsAndMethods p q \<in> {Equivalent, Overlaps}"

type_synonym 'h mux = "(mux_pattern \<times> 'h) list"

text \<open>\<^verbatim>\<open>Handle\<close> and \<^verbatim>\<open>HandleFunc\<close>: \<open>Inl\<close> is the panic of the registration.\<close>

definition mux_Handle :: "string \<Rightarrow> 'h \<Rightarrow> 'h mux \<Rightarrow> string + 'h mux" where
  "mux_Handle s h m = and_then (parse_pattern s) (\<lambda>p.
     if list_ex (\<lambda>(q, _). conflictsWith p q) m then Inl (''pattern '' @ s @ '' conflicts'') else Inr (m @ [(p, h)]))"

fun mux_register :: "(string \<times> 'h) list \<Rightarrow> 'h mux \<Rightarrow> string + 'h mux" where
  "mux_register [] m = Inr m"
| "mux_register ((s, h) # rs) m = and_then (mux_Handle s h m) (mux_register rs)"

subsection \<open>The search\<close>

text \<open>
  A node of the routing tree is the list of the routes below it, each with the segments still to be
  matched. The values of the wildcards are collected on the way.
\<close>

definition lit_child :: "string \<Rightarrow> (segment list \<times> 'r) list \<Rightarrow> (segment list \<times> 'r) list" where
  "lit_child l rs = List.map_filter (\<lambda>(ps, r). case ps of Lit l' # qs \<Rightarrow> if l' = l then Some (qs, r) else None | _ \<Rightarrow> None) rs"

definition wild_child :: "(segment list \<times> 'r) list \<Rightarrow> (segment list \<times> 'r) list" where
  "wild_child rs = List.map_filter (\<lambda>(ps, r). case ps of Wild _ # qs \<Rightarrow> Some (qs, r) | _ \<Rightarrow> None) rs"

definition multi_child :: "(segment list \<times> 'r) list \<Rightarrow> (string \<times> 'r) list" where
  "multi_child rs = List.map_filter (\<lambda>(ps, r). case ps of [Multi n] \<Rightarrow> Some (n, r) | _ \<Rightarrow> None) rs"

definition or_else :: "'a option \<Rightarrow> 'a option \<Rightarrow> 'a option" where
  "or_else x y = (case x of None \<Rightarrow> y | Some a \<Rightarrow> Some a)"

fun match_path :: "(segment list \<times> 'r) list \<Rightarrow> string list \<Rightarrow> string list \<Rightarrow> ('r \<times> string list) option" where
  "match_path rs [] vals = (case filter (\<lambda>(ps, _). ps = []) rs of [] \<Rightarrow> None | (_, r) # _ \<Rightarrow> Some (r, vals))"
| "match_path rs (s # ss) vals = (let seg = unescape_seg s in
     or_else (match_path (lit_child seg rs) ss vals)
     (or_else (if seg = ''/'' then None else match_path (wild_child rs) ss (vals @ [seg]))
       (case multi_child rs of [] \<Rightarrow> None
        | (n, r) # _ \<Rightarrow> Some (r, if n = [] then vals else vals @ [unescape_seg (go_join (CHR ''/'') (s # ss))]))))"

text \<open>The routes of a host and a method; \<^verbatim>\<open>GET\<close> serves \<^verbatim>\<open>HEAD\<close> too, no method serves all.\<close>

definition routes_for :: "string \<Rightarrow> string \<Rightarrow> 'h mux \<Rightarrow> (segment list \<times> mux_pattern \<times> 'h) list" where
  "routes_for host method m = map (\<lambda>(p, h). (pt_Segments p, p, h)) (filter (\<lambda>(p, _). pt_Host p = host \<and> pt_Method p = method) m)"

definition match_method :: "'h mux \<Rightarrow> string \<Rightarrow> string \<Rightarrow> string list \<Rightarrow> ((mux_pattern \<times> 'h) \<times> string list) option" where
  "match_method m host method segs =
     or_else (match_path (routes_for host method m) segs [])
     (or_else (if method = ''HEAD'' then match_path (routes_for host ''GET'' m) segs [] else None)
       (match_path (routes_for host [] m) segs []))"

definition mux_match :: "'h mux \<Rightarrow> string \<Rightarrow> string \<Rightarrow> string \<Rightarrow> ((mux_pattern \<times> 'h) \<times> string list) option" where
  "mux_match m host method path =
     or_else (if host = [] then None else match_method m host method (path_segs path)) (match_method m [] method (path_segs path))"

definition exactMatch :: "((mux_pattern \<times> 'h) \<times> string list) option \<Rightarrow> string \<Rightarrow> bool" where
  "exactMatch n path = (case n of None \<Rightarrow> False
   | Some ((p, _), _) \<Rightarrow> \<not> ends_multi (pt_Segments p) \<or>
       (path = [] \<or> last path = CHR ''/'') \<and> length (pt_Segments p) = length (filter (\<lambda>c. c = CHR ''/'') path))"

text \<open>
  What the mux makes of a request (\<^verbatim>\<open>CONNECT\<close> apart): a handler with the values of the pattern's
  wildcards, a redirect to the cleaned path or to the path with a slash, or an error reply.
\<close>

datatype 'h dispatch = Dispatched 'h "(string \<times> string) list" | MovedTo string | NotAllowed "string list" | NoHandler

fun wildcard_names :: "segment list \<Rightarrow> string list" where
  "wildcard_names [] = []"
| "wildcard_names (Lit _ # ps) = wildcard_names ps"
| "wildcard_names (Wild n # ps) = n # wildcard_names ps"
| "wildcard_names (Multi n # ps) = (if n = [] then wildcard_names ps else n # wildcard_names ps)"

definition methods_at :: "'h mux \<Rightarrow> string \<Rightarrow> string \<Rightarrow> string list" where
  "methods_at m host path = (let found = (\<lambda>hst k. match_path (routes_for hst k m) (path_segs path) [] \<noteq> None);
       ms = filter (\<lambda>k. k \<noteq> [] \<and> (host \<noteq> [] \<and> found host k \<or> found [] k)) (map (pt_Method \<circ> fst) m) in
     if ''GET'' \<in> set ms then ''HEAD'' # ms else ms)"

definition matchingMethods :: "'h mux \<Rightarrow> string \<Rightarrow> string \<Rightarrow> string list" where
  "matchingMethods m host path =
     sort (remdups (methods_at m host path @ (if last path \<noteq> CHR ''/'' then methods_at m host (path @ ''/'') else [])))"

definition mux_dispatch :: "'h mux \<Rightarrow> string \<Rightarrow> string \<Rightarrow> string \<Rightarrow> 'h dispatch" where
  "mux_dispatch m host method escaped =
     (let path = clean_path escaped; n = mux_match m host method path in
      if \<not> exactMatch n path \<and> last path \<noteq> CHR ''/'' \<and> exactMatch (mux_match m host method (path @ ''/'')) (path @ ''/'')
      then MovedTo (path @ ''/'')
      else if path \<noteq> escaped then MovedTo path
      else case n of
        Some ((p, h), vals) \<Rightarrow> Dispatched h (zip (wildcard_names (pt_Segments p)) vals)
      | None \<Rightarrow> (case matchingMethods m host path of [] \<Rightarrow> NoHandler | ms \<Rightarrow> NotAllowed ms))"

subsection \<open>Escaped segments\<close>

lemma PathEscape_Cons:
  "PathUnescape (PathEscape (c # s)) = map_option ((#) c) (PathUnescape (PathEscape s))"
proof -
  have "byte_val c div 16 < 16" "byte_val c mod 16 < 16" by simp_all
  moreover have "char_of (16 * (byte_val c div 16) + byte_val c mod 16) = c" by simp
  moreover have "unreserved c \<or> c \<in> set ''$&+:=@'' \<Longrightarrow> c \<noteq> CHR ''%''" using unreserved_not_special [of c] by auto
  ultimately show ?thesis by (simp add: PathEscape_def percent_def unhex_hex_char)
qed

interpretation path: codec PathEscape PathUnescape
proof
  show "PathUnescape (PathEscape s) = Some s" for s
    by (induction s) (simp_all add: PathEscape_Cons del: PathUnescape.simps(2), simp add: PathEscape_def)
qed

subsection \<open>The reference: every pattern that matches\<close>

fun seg_matches :: "segment list \<Rightarrow> string list \<Rightarrow> bool" where
  "seg_matches [] [] = True"
| "seg_matches (Lit l # ps) (s # ss) = (unescape_seg s = l \<and> seg_matches ps ss)"
| "seg_matches (Wild n # ps) (s # ss) = (unescape_seg s \<noteq> ''/'' \<and> seg_matches ps ss)"
| "seg_matches [Multi n] (s # ss) = True"
| "seg_matches _ _ = False"

text \<open>The values the wildcards of a pattern take on a path.\<close>

fun seg_values :: "segment list \<Rightarrow> string list \<Rightarrow> string list" where
  "seg_values (Lit _ # ps) (s # ss) = seg_values ps ss"
| "seg_values (Wild _ # ps) (s # ss) = unescape_seg s # seg_values ps ss"
| "seg_values (Multi n # ps) ss = (if n = [] then [] else [unescape_seg (go_join (CHR ''/'') ss)])"
| "seg_values _ _ = []"

definition pattern_matches :: "mux_pattern \<Rightarrow> string \<Rightarrow> string \<Rightarrow> string list \<Rightarrow> bool" where
  "pattern_matches p host method segs \<longleftrightarrow> pt_Host p \<in> {[], host} \<and>
     (pt_Method p \<in> {[], method} \<or> method = ''HEAD'' \<and> pt_Method p = ''GET'') \<and> seg_matches (pt_Segments p) segs"

text \<open>The order in which the search tries two patterns that both match.\<close>

fun preferred :: "segment list \<Rightarrow> segment list \<Rightarrow> bool" where
  "preferred [] [] = True"
| "preferred (Lit _ # ps) (Lit _ # qs) = preferred ps qs"
| "preferred (Lit _ # ps) (_ # qs) = True"
| "preferred (Wild _ # ps) (Wild _ # qs) = preferred ps qs"
| "preferred (Wild _ # ps) (Multi _ # qs) = True"
| "preferred (Multi _ # ps) (Multi _ # qs) = True"
| "preferred _ _ = False"

lemma in_children:
  "(qs, r) \<in> set (lit_child l rs) \<longleftrightarrow> (Lit l # qs, r) \<in> set rs"
  "(qs, r) \<in> set (wild_child rs) \<longleftrightarrow> (\<exists>n. (Wild n # qs, r) \<in> set rs)"
  "(n, r) \<in> set (multi_child rs) \<longleftrightarrow> ([Multi n], r) \<in> set rs"
  by (force simp: lit_child_def wild_child_def multi_child_def map_filter_def split: list.splits segment.splits if_splits)+

lemma or_else_eq_None [simp]: "or_else x y = None \<longleftrightarrow> x = None \<and> y = None"
  by (simp add: or_else_def split: option.split)

lemma or_else_eq_Some: "or_else x y = Some a \<longleftrightarrow> x = Some a \<or> x = None \<and> y = Some a"
  by (simp add: or_else_def split: option.split)

subsection \<open>The search finds the most specific pattern\<close>

lemma seg_matches_Nil: "seg_matches ps [] \<longleftrightarrow> ps = []"
  by (cases "(ps, [] :: string list)" rule: seg_matches.cases) auto

lemma seg_matches_Cons:
  "seg_matches ps (s # ss) \<longleftrightarrow> (\<exists>qs. ps = Lit (unescape_seg s) # qs \<and> seg_matches qs ss) \<or>
     (\<exists>n qs. ps = Wild n # qs \<and> unescape_seg s \<noteq> ''/'' \<and> seg_matches qs ss) \<or> (\<exists>n. ps = [Multi n])"
  by (cases "(ps, s # ss)" rule: seg_matches.cases) auto

lemma match_path_end: "match_path rs [] vals = Some (r, vals') \<Longrightarrow> ([], r) \<in> set rs"
  by (induction rs) (auto split: if_splits)

lemma match_path_None: "match_path rs segs vals = None \<longleftrightarrow> (\<forall>ps r. (ps, r) \<in> set rs \<longrightarrow> \<not> seg_matches ps segs)"
proof (induction rs segs vals rule: match_path.induct)
  case (1 rs vals)
  show ?case by (induction rs) (auto simp: seg_matches_Nil)
next
  case (2 rs s ss vals)
  note m = seg_matches_Cons [of _ s ss]
  have "multi_child rs = [] \<longleftrightarrow> (\<forall>n r. ([Multi n], r) \<notin> set rs)"
    using in_children(3) [of _ _ rs] by (cases "multi_child rs") force+
  then have "(\<forall>ps r. (ps, r) \<in> set rs \<longrightarrow> \<not> seg_matches ps (s # ss)) \<longleftrightarrow>
      (\<forall>ps r. (ps, r) \<in> set (lit_child (unescape_seg s) rs) \<longrightarrow> \<not> seg_matches ps ss) \<and>
      (unescape_seg s = ''/'' \<or> (\<forall>ps r. (ps, r) \<in> set (wild_child rs) \<longrightarrow> \<not> seg_matches ps ss)) \<and> multi_child rs = []"
    unfolding m in_children by blast
  then show ?case using 2 by (auto simp: Let_def split: list.split)
qed

lemma match_path_Some:
  "match_path rs segs vals = Some (r, vals') \<Longrightarrow>
     \<exists>ps. (ps, r) \<in> set rs \<and> seg_matches ps segs \<and> vals' = vals @ seg_values ps segs \<and> (\<forall>qs k. (qs, k) \<in> set rs \<longrightarrow> seg_matches qs segs \<longrightarrow> preferred ps qs)"
proof (induction rs segs vals rule: match_path.induct)
  case (1 rs vals)
  then have "vals' = vals" by (auto split: list.splits)
  then show ?case using match_path_end [OF "1.prems"] by (intro exI [of _ "[]"]) (auto simp: seg_matches_Nil)
next
  case (2 rs s ss vals)
  let ?seg = "unescape_seg s"
  note m = seg_matches_Cons [of _ s ss]
  consider (lit) "match_path (lit_child ?seg rs) ss vals = Some (r, vals')"
    | (wild) "match_path (lit_child ?seg rs) ss vals = None" "?seg \<noteq> ''/''"
        "match_path (wild_child rs) ss (vals @ [?seg]) = Some (r, vals')"
    | (multi) n where "match_path (lit_child ?seg rs) ss vals = None" 
        "?seg = ''/'' \<or> match_path (wild_child rs) ss (vals @ [?seg]) = None" "(n, r) \<in> set (multi_child rs)"
        "vals' = vals @ seg_values [Multi n] (s # ss)"
    using "2.prems" by (fastforce simp: Let_def or_else_eq_Some split: if_splits list.splits)
  then show ?case
  proof cases
    case lit
    from "2.IH"(1) [OF refl lit] obtain ps where ps: "(Lit ?seg # ps, r) \<in> set rs" "seg_matches ps ss" "vals' = vals @ seg_values ps ss"
      "\<forall>qs k. (qs, k) \<in> set (lit_child ?seg rs) \<longrightarrow> seg_matches qs ss \<longrightarrow> preferred ps qs" by (auto simp: in_children)
    then show ?thesis by (intro exI [of _ "Lit ?seg # ps"]) (auto simp: m in_children)
  next
    case wild
    from "2.IH"(2) [OF refl wild(2,3)] obtain n ps where ps: "(Wild n # ps, r) \<in> set rs" "seg_matches ps ss" "vals' = vals @ ?seg # seg_values ps ss"
      "\<forall>qs k. (qs, k) \<in> set (wild_child rs) \<longrightarrow> seg_matches qs ss \<longrightarrow> preferred ps qs" by (auto simp: in_children)
    then show ?thesis using wild(1,2) by (intro exI [of _ "Wild n # ps"]) (auto simp: m in_children match_path_None, blast)
  next
    case multi
    then show ?thesis by (intro exI [of _ "[Multi n]"]) (auto simp: m in_children match_path_None, blast+)
  qed
qed

lemma combine_not_Disjoint: "r1 \<noteq> Disjoint \<Longrightarrow> r2 \<noteq> Disjoint \<Longrightarrow> combineRelationships r1 r2 \<noteq> Disjoint"
  by (cases r1; cases r2) simp_all

text \<open>Patterns that match one path are not disjoint, and the preferred one is not the more general.\<close>

lemma compare_loop_matched:
  "seg_matches ps segs \<Longrightarrow> seg_matches qs segs \<Longrightarrow> (ends_multi ps \<longrightarrow> m1) \<Longrightarrow> (ends_multi qs \<longrightarrow> m2) \<Longrightarrow>
     rel \<noteq> Disjoint \<Longrightarrow> compare_loop m1 m2 rel ps qs \<noteq> Disjoint"
proof (induction m1 m2 rel ps qs arbitrary: segs rule: compare_loop.induct)
  case (1 m1 m2 rel p ps q qs)
  then obtain s ss where segs: "segs = s # ss" by (cases segs) (auto simp: seg_matches_Nil)
  have more: "compare_loop a b r xs ys \<noteq> Disjoint" if "xs = [] \<and> a \<or> ys = [] \<and> b" "r \<noteq> Disjoint" for a b r xs ys
    using that by (cases xs; cases ys) (auto simp: combine_not_Disjoint)
  let ?r = "combineRelationships rel (compareSegments p q)"
  have r: "?r \<noteq> Disjoint" using 1 segs by (intro combine_not_Disjoint) (auto simp: seg_matches_Cons)
  consider (multi) "ps = [] \<and> m1 \<or> qs = [] \<and> m2" | (step) "seg_matches ps ss" "seg_matches qs ss"
    using "1.prems" by (auto simp: segs seg_matches_Cons ends_multi_def)
  then show ?case
  proof cases
    case multi
    then show ?thesis using r more [OF multi r] by simp
  next
    case step
    have "ends_multi ps \<longrightarrow> m1" "ends_multi qs \<longrightarrow> m2" using "1.prems"(3,4) by (auto simp: ends_multi_def split: if_splits)
    then show ?thesis using "1.IH" [OF refl r step(1,2)] r by simp
  qed
qed (auto simp: seg_matches_Nil combine_not_Disjoint elim!: seg_matches.elims(2))

abbreviation not_general :: "relationship \<Rightarrow> bool" where
  "not_general r \<equiv> r \<in> {MoreSpecific, Overlaps, Disjoint}"

lemma combine_not_general:
  "not_general r1 \<Longrightarrow> not_general (combineRelationships r1 r2)" "r1 \<noteq> MoreGeneral \<Longrightarrow> not_general r2 \<Longrightarrow> not_general (combineRelationships r1 r2)"
  by (cases r1; cases r2; simp)+

lemma compare_loop_not_general: "not_general rel \<Longrightarrow> not_general (compare_loop m1 m2 rel ps qs)"
proof (induction m1 m2 rel ps qs rule: compare_loop.induct)
  case (1 m1 m2 rel p ps q qs)
  then show ?case using combine_not_general(1) [OF "1.prems", of "compareSegments p q"] by (auto simp: Let_def)
qed (use combine_not_general(1) in auto)

lemma compare_loop_preferred:
  "preferred ps qs \<Longrightarrow> seg_matches ps segs \<Longrightarrow> seg_matches qs segs \<Longrightarrow> rel \<noteq> MoreGeneral \<Longrightarrow>
     compare_loop m1 m2 rel ps qs \<noteq> MoreGeneral"
proof (induction m1 m2 rel ps qs arbitrary: segs rule: compare_loop.induct)
  case (1 m1 m2 rel p ps q qs)
  then obtain s ss where segs: "segs = s # ss" by (cases segs) (auto simp: seg_matches_Nil)
  let ?r = "combineRelationships rel (compareSegments p q)"
  show ?case
  proof (cases "not_general (compareSegments p q)")
    case True
    then have "not_general (compare_loop m1 m2 ?r ps qs)"
      using "1.prems"(4) combine_not_general(2) compare_loop_not_general by blast
    then show ?thesis by (auto simp: Let_def)
  next
    case False
    then have same: "compareSegments p q = Equivalent" "preferred ps qs \<or> ps = [] \<and> qs = []"
      using "1.prems"(1-3) segs by (auto simp: seg_matches_Cons split: if_splits)
    then have r: "?r = rel" by (cases rel) simp_all
    show ?thesis
    proof (cases "ps = [] \<and> qs = []")
      case True
      then show ?thesis using r "1.prems"(4) by (simp add: Let_def)
    next
      case False
      then have s: "seg_matches ps ss" "seg_matches qs ss" using "1.prems"(1-3) segs same by (auto simp: seg_matches_Cons)
      show ?thesis using "1.IH" [OF refl _ _ s] r same "1.prems"(4) False by (cases "rel = Disjoint") (auto simp: Let_def)
    qed
  qed
qed simp_all

lemma combine_inverse:
  "combineRelationships (inverseRelationship r1) (inverseRelationship r2) = inverseRelationship (combineRelationships r1 r2)"
  by (cases r1; cases r2) simp_all

lemma compareSegments_inverse: "compareSegments q p = inverseRelationship (compareSegments p q)"
  by (cases p; cases q) simp_all

lemma inverse_Disjoint [simp]: "inverseRelationship r = Disjoint \<longleftrightarrow> r = Disjoint"
  by (cases r) simp_all

lemma compare_loop_inverse:
  "compare_loop m2 m1 (inverseRelationship rel) qs ps = inverseRelationship (compare_loop m1 m2 rel ps qs)"
proof (induction m1 m2 rel ps qs rule: compare_loop.induct)
  case (1 m1 m2 rel p ps q qs)
  then show ?case using combine_inverse [of rel "compareSegments p q"] by (simp add: Let_def compareSegments_inverse [of q p])
next
  case (3 m1 m2 rel q qs)
  then show ?case using combine_inverse [of rel MoreGeneral] by simp
next
  case (4 m1 m2 rel p ps)
  then show ?case using combine_inverse [of rel MoreSpecific] by simp
qed simp_all

lemma conflictsWith_sym: "conflictsWith q p \<longleftrightarrow> conflictsWith p q"
proof -
  have paths: "comparePaths ys xs = inverseRelationship (comparePaths xs ys)" for xs ys
    using compare_loop_inverse [of "ends_multi ys" "ends_multi xs" Equivalent ys xs] by (simp add: comparePaths_def)
  have methods: "compareMethods n m = inverseRelationship (compareMethods m n)" for m n
    by (auto simp: compareMethods_def)
  have "comparePathsAndMethods q p = inverseRelationship (comparePathsAndMethods p q)"
    by (simp add: comparePathsAndMethods_def Let_def paths [of "pt_Segments q" "pt_Segments p"] methods [of "pt_Method q" "pt_Method p"] combine_inverse)
  then show ?thesis by (cases "comparePathsAndMethods p q") (auto simp: conflictsWith_def)
qed


text \<open>What a mux keeps: no two of its patterns conflict.\<close>

definition mux_ok :: "'h mux \<Rightarrow> bool" where
  "mux_ok m \<longleftrightarrow> sorted_wrt (\<lambda>x y. \<not> conflictsWith (fst x) (fst y)) m"

lemma mux_register_ok: "mux_register rs m = Inr m' \<Longrightarrow> mux_ok m \<Longrightarrow> mux_ok m'"
proof (induction rs m rule: mux_register.induct)
  case (2 s h rs m)
  then obtain p where "mux_register rs (m @ [(p, h)]) = Inr m'" "\<not> list_ex (\<lambda>(q, _). conflictsWith p q) m"
    by (auto simp: mux_Handle_def split: if_splits)
  moreover from this have "mux_ok (m @ [(p, h)])"
    using "2.prems"(2) conflictsWith_sym by (fastforce simp: mux_ok_def sorted_wrt_append list_ex_iff)
  ultimately show ?case using "2.IH" [of "m @ [(p, h)]"] "2.prems"(1) by (auto simp: mux_Handle_def split: if_splits)
qed simp

lemma mux_ok_pair: "mux_ok m \<Longrightarrow> x \<in> set m \<Longrightarrow> y \<in> set m \<Longrightarrow> x \<noteq> y \<Longrightarrow> \<not> conflictsWith (fst x) (fst y)"
  by (induction m) (auto simp: mux_ok_def conflictsWith_sym)

definition outranks :: "mux_pattern \<Rightarrow> mux_pattern \<Rightarrow> bool" where
  "outranks p q \<longleftrightarrow> pt_Host p \<noteq> [] \<and> pt_Host q = [] \<or> pt_Host p = pt_Host q \<and> comparePathsAndMethods p q = MoreSpecific"

lemma in_routes_for: "(ps, p, h) \<in> set (routes_for host k m) \<longleftrightarrow> (p, h) \<in> set m \<and> pt_Host p = host \<and> pt_Method p = k \<and> ps = pt_Segments p"
  by (force simp: routes_for_def)

lemma seg_matches_length: "seg_matches ps segs \<Longrightarrow> \<not> ends_multi ps \<Longrightarrow> length ps = length segs"
  by (induction ps segs rule: seg_matches.induct) (auto simp: ends_multi_def split: if_splits)

lemma routes_for_None:
  "match_path (routes_for host k m) segs vals = None \<longleftrightarrow>
     (\<forall>p h. (p, h) \<in> set m \<longrightarrow> pt_Host p = host \<longrightarrow> pt_Method p = k \<longrightarrow> \<not> seg_matches (pt_Segments p) segs)"
  by (simp add: match_path_None split_paired_All in_routes_for) blast

lemma outranks_same_host:
  assumes m: "mux_ok m" "(p, h) \<in> set m" "(q, k) \<in> set m" "(p, h) \<noteq> (q, k)" and host: "pt_Host p = pt_Host q"
    and matched: "seg_matches (pt_Segments p) segs" "seg_matches (pt_Segments q) segs"
    and methods: "compareMethods (pt_Method p) (pt_Method q) = MoreSpecific \<or>
      pt_Method p = pt_Method q \<and> preferred (pt_Segments p) (pt_Segments q)"
  shows "outranks p q"
proof -
  let ?m = "compareMethods (pt_Method p) (pt_Method q)" and ?r = "comparePaths (pt_Segments p) (pt_Segments q)"
  have loop: "?r = compare_loop (ends_multi (pt_Segments p)) (ends_multi (pt_Segments q)) Equivalent (pt_Segments p) (pt_Segments q)"
    using matched [THEN seg_matches_length] by (auto simp: comparePaths_def)
  then have r: "?r \<noteq> Disjoint" using compare_loop_matched [OF matched] by simp
  have "?m \<noteq> Disjoint" using methods by (auto simp: compareMethods_def split: if_splits)
  then have c: "comparePathsAndMethods p q = combineRelationships ?m ?r" by (simp add: comparePathsAndMethods_def)
  then have "comparePathsAndMethods p q \<noteq> Disjoint" using combine_not_Disjoint [OF \<open>?m \<noteq> Disjoint\<close> r] by simp
  moreover have "comparePathsAndMethods p q \<noteq> MoreGeneral"
  proof (cases "?m = MoreSpecific")
    case True
    then show ?thesis using c combine_not_general(1) [of ?m ?r] by auto
  next
    case False
    then have "?m = Equivalent" "?r \<noteq> MoreGeneral"
      using methods loop compare_loop_preferred [OF _ matched, of Equivalent] by (auto simp: compareMethods_def)
    then show ?thesis using c by simp
  qed
  ultimately show ?thesis using mux_ok_pair [OF m] host
    by (cases "comparePathsAndMethods p q") (auto simp: outranks_def conflictsWith_def)
qed

lemma match_method_None:
  "match_method m host method segs = None \<longleftrightarrow>
     (\<forall>p h. (p, h) \<in> set m \<longrightarrow> pt_Host p = host \<longrightarrow> \<not> pattern_matches p host method segs)"
  by (auto simp: match_method_def routes_for_None pattern_matches_def split: if_splits)

lemma match_method_best:
  assumes ok: "mux_ok m" and f: "match_method m host method segs = Some ((p, h), vals)"
  shows "(p, h) \<in> set m \<and> pt_Host p = host \<and> pattern_matches p host method segs \<and> vals = seg_values (pt_Segments p) segs \<and>
    (\<forall>q k. (q, k) \<in> set m \<longrightarrow> pt_Host q = host \<longrightarrow> pattern_matches q host method segs \<longrightarrow> (q, k) = (p, h) \<or> outranks p q)"
proof -
  let ?t = "\<lambda>k. match_path (routes_for host k m) segs []"
  from f obtain k0 where k0: "?t k0 = Some ((p, h), vals)"
    and tiers: "k0 = method \<or> k0 = ''GET'' \<and> method = ''HEAD'' \<and> ?t method = None \<or>
      k0 = [] \<and> ?t method = None \<and> (method = ''HEAD'' \<longrightarrow> ?t ''GET'' = None)"
    by (auto simp: match_method_def or_else_eq_Some split: if_splits)
  from match_path_Some [OF k0] have p: "(p, h) \<in> set m" "pt_Host p = host" "pt_Method p = k0" "seg_matches (pt_Segments p) segs"
      "vals = seg_values (pt_Segments p) segs"
    and best: "\<And>q k. (q, k) \<in> set m \<Longrightarrow> pt_Host q = host \<Longrightarrow> pt_Method q = k0 \<Longrightarrow> seg_matches (pt_Segments q) segs \<Longrightarrow>
      preferred (pt_Segments p) (pt_Segments q)"
    by (auto simp: in_routes_for)
  have "outranks p q" if q: "(q, k) \<in> set m" "pt_Host q = host" "pattern_matches q host method segs" "(q, k) \<noteq> (p, h)" for q k
  proof (rule outranks_same_host [OF ok p(1) q(1)])
    have s: "seg_matches (pt_Segments q) segs" and km: "pt_Method q \<in> {[], method} \<or> method = ''HEAD'' \<and> pt_Method q = ''GET''"
      using q(3) by (auto simp: pattern_matches_def)
    have found: "?t (pt_Method q) \<noteq> None" using q(1,2) s by (auto simp: routes_for_None)
    show "compareMethods (pt_Method p) (pt_Method q) = MoreSpecific \<or>
        pt_Method p = pt_Method q \<and> preferred (pt_Segments p) (pt_Segments q)"
      using tiers km found best [OF q(1,2) _ s] p(3) by (auto simp: compareMethods_def)
  qed (use q p in \<open>auto simp: pattern_matches_def\<close>)
  moreover have "pattern_matches p host method segs" using tiers p by (auto simp: pattern_matches_def)
  ultimately show ?thesis using p by blast
qed

theorem mux_match_most_specific:
  assumes "mux_ok m"
  shows "case mux_match m host method path of
      None \<Rightarrow> \<forall>p h. (p, h) \<in> set m \<longrightarrow> \<not> pattern_matches p host method (path_segs path)
    | Some ((p, h), vals) \<Rightarrow> (p, h) \<in> set m \<and> pattern_matches p host method (path_segs path) \<and>
        vals = seg_values (pt_Segments p) (path_segs path) \<and>
        (\<forall>q k. (q, k) \<in> set m \<longrightarrow> pattern_matches q host method (path_segs path) \<longrightarrow> (q, k) = (p, h) \<or> outranks p q)"
proof -
  let ?s = "path_segs path"
  have host: "pattern_matches q [] method ?s" if "pattern_matches q host method ?s" "pt_Host q = []" for q
    using that by (auto simp: pattern_matches_def)
  have anyhost: "pattern_matches q host method ?s" if "pattern_matches q [] method ?s" for q
    using that by (auto simp: pattern_matches_def)
  show ?thesis
  proof (cases "mux_match m host method path")
    case None
    then have "host = [] \<or> match_method m host method ?s = None" "match_method m [] method ?s = None"
      by (auto simp: mux_match_def split: if_splits)
    then show ?thesis using None host by (auto simp: match_method_None pattern_matches_def)
  next
    case (Some x)
    then obtain p h vals where x: "x = ((p, h), vals)" by (cases x) auto
    consider (at_host) "host \<noteq> []" "match_method m host method ?s = Some ((p, h), vals)"
      | (any) "host = [] \<or> match_method m host method ?s = None" "match_method m [] method ?s = Some ((p, h), vals)"
      using Some x by (auto simp: mux_match_def or_else_eq_Some split: if_splits)
    then show ?thesis
    proof cases
      case at_host
      then show ?thesis using match_method_best [OF assms at_host(2)] Some x by (auto simp: pattern_matches_def outranks_def)
    next
      case any
      then have "pt_Host q = []" if "(q, k) \<in> set m" "pattern_matches q host method ?s" for q k
        using that by (auto simp: match_method_None pattern_matches_def)
      then show ?thesis using match_method_best [OF assms any(2)] Some x host anyhost by auto
    qed
  qed
qed

end
