(* ===== verification/Mux_Plain.thy ===== *)
theory Mux_Plain
  imports Http_Mux "HOL-Library.Sublist"
begin

text \<open>
  Patterns and paths of plain segments, the only ones the service registers: how they are parsed and
  cleaned, how they compare, and when a list of them registers without a panic.
\<close>

subsection \<open>Plain paths\<close>

text \<open>Segments that mean themselves: nothing to clean, nothing escaped, no wildcard.\<close>

definition clean_seg :: "string \<Rightarrow> bool" where
  "clean_seg s \<longleftrightarrow> s \<notin> {[], ''.'', ''..''} \<and> CHR ''/'' \<notin> set s"

definition plain_seg :: "string \<Rightarrow> bool" where
  "plain_seg s \<longleftrightarrow> clean_seg s \<and> set s \<inter> {CHR ''{'', CHR ''%''} = {}"

definition slashed :: "string list \<Rightarrow> string" where
  "slashed segs = concat (map ((#) (CHR ''/'')) segs)"

lemma slashed_simps [simp]: "slashed [] = []" "slashed (s # ss) = CHR ''/'' # s @ slashed ss" "slashed (xs @ ys) = slashed xs @ slashed ys"
  by (simp_all add: slashed_def)

lemma slashed_join: "ss \<noteq> [] \<Longrightarrow> slashed ss = CHR ''/'' # go_join (CHR ''/'') ss"
proof (induction ss)
  case (Cons s ss)
  then show ?case by (cases "ss = []") (simp_all add: go_join_Cons)
qed simp

lemma split_trailing: "go_split c (xs @ [c]) = go_split c xs @ [[]]"
  by (induction xs) (auto split: list.splits)

lemma split_slashed: "ss \<noteq> [] \<Longrightarrow> \<forall>s\<in>set ss. CHR ''/'' \<notin> set s \<Longrightarrow> go_split (CHR ''/'') (tl (slashed ss)) = ss"
  by (simp add: slashed_join go_split_join)

lemma split_slashed_trailing:
  "ss \<noteq> [] \<Longrightarrow> \<forall>s\<in>set ss. CHR ''/'' \<notin> set s \<Longrightarrow> go_split (CHR ''/'') (tl (slashed ss @ ''/'')) = ss @ [[]]"
  using split_slashed [of ss] by (simp add: slashed_join split_trailing)

lemma clean_segs_id: "\<forall>s\<in>set ss. clean_seg s \<Longrightarrow> clean_segs out ss = out @ ss"
  by (induction ss arbitrary: out) (auto simp: clean_seg_def)

lemma clean_segs_trailing: "clean_segs out (ss @ [[]]) = clean_segs out ss"
  by (induction ss arbitrary: out) auto

lemma last_slashed: "ss \<noteq> [] \<Longrightarrow> clean_seg (last ss) \<Longrightarrow> last (slashed ss) \<noteq> CHR ''/''"
  by (cases ss rule: rev_cases) (auto simp: clean_seg_def dest: last_in_set)

lemma clean_slashed:
  assumes "ss \<noteq> []" "\<forall>s\<in>set ss. clean_seg s"
  shows "clean_path (slashed ss) = slashed ss" "clean_path (slashed ss @ ''/'') = slashed ss @ ''/''"
proof -
  have s: "go_split (CHR ''/'') (tl (slashed ss)) = ss" using assms by (intro split_slashed) (auto simp: clean_seg_def)
  have t: "go_split (CHR ''/'') (tl (slashed ss @ ''/'')) = ss @ [[]]" using assms by (intro split_slashed_trailing) (auto simp: clean_seg_def)
  have j: "CHR ''/'' # go_join (CHR ''/'') ss = slashed ss" "slashed ss \<noteq> []" "hd (slashed ss) = CHR ''/''"
    using assms(1) by (simp_all add: slashed_join)
  have l: "last (slashed ss) \<noteq> CHR ''/''" using assms by (intro last_slashed) auto
  then have "slashed ss \<noteq> ''/''" by auto
  then have ne: "slashed ss \<noteq> ''/''" "go_join (CHR ''/'') ss \<noteq> []" using j(1) by auto
  show "clean_path (slashed ss) = slashed ss"
    using s j l clean_segs_id [OF assms(2), of "[]"] by (simp add: clean_path_def)
  show "clean_path (slashed ss @ ''/'') = slashed ss @ ''/''"
    using t j ne clean_segs_id [OF assms(2), of "[]"] by (simp add: clean_path_def clean_segs_trailing Let_def)
qed

lemma clean_root: "clean_path ''/'' = ''/''"
  by (simp add: clean_path_def)

lemma path_segs_slashed:
  assumes "\<forall>s\<in>set ss. clean_seg s"
  shows "ss \<noteq> [] \<Longrightarrow> path_segs (slashed ss) = ss" "path_segs (slashed ss @ ''/'') = ss @ [''/'']"
proof -
  have ns: "\<forall>s\<in>set ss. CHR ''/'' \<notin> set s" using assms by (auto simp: clean_seg_def)
  show "path_segs (slashed ss) = ss" if "ss \<noteq> []"
    using split_slashed [OF that ns] assms that by (auto simp: path_segs_def clean_seg_def)
  show "path_segs (slashed ss @ ''/'') = ss @ [''/'']"
    using split_slashed [OF _ ns] by (cases "ss = []") (simp_all add: path_segs_def split_trailing slashed_join)
qed

lemma PathUnescape_plain: "CHR ''%'' \<notin> set s \<Longrightarrow> PathUnescape s = Some s"
  by (induction s) auto

lemma unescape_plain: "CHR ''%'' \<notin> set s \<Longrightarrow> unescape_seg s = s"
  by (simp add: unescape_seg_def PathUnescape_plain)

lemma unescape_escaped: "unescape_seg (PathEscape s) = s"
  by (simp add: unescape_seg_def path.dec_enc)

subsection \<open>Plain patterns\<close>

lemma parse_segs_literal:
  "\<forall>s\<in>set ss. plain_seg s \<Longrightarrow>
     parse_segs seen (ss @ rest) = and_then (parse_segs seen rest) (\<lambda>ps. Inr (map Lit ss @ ps))"
proof (induction ss)
  case Nil
  show ?case by (cases "parse_segs seen rest") simp_all
next
  case (Cons s ss)
  then have "s \<noteq> []" "CHR ''{'' \<notin> set s" "unescape_seg s = s" by (auto simp: plain_seg_def clean_seg_def intro: unescape_plain)
  then show ?case using Cons by (cases "parse_segs seen rest") simp_all
qed

lemma parse_method:
  assumes "\<forall>c\<in>set method. \<not> blank c" "method \<noteq> []" "method \<noteq> ''CONNECT''" and path: "path \<noteq> []" "hd path = CHR ''/''" "clean_path path = path"
  shows "parse_pattern (method @ '' '' @ path) = and_then (parse_segs [] (go_split (CHR ''/'') (tl path))) (\<lambda>segs.
     Inr \<lparr>pt_Method = method, pt_Host = [], pt_Segments = segs\<rparr>)"
proof -
  obtain p where p: "path = CHR ''/'' # p" using path(1,2) by (cases path) auto
  have b: "\<not> blank (CHR ''/'')" "blank (CHR '' '')" by (simp_all add: blank_def)
  have "takeWhile (\<lambda>c. \<not> blank c) (method @ CHR '' '' # path) = method" "list_ex blank (method @ CHR '' '' # path)"
    "dropWhile blank (dropWhile (\<lambda>c. \<not> blank c) (method @ CHR '' '' # path)) = path"
    using assms(1) b p by (simp_all add: list_ex_iff takeWhile_append2 dropWhile_append2 blank_def)
  then show ?thesis using assms p by (simp add: parse_pattern_def Let_def)
qed

lemma parse_subtree:
  assumes m: "\<forall>c\<in>set method. \<not> blank c" "method \<noteq> []" "method \<noteq> ''CONNECT''" and ss: "ss \<noteq> []" "\<forall>s\<in>set ss. plain_seg s"
  shows "parse_pattern (method @ '' '' @ slashed ss @ ''/'') =
    Inr \<lparr>pt_Method = method, pt_Host = [], pt_Segments = map Lit ss @ [Multi []]\<rparr>"
proof -
  have c: "\<forall>s\<in>set ss. clean_seg s" using ss(2) by (simp add: plain_seg_def)
  have "slashed ss @ ''/'' \<noteq> []" "hd (slashed ss @ ''/'') = CHR ''/''" using ss(1) by (simp_all add: slashed_join)
  from parse_method [OF m this clean_slashed(2) [OF ss(1) c]]
  show ?thesis using split_slashed_trailing [OF ss(1)] c parse_segs_literal [OF ss(2), of "[]" "[[]]"] by (simp add: clean_seg_def)
qed

lemma parse_root:
  assumes m: "\<forall>c\<in>set method. \<not> blank c" "method \<noteq> []" "method \<noteq> ''CONNECT''" and ss: "\<forall>s\<in>set ss. plain_seg s"
  shows "parse_pattern (method @ '' '' @ slashed ss @ ''/{$}'') =
    Inr \<lparr>pt_Method = method, pt_Host = [], pt_Segments = map Lit ss @ [Lit ''/'']\<rparr>"
proof -
  let ?ss = "ss @ [''{$}'']"
  have c: "\<forall>s\<in>set ?ss. clean_seg s" using ss by (auto simp: plain_seg_def clean_seg_def)
  have p: "slashed ss @ ''/{$}'' = slashed ?ss" by simp
  have "slashed ?ss \<noteq> []" "hd (slashed ?ss) = CHR ''/''" by (simp_all add: slashed_join del: slashed_simps)
  from parse_method [OF m this clean_slashed(1) [OF _ c]]
  show ?thesis unfolding p using split_slashed [of ?ss] c parse_segs_literal [OF ss, of "[]" "[''{$}'']"]
    by (simp add: clean_seg_def del: slashed_simps)
qed

subsection \<open>How plain patterns compare\<close>

lemma compare_loop_common:
  "rel \<noteq> Disjoint \<Longrightarrow> compare_loop m1 m2 rel (map Lit xs @ t) (map Lit xs @ u) = compare_loop m1 m2 rel t u"
proof (induction xs)
  case (Cons x xs)
  have "combineRelationships rel Equivalent = rel" by (cases rel) simp_all
  then show ?case using Cons by simp
qed simp

lemma compare_loop_literals:
  obtains (differ) "compare_loop m1 m2 Equivalent (map Lit xs @ t) (map Lit ys @ u) = Disjoint"
  | (shorter) zs where "ys = xs @ zs" "compare_loop m1 m2 Equivalent (map Lit xs @ t) (map Lit ys @ u) =
      compare_loop m1 m2 Equivalent t (map Lit zs @ u)"
  | (longer) z zs where "xs = ys @ z # zs" "compare_loop m1 m2 Equivalent (map Lit xs @ t) (map Lit ys @ u) =
      compare_loop m1 m2 Equivalent (Lit z # map Lit zs @ t) u"
proof (cases rule: prefix_cases [of xs ys])
  case 1
  then obtain zs where "ys = xs @ zs" by (auto simp: prefix_def)
  then show ?thesis using shorter compare_loop_common [of Equivalent m1 m2 xs t "map Lit zs @ u"] by simp
next
  case 2
  then obtain zs where "xs = ys @ zs" "zs \<noteq> []" by (auto simp: strict_prefix_def prefix_def)
  then show ?thesis using longer compare_loop_common [of Equivalent m1 m2 ys "map Lit zs @ t" u] by (cases zs) simp_all
next
  case 3
  then obtain as b bs c cs where p: "b \<noteq> c" "xs = as @ b # bs" "ys = as @ c # cs" by (auto dest: parallel_decomp)
  then show ?thesis
    using differ compare_loop_common [of Equivalent m1 m2 as "Lit b # map Lit bs @ t" "Lit c # map Lit cs @ u"] by simp
qed

text \<open>
  The patterns of the service are of three shapes: literals, literals and a wildcard, or literals and a
  trailing slash. How a subtree and the root of a subtree compare with them.
\<close>

datatype tail = Full | OneMore string | Subtree

fun tail_segs :: "tail \<Rightarrow> segment list" where
  "tail_segs Full = []"
| "tail_segs (OneMore n) = [Wild n]"
| "tail_segs Subtree = [Multi []]"

lemma ends_multi_append: "ends_multi (ps @ qs) = (if qs = [] then ends_multi ps else ends_multi qs)"
  by (simp add: ends_multi_def)

lemma ends_multi_simps [simp]:
  "\<not> ends_multi (map Lit xs)" "ends_multi (map Lit xs @ ps) = ends_multi ps" "ends_multi (tail_segs t) \<longleftrightarrow> t = Subtree"
  "ends_multi [p] \<longleftrightarrow> (\<exists>n. p = Multi n)" "ends_multi (p # q # ps) = ends_multi (q # ps)"
  by (cases xs rule: rev_cases; cases t; auto simp: ends_multi_def split: segment.splits)+

lemma compare_subtree:
  assumes "d \<notin> set ys \<or> t = Full"
  shows "comparePaths (map Lit bs @ [Lit d, Multi []]) (map Lit ys @ tail_segs t) \<in>
    {Disjoint} \<union> (if t = Subtree then {MoreSpecific} else if t = Full then {MoreGeneral} else {})"
proof -
  let ?c = "compare_loop True (t = Subtree) Equivalent (map Lit bs @ [Lit d, Multi []]) (map Lit ys @ tail_segs t)"
  have "?c \<in> {Disjoint} \<union> (if t = Subtree then {MoreSpecific} else if t = Full then {MoreGeneral} else {})"
  proof (cases rule: compare_loop_literals [of True "t = Subtree" bs "[Lit d, Multi []]" ys "tail_segs t"])
    case differ
    then show ?thesis by simp
  next
    case (shorter zs)
    then show ?thesis using assms by (cases zs; cases t; cases "tl zs"; cases "tl (tl zs)") (auto simp: Let_def)
  next
    case (longer z zs)
    then show ?thesis by (cases t; cases zs) (auto simp: Let_def)
  qed
  then show ?thesis by (simp add: comparePaths_def)
qed

lemma compare_root:
  assumes "''/'' \<notin> set ys"
  shows "comparePaths (map Lit bs @ [Lit ''/'']) (map Lit ys @ tail_segs t) \<in> {Disjoint} \<union> (if t = Subtree then {MoreSpecific} else {})"
proof -
  let ?c = "compare_loop False (t = Subtree) Equivalent (map Lit bs @ [Lit ''/'']) (map Lit ys @ tail_segs t)"
  have "?c \<in> {Disjoint} \<union> (if t = Subtree then {MoreSpecific} else {})"
  proof (cases rule: compare_loop_literals [of False "t = Subtree" bs "[Lit ''/'']" ys "tail_segs t"])
    case differ
    then show ?thesis by simp
  next
    case (shorter zs)
    then show ?thesis using assms by (cases zs; cases t) (auto simp: Let_def)
  next
    case (longer z zs)
    then show ?thesis by (cases t; cases zs) (auto simp: Let_def)
  qed
  then show ?thesis by (auto simp: comparePaths_def)
qed

lemma compare_root_subtree: "comparePaths (map Lit bs @ [Lit d, Multi []]) (map Lit bs @ [Lit ''/'']) = Disjoint" if "d \<noteq> ''/''"
  using that compare_loop_common [of Equivalent True False bs "[Lit d, Multi []]" "[Lit ''/'']"]
  by (simp add: comparePaths_def)

text \<open>Registering a list of patterns that parse and do not conflict.\<close>

lemma mux_register_all:
  "list_all2 (\<lambda>(s, h) (p, k). parse_pattern s = Inr p \<and> h = k) rs ms \<Longrightarrow> mux_ok (m @ ms) \<Longrightarrow> mux_register rs m = Inr (m @ ms)"
proof (induction rs ms arbitrary: m rule: list_all2_induct)
  case (Cons r rs e ms)
  obtain s h p where r: "r = (s, h)" "e = (p, h)" "parse_pattern s = Inr p" using Cons(1) by (cases r; cases e) auto
  have "mux_ok (m @ [(p, h)])" using Cons.prems r by (auto simp: mux_ok_def sorted_wrt_append)
  then have "\<not> list_ex (\<lambda>(q, _). conflictsWith p q) m"
    by (auto simp: mux_ok_def sorted_wrt_append list_ex_iff conflictsWith_sym [of p])
  then show ?case using Cons.IH [of "m @ [(p, h)]"] Cons.prems r by (simp add: mux_Handle_def)
qed simp

end
