(* ===== verification/Idp_Routes.thy ===== *)
theory Idp_Routes
  imports Http_Api Oidc_Server Mux_Plain
begin

text \<open>
  The routes of the service: the web UI (\<^verbatim>\<open>internal/webui\<close>), and the patterns that \<^verbatim>\<open>main\<close> registers on the
  mux for the API, the UI and the OpenID Connect bridge. They never conflict, whatever the base path of the UI,
  so that the registration does not panic; and a request reaches the endpoint of its method and path.
\<close>

subsection \<open>The static UI\<close>

text \<open>What a registered pattern leads to.\<close>

datatype target = ToApi endpoint | ToFiles | ToRoot | ToLogin | ToPoll | ToProvider

text \<open>The file server over the embedded files is the field \<open>wu_staticFS\<close>: the reply for a path below the mount point.\<close>

record webui_handler =
  wu_staticFS :: "string \<Rightarrow> reply"
  wu_basePath :: string

definition webui_NewHandler :: "(string \<Rightarrow> reply) \<Rightarrow> string \<Rightarrow> webui_handler" where
  "webui_NewHandler staticFS basePath = \<lparr>wu_staticFS = staticFS, wu_basePath =
     (if basePath \<noteq> [] \<and> last basePath = CHR ''/'' then butlast basePath else basePath)\<rparr>"

definition webui_prefix :: "webui_handler \<Rightarrow> string" where
  "webui_prefix h = wu_basePath h @ ''/identify/''"

definition webui_Routes :: "webui_handler \<Rightarrow> (string \<times> target) list" where
  "webui_Routes h = [(''GET '' @ webui_prefix h, ToFiles), (''GET '' @ wu_basePath h @ ''/{$}'', ToRoot)]"

text \<open>\<^verbatim>\<open>http.StripPrefix\<close> before the file server, and the redirect of the root.\<close>

definition not_found :: reply where
  "not_found = \<lparr>rp_Status = 404, rp_Headers = [(''Content-Type'', ''text/plain; charset=utf-8'')], rp_Cookie = None,
     rp_Body = BytesBody ''404 page not found''\<rparr>"

definition webui_files :: "webui_handler \<Rightarrow> string \<Rightarrow> reply" where
  "webui_files h path = (if take (length (webui_prefix h)) path = webui_prefix h
     then wu_staticFS h (drop (length (webui_prefix h)) path) else not_found)"

definition webui_root :: "webui_handler \<Rightarrow> reply" where
  "webui_root h = http_Redirect (webui_prefix h)"

subsection \<open>The patterns of the service\<close>

definition bridge_routes :: "(string \<times> target) list" where
  "bridge_routes = [(''GET '' @ LoginPath, ToLogin), (''GET '' @ LoginPath @ ''/poll'', ToPoll), (BasePath @ ''/'', ToProvider)]"

definition service_routes :: "handler \<Rightarrow> webui_handler \<Rightarrow> bool \<Rightarrow> (string \<times> target) list" where
  "service_routes api ui bridged =
     map (map_prod id ToApi) (api_Routes api) @ webui_Routes ui @ (if bridged then bridge_routes else [])"

subsection \<open>Registration\<close>

text \<open>The parsed patterns: a method, literal segments, and what may follow.\<close>

type_synonym shape = "string \<times> string list \<times> tail"

fun pattern_of :: "shape \<Rightarrow> mux_pattern" where
  "pattern_of (meth, ys, t) = \<lparr>pt_Method = meth, pt_Host = [], pt_Segments = map Lit ys @ tail_segs t\<rparr>"

definition api_shapes :: "bool \<Rightarrow> (shape \<times> endpoint) list" where
  "api_shapes verifier =
     [((''GET'', [''health''], Full), Health), ((''GET'', [''swagger''], Full), SwaggerUI),
      ((''GET'', [''openapi.yaml''], Full), OpenAPISpec),
      ((''GET'', [''.well-known'', ''oauth-authorization-server''], Full), AuthServerMetadata),
      ((''GET'', [''oid4vci'', ''v1'', ''jwks''], Full), Jwks), ((''POST'', [''oid4vci'', ''v1'', ''par''], Full), Par),
      ((''GET'', [''oid4vci'', ''v1'', ''authorize''], Full), Authorize), ((''POST'', [''oid4vci'', ''v1'', ''token''], Full), Token),
      ((''GET'', [''oid4vci'', ''v1'', ''revoked-tokens''], Full), RevokedTokens),
      ((''GET'', [''identify'', ''claims''], Full), IdentifyClaims), ((''POST'', [''identify'', ''complete''], Full), IdentifyComplete),
      ((''POST'', [''identify'', ''reject''], Full), IdentifyReject)] @
     (if verifier then
       [((''POST'', [''oid4vp'', ''v1'', ''session''], Full), VpCreateSession),
        ((''GET'', [''oid4vp'', ''v1'', ''request''], OneMore ''id''), VpRequestObject),
        ((''POST'', [''oid4vp'', ''v1'', ''request''], OneMore ''id''), VpRequestObject),
        ((''POST'', [''oid4vp'', ''v1'', ''response''], Full), VpResponse),
        ((''GET'', [''oid4vp'', ''v1'', ''result''], OneMore ''id''), VpResult)]
      else [])"

definition bridge_shapes :: "(shape \<times> target) list" where
  "bridge_shapes = [((''GET'', [''oidc'', ''v1'', ''login''], Full), ToLogin),
     ((''GET'', [''oidc'', ''v1'', ''login'', ''poll''], Full), ToPoll), (([], [''oidc'', ''v1''], Subtree), ToProvider)]"

definition ui_shapes :: "string list \<Rightarrow> (shape \<times> target) list" where
  "ui_shapes bs = [((''GET'', bs @ [''identify''], Subtree), ToFiles), ((''GET'', bs @ [''/''], Full), ToRoot)]"

definition fixed_shapes :: "bool \<Rightarrow> bool \<Rightarrow> (shape \<times> target) list" where
  "fixed_shapes verifier bridged = map (map_prod id ToApi) (api_shapes verifier) @ (if bridged then bridge_shapes else [])"

definition service_shapes :: "bool \<Rightarrow> string list \<Rightarrow> bool \<Rightarrow> (shape \<times> target) list" where
  "service_shapes verifier bs bridged =
     map (map_prod id ToApi) (api_shapes verifier) @ ui_shapes bs @ (if bridged then bridge_shapes else [])"

definition service_mux :: "bool \<Rightarrow> string list \<Rightarrow> bool \<Rightarrow> target mux" where
  "service_mux verifier bs bridged = map (map_prod pattern_of id) (service_shapes verifier bs bridged)"

abbreviation parsed_as :: "string \<times> 'h \<Rightarrow> shape \<times> 'h \<Rightarrow> bool" where
  "parsed_as r s \<equiv> parse_pattern (fst r) = Inr (pattern_of (fst s)) \<and> snd r = snd s"

lemma api_parsed: "list_all2 parsed_as (api_Routes h) (api_shapes (hd_verifier h \<noteq> None))"
  unfolding api_Routes_def api_shapes_def APIPrefix_def
  by (cases "hd_verifier h") (simp_all only: option.case, code_simp+)

lemma bridge_parsed: "list_all2 parsed_as bridge_routes bridge_shapes"
  by code_simp

lemma ui_parsed:
  assumes "\<forall>b\<in>set bs. plain_seg b" "wu_basePath ui = slashed bs"
  shows "list_all2 parsed_as (webui_Routes ui) (ui_shapes bs)"
proof -
  have get: "\<forall>c\<in>set ''GET''. \<not> blank c" by (simp add: blank_def)
  have "plain_seg ''identify''" by (simp add: plain_seg_def clean_seg_def)
  then have "parse_pattern (''GET'' @ '' '' @ slashed (bs @ [''identify'']) @ ''/'') = Inr (pattern_of (''GET'', bs @ [''identify''], Subtree))"
    using parse_subtree [OF get, of "bs @ [''identify'']"] assms(1) by simp
  moreover have "parse_pattern (''GET'' @ '' '' @ slashed bs @ ''/{$}'') = Inr (pattern_of (''GET'', bs @ [''/''], Full))"
    using parse_root [OF get _ _ assms(1)] by simp
  ultimately show ?thesis using assms(2) by (simp add: webui_Routes_def webui_prefix_def ui_shapes_def)
qed

text \<open>No two patterns conflict, whatever the plain base path of the UI.\<close>

lemma fixed_ok: "mux_ok (map (map_prod pattern_of id) (fixed_shapes verifier bridged))"
proof -
  let ?ok = "\<lambda>v b. mux_ok (map (map_prod pattern_of id) (fixed_shapes v b))"
  have "?ok True True" "?ok True False" "?ok False True" "?ok False False" by code_simp+
  then show ?thesis by (metis (full_types))
qed

text \<open>The shapes the UI's patterns are compared with.\<close>

definition beside_ui :: "shape \<Rightarrow> bool" where
  "beside_ui s = (case s of (meth, ys, t) \<Rightarrow> ''/'' \<notin> set ys \<and> (''identify'' \<notin> set ys \<or> t = Full) \<and>
     (if t = Subtree then meth = [] else meth \<in> {''GET'', ''POST''}))"

lemma fixed_beside: "s \<in> set (fixed_shapes verifier bridged) \<Longrightarrow> beside_ui (fst s)"
proof -
  let ?ok = "\<lambda>v b. list_all (beside_ui \<circ> fst) (fixed_shapes v b)"
  have "?ok True True" "?ok True False" "?ok False True" "?ok False False" by code_simp+
  then have "?ok verifier bridged" by (metis (full_types))
  then show "s \<in> set (fixed_shapes verifier bridged) \<Longrightarrow> beside_ui (fst s)" by (simp add: list_all_iff)
qed

lemma ui_no_conflict:
  assumes "u \<in> set (ui_shapes bs)" "beside_ui s"
  shows "\<not> conflictsWith (pattern_of (fst u)) (pattern_of s)"
proof -
  obtain meth ys t where s: "s = (meth, ys, t)" by (cases s)
  have m: "meth = [] \<longleftrightarrow> t = Subtree" "meth \<in> {[], ''GET'', ''POST''}" "''/'' \<notin> set ys" "''identify'' \<notin> set ys \<or> t = Full"
    using assms(2) s by (auto simp: beside_ui_def split: if_splits)
  from assms(1) consider (files) "fst u = (''GET'', bs @ [''identify''], Subtree)" | (root) "fst u = (''GET'', bs @ [''/''], Full)"
    by (auto simp: ui_shapes_def)
  then show ?thesis
  proof cases
    case files
    then show ?thesis using s m compare_subtree [OF m(4), of bs]
      by (cases t) (auto simp: conflictsWith_def comparePathsAndMethods_def compareMethods_def Let_def)
  next
    case root
    then show ?thesis using s m compare_root [OF m(3), of bs t]
      by (cases t) (auto simp: conflictsWith_def comparePathsAndMethods_def compareMethods_def Let_def)
  qed
qed

lemma mux_ok_insert:
  "mux_ok (A @ B) \<Longrightarrow> mux_ok U \<Longrightarrow> (\<And>u s. u \<in> set U \<Longrightarrow> s \<in> set A \<union> set B \<Longrightarrow> \<not> conflictsWith (fst u) (fst s)) \<Longrightarrow> mux_ok (A @ U @ B)"
  unfolding mux_ok_def sorted_wrt_append set_append by (meson UnE UnI1 UnI2 conflictsWith_sym)

lemma service_mux_ok: "mux_ok (service_mux verifier bs bridged)"
proof -
  let ?P = "map (map_prod pattern_of id)" and ?A = "map (map_prod id ToApi) (api_shapes verifier)"
  let ?B = "if bridged then bridge_shapes else []"
  have AB: "mux_ok (?P ?A @ ?P ?B)" using fixed_ok [of verifier bridged] by (simp add: fixed_shapes_def)
  have beside: "beside_ui (fst s)" if "s \<in> set ?A \<or> s \<in> set ?B" for s
    using that fixed_beside [of s verifier bridged] by (auto simp: fixed_shapes_def)
  have "mux_ok (?P (ui_shapes bs))"
    using compare_root_subtree [of "''identify''" bs]
    by (simp add: mux_ok_def ui_shapes_def conflictsWith_def comparePathsAndMethods_def compareMethods_def)
  then have "mux_ok (?P ?A @ ?P (ui_shapes bs) @ ?P ?B)"
  proof (rule mux_ok_insert [OF AB])
    fix u s assume u: "u \<in> set (?P (ui_shapes bs))" and s: "s \<in> set (?P ?A) \<union> set (?P ?B)"
    from u obtain u' where u': "u = map_prod pattern_of id u'" "u' \<in> set (ui_shapes bs)" unfolding set_map by (rule imageE)
    from s have "s \<in> map_prod pattern_of id ` (set ?A \<union> set ?B)" unfolding image_Un set_map .
    then obtain s' where s': "s = map_prod pattern_of id s'" "s' \<in> set ?A \<union> set ?B" by (rule imageE)
    show "\<not> conflictsWith (fst u) (fst s)" unfolding u' s' fst_map_prod
      by (rule ui_no_conflict [OF u'(2) beside]) (use s'(2) in \<open>simp only: Un_iff\<close>)
  qed
  then show ?thesis unfolding service_mux_def service_shapes_def map_append .
qed

lemma routes_registered:
  assumes "\<forall>b\<in>set bs. plain_seg b" "wu_basePath ui = slashed bs"
  shows "mux_register (service_routes api ui bridged) [] = Inr (service_mux (hd_verifier api \<noteq> None) bs bridged)"
proof -
  have "list_all2 parsed_as (service_routes api ui bridged) (service_shapes (hd_verifier api \<noteq> None) bs bridged)"
    unfolding service_routes_def service_shapes_def using api_parsed ui_parsed [OF assms] bridge_parsed
    by (auto intro!: list_all2_appendI simp: list_all2_map1 list_all2_map2 elim!: list_all2_mono)
  then have "list_all2 (\<lambda>(s, h) (p, k). parse_pattern s = Inr p \<and> h = k) (service_routes api ui bridged)
      (service_mux (hd_verifier api \<noteq> None) bs bridged)"
    by (auto simp: service_mux_def list_all2_map2 elim!: list_all2_mono)
  from mux_register_all [OF this, of "[]"] service_mux_ok show ?thesis by (simp del: not_None_eq)
qed


subsection \<open>Which request reaches which handler\<close>

lemma seg_matches_shape:
  "seg_matches (map Lit ys @ tail_segs t) segs \<longleftrightarrow> (case t of
     Full \<Rightarrow> map unescape_seg segs = ys
   | OneMore n \<Rightarrow> (\<exists>s. map unescape_seg segs = ys @ [s] \<and> s \<noteq> ''/'')
   | Subtree \<Rightarrow> (\<exists>rest. rest \<noteq> [] \<and> map unescape_seg segs = ys @ rest))"
proof (induction ys arbitrary: segs)
  case Nil
  show ?case by (cases segs; cases t; cases "tl segs") (auto simp: seg_matches_Nil seg_matches_Cons)
next
  case (Cons y ys)
  then show ?case by (cases segs; cases t) (auto simp: seg_matches_Nil seg_matches_Cons)
qed

lemma compare_loop_literal:
  "rel \<in> {Equivalent, MoreGeneral} \<Longrightarrow> compare_loop m1 False rel qs (map Lit ys) \<in> {Equivalent, MoreGeneral, Disjoint}"
proof (induction ys arbitrary: qs rel)
  case (Cons y ys)
  show ?case
  proof (cases qs)
    case (Cons q qs')
    have "combineRelationships rel (compareSegments q (Lit y)) \<in> {Equivalent, MoreGeneral, Disjoint}"
      using Cons.prems by (cases q) auto
    then show ?thesis using Cons.IH [of _ qs'] Cons by (auto simp: Let_def)
  qed (use Cons.prems in auto)
next
  case Nil
  then show ?case by (cases qs) auto
qed

lemma compare_literal: "comparePaths qs (map Lit ys) \<in> {Equivalent, MoreGeneral, Disjoint}"
  using compare_loop_literal [of Equivalent "ends_multi qs" qs ys] by (simp add: comparePaths_def)

lemma in_service_mux:
  "(p, k) \<in> set (service_mux v bs b) \<longleftrightarrow> (\<exists>s. (s, k) \<in> set (service_shapes v bs b) \<and> p = pattern_of s)"
  by (force simp: service_mux_def map_prod_def)

lemma pattern_of_simps [simp]:
  "pt_Method (pattern_of s) = fst s" "pt_Host (pattern_of s) = []" "pt_Segments (pattern_of s) = map Lit (fst (snd s)) @ tail_segs (snd (snd s))"
  by (cases s; simp)+

declare pattern_of.simps [simp del]

lemma service_match:
  assumes "mux_match (service_mux v bs b) host meth path = Some ((p, k), vals)"
  shows "\<exists>s. (s, k) \<in> set (service_shapes v bs b) \<and> p = pattern_of s \<and> pattern_matches p host meth (path_segs path) \<and>
    vals = seg_values (pt_Segments p) (path_segs path) \<and>
    (\<forall>s' k'. (s', k') \<in> set (service_shapes v bs b) \<longrightarrow> pattern_matches (pattern_of s') host meth (path_segs path) \<longrightarrow>
       (pattern_of s', k') = (p, k) \<or> comparePathsAndMethods p (pattern_of s') = MoreSpecific)"
proof -
  let ?M = "service_mux v bs b" and ?segs = "path_segs path"
  have p: "(p, k) \<in> set ?M" "pattern_matches p host meth ?segs" "vals = seg_values (pt_Segments p) ?segs"
    and best: "\<And>q k'. (q, k') \<in> set ?M \<Longrightarrow> pattern_matches q host meth ?segs \<Longrightarrow> (q, k') = (p, k) \<or> outranks p q"
    using mux_match_most_specific [OF service_mux_ok, of v bs b host meth path] assms by simp_all
  obtain s where s: "(s, k) \<in> set (service_shapes v bs b)" "p = pattern_of s" using p(1) in_service_mux by metis
  have "(pattern_of s', k') = (p, k) \<or> comparePathsAndMethods p (pattern_of s') = MoreSpecific"
    if "(s', k') \<in> set (service_shapes v bs b)" "pattern_matches (pattern_of s') host meth ?segs" for s' k'
    using best [OF _ that(2), of k'] that(1) in_service_mux [of _ k' v bs b] unfolding outranks_def s(2) pattern_of_simps by metis
  then show ?thesis using s p(2,3) by blast
qed

lemma service_match_found:
  assumes "(s, k) \<in> set (service_shapes v bs b)" "pattern_matches (pattern_of s) host meth (path_segs path)"
  shows "mux_match (service_mux v bs b) host meth path \<noteq> None"
  using mux_match_most_specific [OF service_mux_ok, of v bs b host meth path] assms
  by (cases "mux_match (service_mux v bs b) host meth path") (auto simp del: split_paired_Ex split_paired_All simp: in_service_mux)

text \<open>A request for the very path of a literal pattern, with its method, reaches that pattern.\<close>

lemma literal_dispatched:
  assumes s: "((meth, ys, Full), k) \<in> set (service_shapes v bs b)" and m: "meth \<in> {''GET'', ''POST''}"
    and ys: "ys \<noteq> []" "\<forall>y\<in>set ys. plain_seg y"
  shows "mux_dispatch (service_mux v bs b) host meth (slashed ys) = Dispatched k []"
proof -
  let ?M = "service_mux v bs b" and ?p = "pattern_of (meth, ys, Full)"
  have c: "\<forall>y\<in>set ys. clean_seg y" "map unescape_seg ys = ys"
    using ys(2) by (auto simp: plain_seg_def intro!: map_idI unescape_plain)
  then have segs: "path_segs (slashed ys) = ys" using path_segs_slashed(1) ys(1) by blast
  have p: "pattern_matches ?p host meth ys"
    using c(2) seg_matches_shape [of ys Full ys] by (simp add: pattern_matches_def)
  from service_match_found [OF s, of host meth "slashed ys"] p segs obtain q k' vals where
    f: "mux_match ?M host meth (slashed ys) = Some ((q, k'), vals)" by (metis not_None_eq prod.collapse)
  from service_match [OF f] have q: "pattern_matches q host meth ys" "vals = seg_values (pt_Segments q) ys"
    "(?p, k) = (q, k') \<or> comparePathsAndMethods q ?p = MoreSpecific" using s p segs by metis+
  have "compareMethods (pt_Method q) meth \<in> {Equivalent, MoreGeneral}"
    using q(1) m by (auto simp: pattern_matches_def compareMethods_def)
  then have "comparePathsAndMethods q ?p \<noteq> MoreSpecific"
    using compare_literal [of "pt_Segments q" ys] by (auto simp: comparePathsAndMethods_def Let_def)
  then have qk: "q = ?p" "k' = k" using q(3) by auto
  have vals: "seg_values (map Lit ys) zs = []" for zs by (induction ys arbitrary: zs) (auto, case_tac zs, auto)
  have "exactMatch (Some ((q, k'), vals)) (slashed ys)" by (simp add: exactMatch_def qk)
  moreover have "wildcard_names (map Lit ys) = []" by (induction ys) simp_all
  ultimately show ?thesis using f qk clean_slashed(1) [OF ys(1) c(1)] by (simp add: mux_dispatch_def q(2) vals)
qed


text \<open>What a request matches decides what it is dispatched to.\<close>

lemma dispatched_shape:
  assumes "mux_dispatch (service_mux v bs b) host meth path = Dispatched k vals"
  shows "\<exists>m ys t. ((m, ys, t), k) \<in> set (service_shapes v bs b) \<and> (m \<in> {[], meth} \<or> meth = ''HEAD'' \<and> m = ''GET'') \<and>
    seg_matches (map Lit ys @ tail_segs t) (path_segs path) \<and>
    vals = zip (wildcard_names (map Lit ys @ tail_segs t)) (seg_values (map Lit ys @ tail_segs t) (path_segs path))"
proof -
  have "clean_path path = path" using assms by (auto simp: mux_dispatch_def Let_def split: if_splits)
  with assms obtain p vals' where f: "mux_match (service_mux v bs b) host meth path = Some ((p, k), vals')"
    and vals: "vals = zip (wildcard_names (pt_Segments p)) vals'"
    by (auto simp: mux_dispatch_def Let_def split: if_splits option.splits list.splits)
  from service_match [OF f] obtain s where s: "(s, k) \<in> set (service_shapes v bs b)" "p = pattern_of s"
    "pattern_matches p host meth (path_segs path)" "vals' = seg_values (pt_Segments p) (path_segs path)" by blast
  obtain m ys t where "s = (m, ys, t)" by (cases s)
  then show ?thesis using s vals by (auto simp: pattern_matches_def)
qed

lemma api_shapes_tail:
  assumes "((m, ys, t), ep) \<in> set (api_shapes v)"
  shows "t = Full \<and> length ys < 4 \<or> t = OneMore ''id''"
proof -
  let ?good = "\<lambda>((_ :: string, ys :: string list, t), _ :: endpoint). t = Full \<and> length ys < 4 \<or> t = OneMore ''id''"
  have "list_all ?good (api_shapes True)" "list_all ?good (api_shapes False)" by code_simp+
  then have "list_all ?good (api_shapes v)" by (cases v) (simp_all only:)
  then have "?good ((m, ys, t), ep)" unfolding list_all_iff using assms by (rule bspec)
  then show ?thesis by simp
qed

lemma session_path_match:
  assumes "((m, ys, t), k) \<in> set (service_shapes v bs b)" "seg_matches (map Lit ys @ tail_segs t) segs"
    and "map unescape_seg segs = [''oid4vp'', ''v1'', r, x]" "x \<noteq> ''/''" "r \<in> {''request'', ''result''}"
  shows "ys = [''oid4vp'', ''v1'', r] \<and> t = OneMore ''id'' \<and> ((m, ys, t), k) \<in> map_prod id ToApi ` set (api_shapes v)"
proof -
  consider (api) ep where "k = ToApi ep" "((m, ys, t), ep) \<in> set (api_shapes v)" | (ui) "((m, ys, t), k) \<in> set (ui_shapes bs)"
    | (bridge) "((m, ys, t), k) \<in> set bridge_shapes"
    using assms(1) by (auto simp: service_shapes_def split: if_splits)
  then show ?thesis
  proof cases
    case api
    then have "ys = [''oid4vp'', ''v1'', r] \<and> t = OneMore ''id''"
      using api_shapes_tail [OF api(2)] assms(2-4) unfolding seg_matches_shape by (auto simp: append_eq_Cons_conv)
    then show ?thesis using api by (force simp: map_prod_def)
  next
    case ui
    then show ?thesis using assms(2-5) unfolding seg_matches_shape by (auto simp: ui_shapes_def Cons_eq_append_conv append_eq_Cons_conv)
  next
    case bridge
    then show ?thesis using assms(2-5) unfolding seg_matches_shape by (auto simp: bridge_shapes_def)
  qed
qed

lemma api_shapes_plain:
  assumes "((m, ys, t), ep) \<in> set (api_shapes v)"
  shows "m \<in> {''GET'', ''POST''} \<and> ys \<noteq> [] \<and> (\<forall>y\<in>set ys. plain_seg y)"
proof -
  let ?good = "\<lambda>((m, ys, _ :: tail), _ :: endpoint). m \<in> {''GET'', ''POST''} \<and> ys \<noteq> [] \<and> (\<forall>y\<in>set ys. plain_seg y)"
  have "list_all ?good (api_shapes True)" "list_all ?good (api_shapes False)" by code_simp+
  then have "list_all ?good (api_shapes v)" by (cases v) (simp_all only:)
  then have "?good ((m, ys, t), ep)" unfolding list_all_iff using assms by (rule bspec)
  then show ?thesis by simp
qed

lemma api_shapes_unique: "(s, ep) \<in> set (api_shapes v) \<Longrightarrow> (s, ep') \<in> set (api_shapes v) \<Longrightarrow> ep = ep'"
proof -
  have "distinct (map fst (api_shapes True))" "distinct (map fst (api_shapes False))" by code_simp+
  then have "distinct (map fst (api_shapes v))" by (metis (full_types))
  then show "(s, ep) \<in> set (api_shapes v) \<Longrightarrow> (s, ep') \<in> set (api_shapes v) \<Longrightarrow> ep = ep'" by (rule eq_key_imp_eq_value)
qed

lemma session_dispatched:
  assumes s: "((meth, [''oid4vp'', ''v1'', r], OneMore ''id''), ep) \<in> set (api_shapes v)"
    and i: "clean_seg i" "unescape_seg i \<noteq> ''/''" and r: "r \<in> {''request'', ''result''}" and meth: "meth \<in> {''GET'', ''POST''}"
  shows "mux_dispatch (service_mux v bs b) host meth (''/oid4vp/v1/'' @ r @ ''/'' @ i) = Dispatched (ToApi ep) [(''id'', unescape_seg i)]"
proof -
  let ?ys = "[''oid4vp'', ''v1'', r]" and ?M = "service_mux v bs b"
  let ?ss = "?ys @ [i]" and ?s = "(meth, ?ys, OneMore ''id'')"
  have path: "''/oid4vp/v1/'' @ r @ ''/'' @ i = slashed ?ss" by simp
  have c: "\<forall>y\<in>set ?ss. clean_seg y" using i(1) r by (auto simp: clean_seg_def)
  have segs: "path_segs (slashed ?ss) = ?ss" using path_segs_slashed(1) [OF c] by simp
  have un: "map unescape_seg ?ss = [''oid4vp'', ''v1'', r, unescape_seg i]" using r by (auto simp: unescape_plain)
  have s': "(?s, ToApi ep) \<in> set (service_shapes v bs b)" using s by (force simp: service_shapes_def map_prod_def)
  have p: "pattern_matches (pattern_of ?s) host meth (path_segs (slashed ?ss))"
    using un i(2) seg_matches_shape [of ?ys "OneMore ''id''" ?ss] segs by (simp add: pattern_matches_def)
  from service_match_found [OF s' p] obtain q k vals where
    f: "mux_match ?M host meth (slashed ?ss) = Some ((q, k), vals)" by (metis not_None_eq prod.collapse)
  from service_match [OF f] obtain sq where q: "(sq, k) \<in> set (service_shapes v bs b)" "q = pattern_of sq"
    "pattern_matches q host meth ?ss" "vals = seg_values (pt_Segments q) ?ss" unfolding segs by blast
  obtain m ys t where sq: "sq = (m, ys, t)" by (cases sq)
  have m: "seg_matches (map Lit ys @ tail_segs t) ?ss" "m \<in> {[], meth}"
    using q(3) meth unfolding q(2) sq by (auto simp: pattern_matches_def)
  from session_path_match [OF q(1) [unfolded sq] m(1) un i(2) r]
  obtain ep' where "ys = ?ys" "t = OneMore ''id''" "k = ToApi ep'" "((m, ?ys, OneMore ''id''), ep') \<in> set (api_shapes v)" by auto
  then have "sq = ?s" "k = ToApi ep" using m(2) sq api_shapes_plain [of m ?ys "OneMore ''id''" ep'] api_shapes_unique [OF s] by auto
  then have q': "q = pattern_of ?s" "vals = [unescape_seg i]" using q by auto
  have "exactMatch (Some ((q, k), vals)) (slashed ?ss)" by (simp add: exactMatch_def q' ends_multi_def)
  then show ?thesis using f \<open>k = ToApi ep\<close> clean_slashed(1) [OF _ c] unfolding path by (simp add: mux_dispatch_def q' del: slashed_simps)
qed

end
