(* ===== verification/Idp_Main.thy ===== *)
theory Idp_Main
  imports Idp_Routes Example_Lib
begin

text \<open>
  \<^verbatim>\<open>internal/config\<close> and \<^verbatim>\<open>cmd/idp/main.go\<close>: the configuration read from the
  environment, and how the parts of the service are put together from it. A fatal start-up error is
  \<open>Inl\<close>. The file server of the UI and the client of the remote signing service are arguments; logging and
  the process around the server are not modelled.
\<close>

subsection \<open>Configuration\<close>

record config =
  cf_Addr :: string
  cf_BasePath :: string
  cf_BaseURL :: string
  cf_CredentialIssuerURL :: string
  cf_AttestationRegistryURL :: string
  cf_RegistryRefreshInterval :: duration
  cf_IssuableSchemes :: "string list"
  cf_CertsDir :: string
  cf_VerifierBaseURL :: string
  cf_DSSURL :: string
  cf_DSSClientID :: string
  cf_DSSClientSecret :: string
  cf_DSSVerifierCredentialID :: string
  cf_DSSCredentialPassword :: string
  cf_OIDCClientsPath :: string

text \<open>An unset variable reads as the empty string.\<close>

definition getenv :: "(string \<Rightarrow> string) \<Rightarrow> string \<Rightarrow> string \<Rightarrow> string" where
  "getenv env key fallback = (if env key \<noteq> [] then env key else fallback)"

fun split_loop :: "string list \<Rightarrow> string list \<Rightarrow> string list" where
  "split_loop out [] = out"
| "split_loop out (s # ss) = split_loop (if TrimSpace s \<noteq> [] then out @ [TrimSpace s] else out) ss"

definition splitCSV :: "string \<Rightarrow> string list" where
  "splitCSV v = split_loop [] (go_split (CHR '','') v)"

definition config_Load :: "(string \<Rightarrow> string) \<Rightarrow> config" where
  "config_Load env =
     \<lparr>cf_Addr = getenv env ''ADDR'' '':8080'',
      cf_BasePath = getenv env ''BASE_PATH'' [],
      cf_BaseURL = getenv env ''FIKUA_BASE_URL'' ''https://idp.fikua.com'',
      cf_CredentialIssuerURL = getenv env ''FIKUA_CREDENTIAL_ISSUER_URL'' ''https://issuer.fikua.com'',
      cf_AttestationRegistryURL = getenv env ''FIKUA_ATTESTATION_REGISTRY_URL'' ''https://attestation-registry.fikua.com'',
      cf_RegistryRefreshInterval = 5 * minute,
      cf_IssuableSchemes = splitCSV (getenv env ''FIKUA_ISSUABLE_SCHEMES'' ''urn:eudi:pid:1,urn:fikua:padro:barcelona:1''),
      cf_CertsDir = getenv env ''FIKUA_CERTS_DIR'' ''./certs'',
      cf_VerifierBaseURL = getenv env ''FIKUA_VERIFIER_BASE_URL'' (getenv env ''FIKUA_BASE_URL'' ''https://idp.fikua.com''),
      cf_DSSURL = getenv env ''FIKUA_DSS_URL'' [],
      cf_DSSClientID = getenv env ''FIKUA_DSS_CLIENT_ID'' [],
      cf_DSSClientSecret = getenv env ''FIKUA_DSS_CLIENT_SECRET'' [],
      cf_DSSVerifierCredentialID = getenv env ''FIKUA_DSS_VERIFIER_CREDENTIAL_ID'' ''fikua-verifier-001'',
      cf_DSSCredentialPassword = getenv env ''FIKUA_DSS_CREDENTIAL_PASSWORD'' [],
      cf_OIDCClientsPath = getenv env ''OIDC_CLIENTS_PATH'' []\<rparr>"

subsection \<open>The verifier's signer\<close>

record dss_config =
  dss_BaseURL :: string
  dss_ClientID :: string
  dss_ClientSecret :: string
  dss_CredentialID :: string
  dss_CredentialPassword :: string

record dss_lib =
  dss_NewSigner :: "dss_config \<Rightarrow> string + crypto_signer"
  dss_LeafDER :: "crypto_signer \<Rightarrow> string + string"

definition loadVerifier :: "lib \<Rightarrow> dss_lib \<Rightarrow> config \<Rightarrow> string + verifier_service option" where
  "loadVerifier L D cfg =
     (if cf_DSSURL cfg = [] then Inr None
      else and_then (dss_NewSigner D \<lparr>dss_BaseURL = cf_DSSURL cfg, dss_ClientID = cf_DSSClientID cfg,
             dss_ClientSecret = cf_DSSClientSecret cfg, dss_CredentialID = cf_DSSVerifierCredentialID cfg,
             dss_CredentialPassword = cf_DSSCredentialPassword cfg\<rparr>) (\<lambda>signer.
           and_then (dss_LeafDER D signer) (\<lambda>leafDER.
           and_then (NewRequestSigningKey L signer [leafDER]) (\<lambda>signingKey.
           Inr (Some (verifier_NewService (cf_VerifierBaseURL cfg) signingKey []))))))"

subsection \<open>Putting it together\<close>

record idp =
  idp_api :: handler
  idp_webui :: webui_handler
  idp_bridge :: "(oidc_storage \<times> login_handler) option"
  idp_mux :: "target mux"

record idp_state =
  sv_authz :: authz_state
  sv_oidc :: oidc_store

text \<open>
  The embedded files are the argument \<open>static\<close>, the file server over them or the error of \<^verbatim>\<open>fs.Sub\<close>. The
  panic of a registration ends the start-up as the fatal errors do.
\<close>

definition idp_main ::
  "lib \<Rightarrow> key_lib \<Rightarrow> dss_lib \<Rightarrow> (string \<Rightarrow> string + registry_doc) \<Rightarrow> provider_lib \<Rightarrow> string + (string \<Rightarrow> reply) \<Rightarrow>
   world \<Rightarrow> (string \<Rightarrow> string) \<Rightarrow> string + idp \<times> idp_state" where
  "idp_main L J D unmarshal P static w env = (let cfg = config_Load env in
     and_then (wrap_err ''loading access-token signing key: '' (LoadFromPEM L J (cf_CertsDir cfg))) (\<lambda>signingKey.
     and_then (wrap_err ''loading wallet provider trust anchor: '' (LoadWalletProviderAnchor L J (cf_CertsDir cfg))) (\<lambda>anchor.
     let minter = NewMinter signingKey (cf_BaseURL cfg) (cf_CredentialIssuerURL cfg);
         authzService = NewService (cf_BaseURL cfg) (cf_CredentialIssuerURL cfg) minter anchor in
     and_then (wrap_err ''static assets: '' static) (\<lambda>staticFS.
     and_then (wrap_err ''loading OID4VP Verifier: '' (loadVerifier L D cfg)) (\<lambda>verifierService.
     and_then (wrap_err ''loading OpenID Connect bridge: ''
       (oidc_New L J unmarshal P w (cf_OIDCClientsPath cfg) signingKey verifierService (cf_BaseURL cfg))) (\<lambda>oidcBridge.
     let api = NewHandler (cf_BaseURL cfg) signingKey authzService (cf_CredentialIssuerURL cfg) verifierService;
         ui = webui_NewHandler staticFS (cf_BasePath cfg) in
     and_then (mux_register (service_routes api ui (oidcBridge \<noteq> None)) []) (\<lambda>mux.
     Inr (\<lparr>idp_api = api, idp_webui = ui,
           idp_bridge = map_option (\<lambda>(storage, _, login). (storage, login)) oidcBridge, idp_mux = mux\<rparr>,
          \<lparr>sv_authz = init_state, sv_oidc = (case oidcBridge of None \<Rightarrow> newStore | Some (_, st, _) \<Rightarrow> st)\<rparr>))))))))"

subsection \<open>Properties\<close>

lemma split_loop_eq: "split_loop out ss = out @ filter (\<lambda>s. s \<noteq> []) (map TrimSpace ss)"
  by (induction ss arbitrary: out) simp_all

text \<open>
  What a start-up establishes: one base URL as issuer, audience and endpoint prefix, one verifier shared
  by the API and the login page, no login page without a verifier, and the mux with the patterns of all parts.
\<close>

definition shares_verifier :: "idp \<Rightarrow> bool" where
  "shares_verifier p \<longleftrightarrow> (\<forall>sto h. idp_bridge p = Some (sto, h) \<longrightarrow> hd_verifier (idp_api p) = Some (lh_verifier h))"

definition wired :: "idp \<Rightarrow> bool" where
  "wired p \<longleftrightarrow> shares_verifier p \<and>
     az_baseURL (hd_authz (idp_api p)) = hd_baseURL (idp_api p) \<and>
     mt_issuer (az_minter (hd_authz (idp_api p))) = hd_baseURL (idp_api p) \<and>
     mt_key (az_minter (hd_authz (idp_api p))) = hd_signingKey (idp_api p) \<and>
     mux_register (service_routes (idp_api p) (idp_webui p) (idp_bridge p \<noteq> None)) [] = Inr (idp_mux p) \<and>
     (\<forall>v. hd_verifier (idp_api p) = Some v \<longrightarrow> vf_responseMode v = ResponseModeDirectPostJWT \<and> rsk_x5cChain (vf_signingKey v) \<noteq> [])"

lemma loadVerifier_Some:
  "loadVerifier L D cfg = Inr (Some v) \<Longrightarrow> vf_responseMode v = ResponseModeDirectPostJWT \<and> rsk_x5cChain (vf_signingKey v) \<noteq> [] \<and>
     vf_baseURL v = cf_VerifierBaseURL cfg"
  by (auto simp: loadVerifier_def verifier_NewService_def NewRequestSigningKey_def split: if_splits)

lemma oidc_New_Some:
  "oidc_New L J u P w path key v base = Inr (Some (sto, st, h)) \<Longrightarrow>
     v = Some (lh_verifier h) \<and> st = newStore \<and> sto_clients sto = lh_clients h \<and> sto_signingKey sto = key \<and>
     lh_issuer h = base @ BasePath \<and> path \<noteq> []"
  by (auto simp: oidc_New_def NewStorage_def NewLoginHandler_def split: if_splits)

lemma oidc_New_mounted: "oidc_New L J u P w path key v base = Inr b \<Longrightarrow> b \<noteq> None \<longleftrightarrow> path \<noteq> []"
  by (auto simp: oidc_New_def NewStorage_def split: if_splits)

lemma idp_main_Inr:
  assumes "idp_main L J D unmarshal P static w env = Inr (p, s)"
  obtains key anchor v b fs where "loadVerifier L D (config_Load env) = Inr v"
    "oidc_New L J unmarshal P w (cf_OIDCClientsPath (config_Load env)) key v (cf_BaseURL (config_Load env)) = Inr b"
    "idp_api p = NewHandler (cf_BaseURL (config_Load env)) key
       (NewService (cf_BaseURL (config_Load env)) (cf_CredentialIssuerURL (config_Load env))
         (NewMinter key (cf_BaseURL (config_Load env)) (cf_CredentialIssuerURL (config_Load env))) anchor)
       (cf_CredentialIssuerURL (config_Load env)) v"
    "idp_webui p = webui_NewHandler fs (cf_BasePath (config_Load env))"
    "idp_bridge p = map_option (\<lambda>(storage, _, login). (storage, login)) b"
    "mux_register (service_routes (idp_api p) (idp_webui p) (b \<noteq> None)) [] = Inr (idp_mux p)"
    "s = \<lparr>sv_authz = init_state, sv_oidc = (case b of None \<Rightarrow> newStore | Some (_, st, _) \<Rightarrow> st)\<rparr>"
  using assms by (auto simp: idp_main_def Let_def)

lemma started_wired:
  assumes "idp_main L J D unmarshal P static w env = Inr (p, s)"
  shows "wired p"
  using assms
proof (rule idp_main_Inr)
  fix key anchor v b fs
  assume "loadVerifier L D (config_Load env) = Inr v"
    "oidc_New L J unmarshal P w (cf_OIDCClientsPath (config_Load env)) key v (cf_BaseURL (config_Load env)) = Inr b"
    "idp_api p = NewHandler (cf_BaseURL (config_Load env)) key
       (NewService (cf_BaseURL (config_Load env)) (cf_CredentialIssuerURL (config_Load env))
         (NewMinter key (cf_BaseURL (config_Load env)) (cf_CredentialIssuerURL (config_Load env))) anchor)
       (cf_CredentialIssuerURL (config_Load env)) v"
    "idp_bridge p = map_option (\<lambda>(storage, _, login). (storage, login)) b"
    "mux_register (service_routes (idp_api p) (idp_webui p) (b \<noteq> None)) [] = Inr (idp_mux p)"
  then show ?thesis
    by (auto simp: wired_def shares_verifier_def NewHandler_def NewService_def NewMinter_def loadVerifier_Some dest!: oidc_New_Some)
qed

text \<open>
  C37: a start-up that does not fail yields a consistently wired service: the base URL of the
  configuration is at once the issuer of the access tokens and of the redirects and the address the
  proofs are checked against, tokens are signed with the key whose public half is served, the login
  page runs on the verifier the API serves and is never mounted without one, the verifier encrypts
  responses and has a certificate to identify itself with, the mux holds the patterns of exactly these parts,
  and every store is empty.
\<close>

theorem start_wires_components:
  assumes "idp_main L J D unmarshal P static w env = Inr (p, s)"
  shows "wired p \<and> hd_baseURL (idp_api p) = cf_BaseURL (config_Load env) \<and>
    (hd_verifier (idp_api p) \<noteq> None \<longleftrightarrow> env ''FIKUA_DSS_URL'' \<noteq> []) \<and>
    (idp_bridge p \<noteq> None \<longleftrightarrow> env ''OIDC_CLIENTS_PATH'' \<noteq> []) \<and>
    s = \<lparr>sv_authz = init_state, sv_oidc = newStore\<rparr>"
proof -
  let ?cfg = "config_Load env"
  from assms obtain key anchor v b fs where
    v: "loadVerifier L D ?cfg = Inr v" and
    b: "oidc_New L J unmarshal P w (cf_OIDCClientsPath ?cfg) key v (cf_BaseURL ?cfg) = Inr b" and
    p: "idp_api p = NewHandler (cf_BaseURL ?cfg) key
         (NewService (cf_BaseURL ?cfg) (cf_CredentialIssuerURL ?cfg)
           (NewMinter key (cf_BaseURL ?cfg) (cf_CredentialIssuerURL ?cfg)) anchor) (cf_CredentialIssuerURL ?cfg) v"
      "idp_bridge p = map_option (\<lambda>(storage, _, login). (storage, login)) b"
      "s = \<lparr>sv_authz = init_state, sv_oidc = (case b of None \<Rightarrow> newStore | Some (_, st, _) \<Rightarrow> st)\<rparr>"
    by (rule idp_main_Inr)
  have "v \<noteq> None \<longleftrightarrow> env ''FIKUA_DSS_URL'' \<noteq> []"
    using v by (auto simp: loadVerifier_def config_Load_def getenv_def split: if_splits)
  moreover have "b \<noteq> None \<longleftrightarrow> env ''OIDC_CLIENTS_PATH'' \<noteq> []"
    using oidc_New_mounted [OF b] by (simp add: config_Load_def getenv_def)
  moreover have "(case b of None \<Rightarrow> newStore | Some (_, st, _) \<Rightarrow> st) = newStore"
    using b by (auto split: option.splits dest!: oidc_New_Some)
  ultimately show ?thesis using p started_wired [OF assms] by (simp add: NewHandler_def)
qed

subsection \<open>An example start-up\<close>

definition ex_env :: "string \<Rightarrow> string" where
  "ex_env k = (if k = ''FIKUA_DSS_URL'' then ''https://dss'' else if k = ''OIDC_CLIENTS_PATH'' then ''clients.yaml'' else [])"

definition ex_files :: key_lib where
  "ex_files = ex_key_lib\<lparr>fs_Stat := (\<lambda>_. True), fs_ReadFile := (\<lambda>f. if f = ''./certs/root-ca.crt'' then Inl (True, ''no such file'') else Inr f),
     pem_Decode := Some, x509_ParsePKCS8 := (\<lambda>_. Inr (Some (rsk_signer ex_rsk)))\<rparr>"

definition ex_dss :: dss_lib where
  "ex_dss = \<lparr>dss_NewSigner = (\<lambda>_. Inr (rsk_signer ex_rsk)), dss_LeafDER = (\<lambda>_. Inr ''der'')\<rparr>"

definition ex_provider :: provider_lib where
  "ex_provider = \<lparr>rl_rand = None, rl_NewProvider = (\<lambda>_ _. None), rl_AuthCallbackURL = (\<lambda>issuer i. issuer @ ''/authorize/callback?id='' @ i)\<rparr>"

lemma ex_registry_loads: "\<exists>reg. registry_of ex_lib ex_registry_doc = Inr reg"
proof -
  have "containsScope ''openid profile'' ''openid''" by code_simp
  then show ?thesis
    by (simp add: registry_of_def ex_registry_doc_def validateClient_def validateCredentialScope_def standard_scopes_def)
qed

lemma ex_starts: "\<exists>p s. idp_main ex_lib ex_files ex_dss (\<lambda>_. Inr ex_registry_doc) ex_provider (Inr (\<lambda>_. not_found)) ex_draws ex_env = Inr (p, s)"
proof -
  obtain reg where "registry_of ex_lib ex_registry_doc = Inr reg" using ex_registry_loads by blast
  then have "registry_Load ex_lib ex_files (\<lambda>_. Inr ex_registry_doc) ''clients.yaml'' = Inr reg"
    by (simp add: registry_Load_def ex_files_def)
  moreover have "LoadFromPEM ex_lib ex_files ''./certs'' = newSigningKey ex_lib ex_files (rsk_signer ex_rsk)"
    by (simp add: LoadFromPEM_def ex_files_def ex_key_lib_def parseECPrivateKey_def)
  moreover have "\<exists>k. newSigningKey ex_lib ex_files (rsk_signer ex_rsk) = Inr k"
    by (simp add: newSigningKey_def thumbprint_kid_def annotated_def ex_files_def ex_key_lib_def ex_lib_def)
  moreover have "LoadWalletProviderAnchor ex_lib ex_files ''./certs'' = Inr None"
    by (simp add: LoadWalletProviderAnchor_def ex_files_def ex_key_lib_def)
  moreover have "cf_CertsDir (config_Load ex_env) = ''./certs''" "cf_OIDCClientsPath (config_Load ex_env) = ''clients.yaml''"
    "cf_DSSURL (config_Load ex_env) = ''https://dss''" "cf_BasePath (config_Load ex_env) = []"
    by (simp_all add: config_Load_def getenv_def ex_env_def)
  moreover obtain v where "loadVerifier ex_lib ex_dss (config_Load ex_env) = Inr (Some v)"
    using calculation by (simp add: loadVerifier_def ex_dss_def NewRequestSigningKey_def thumbprint_kid_def ex_lib_def)
  moreover have "\<exists>mux. mux_register (service_routes api (webui_NewHandler fs []) b) [] = Inr mux" for api fs b
    using routes_registered [of "[]" "webui_NewHandler fs []" api b] by (simp add: webui_NewHandler_def)
  ultimately show ?thesis
    by (auto simp: idp_main_def Let_def oidc_New_def ex_provider_def NewStorage_def)
qed

theorem start_wires_components_witness:
  "\<exists>p s. idp_main ex_lib ex_files ex_dss (\<lambda>_. Inr ex_registry_doc) ex_provider (Inr (\<lambda>_. not_found)) ex_draws ex_env = Inr (p, s) \<and>
     wired p \<and> hd_verifier (idp_api p) \<noteq> None \<and> idp_bridge p \<noteq> None"
proof -
  obtain p s where p: "idp_main ex_lib ex_files ex_dss (\<lambda>_. Inr ex_registry_doc) ex_provider (Inr (\<lambda>_. not_found)) ex_draws ex_env = Inr (p, s)"
    using ex_starts by blast
  from start_wires_components [OF p] p show ?thesis by (auto simp: ex_env_def)
qed

end
