(* ===== verification/Oidc_Login.thy ===== *)
theory Oidc_Login
  imports Oidc_Server
begin

text \<open>
  Properties of the OpenID Connect bridge: its codes are a one-time store, refresh tokens rotate, and
  in every run of the bridge and the verifier together the subject of a completed login comes from a response
  to the verification session that the page of this login opened for the credential its scope selects.
\<close>

subsection \<open>Codes\<close>

abbreviation oc_look :: "oidc_store \<Rightarrow> string \<Rightarrow> (time \<times> string) option" where
  "oc_look s code \<equiv> map_option (\<lambda>e. (ace_expiresAt e - oidc_authCodeTTL, ace_authRequestID e)) (os_authCodes s code)"

interpretation oidc_code: one_time_store oc_look putAuthCode consumeAuthCode oidc_authCodeTTL
  by unfold_locales (auto simp: oidc_defs Let_def fun_eq_iff split: option.splits)

lemma AuthRequestByCode_unknown:
  "fst (consumeAuthCode (clk w 0) code s) = None \<Longrightarrow>
     fst (AuthRequestByCode w code s) = Inl (ErrInvalidGrant ''invalid or expired authorization code'')"
  by (auto simp: AuthRequestByCode_def split: prod.split)

lemma AuthRequestByCode_codes:
  "os_authCodes (snd (AuthRequestByCode w code s)) = (os_authCodes s)(code := None)"
  by (auto simp: AuthRequestByCode_def oidc_defs Let_def split: option.splits)

text \<open>The answers to a sequence of presentations of one code.\<close>

fun present_code :: "world list \<Rightarrow> string \<Rightarrow> oidc_store \<Rightarrow> (oidc_error + auth_request) list" where
  "present_code [] code s = []"
| "present_code (w # ws) code s = fst (AuthRequestByCode w code s) # present_code ws code (snd (AuthRequestByCode w code s))"

lemma present_code_absent:
  "oc_look s code = None \<Longrightarrow>
     set (present_code ws code s) \<subseteq> {Inl (ErrInvalidGrant ''invalid or expired authorization code'')}"
proof (induction ws arbitrary: s)
  case (Cons w ws)
  have "fst (consumeAuthCode (clk w 0) code s) = None"
    using Cons.prems by (simp add: oidc_code.redeem_result)
  moreover have "oc_look (snd (AuthRequestByCode w code s)) code = None" by (simp add: AuthRequestByCode_codes)
  ultimately show ?case using Cons.IH AuthRequestByCode_unknown [of w code s] by (simp del: option.map_disc_iff)
qed simp

text \<open>
  C31: of any number of presentations of an authorization code, at whatever times, at most the first
  obtains an authorization request; all others are refused as \<^verbatim>\<open>invalid_grant\<close>.
\<close>

theorem oidc_code_single_use:
  "set (tl (present_code ws code s)) \<subseteq> {Inl (ErrInvalidGrant ''invalid or expired authorization code'')}"
  using present_code_absent by (cases ws) (simp_all add: AuthRequestByCode_codes)

subsection \<open>Refresh tokens\<close>

text \<open>
  Rotation. Exchanging a refresh token invalidates it at once and issues one that stands for the
  same subject, client and scopes for thirty minutes, provided the token drawn is not the old one;
  every other token is left alone.
\<close>

lemma refresh_token_rotates:
  assumes "CreateAccessAndRefreshTokens w req old s = ((aid, new, expiry), s')" and "old \<noteq> []" and "new \<noteq> old"
  shows "fst (TokenRequestByRefreshToken t old s') = Inl ErrInvalidRefreshToken \<and>
    fst (TokenRequestByRefreshToken t new s') =
      (if t - clk w 1 \<le> 30 * minute then Inr req else Inl ErrInvalidRefreshToken) \<and>
    (\<forall>tok. tok \<notin> {old, new} \<longrightarrow> fst (TokenRequestByRefreshToken t tok s') = fst (TokenRequestByRefreshToken t tok s))"
proof -
  have new: "new = RandomToken 32 (rnd w 1)"
    "s' = putRefreshToken (clk w 1) new (otr_Subject req) (otr_ClientID req) (otr_Scopes req) (deleteRefreshToken old s)"
    using assms(1,2) by (auto simp: CreateAccessAndRefreshTokens_def Let_def)
  show ?thesis using assms(3)
    by (auto simp: new(2) TokenRequestByRefreshToken_def oidc_defs refreshTokenTTL_def split: option.splits)
qed

definition ex_token_request :: op_token_request where
  "ex_token_request = \<lparr>otr_Subject = ''sub'', otr_ClientID = ''rp'', otr_Scopes = [''openid'']\<rparr>"

lemma refresh_token_rotates_witness:
  "fst (TokenRequestByRefreshToken minute ''old''
     (snd (CreateAccessAndRefreshTokens ex_draws ex_token_request ''old'' newStore))) = Inl ErrInvalidRefreshToken \<and>
   fst (TokenRequestByRefreshToken minute (RandomToken 32 (rnd ex_draws 1))
     (snd (CreateAccessAndRefreshTokens ex_draws ex_token_request ''old'' newStore))) = Inr ex_token_request"
proof -
  have "RandomToken 32 (rnd ex_draws 1) \<noteq> ''old''" by code_simp
  then show ?thesis
    using refresh_token_rotates [of ex_draws ex_token_request "''old''" newStore "RandomToken 16 (rnd ex_draws 0)"
        "RandomToken 32 (rnd ex_draws 1)" "clk ex_draws 0 + 5 * minute" _ minute]
    by (simp add: CreateAccessAndRefreshTokens_def Let_def) (simp add: const_defs)
qed

subsection \<open>The bridge and the verifier together\<close>

text \<open>
  No identifier once handed to a login page is drawn again for another verification session.
\<close>

definition links_kept :: "oidc_store \<Rightarrow> store \<Rightarrow> store \<Rightarrow> bool" where
  "links_kept o1 s s' \<longleftrightarrow> (\<forall>i e. os_authRequests o1 i = Some e \<longrightarrow> are_verificationSessionID e \<noteq> [] \<longrightarrow>
     verifications s (are_verificationSessionID e) = None \<longrightarrow> verifications s' (are_verificationSessionID e) = None)"

text \<open>
  The events: an authorization request arrives, the login page is loaded or polled, the library calls
  back, and the verifier serves wallets and frontends; identifiers are fresh when drawn. \<open>W\<close> are the
  responses of wallets and \<open>P\<close> the loads of login pages that may occur, any sets of them.
\<close>

inductive bridge_step :: "lib \<Rightarrow> key_lib \<Rightarrow> cbor_lib \<Rightarrow> login_handler \<Rightarrow> received set \<Rightarrow> (world \<times> string) set \<Rightarrow> bridge_state \<Rightarrow> bridge_state \<Rightarrow> bool"
  for L J C h W P where
  br_authorize: "os_authRequests (bs_oidc b) (RandomToken 16 (rnd w 0)) = None \<Longrightarrow>
    bridge_step L J C h W P b (b\<lparr>bs_oidc := snd (CreateAuthRequest w req (bs_oidc b))\<rparr>)"
| br_page: "login_ServeHTTP L J h w i b = (r, b') \<Longrightarrow> (w, i) \<in> P \<Longrightarrow> fresh_draws L J (lh_verifier h) w (bs_sessions b) \<Longrightarrow>
    links_kept (bs_oidc b) (bs_sessions b) (bs_sessions b') \<Longrightarrow> bridge_step L J C h W P b b'"
| br_poll: "bridge_step L J C h W P b (snd (PollHandler h w i b))"
| br_byID: "bridge_step L J C h W P b (b\<lparr>bs_oidc := snd (AuthRequestByID now i (bs_oidc b))\<rparr>)"
| br_byCode: "bridge_step L J C h W P b (b\<lparr>bs_oidc := snd (AuthRequestByCode w code (bs_oidc b))\<rparr>)"
| br_save: "bridge_step L J C h W P b (b\<lparr>bs_oidc := SaveAuthCode now i code (bs_oidc b)\<rparr>)"
| br_delete: "bridge_step L J C h W P b (b\<lparr>bs_oidc := DeleteAuthRequest i (bs_oidc b)\<rparr>)"
| br_tokens: "bridge_step L J C h W P b (b\<lparr>bs_oidc := snd (CreateAccessAndRefreshTokens w tr cur (bs_oidc b))\<rparr>)"
| br_refresh: "bridge_step L J C h W P b (b\<lparr>bs_oidc := snd (TokenRequestByRefreshToken now tok (bs_oidc b))\<rparr>)"
| br_info: "bridge_step L J C h W P b (b\<lparr>bs_oidc := snd (GetRefreshTokenInfo now cid tok (bs_oidc b))\<rparr>)"
| br_revoke: "bridge_step L J C h W P b (b\<lparr>bs_oidc := RevokeToken tok (bs_oidc b)\<rparr>)"
| br_verifier: "verifier_step L J C (lh_verifier h) W (bs_sessions b) s' \<Longrightarrow>
    links_kept (bs_oidc b) (bs_sessions b) s' \<Longrightarrow> bridge_step L J C h W P b (b\<lparr>bs_sessions := s'\<rparr>)"

inductive bridge_reachable :: "lib \<Rightarrow> key_lib \<Rightarrow> cbor_lib \<Rightarrow> login_handler \<Rightarrow> received set \<Rightarrow> (world \<times> string) set \<Rightarrow> bridge_state \<Rightarrow> bool"
  for L J C h W P where
  bridge_start: "bridge_reachable L J C h W P \<lparr>bs_oidc = newStore, bs_sessions = NewStore\<rparr>"
| bridge_next: "bridge_reachable L J C h W P b \<Longrightarrow> bridge_step L J C h W P b b' \<Longrightarrow> bridge_reachable L J C h W P b'"

text \<open>
  The sessions of a login are those that a load of its page opens for the credential the scopes select; a subject is backed when
  such a session has earned it by one of the responses received.
\<close>

definition login_session ::
  "lib \<Rightarrow> key_lib \<Rightarrow> login_handler \<Rightarrow> (world \<times> string) set \<Rightarrow> string \<Rightarrow> string list \<Rightarrow> verification_session \<Rightarrow> bool" where
  "login_session L J h P i scopes v \<longleftrightarrow> (\<exists>cs w. ResolveCredentialScope (lh_clients h) scopes = Some cs \<and> (w, i) \<in> P \<and>
     opens L J (lh_verifier h) (after 1 w) [login_credential cs] v)"

definition backed ::
  "lib \<Rightarrow> key_lib \<Rightarrow> cbor_lib \<Rightarrow> login_handler \<Rightarrow> received set \<Rightarrow> (world \<times> string) set \<Rightarrow> string \<Rightarrow> string list \<Rightarrow> string \<Rightarrow> bool" where
  "backed L J C h W P i scopes subject \<longleftrightarrow>
     (\<exists>v toks claims. login_session L J h P i scopes v \<and> earned L J C W v toks claims subject)"

lemma backed_mono: "backed L J C h W P i scopes sub \<Longrightarrow> W \<subseteq> W' \<Longrightarrow> P \<subseteq> P' \<Longrightarrow> backed L J C h W' P' i scopes sub"
  unfolding backed_def login_session_def using earned_mono by blast

definition entry_ok ::
  "lib \<Rightarrow> key_lib \<Rightarrow> cbor_lib \<Rightarrow> login_handler \<Rightarrow> received set \<Rightarrow> (world \<times> string) set \<Rightarrow> store \<Rightarrow> string \<Rightarrow> auth_request_entry \<Rightarrow> bool" where
  "entry_ok L J C h W P s i e \<longleftrightarrow> arq_id (are_req e) = i \<and>
     cc_Method (arq_codeChallenge (are_req e)) = CodeChallengeMethodS256 \<and>
     cc_Challenge (arq_codeChallenge (are_req e)) \<noteq> [] \<and>
     (are_verificationSessionID e \<noteq> [] \<longrightarrow> (\<exists>v0. login_session L J h P i (arq_scopes (are_req e)) v0 \<and>
        (\<forall>v. verifications s (are_verificationSessionID e) = Some v \<longrightarrow> as_asked v = as_asked v0))) \<and>
     (arq_subject (are_req e) \<noteq> [] \<longrightarrow> backed L J C h W P i (arq_scopes (are_req e)) (arq_subject (are_req e)))"

definition bridge_inv :: "lib \<Rightarrow> key_lib \<Rightarrow> cbor_lib \<Rightarrow> login_handler \<Rightarrow> received set \<Rightarrow> (world \<times> string) set \<Rightarrow> bridge_state \<Rightarrow> bool" where
  "bridge_inv L J C h W P b \<longleftrightarrow> verifier_inv L J C W (bs_sessions b) \<and>
     (\<forall>i e. os_authRequests (bs_oidc b) i = Some e \<longrightarrow> entry_ok L J C h W P (bs_sessions b) i e)"

text \<open>A step of the verifier never changes of a session what it asks for.\<close>

lemma find_query:
  "verifications (snd (findVerificationLocked now sid s)) x = Some v \<Longrightarrow> verifications s x = Some v"
  by (auto simp: findVerificationLocked_def deleteVerificationLocked_def split: option.splits if_splits)

lemma pointer_query:
  assumes "verifications (findVerificationPointerLocked now sid f s) x = Some v"
    and "\<And>v. as_asked (f v) = as_asked v"
  shows "\<exists>v'. verifications s x = Some v' \<and> as_asked v = as_asked v'"
  using assms by (auto simp: findVerificationPointerLocked_def deleteVerificationLocked_def split: option.splits if_splits)

definition asks_same :: "store \<Rightarrow> store \<Rightarrow> bool" where
  "asks_same s s' \<longleftrightarrow> (\<forall>x v. verifications s' x = Some v \<longrightarrow>
     (\<exists>v'. verifications s x = Some v' \<and> as_asked v = as_asked v'))"

lemma asks_same_refl [simp]: "asks_same s s"
  by (simp add: asks_same_def)

lemma asks_same_trans: "asks_same s s1 \<Longrightarrow> asks_same s1 s2 \<Longrightarrow> asks_same s s2"
  unfolding asks_same_def by metis

lemma asks_same_find: "asks_same s (snd (findVerificationLocked now sid s))"
  unfolding asks_same_def by (auto dest!: find_query)

lemma asks_same_lookups:
  "asks_same s (snd (FindVerification now sid s))" "asks_same s (snd (FindVerificationByState now st s))"
  "asks_same s (snd (FindVerificationByEncryptionKID now kid s))"
  by (simp_all add: FindVerification_def FindVerificationByState_def FindVerificationByEncryptionKID_def
      asks_same_find split: option.split)

lemma asks_same_update:
  "asks_same s (UpdateVerificationStatus now sid st s)"
  "asks_same s (UpdateVerificationResult now sid st toks cl sub e s)"
  unfolding asks_same_def UpdateVerificationStatus_def UpdateVerificationResult_def
  by (auto dest!: pointer_query)

lemma asks_same_locate:
  "asks_same s (snd (if rr_Response req \<noteq> [] then locate_encrypted L J now (rr_Response req) s else locate_plain now req s))"
proof -
  have "asks_same s (snd (locate_plain now req s))"
    using asks_same_lookups(2) [of s now "rr_State req"] by (auto simp: locate_plain_def Let_def split: prod.splits)
  moreover have "asks_same s (snd (locate_encrypted L J now r s))" for r
    using asks_same_lookups(3) [of s now] by (auto simp: locate_encrypted_def Let_def split: prod.splits sum.splits) (metis snd_conv)
  ultimately show ?thesis by simp
qed

lemma asks_same_HandleResponse: "asks_same s (snd (HandleResponse L J C N w req s))"
proof -
  obtain loc s1 where l: "(if rr_Response req \<noteq> [] then locate_encrypted L J (clk w 0) (rr_Response req) s
      else locate_plain (clk w 0) req s) = (loc, s1)" by fastforce
  have s1: "asks_same s s1" using asks_same_locate [of s req L J "clk w 0"] by (simp add: l)
  have "asks_same s1 (snd (record_outcome L C N w' v raw s1))" for w' v raw
    by (auto simp: record_outcome_def Let_def asks_same_update split: option.splits sum.splits prod.splits)
  with s1 show ?thesis
    by (auto simp: HandleResponse_def l split: sum.splits prod.splits) (metis asks_same_trans snd_conv)
qed

lemma verifier_step_query:
  assumes "verifier_step L J C svc W s s'" "verifications s x = Some v'" "verifications s' x = Some v"
  shows "as_asked v = as_asked v'"
  using assms
proof (induction rule: verifier_step.induct)
  case (step_create w s creds)
  show ?case
  proof (cases rule: CreateSession_cases [of L J svc w creds s])
    case (2 clientID key metadata jwt)
    have "x \<noteq> RandomToken 16 (rnd w 0)" using step_create(1,2) by (auto simp: fresh_draws_def)
    then show ?thesis using 2(6) step_create(2,3) by (auto simp: StoreVerification_def new_session_def Let_def)
  qed (use step_create in simp)
next
  case (step_fetch s w sid)
  obtain found s1 where f: "FindVerification (clk w 0) sid s = (found, s1)" by fastforce
  have "asks_same s s1" using asks_same_lookups(1) [of s "clk w 0" sid] by (simp add: f)
  then have "asks_same s (snd (GetRequestObject w sid s))"
    using asks_same_trans [OF _ asks_same_update(1)] by (simp add: GetRequestObject_def f split: option.split)
  with step_fetch show ?case by (fastforce simp: asks_same_def)
next
  case (step_respond w N req s)
  with asks_same_HandleResponse [of s L J C N w req] show ?case by (fastforce simp: asks_same_def)
next
  case (step_poll s w sid)
  with asks_same_lookups(1) [of s "clk w 0" sid] show ?case by (fastforce simp: asks_same_def snd_GetResult)
qed simp


subsection \<open>The invariant of the bridge\<close>

text \<open>Callbacks that only drop authorization requests keep the invariant.\<close>

lemma bridge_inv_drop:
  assumes "bridge_inv L J C h W P b" "os_authRequests (bs_oidc b') \<subseteq>\<^sub>m os_authRequests (bs_oidc b)"
    and "bs_sessions b' = bs_sessions b"
  shows "bridge_inv L J C h W P b'"
  using assms unfolding bridge_inv_def map_le_def by (auto simp: dom_def)

lemma getAuthRequest_le: "os_authRequests (snd (getAuthRequest now i s)) \<subseteq>\<^sub>m os_authRequests s"
  by (auto simp: getAuthRequest_def deleteAuthRequest_def map_le_def split: option.splits)

lemma getAuthRequest_Some:
  "getAuthRequest now i s = (Some ar, s') \<longleftrightarrow> s' = s \<and> (\<exists>e. os_authRequests s i = Some e \<and> are_req e = ar \<and> now \<le> are_expiresAt e)"
  by (auto simp: getAuthRequest_def split: option.splits)

lemma callbacks_drop:
  "os_authRequests (snd (AuthRequestByID now i s)) \<subseteq>\<^sub>m os_authRequests s"
  "os_authRequests (snd (AuthRequestByCode w code s)) \<subseteq>\<^sub>m os_authRequests s"
  "os_authRequests (SaveAuthCode now i code s) \<subseteq>\<^sub>m os_authRequests s"
  "os_authRequests (DeleteAuthRequest i s) \<subseteq>\<^sub>m os_authRequests s"
  "os_authRequests (snd (CreateAccessAndRefreshTokens w tr cur s)) \<subseteq>\<^sub>m os_authRequests s"
  "os_authRequests (snd (TokenRequestByRefreshToken now tok s)) \<subseteq>\<^sub>m os_authRequests s"
  "os_authRequests (snd (GetRefreshTokenInfo now cid tok s)) \<subseteq>\<^sub>m os_authRequests s"
  "os_authRequests (RevokeToken tok s) \<subseteq>\<^sub>m os_authRequests s"
  by (auto simp: AuthRequestByID_def AuthRequestByCode_def SaveAuthCode_def DeleteAuthRequest_def
      CreateAccessAndRefreshTokens_def TokenRequestByRefreshToken_def GetRefreshTokenInfo_def RevokeToken_def oidc_defs
      Let_def map_le_def split: option.splits)

lemma bridge_inv_put:
  assumes "bridge_inv L J C h W P b" "os_authRequests (bs_oidc b') = (os_authRequests (bs_oidc b))(i \<mapsto> e)"
    and "bs_sessions b' = bs_sessions b" "entry_ok L J C h W P (bs_sessions b) i e"
  shows "bridge_inv L J C h W P b'"
  using assms by (auto simp: bridge_inv_def)

lemma methods_differ: "CodeChallengeMethodPlain \<noteq> CodeChallengeMethodS256"
  by (simp add: CodeChallengeMethodPlain_def CodeChallengeMethodS256_def)

lemma CreateAuthRequest_inv:
  assumes "bridge_inv L J C h W P b"
  shows "bridge_inv L J C h W P (b\<lparr>bs_oidc := snd (CreateAuthRequest w req (bs_oidc b))\<rparr>)"
proof (cases "snd (CreateAuthRequest w req (bs_oidc b)) = bs_oidc b")
  case True
  then show ?thesis using assms by simp
next
  case False
  then have "oap_CodeChallenge req \<noteq> []" "oap_CodeChallengeMethod req = CodeChallengeMethodS256"
    using methods_differ by (auto simp: CreateAuthRequest_def Let_def split: if_splits)
  then show ?thesis
    by (intro bridge_inv_put [OF assms, where i = "RandomToken 16 (rnd w 0)"])
      (auto simp: CreateAuthRequest_def putAuthRequest_def Let_def entry_ok_def)
qed

text \<open>The sessions may move on as long as linked ones keep what they ask for.\<close>

lemma bridge_inv_sessions:
  assumes inv: "bridge_inv L J C h W P b" and "verifier_inv L J C W s'" and kept: "links_kept (bs_oidc b) (bs_sessions b) s'"
    and query: "\<And>x v v'. verifications (bs_sessions b) x = Some v' \<Longrightarrow> verifications s' x = Some v \<Longrightarrow>
      as_asked v = as_asked v'"
  shows "bridge_inv L J C h W P (b\<lparr>bs_sessions := s'\<rparr>)"
proof -
  have "entry_ok L J C h W P s' i e" if e: "os_authRequests (bs_oidc b) i = Some e" for i e
  proof -
    have ok: "entry_ok L J C h W P (bs_sessions b) i e" using inv e by (simp add: bridge_inv_def)
    have "as_asked v = as_asked v0"
      if "verifications s' (are_verificationSessionID e) = Some v" "are_verificationSessionID e \<noteq> []"
        "\<forall>v. verifications (bs_sessions b) (are_verificationSessionID e) = Some v \<longrightarrow> as_asked v = as_asked v0" for v v0
      using that kept e query unfolding links_kept_def by (metis option.exhaust)
    then show ?thesis using ok unfolding entry_ok_def by blast
  qed
  then show ?thesis using assms(2) by (simp add: bridge_inv_def)
qed

lemma hex_nonempty: "hex_EncodeToString (sha256 x) \<noteq> []"
  using length_sha256 [of x] by (auto simp: hex_EncodeToString_def)

lemma find_inv:
  assumes inv: "bridge_inv L J C h W P b"
  shows "bridge_inv L J C h W P (b\<lparr>bs_sessions := snd (FindVerification t x (bs_sessions b))\<rparr>)"
proof (rule bridge_inv_sessions [OF inv])
  let ?s1 = "snd (FindVerification t x (bs_sessions b))"
  note same = asks_same_lookups(1) [of "bs_sessions b" t x]
  show "verifier_inv L J C W ?s1" using inv by (simp add: bridge_inv_def lookups_keep_inv)
  show "links_kept (bs_oidc b) (bs_sessions b) ?s1"
    using same unfolding links_kept_def asks_same_def by (metis option.distinct(1) option.exhaust)
  show "as_asked v = as_asked v'"
    if "verifications (bs_sessions b) y = Some v'" "verifications ?s1 y = Some v" for y v v'
    using same that unfolding asks_same_def by (metis option.inject)
qed

text \<open>A poll either only expires entries, or completes a request from its verified session.\<close>

lemma PollHandler_state:
  obtains (kept) "os_authRequests (bs_oidc (snd (PollHandler h w i b))) \<subseteq>\<^sub>m os_authRequests (bs_oidc b)"
    "bs_sessions (snd (PollHandler h w i b)) \<in> insert (bs_sessions b) {snd (FindVerification t x (bs_sessions b)) |t x. True}"
  | (completed) e vsid v where "os_authRequests (bs_oidc b) i = Some e"
    "getVerificationSession (arq_id (are_req e)) (bs_oidc b) = Some vsid"
    "verifications (bs_sessions b) vsid = Some v" "vs_Status v = ''verified''"
    "snd (PollHandler h w i b) = b\<lparr>bs_oidc := complete_request i (vs_SubjectID v) (clk w 2) (bs_oidc b)\<rparr>"
proof -
  obtain found o1 where g: "getAuthRequest (clk w 0) i (bs_oidc b) = (found, o1)" by fastforce
  have le: "os_authRequests o1 \<subseteq>\<^sub>m os_authRequests (bs_oidc b)"
    using getAuthRequest_le [of "clk w 0" i "bs_oidc b"] by (simp add: g)
  show thesis
  proof (cases "\<exists>ar vsid v s1. found = Some ar \<and> \<not> arq_Done ar \<and> getVerificationSession (arq_id ar) o1 = Some vsid \<and>
      FindVerification (clk w 1) vsid (bs_sessions b) = (Some v, s1) \<and> vs_Status v = ''verified'' \<and> vs_SubjectID v \<noteq> []")
    case True
    then obtain ar vsid v s1 where *: "found = Some ar" "\<not> arq_Done ar" "getVerificationSession (arq_id ar) o1 = Some vsid"
      "FindVerification (clk w 1) vsid (bs_sessions b) = (Some v, s1)" "vs_Status v = ''verified''" "vs_SubjectID v \<noteq> []" by blast
    then have "s1 = bs_sessions b" "verifications (bs_sessions b) vsid = Some v"
      by (auto simp: FindVerification_def findVerificationLocked_def split: option.splits if_splits)
    moreover obtain e where "o1 = bs_oidc b" "os_authRequests (bs_oidc b) i = Some e" "are_req e = ar"
      using g * by (auto simp: getAuthRequest_Some)
    ultimately show thesis using * by (intro completed [of e vsid v]) (simp_all add: PollHandler_def g verifier_Session_def)
  next
    case False
    have "bs_oidc (snd (PollHandler h w i b)) = o1 \<and> (bs_sessions (snd (PollHandler h w i b)) = bs_sessions b \<or>
        (\<exists>x. bs_sessions (snd (PollHandler h w i b)) = snd (FindVerification (clk w 1) x (bs_sessions b))))"
    proof (cases "\<exists>ar vsid. found = Some ar \<and> \<not> arq_Done ar \<and> getVerificationSession (arq_id ar) o1 = Some vsid")
      case True
      then obtain ar vsid where a: "found = Some ar" "\<not> arq_Done ar" "getVerificationSession (arq_id ar) o1 = Some vsid" by blast
      obtain r s1 where r: "FindVerification (clk w 1) vsid (bs_sessions b) = (r, s1)" by fastforce
      have "bs_oidc (snd (PollHandler h w i b)) = o1 \<and> bs_sessions (snd (PollHandler h w i b)) = s1"
        using False a r by (cases r) (simp_all add: PollHandler_def g verifier_Session_def Let_def)
      then show ?thesis using r by (metis snd_conv)
    next
      case False
      then show ?thesis by (cases found) (auto simp: PollHandler_def g Let_def split: option.split)
    qed
    then show thesis using kept le by auto
  qed
qed

lemma PollHandler_inv:
  assumes inv: "bridge_inv L J C h W P b"
  shows "bridge_inv L J C h W P (snd (PollHandler h w i b))"
proof (cases rule: PollHandler_state [of h w i b])
  case kept
  then have "bridge_inv L J C h W P (b\<lparr>bs_sessions := bs_sessions (snd (PollHandler h w i b))\<rparr>)"
    using inv find_inv by auto
  with kept(1) show ?thesis by (auto elim: bridge_inv_drop)
next
  case (completed e vsid v)
  have ok: "entry_ok L J C h W P (bs_sessions b) i e" using inv completed(1) by (simp add: bridge_inv_def)
  then have vsid: "vsid = are_verificationSessionID e" "vsid \<noteq> []"
    using completed(1,2) by (auto simp: getVerificationSession_def entry_ok_def split: if_splits)
  have "session_ok L J C W v" using inv completed(3) by (auto simp: bridge_inv_def verifier_inv_def)
  then have "earned L J C W v (vs_VPTokens v) (vs_VerifiedClaims v) (vs_SubjectID v)" using completed(4) by (simp add: session_ok_def)
  then have "backed L J C h W P i (arq_scopes (are_req e)) (vs_SubjectID v)"
    using ok vsid completed(3) as_asked_eq(6) unfolding entry_ok_def backed_def by blast
  then have "entry_ok L J C h W P (bs_sessions b) i
      (e\<lparr>are_req := (are_req e)\<lparr>arq_subject := vs_SubjectID v, arq_doneAt := clk w 2\<rparr>\<rparr>)"
    using ok by (simp add: entry_ok_def)
  then show ?thesis using bridge_inv_put [OF inv] completed(1,5) by (simp add: complete_request_def)
qed


lemma fresh_draws_after: "fresh_draws L J svc (after n w) s = fresh_draws L J svc w s"
  by (simp add: fresh_draws_def)

lemma start_login_inv:
  assumes inv: "bridge_inv L J C h W P b" and e: "os_authRequests (bs_oidc b) i = Some e"
    and cs: "ResolveCredentialScope (lh_clients h) (arq_scopes (are_req e)) = Some cs"
    and fresh: "fresh_draws L J (lh_verifier h) w (bs_sessions b)"
    and run: "start_login L J h (after 1 w) i (are_req e) cs b = (r, b')" and load: "(w, i) \<in> P"
    and kept: "links_kept (bs_oidc b) (bs_sessions b) (bs_sessions b')"
  shows "bridge_inv L J C h W P b'"
proof -
  have ok: "entry_ok L J C h W P (bs_sessions b) i e" using inv e by (simp add: bridge_inv_def)
  let ?w = "after 1 w"
  let ?c = "CreateSession L J (lh_verifier h) ?w [login_credential cs] (bs_sessions b)"
  have fresh: "fresh_draws L J (lh_verifier h) ?w (bs_sessions b)" using fresh by (simp add: fresh_draws_after)
  have step: "verifier_step L J C (lh_verifier h) W (bs_sessions b) (snd ?c)" using fresh by (rule step_create)
  have sess: "bridge_inv L J C h W P (b\<lparr>bs_sessions := snd ?c\<rparr>)" if "bs_sessions b' = snd ?c"
    using bridge_inv_sessions [OF inv _ _ verifier_step_query [OF step]] CreateSession_inv [OF _ fresh] inv kept that
    by (simp add: bridge_inv_def)
  show ?thesis
  proof (cases "getVerificationSession (arq_id (are_req e)) (bs_oidc b)")
    case (Some vsid)
    then show ?thesis using run inv by (simp add: start_login_def)
  next
    case None
    show ?thesis
    proof (cases rule: CreateSession_opens [of L J "lh_verifier h" ?w "[login_credential cs]" "bs_sessions b"])
      case 1
      then have "bs_oidc b' = bs_oidc b" "bs_sessions b' = bs_sessions b" using run None
        by (auto simp: start_login_def split: prod.splits option.splits sum.splits)
      then show ?thesis using inv bridge_inv_drop [OF inv, of b'] by simp
    next
      case (2 res v)
      let ?sid = "RandomToken 16 (rnd w 0)"
      have b': "bs_sessions b' = snd ?c" "bs_oidc b' = linkVerificationSession i ?sid (bs_oidc b)"
        using run None 2(2,3) ok by (auto simp: start_login_def entry_ok_def)
      have "verifications (snd ?c) ?sid = Some (v\<lparr>vs_CreatedAt := clk ?w 1\<rparr>)"
        using 2(3) opens_session(1) [OF 2(1)] by (simp add: StoreVerification_def Let_def)
      moreover have "login_session L J h P i (arq_scopes (are_req e)) v" using cs load 2(1) by (auto simp: login_session_def)
      ultimately have "entry_ok L J C h W P (snd ?c) i (e\<lparr>are_verificationSessionID := ?sid\<rparr>)"
        using ok by (auto simp: entry_ok_def)
      with bridge_inv_put [OF sess [OF b'(1)], of b'] b' e show ?thesis by (simp add: linkVerificationSession_def)
    qed
  qed
qed

lemma login_ServeHTTP_inv:
  assumes inv: "bridge_inv L J C h W P b" and run: "login_ServeHTTP L J h w i b = (r, b')"
    and fresh: "fresh_draws L J (lh_verifier h) w (bs_sessions b)"
    and kept: "links_kept (bs_oidc b) (bs_sessions b) (bs_sessions b')" and load: "(w, i) \<in> P"
  shows "bridge_inv L J C h W P b'"
proof (cases "i = []")
  case False
  obtain found o1 where g: "getAuthRequest (clk w 0) i (bs_oidc b) = (found, o1)" by fastforce
  have b1: "bridge_inv L J C h W P (b\<lparr>bs_oidc := o1\<rparr>)"
    using getAuthRequest_le [of "clk w 0" i "bs_oidc b"] by (auto simp: g intro: bridge_inv_drop [OF inv])
  show ?thesis
  proof (cases "\<exists>ar cs. found = Some ar \<and> \<not> arq_Done ar \<and> registry_Lookup (lh_clients h) (arq_clientID ar) \<noteq> None \<and>
      ResolveCredentialScope (lh_clients h) (arq_scopes ar) = Some cs")
    case True
    then obtain ar cs where a: "found = Some ar" "\<not> arq_Done ar" "registry_Lookup (lh_clients h) (arq_clientID ar) \<noteq> None"
      "ResolveCredentialScope (lh_clients h) (arq_scopes ar) = Some cs" by blast
    then obtain e where e: "o1 = bs_oidc b" "os_authRequests (bs_oidc b) i = Some e" "are_req e = ar"
      using g by (auto simp: getAuthRequest_Some)
    have "start_login L J h (after 1 w) i (are_req e) cs b = (r, b')"
      using run False a e by (simp add: login_ServeHTTP_def g)
    from start_login_inv [OF inv e(2) _ fresh this load kept] a(4) e(3) show ?thesis by simp
  next
    case none: False
    then have "b' = b\<lparr>bs_oidc := o1\<rparr>" using run False
      by (auto simp: login_ServeHTTP_def g Let_def split: option.splits if_splits)
    then show ?thesis using b1 by simp
  qed
qed (use run inv in \<open>simp add: login_ServeHTTP_def\<close>)

lemma bridge_step_inv:
  "bridge_step L J C h W P b b' \<Longrightarrow> thumbprints_ok L \<Longrightarrow> bridge_inv L J C h W P b \<Longrightarrow> bridge_inv L J C h W P b'"
proof (induction rule: bridge_step.induct)
  case (br_verifier b s')
  then show ?case
    using bridge_inv_sessions [OF br_verifier(4) _ br_verifier(2) verifier_step_query [OF br_verifier(1)]] verifier_step_inv
    by (simp add: bridge_inv_def)
qed (simp_all add: CreateAuthRequest_inv PollHandler_inv login_ServeHTTP_inv,
    (erule bridge_inv_drop; simp add: callbacks_drop)+)

lemma bridge_reachable_inv:
  assumes "bridge_reachable L J C h W P b" "thumbprints_ok L"
  shows "bridge_inv L J C h W P b"
  using assms(1)
proof induction
  case bridge_start
  show ?case using verifier_reachable_inv [OF verifier_start assms(2)] by (simp add: bridge_inv_def newStore_def)
qed (use assms(2) bridge_step_inv in blast)

text \<open>
  In every run of the bridge and the verifier, the authorization request a code is exchanged for
  is bound to an S256 challenge, and when it is completed its subject is backed.
\<close>

lemma login_subject_backed:
  assumes "bridge_reachable L J C h W P b" and "thumbprints_ok L"
    and "AuthRequestByCode w code (bs_oidc b) = (Inr ar, o')"
  shows "cc_Method (arq_codeChallenge ar) = CodeChallengeMethodS256 \<and> cc_Challenge (arq_codeChallenge ar) \<noteq> [] \<and>
    (arq_Done ar \<longrightarrow> backed L J C h W P (arq_id ar) (arq_scopes ar) (arq_subject ar))"
proof -
  have inv: "bridge_inv L J C h W P b" using assms(1,2) by (rule bridge_reachable_inv)
  from assms(3) obtain i e where "os_authRequests (bs_oidc b) i = Some e" "are_req e = ar"
    by (auto simp: AuthRequestByCode_def oidc_defs Let_def split: option.splits if_splits prod.splits)
  then have "entry_ok L J C h W P (bs_sessions b) i e" using inv by (auto simp: bridge_inv_def)
  then show ?thesis using \<open>are_req e = ar\<close> by (auto simp: entry_ok_def arq_Done_def)
qed

subsection \<open>An example login\<close>

definition ex_login :: login_handler where
  "ex_login = \<lparr>lh_clients = ex_registry, lh_verifier = ex_verifier,
     lh_authCallback = (\<lambda>issuer i. issuer @ ''/authorize/callback?id='' @ i), lh_issuer = ''https://i/oidc/v1''\<rparr>"

definition ex_auth_params :: oidc_auth_params where
  "ex_auth_params = \<lparr>oap_ClientID = ''rp'', oap_RedirectURI = ''https://rp/cb'', oap_State = ''s'', oap_Nonce = ''n'',
     oap_Scopes = [''openid'', ''padro''], oap_ResponseType = ''code'', oap_CodeChallenge = ''c'',
     oap_CodeChallengeMethod = CodeChallengeMethodS256\<rparr>"

abbreviation ex_id :: string where "ex_id \<equiv> RandomToken 16 (rnd ex_draws 0)"

definition ex_auth_request :: auth_request where
  "ex_auth_request = \<lparr>arq_id = ex_id, arq_clientID = ''rp'', arq_redirectURI = ''https://rp/cb'', arq_state = ''s'',
     arq_nonce = ''n'', arq_scopes = [''openid'', ''padro''], arq_responseType = ''code'',
     arq_codeChallenge = \<lparr>cc_Challenge = ''c'', cc_Method = CodeChallengeMethodS256\<rparr>, arq_createdAt = 0,
     arq_subject = [], arq_doneAt = zero_time\<rparr>"

definition ex_scope :: credential_scope where
  "ex_scope = \<lparr>csc_Name = ''padro'', csc_CredentialType = ''urn:padro'', csc_Claims = []\<rparr>"

definition ex_entry :: "string \<Rightarrow> auth_request_entry" where
  "ex_entry vsid = \<lparr>are_req = ex_auth_request, are_expiresAt = authRequestTTL, are_verificationSessionID = vsid\<rparr>"

definition ex_linked :: "string \<Rightarrow> oidc_store" where
  "ex_linked vsid = newStore\<lparr>os_authRequests := [ex_id \<mapsto> ex_entry vsid]\<rparr>"

lemma ex_after [simp]: "after n ex_draws = ex_draws"
  by (simp add: after_def ex_draws_def)

lemma ex_id_nonempty: "ex_id \<noteq> []"
  by (simp add: RandomToken_def RawURL_Encode_nonempty ex_draws_def)

lemma ex_authorized: "CreateAuthRequest ex_draws ex_auth_params newStore = (Inr ex_auth_request, ex_linked [])"
  by (simp add: CreateAuthRequest_def ex_auth_params_def ex_auth_request_def ex_linked_def ex_entry_def putAuthRequest_def
      newStore_def Let_def)

lemma ex_not_mdoc: "\<not> isMdocFormat (crq_Format (login_credential ex_scope))"
proof -
  have "\<not> isMdocFormat []" by code_simp
  then show ?thesis by (simp add: login_credential_def)
qed

lemma ex_pending:
  "getAuthRequest 0 ex_id (ex_linked []) = (Some ex_auth_request, ex_linked [])"
  "\<not> arq_Done ex_auth_request" "registry_Lookup ex_registry (arq_clientID ex_auth_request) \<noteq> None"
  "ResolveCredentialScope ex_registry (arq_scopes ex_auth_request) = Some ex_scope"
  "getVerificationSession ex_id (ex_linked []) = None"
  "linkVerificationSession ex_id ex_id (ex_linked []) = ex_linked ex_id"
  "arq_id ex_auth_request = ex_id"
  by (simp_all add: getAuthRequest_def ex_linked_def ex_entry_def newStore_def const_defs arq_Done_def ex_auth_request_def
      registry_Lookup_def ex_registry_def ex_registry_doc_def ex_scope_def getVerificationSession_def linkVerificationSession_def)

lemma ex_paged: "login_ServeHTTP ex_vf_lib ex_key_lib ex_login ex_draws ex_id
    \<lparr>bs_oidc = ex_linked [], bs_sessions = NewStore\<rparr> =
    (Some (LoginPage ex_id ex_id), \<lparr>bs_oidc = ex_linked ex_id, bs_sessions = ex_waiting (login_credential ex_scope)\<rparr>)"
  using ex_create [of "login_credential ex_scope"] ex_id_nonempty ex_pending
  by (auto simp: login_ServeHTTP_def start_login_def ex_login_def Let_def)

definition ex_answered :: store where
  "ex_answered = snd (HandleResponse ex_vf_lib ex_key_lib ex_cbor ex_offline ex_draws ex_response
     (ex_waiting (login_credential ex_scope)))"

definition ex_subject :: string where
  "ex_subject = hex_EncodeToString (sha256 (RawURL_Encode ''thumb''))"

lemma ex_answered_session: "\<exists>v. FindVerification 0 ex_id ex_answered = (Some v, ex_answered) \<and> vs_Status v = ''verified'' \<and>
    vs_SubjectID v = ex_subject"
  by (simp add: ex_answered_def ex_handled [OF ex_not_mdoc] UpdateVerificationResult_def findVerificationPointerLocked_def
      ex_waiting_session FindVerification_def findVerificationLocked_def ex_subject_def)

definition ex_completed :: oidc_store where
  "ex_completed = complete_request ex_id ex_subject 0 (ex_linked ex_id)"

lemma ex_poll_done: "PollHandler ex_login ex_draws ex_id \<lparr>bs_oidc = ex_linked ex_id, bs_sessions = ex_answered\<rparr> =
    (JSONStatus 200 [(''status'', ''done''), (''redirect'', callbackURL ex_login ex_id)],
     \<lparr>bs_oidc = ex_completed, bs_sessions = ex_answered\<rparr>)"
proof -
  obtain v where v: "FindVerification 0 ex_id ex_answered = (Some v, ex_answered)" "vs_Status v = ''verified''"
    "vs_SubjectID v = ex_subject" using ex_answered_session by blast
  have "getAuthRequest 0 ex_id (ex_linked ex_id) = (Some ex_auth_request, ex_linked ex_id)"
    "getVerificationSession ex_id (ex_linked ex_id) = Some ex_id" "arq_id ex_auth_request = ex_id" "\<not> arq_Done ex_auth_request"
    using ex_id_nonempty
    by (simp_all add: getAuthRequest_def getVerificationSession_def ex_linked_def ex_entry_def newStore_def const_defs
        ex_auth_request_def arq_Done_def)
  then show ?thesis using v hex_nonempty
    by (simp add: PollHandler_def verifier_Session_def ex_completed_def ex_subject_def)
qed

lemma ex_polled: "snd (PollHandler ex_login ex_draws ex_id \<lparr>bs_oidc = ex_linked ex_id, bs_sessions = ex_answered\<rparr>) =
    \<lparr>bs_oidc = ex_completed, bs_sessions = ex_answered\<rparr>"
  by (simp add: ex_poll_done)

lemma ex_bridge_reachable: "bridge_reachable ex_vf_lib ex_key_lib ex_cbor ex_login {(ex_offline, ex_draws, ex_response)} {(ex_draws, ex_id)}
    \<lparr>bs_oidc = SaveAuthCode 0 ex_id ''code'' ex_completed, bs_sessions = ex_answered\<rparr>"
proof -
  let ?W = "{(ex_offline, ex_draws, ex_response)}" and ?P = "{(ex_draws, ex_id)}"
  let ?R = "bridge_reachable ex_vf_lib ex_key_lib ex_cbor ex_login ?W ?P" and ?S = "bridge_step ex_vf_lib ex_key_lib ex_cbor ex_login ?W ?P" and ?q = "login_credential ex_scope"
  have kept: "links_kept (ex_linked ex_id) (ex_waiting ?q) s" for s
    by (simp add: links_kept_def ex_linked_def ex_entry_def ex_waiting_session)
  have "?S \<lparr>bs_oidc = newStore, bs_sessions = NewStore\<rparr> \<lparr>bs_oidc = ex_linked [], bs_sessions = NewStore\<rparr>"
    using br_authorize [where w = ex_draws and req = ex_auth_params and b = "\<lparr>bs_oidc = newStore, bs_sessions = NewStore\<rparr>"]
    using ex_authorized by (simp add: newStore_def del: bridge_step.intros)
  from bridge_next [OF bridge_start this] have "?R \<lparr>bs_oidc = ex_linked [], bs_sessions = NewStore\<rparr>" .
  moreover have "?S \<lparr>bs_oidc = ex_linked [], bs_sessions = NewStore\<rparr> \<lparr>bs_oidc = ex_linked ex_id, bs_sessions = ex_waiting ?q\<rparr>"
    by (rule br_page [OF ex_paged]) (simp_all add: fresh_draws_def links_kept_def NewStore_def ex_linked_def ex_entry_def)
  ultimately have "?R \<lparr>bs_oidc = ex_linked ex_id, bs_sessions = ex_waiting ?q\<rparr>" by (rule bridge_next)
  moreover have "?S \<lparr>bs_oidc = ex_linked ex_id, bs_sessions = ex_waiting ?q\<rparr> \<lparr>bs_oidc = ex_linked ex_id, bs_sessions = ex_answered\<rparr>"
    using br_verifier [where b = "\<lparr>bs_oidc = ex_linked ex_id, bs_sessions = ex_waiting ?q\<rparr>", OF step_respond, of ex_draws]
    using kept by (simp add: ex_answered_def ord_ok_def)
  ultimately have "?R \<lparr>bs_oidc = ex_linked ex_id, bs_sessions = ex_answered\<rparr>" by (rule bridge_next)
  from bridge_next [OF this br_poll [where w = ex_draws and i = ex_id], unfolded ex_polled]
  show ?thesis
    using bridge_next [OF _ br_save [where now = 0 and i = ex_id and code = "''code''"]] by fastforce
qed

lemma login_subject_backed_witness:
  "backed ex_vf_lib ex_key_lib ex_cbor ex_login {(ex_offline, ex_draws, ex_response)} {(ex_draws, ex_id)} ex_id [''openid'', ''padro''] ex_subject"
proof -
  have "\<exists>o'. AuthRequestByCode ex_draws ''code'' (SaveAuthCode 0 ex_id ''code'' ex_completed) =
      (Inr (ex_auth_request\<lparr>arq_subject := ex_subject, arq_doneAt := 0\<rparr>), o')"
    by (simp add: AuthRequestByCode_def SaveAuthCode_def ex_completed_def ex_linked_def ex_entry_def oidc_defs const_defs)
  then obtain o' where "AuthRequestByCode ex_draws ''code'' (bs_oidc \<lparr>bs_oidc = SaveAuthCode 0 ex_id ''code'' ex_completed,
      bs_sessions = ex_answered\<rparr>) = (Inr (ex_auth_request\<lparr>arq_subject := ex_subject, arq_doneAt := 0\<rparr>), o')" by auto
  from login_subject_backed [OF ex_bridge_reachable ex_thumbprints this]
  show ?thesis using hex_nonempty by (simp add: arq_Done_def ex_subject_def ex_auth_request_def ex_login_def)
qed

end
