(* ===== verification/Example_World.thy ===== *)
theory Example_World
  imports Authz
begin

text \<open>
  The service of the examples: the library of \<open>Example_Lib\<close>, a Credential Issuer that knows no offer
  and creates the record \<open>rec\<close>, calls at a chosen instant with chosen random bytes.
\<close>

definition ex_net :: net where
  "ex_net = \<lparr>net_NewRequest = (\<lambda>_ _. None),
     net_Do = (\<lambda>r. Inr \<lparr>hr_StatusCode = (if hq_Method r = ''POST'' then 200 else 404), hr_Body = Inr []\<rparr>),
     net_Decode = (\<lambda>_. Inr (JObj [(''issuance_id'', JStr ''rec'')]))\<rparr>"

definition ex_service :: authz_service where
  "ex_service = NewService ex_base ''https://issuer''
     (NewMinter \<lparr>sk_kid = ''kid'', sk_private = 1, sk_public = JWK []\<rparr> ex_base ''https://issuer'') None"

text \<open>A call at instant \<open>t\<close> whose draws are all the same byte repeated.\<close>

definition ex_world :: "time \<Rightarrow> char \<Rightarrow> world" where
  "ex_world t c = \<lparr>clk = (\<lambda>_. t), rnd = (\<lambda>i n. [c]), ord = id\<rparr>"

definition ex_params :: params where
  "ex_params = [''client_id'' \<mapsto> ''client'', ''response_type'' \<mapsto> ''code'', ''scope'' \<mapsto> ''pid'',
     ''code_challenge'' \<mapsto> computeS256Challenge ''verifier'', ''code_challenge_method'' \<mapsto> ''S256'',
     ''redirect_uri'' \<mapsto> ''https://w/cb?x=1'', ''state'' \<mapsto> ''s1'']"

lemmas ex_defs = ex_lib_defs ex_net_def ex_service_def ex_world_def

lemma ex_attested:
  "0 \<le> t \<Longrightarrow> t \<le> minute \<Longrightarrow> Resolve ex_lib (az_attestations ex_service) t ''wia'' ''pop'' aty asr = Inr ''client''"
  by (simp add: Resolve_def ValidateHeaders_def validateWiaAndPop_def resolveWiaKey_def resolveCnfKey_def
      wia_client_id_def audience_of_def NewService_def NewClientAttestationValidator_def
      ex_defs const_defs Let_def)

lemma ex_htu: "htuMatches ex_lib u u"
  by (simp add: htuMatches_def ex_lib_def Let_def split: prod.splits)

lemma ex_dpop1:
  "0 \<le> t \<Longrightarrow> t \<le> minute \<Longrightarrow> ''j1'' \<notin> set js \<Longrightarrow> length js < jtiStoreMaxSize \<Longrightarrow>
   ValidateDPoPProof ex_lib t rng ''dpop1'' ''POST'' (ex_base @ ''/oid4vci/v1/par'') [] js =
     (Inr ex_dpopKey, ''j1'' # js)"
  using ex_htu by (simp add: ValidateDPoPProof_Inr proof_ok_def proof_jti_def Accept_def)
     (simp add: ex_defs const_defs Let_def)

lemma ex_dpop2:
  "0 \<le> t \<Longrightarrow> t \<le> minute \<Longrightarrow> ''j2'' \<notin> set js \<Longrightarrow> length js < jtiStoreMaxSize \<Longrightarrow>
   ValidateDPoPProof ex_lib t rng ''dpop2'' ''POST'' (ex_base @ ''/oid4vci/v1/token'') [] js =
     (Inr ex_dpopKey, ''j2'' # js)"
  using ex_htu by (simp add: ValidateDPoPProof_Inr proof_ok_def proof_jti_def Accept_def)
     (simp add: ex_defs const_defs Let_def)

lemma ex_dpop3:
  "0 \<le> t \<Longrightarrow> t \<le> minute \<Longrightarrow> ''j3'' \<notin> set js \<Longrightarrow> length js < jtiStoreMaxSize \<Longrightarrow>
   ValidateDPoPProof ex_lib t rng ''dpop3'' ''POST'' (ex_base @ ''/oid4vci/v1/token'') [] js =
     (Inr ex_dpopKey, ''j3'' # js)"
  using ex_htu by (simp add: ValidateDPoPProof_Inr proof_ok_def proof_jti_def Accept_def)
     (simp add: ex_defs const_defs Let_def)

end
