(* ===== verification/Authz_Flow.thy ===== *)
theory Authz_Flow
  imports Example_World
begin

text \<open>
  What each authorization handler guarantees, one call at a time: the conditions under which it
  succeeds, what it hands back and what it leaves in the store, its error branches, and the
  composition of the redirect it answers with.
\<close>

subsection \<open>Success conditions\<close>

lemma BadRequest_inject [simp]: "BadRequest c d = BadRequest c' d' \<longleftrightarrow> c = c' \<and> d = d'"
  by (auto simp: BadRequest_def)

lemma bindDPoPKey_Inr:
  "bindDPoPKey L svc now rng hdr ps js = (Inr ps', js') \<longleftrightarrow>
     (if hdr = [] then ps' = ps \<and> js' = js
      else \<exists>key th. ValidateDPoPProof L now rng hdr ''POST'' (az_baseURL svc @ ''/oid4vci/v1/par'') [] js =
             (Inr key, js') \<and> DPoPThumbprint L key = Inr th \<and>
             idx ps ''dpop_jkt'' \<in> {[], th} \<and> ps' = ps(''dpop_jkt'' \<mapsto> th))"
  by (auto simp: bindDPoPKey_def Let_def split: sum.splits prod.splits if_splits)

lemma HandlePar_Inr:
  assumes "HandlePar L svc w ps wia pop dpop st = (Inr (uri, n), st')"
  obtains c ps' js where "idx ps ''request_uri'' = []"
    "Resolve L (az_attestations svc) (clk w 0) wia pop (idx ps ''client_assertion_type'')
       (idx ps ''client_assertion'') = Inr c" "c \<noteq> []"
    "(ps(boundClientIDKey \<mapsto> c)) ''response_type'' \<in> {None, Some ''code''}"
    "idx (ps(boundClientIDKey \<mapsto> c)) ''code_challenge'' \<noteq> []"
    "idx (ps(boundClientIDKey \<mapsto> c)) ''code_challenge_method'' = ''S256''"
    "bindDPoPKey L svc (clk w 1) (ord w) dpop (ps(boundClientIDKey \<mapsto> c)) (jtis st) = (Inr ps', js)"
    "uri = requestURIPrefix @ RandomToken 16 (rnd w 0)" "n = 60"
    "st' = \<lparr>sessions = StoreParRequest (clk w 2) uri ps' (sessions st), jtis = js\<rparr>"
  using assms unfolding HandlePar_def Let_def
  by (auto split: if_splits sum.splits prod.splits option.splits)

lemma grantToken_Inr:
  assumes "grantToken L svc w req c key sess st = (Inr tok, st')"
  obtains t jti where "str_or_empty (sd_Metadata sess boundClientIDKey) \<in> {[], c}"
    "str_or_empty (sd_Metadata sess ''dpop_jkt'') \<noteq> [] \<Longrightarrow>
       DPoPThumbprint L key = Inr (str_or_empty (sd_Metadata sess ''dpop_jkt''))"
    "tr_CodeVerifier req \<noteq> []"
    "str_or_empty (sd_Metadata sess ''code_challenge'') = computeS256Challenge (tr_CodeVerifier req)"
    "Mint L (az_minter svc) (clk w 4) (rnd w 1)
       \<lparr>atc_IssuanceRecordID = str_or_empty (sd_Metadata sess ''issuanceRecordId''),
        atc_CNonce = GenerateNonce (rnd w 0), atc_ClientID = c, atc_DPoPKey = key\<rparr> = Inr (t, jti)"
    "tok = DPoPToken t" "st' = st\<lparr>sessions := RecordIssuedJTI (tr_Code req) jti (sessions st)\<rparr>"
  using assms unfolding grantToken_def Let_def
  by (auto simp: VerifyPKCES256_def split: if_splits sum.splits)

lemma grantToken_Inl:
  assumes "grantToken L svc w req c key sess st = (Inl e, st')"
  shows "st' = st \<and> ((\<exists>d. e = BadRequest InvalidGrant d) \<or>
    (\<exists>d. e = BadRequest InvalidRequest (''Failed to mint access token: '' @ d)))"
  using assms unfolding grantToken_def Let_def by (auto split: if_splits sum.splits)

text \<open>The handler up to the redemption of the code.\<close>

lemma HandleAuthCodeToken_redeems:
  assumes "Resolve L (az_attestations svc) (clk w 0) wia pop (tr_ClientAssertionType req)
      (tr_ClientAssertion req) = Inr c" and "c \<noteq> []" and "tr_ClientID req \<in> {[], c}"
    and "ValidateDPoPProof L (clk w 1) (ord w) dpop ''POST'' (az_baseURL svc @ ''/oid4vci/v1/token'') []
      (jtis st) = (Inr key, js)" and "tr_Code req \<noteq> []"
  shows "HandleAuthCodeToken L svc w req dpop wia pop st =
    (case ConsumeAuthCode (clk w 2) (tr_Code req) (sessions st) of
       ((None, reused), s) \<Rightarrow>
         (Inl (BadRequest InvalidGrant ''Invalid authorization code''),
          \<lparr>sessions = (if reused then RevokeTokensForCode (clk w 3) (tr_Code req) s else s), jtis = js\<rparr>)
     | ((Some sess, _), s) \<Rightarrow> grantToken L svc w req c key sess \<lparr>sessions = s, jtis = js\<rparr>)"
  using assms by (cases st) (auto simp: HandleAuthCodeToken_def split: option.splits prod.splits)

lemma HandleAuthCodeToken_grants:
  assumes "HandleAuthCodeToken L svc w req dpop wia pop st = (Inr tok, st')"
  obtains c key js sess st1 where
    "Resolve L (az_attestations svc) (clk w 0) wia pop (tr_ClientAssertionType req)
       (tr_ClientAssertion req) = Inr c" "c \<noteq> []" "tr_ClientID req \<in> {[], c}"
    "ValidateDPoPProof L (clk w 1) (ord w) dpop ''POST'' (az_baseURL svc @ ''/oid4vci/v1/token'') []
       (jtis st) = (Inr key, js)" "tr_Code req \<noteq> []"
    "authCodes (sessions st) (tr_Code req) = Some sess" "clk w 2 - sd_CreatedAt sess \<le> authCodeTTL"
    "st1 = \<lparr>sessions = (sessions st)\<lparr>authCodes := (authCodes (sessions st))(tr_Code req := None)\<rparr>, jtis = js\<rparr>"
    "grantToken L svc w req c key sess st1 = (Inr tok, st')"
proof -
  obtain c where c: "Resolve L (az_attestations svc) (clk w 0) wia pop (tr_ClientAssertionType req)
      (tr_ClientAssertion req) = Inr c" "c \<noteq> []" "tr_ClientID req \<in> {[], c}"
    using assms by (auto simp: HandleAuthCodeToken_def split: sum.splits if_splits)
  obtain key js where k: "ValidateDPoPProof L (clk w 1) (ord w) dpop ''POST'' (az_baseURL svc @ ''/oid4vci/v1/token'') []
      (jtis st) = (Inr key, js)" "tr_Code req \<noteq> []"
    using assms c by (auto simp: HandleAuthCodeToken_def Let_def split: sum.splits prod.splits if_splits)
  obtain sess s where s: "ConsumeAuthCode (clk w 2) (tr_Code req) (sessions st) = ((Some sess, False), s)"
    and g: "grantToken L svc w req c key sess \<lparr>sessions = s, jtis = js\<rparr> = (Inr tok, st')"
    using assms HandleAuthCodeToken_redeems [OF c k]
    by (auto simp: ConsumeAuthCode_Some split: option.splits prod.splits)
  show thesis by (rule that [OF c k]) (use s g in \<open>auto simp: ConsumeAuthCode_Some\<close>)
qed

lemma HandleAuthCodeToken_Inr:
  assumes "HandleAuthCodeToken L svc w req dpop wia pop st = (Inr tok, st')"
  obtains c key js sess t jti where
    "Resolve L (az_attestations svc) (clk w 0) wia pop (tr_ClientAssertionType req)
       (tr_ClientAssertion req) = Inr c" "c \<noteq> []" "tr_ClientID req \<in> {[], c}"
    "ValidateDPoPProof L (clk w 1) (ord w) dpop ''POST'' (az_baseURL svc @ ''/oid4vci/v1/token'') []
       (jtis st) = (Inr key, js)" "tr_Code req \<noteq> []"
    "authCodes (sessions st) (tr_Code req) = Some sess"
    "clk w 2 - sd_CreatedAt sess \<le> authCodeTTL"
    "str_or_empty (sd_Metadata sess boundClientIDKey) \<in> {[], c}"
    "str_or_empty (sd_Metadata sess ''dpop_jkt'') \<noteq> [] \<Longrightarrow>
       DPoPThumbprint L key = Inr (str_or_empty (sd_Metadata sess ''dpop_jkt''))"
    "tr_CodeVerifier req \<noteq> []"
    "str_or_empty (sd_Metadata sess ''code_challenge'') = computeS256Challenge (tr_CodeVerifier req)"
    "Mint L (az_minter svc) (clk w 4) (rnd w 1)
       \<lparr>atc_IssuanceRecordID = str_or_empty (sd_Metadata sess ''issuanceRecordId''),
        atc_CNonce = GenerateNonce (rnd w 0), atc_ClientID = c, atc_DPoPKey = key\<rparr> = Inr (t, jti)"
    "tok = DPoPToken t"
    "st' = \<lparr>sessions = (sessions st)\<lparr>authCodes := (authCodes (sessions st))(tr_Code req := None),
              issuedJTIByCode := (issuedJTIByCode (sessions st))(tr_Code req \<mapsto> jti)\<rparr>, jtis = js\<rparr>"
  using assms
proof (rule HandleAuthCodeToken_grants)
  fix c key js sess st1
  assume k: "Resolve L (az_attestations svc) (clk w 0) wia pop (tr_ClientAssertionType req)
       (tr_ClientAssertion req) = Inr c" "c \<noteq> []" "tr_ClientID req \<in> {[], c}"
    "ValidateDPoPProof L (clk w 1) (ord w) dpop ''POST'' (az_baseURL svc @ ''/oid4vci/v1/token'') []
       (jtis st) = (Inr key, js)" "tr_Code req \<noteq> []"
    "authCodes (sessions st) (tr_Code req) = Some sess" "clk w 2 - sd_CreatedAt sess \<le> authCodeTTL"
    and st1: "st1 = \<lparr>sessions = (sessions st)\<lparr>authCodes := (authCodes (sessions st))(tr_Code req := None)\<rparr>, jtis = js\<rparr>"
    and g: "grantToken L svc w req c key sess st1 = (Inr tok, st')"
  from g show thesis by (rule grantToken_Inr) (use st1 in \<open>auto simp: RecordIssuedJTI_def intro: that [OF k]\<close>)
qed

lemma completeAuthorize_eq:
  "completeAuthorize now draws recID ps s =
     (\<lparr>ar_Code = RandomToken 32 (draws 1), ar_RedirectURI = idx ps ''redirect_uri'',
       ar_State = idx ps ''state'', ar_IdentifyRedirect = []\<rparr>,
      s\<lparr>authCodes := (authCodes s)(RandomToken 32 (draws 1) \<mapsto>
          \<lparr>sd_SessionID = RandomToken 16 (draws 0), sd_CreatedAt = now,
           sd_Metadata = authCodeMetadata recID ps\<rparr>)\<rparr>)"
  by (simp add: completeAuthorize_def CreateAuthCode_def Let_def)

text \<open>The issuance record a pushed request already names through its \<^verbatim>\<open>issuer_state\<close>, if any.\<close>

definition offered_record :: "net \<Rightarrow> authz_service \<Rightarrow> params \<Rightarrow> string + string" where
  "offered_record N svc ps =
     (if idx ps ''issuer_state'' = [] then Inr []
      else case FindByIssuerState N (az_issuer svc) (idx ps ''issuer_state'') of
        Inl e \<Rightarrow> Inl e | Inr None \<Rightarrow> Inr [] | Inr (Some r) \<Rightarrow> Inr r)"

definition client_matches :: "string \<Rightarrow> params \<Rightarrow> bool" where
  "client_matches cid ps \<longleftrightarrow> cid = [] \<or> idx ps ''client_id'' \<in> {[], cid}"

lemma HandleAuthorize_live:
  assumes "uri \<noteq> []" and "PeekParRequest (clk w 0) uri (sessions st) = (Some ps, sessions st)"
    and "client_matches cid ps" and "offered_record N svc ps = Inr rec"
  shows "HandleAuthorize N svc w uri cid cookie st =
    (if rec \<noteq> [] then
       (case ConsumeParRequest (clk w 1) uri (sessions st) of
          (None, s) \<Rightarrow> (Inl (BadRequest InvalidRequest ''Invalid or expired request_uri''), st\<lparr>sessions := s\<rparr>)
        | (Some ps, s) \<Rightarrow>
            apfst Inr (apsnd (\<lambda>s. st\<lparr>sessions := s\<rparr>) (completeAuthorize (clk w 2) (rnd w) rec ps s)))
     else case CheckIdentified (clk w 1) cookie uri (sessions st) of
          Some (rec', ps') \<Rightarrow>
            apfst Inr (apsnd (\<lambda>s. st\<lparr>sessions := s\<rparr>)
              (completeAuthorize (clk w 2) (rnd w) rec' ps' (sessions st)))
        | None \<Rightarrow>
            (Inr \<lparr>ar_Code = [], ar_RedirectURI = [], ar_State = [],
               ar_IdentifyRedirect = az_baseURL svc @ ''/identify/?session='' @ RandomToken 16 (rnd w 0)\<rparr>,
             st\<lparr>sessions := snd (StorePendingAuth (rnd w 0) (ps(pendingRequestURIKey \<mapsto> uri)) (sessions st))\<rparr>))"
  using assms
  by (cases st) (auto simp: HandleAuthorize_def offered_record_def client_matches_def completeAuthorize_eq Let_def
      StorePendingAuth_def split: if_splits sum.splits option.splits prod.splits)

lemma HandleAuthorize_Inr:
  assumes "HandleAuthorize N svc w uri cid cookie st = (Inr r, st')"
  obtains ps rec where "uri \<noteq> []" "PeekParRequest (clk w 0) uri (sessions st) = (Some ps, sessions st)"
    "client_matches cid ps" "offered_record N svc ps = Inr rec"
proof -
  obtain x s where p: "PeekParRequest (clk w 0) uri (sessions st) = (x, s)" by fastforce
  have "uri \<noteq> [] \<and> (\<exists>ps rec. x = Some ps \<and> client_matches cid ps \<and> offered_record N svc ps = Inr rec)"
    using assms p unfolding HandleAuthorize_def Let_def
    by (cases x) (auto simp: client_matches_def offered_record_def split: if_splits sum.splits option.splits)
  then show thesis using that p by (auto simp: PeekParRequest_Some)
qed

text \<open>
  C39: the authorization response adds exactly \<^verbatim>\<open>code\<close>, \<^verbatim>\<open>state\<close> (when the client sent one) and
  \<^verbatim>\<open>iss\<close> to the client's redirect URI: everything else of the URI is kept, and reading the new query
  string back gives every parameter it already had, with these three set.
\<close>

theorem redirect_merges_query:
  assumes "BuildAuthorizationRedirect L r issuer = Inr loc"
  shows "\<exists>u q. url_Parse L (ar_RedirectURI r) = Inr u \<and> loc = url_String L (u\<lparr>url_RawQuery := q\<rparr>) \<and>
    map_of (ParseQuery q) = (map_of (ParseQuery (url_RawQuery u)) ++
      (if ar_State r = [] then Map.empty else [''state'' \<mapsto> [ar_State r]]))
      (''code'' \<mapsto> [ar_Code r], ''iss'' \<mapsto> [issuer])"
proof -
  obtain u where u: "url_Parse L (ar_RedirectURI r) = Inr u"
    using assms by (auto simp: BuildAuthorizationRedirect_def split: sum.splits)
  define m where "m = values_set ''code'' (ar_Code r) (ParseQuery (url_RawQuery u))"
  define m' where "m' = values_set ''iss'' issuer (if ar_State r \<noteq> [] then values_set ''state'' (ar_State r) m else m)"
  have "values_wf m'" by (simp add: m'_def m_def)
  note eq = ParseQuery_Encode [OF this]
  have "loc = url_String L (u\<lparr>url_RawQuery := values_Encode m'\<rparr>)"
    using assms u by (auto simp: BuildAuthorizationRedirect_def m'_def m_def Let_def)
  then show ?thesis using u eq
    by (intro exI [of _ u] exI [of _ "values_Encode m'"])
      (auto simp: m'_def m_def fun_eq_iff map_add_def split: option.splits)
qed

theorem redirect_merges_query_witness:
  "\<exists>u q. url_Parse ex_lib ''https://w/cb?x=1'' = Inr u \<and>
     BuildAuthorizationRedirect ex_lib
       \<lparr>ar_Code = ''c'', ar_RedirectURI = ''https://w/cb?x=1'', ar_State = ''s'', ar_IdentifyRedirect = []\<rparr> ''i'' =
       Inr (url_String ex_lib (u\<lparr>url_RawQuery := q\<rparr>)) \<and>
     map_of (ParseQuery q) ''x'' = Some [''1''] \<and> map_of (ParseQuery q) ''code'' = Some [''c'']"
proof -
  let ?r = "\<lparr>ar_Code = ''c'', ar_RedirectURI = ''https://w/cb?x=1'', ar_State = ''s'', ar_IdentifyRedirect = []\<rparr>"
  have x: "url_Parse ex_lib ''https://w/cb?x=1'' = Inr \<lparr>url_Base = ''https://w/cb'', url_RawQuery = ''x=1'', url_Fragment = []\<rparr>"
    by (simp add: ex_lib_def go_cut_def)
  have "map_of (ParseQuery ''x=1'') ''x'' = Some [''1'']" by code_simp
  moreover obtain loc where "BuildAuthorizationRedirect ex_lib ?r ''i'' = Inr loc"
    using x by (simp add: BuildAuthorizationRedirect_def Let_def)
  ultimately show ?thesis using redirect_merges_query [of ex_lib ?r "''i''" loc] x by fastforce
qed

subsection \<open>Pushed authorization requests\<close>

text \<open>
  What a successful PAR call establishes about the parameters it stores: they carry the attested
  client, the S256 challenge the client sent, and the DPoP key thumbprint that the proof attached to
  the request, or else the declared \<^verbatim>\<open>dpop_jkt\<close>, fixes; all other parameters are the client's own.
\<close>

record par_call =
  pc_world :: world
  pc_params :: params
  pc_wia :: string
  pc_pop :: string
  pc_dpop :: string
  pc_uri :: string
  pc_stored :: params

definition par_granted :: "lib \<Rightarrow> authz_service \<Rightarrow> par_call \<Rightarrow> bool" where
  "par_granted L svc q \<longleftrightarrow> (let ps = pc_params q; stored = pc_stored q; w = pc_world q in
     pc_uri q = requestURIPrefix @ RandomToken 16 (rnd w 0) \<and>
     idx stored boundClientIDKey \<noteq> [] \<and>
     client_attested L (az_attestations svc) (clk w 0) (pc_wia q) (pc_pop q)
       (idx ps ''client_assertion_type'') (idx ps ''client_assertion'') (idx stored boundClientIDKey) \<and>
     idx ps ''code_challenge'' \<noteq> [] \<and> idx ps ''code_challenge_method'' = ''S256'' \<and>
     ps ''response_type'' \<in> {None, Some ''code''} \<and>
     (if pc_dpop q = [] then stored ''dpop_jkt'' = ps ''dpop_jkt''
      else \<exists>key th. proof_ok L (clk w 1) (pc_dpop q) ''POST'' (az_baseURL svc @ ''/oid4vci/v1/par'') [] key \<and>
             DPoPThumbprint L key = Inr th \<and> stored ''dpop_jkt'' = Some th \<and> idx ps ''dpop_jkt'' \<in> {[], th}) \<and>
     (\<forall>k. k \<noteq> boundClientIDKey \<longrightarrow> k \<noteq> ''dpop_jkt'' \<longrightarrow> stored k = ps k))"

lemma HandlePar_granted:
  assumes "HandlePar L svc w ps wia pop dpop st = (Inr (uri, n), st')"
  obtains q js where "par_granted L svc q" "pc_world q = w" "pc_params q = ps" "pc_wia q = wia"
    "pc_pop q = pop" "pc_dpop q = dpop" "pc_uri q = uri"
    "st' = \<lparr>sessions = StoreParRequest (clk w 2) uri (pc_stored q) (sessions st), jtis = js\<rparr>"
  using assms
proof (rule HandlePar_Inr)
  fix c ps' js
  assume r: "Resolve L (az_attestations svc) (clk w 0) wia pop (idx ps ''client_assertion_type'')
      (idx ps ''client_assertion'') = Inr c" "c \<noteq> []"
    and b: "bindDPoPKey L svc (clk w 1) (ord w) dpop (ps(boundClientIDKey \<mapsto> c)) (jtis st) = (Inr ps', js)"
    and rest: "(ps(boundClientIDKey \<mapsto> c)) ''response_type'' \<in> {None, Some ''code''}"
      "idx (ps(boundClientIDKey \<mapsto> c)) ''code_challenge'' \<noteq> []"
      "idx (ps(boundClientIDKey \<mapsto> c)) ''code_challenge_method'' = ''S256''"
      "uri = requestURIPrefix @ RandomToken 16 (rnd w 0)"
    and st': "st' = \<lparr>sessions = StoreParRequest (clk w 2) uri ps' (sessions st), jtis = js\<rparr>"
  let ?q = "\<lparr>pc_world = w, pc_params = ps, pc_wia = wia, pc_pop = pop, pc_dpop = dpop, pc_uri = uri,
    pc_stored = ps'\<rparr>"
  have "par_granted L svc ?q"
    using Resolve_attested [OF r] r(2) b rest
    by (auto simp: par_granted_def Let_def bindDPoPKey_Inr ValidateDPoPProof_Inr boundClientIDKey_def
        split: if_splits)
  then show thesis using that [of ?q js] st' by simp
qed

text \<open>
  C9: a pushed authorization request is accepted only from an attested client, with an S256
  challenge and, where a DPoP proof is attached, a valid one; what is stored under the returned
  \<^verbatim>\<open>request_uri\<close>, and can be read back for the 60 s announced, is bound to that client, challenge and
  key, whatever internal keys the client tried to set itself. A refused request stores nothing.
\<close>

theorem par_binds_client_and_key:
  assumes "HandlePar L svc w ps wia pop dpop st = (r, st')"
  shows "case r of
      Inl e \<Rightarrow> sessions st' = sessions st
    | Inr (uri, n) \<Rightarrow> n = 60 \<and>
        (\<exists>q. par_granted L svc q \<and> pc_world q = w \<and> pc_params q = ps \<and> pc_wia q = wia \<and>
             pc_pop q = pop \<and> pc_dpop q = dpop \<and> pc_uri q = uri \<and>
             (\<forall>now. fst (PeekParRequest now uri (sessions st')) =
                (if now - clk w 2 > 60 * second then None else Some (pc_stored q))))"
proof (cases r)
  case (Inl e)
  then show ?thesis using assms
    by (auto simp: HandlePar_def Let_def split: if_splits sum.splits prod.splits)
next
  case (Inr a)
  then obtain uri n where a: "r = Inr (uri, n)" by (cases a) auto
  with assms have h: "HandlePar L svc w ps wia pop dpop st = (Inr (uri, n), st')" by simp
  then have "n = 60" by (rule HandlePar_Inr)
  moreover from h obtain q js where "par_granted L svc q" "pc_world q = w" "pc_params q = ps" "pc_wia q = wia"
    "pc_pop q = pop" "pc_dpop q = dpop" "pc_uri q = uri"
    "st' = \<lparr>sessions = StoreParRequest (clk w 2) uri (pc_stored q) (sessions st), jtis = js\<rparr>"
    by (rule HandlePar_granted)
  ultimately show ?thesis using a
    by (auto simp: StoreParRequest_def PeekParRequest_def parRequestTTL_def intro!: exI [of _ q])
qed

definition ex_uri :: "char \<Rightarrow> string" where
  "ex_uri c = requestURIPrefix @ RandomToken 16 (\<lambda>_. [c])"

definition ex_stored :: params where
  "ex_stored = ex_params(boundClientIDKey \<mapsto> ''client'', ''dpop_jkt'' \<mapsto> RawURL_Encode ''thumb'')"

lemma computeS256Challenge_nonempty [simp]: "computeS256Challenge v \<noteq> []"
  using length_sha256 [of v] by (auto simp: computeS256Challenge_def)

lemma ex_thumbprint: "DPoPThumbprint ex_lib k = Inr (RawURL_Encode ''thumb'')"
  by (simp add: DPoPThumbprint_def ex_lib_def)

lemma ex_base_service [simp]: "az_baseURL ex_service = ex_base"
  by (simp add: ex_service_def NewService_def)

lemma ex_HandlePar:
  assumes "0 \<le> t" "t \<le> minute" "''j1'' \<notin> set (jtis st)" "length (jtis st) < jtiStoreMaxSize"
  shows "HandlePar ex_lib ex_service (ex_world t c) ex_params ''wia'' ''pop'' ''dpop1'' st =
    (Inr (ex_uri c, 60), \<lparr>sessions = StoreParRequest t (ex_uri c) ex_stored (sessions st), jtis = ''j1'' # jtis st\<rparr>)"
proof -
  have "idx ex_params k = idx (ex_params(boundClientIDKey \<mapsto> x)) k" if "k \<noteq> boundClientIDKey" for k x
    using that by simp
  moreover have "bindDPoPKey ex_lib ex_service t id ''dpop1'' (ex_params(boundClientIDKey \<mapsto> ''client'')) (jtis st) =
      (Inr ex_stored, ''j1'' # jtis st)"
    using ex_dpop1 [OF assms, of id] ex_thumbprint
    by (auto simp: bindDPoPKey_Inr ex_stored_def ex_params_def boundClientIDKey_def)
  ultimately show ?thesis
    using ex_attested [OF assms(1,2)]
    by (simp add: HandlePar_def ex_world_def ex_uri_def boundClientIDKey_def ex_params_def Let_def)
qed

theorem par_binds_client_and_key_witness:
  "\<exists>q. par_granted ex_lib ex_service q \<and> pc_uri q = ex_uri (CHR ''u'') \<and> idx (pc_stored q) boundClientIDKey = ''client''"
proof -
  let ?st' = "\<lparr>sessions = StoreParRequest 0 (ex_uri (CHR ''u'')) ex_stored NewStore, jtis = [''j1'']\<rparr>"
  have "HandlePar ex_lib ex_service (ex_world 0 (CHR ''u'')) ex_params ''wia'' ''pop'' ''dpop1'' init_state =
      (Inr (ex_uri (CHR ''u''), 60), ?st')"
    using ex_HandlePar [of 0 init_state "CHR ''u''"] jti_bounds(3)
    by (simp add: init_state_def NewJTIStore_def minute_def second_def)
  from par_binds_client_and_key [OF this] obtain q where q: "par_granted ex_lib ex_service q"
    "pc_uri q = ex_uri (CHR ''u'')" "fst (PeekParRequest 0 (ex_uri (CHR ''u'')) (sessions ?st')) = Some (pc_stored q)"
    by (fastforce simp: ex_world_def second_def)
  then have "pc_stored q = ex_stored"
    by (simp add: StoreParRequest_def PeekParRequest_def parRequestTTL_def second_def)
  with q(1,2) show ?thesis
    by (intro exI [of _ q]) (simp add: ex_stored_def boundClientIDKey_def)
qed

subsection \<open>Authorization\<close>

text \<open>
  A visit to the authorization endpoint that finds neither an offered issuance record nor a valid
  identification cookie answers with a redirect to the identification page and nothing else: no code
  is created, the \<^verbatim>\<open>request_uri\<close> stays exactly as usable as it was, and the identification session
  holds the pushed parameters together with the \<^verbatim>\<open>request_uri\<close> they came from.
\<close>

lemma first_visit_defers:
  assumes "uri \<noteq> []" and "PeekParRequest (clk w 0) uri (sessions st) = (Some ps, sessions st)"
    and "client_matches cid ps" and "offered_record N svc ps = Inr []"
    and "CheckIdentified (clk w 1) cookie uri (sessions st) = None"
  shows "\<exists>token st'. HandleAuthorize N svc w uri cid cookie st =
      (Inr \<lparr>ar_Code = [], ar_RedirectURI = [], ar_State = [],
            ar_IdentifyRedirect = az_baseURL svc @ ''/identify/?session='' @ token\<rparr>, st') \<and>
    authCodes (sessions st') = authCodes (sessions st) \<and>
    parRequests (sessions st') = parRequests (sessions st) \<and>
    PeekParRequest (clk w 0) uri (sessions st') = (Some ps, sessions st') \<and>
    GetPendingAuth token (sessions st') = Some (ps(pendingRequestURIKey \<mapsto> uri))"
  using HandleAuthorize_live [OF assms(1-4), of cookie] assms(2,5)
  by (auto simp: StorePendingAuth_def GetPendingAuth_def Let_def PeekParRequest_Some)


text \<open>The example flow: a pushed request, a first visit, a completed identification.\<close>

definition ex_tok :: "char \<Rightarrow> string" where
  "ex_tok c = RawURL_Encode [c]"

lemma ex_RandomToken: "RandomToken n (rnd (ex_world t c) i) = ex_tok c"
  by (simp add: RandomToken_def ex_world_def ex_tok_def)

lemma ex_tok_simps [simp]: "ex_tok c \<noteq> []" "ex_tok c = ex_tok d \<longleftrightarrow> c = d"
  using raw_url.enc_eq_iff [of "[c]" "[d]"] by (auto simp: ex_tok_def)

definition ex_identified_store :: store where
  "ex_identified_store = NewStore\<lparr>
     parRequests := [ex_uri (CHR ''u'') \<mapsto> \<lparr>pr_Params = ex_stored, pr_CreatedAt = 0\<rparr>],
     identifiedSessions := [ex_tok (CHR ''k'') \<mapsto> \<lparr>is_RequestURI = ex_uri (CHR ''u''), is_RecordID = ''rec'',
        is_Params = ex_stored(pendingRequestURIKey \<mapsto> ex_uri (CHR ''u'')), is_CreatedAt = 2 * second\<rparr>],
     identifyReplay := [ex_tok (CHR ''t'') \<mapsto> \<lparr>ir_Redirect =
        ex_base @ ''/oid4vci/v1/authorize?request_uri='' @ QueryEscape (ex_uri (CHR ''u'')),
        ir_Expiry = 2 * second + identifyReplayTTL\<rparr>]\<rparr>"

abbreviation ex_identified :: authz_state where
  "ex_identified \<equiv> \<lparr>sessions = ex_identified_store, jtis = [''j1'']\<rparr>"

lemma ex_uri_nonempty [simp]: "ex_uri c \<noteq> []"
  by (simp add: ex_uri_def requestURIPrefix_def)

lemma ex_params_simps [simp]: "idx ex_stored ''issuer_state'' = []" "idx ex_stored ''client_id'' = ''client''"
  "idx ex_stored ''scope'' = ''pid''" "idx ex_stored ''redirect_uri'' = ''https://w/cb?x=1''"
  "idx ex_stored ''state'' = ''s1''"
  by (simp_all add: ex_stored_def ex_params_def boundClientIDKey_def)

lemma ex_offered [simp]: "offered_record N svc ex_stored = Inr []"
  by (simp add: offered_record_def)

lemma ex_second_visit:
  assumes "2 * second \<le> t" "t \<le> minute"
  shows "HandleAuthorize ex_net ex_service (ex_world t (CHR ''c'')) (ex_uri (CHR ''u'')) ''client'' (ex_tok (CHR ''k''))
       \<lparr>sessions = ex_identified_store, jtis = js\<rparr> =
     (Inr \<lparr>ar_Code = ex_tok (CHR ''c''), ar_RedirectURI = ''https://w/cb?x=1'', ar_State = ''s1'',
           ar_IdentifyRedirect = []\<rparr>,
      \<lparr>sessions = ex_identified_store\<lparr>authCodes := [ex_tok (CHR ''c'') \<mapsto>
         \<lparr>sd_SessionID = ex_tok (CHR ''c''), sd_CreatedAt = t,
          sd_Metadata = authCodeMetadata ''rec'' (ex_stored(pendingRequestURIKey \<mapsto> ex_uri (CHR ''u'')))\<rparr>]\<rparr>,
       jtis = js\<rparr>)"
proof -
  let ?st = "\<lparr>sessions = ex_identified_store, jtis = js\<rparr>"
  have "PeekParRequest (clk (ex_world t (CHR ''c'')) 0) (ex_uri (CHR ''u'')) (sessions ?st) = (Some ex_stored, sessions ?st)"
    using assms by (simp add: PeekParRequest_def ex_identified_store_def ex_world_def const_defs)
  moreover have "CheckIdentified (clk (ex_world t (CHR ''c'')) 1) (ex_tok (CHR ''k'')) (ex_uri (CHR ''u'')) (sessions ?st) =
      Some (''rec'', ex_stored(pendingRequestURIKey \<mapsto> ex_uri (CHR ''u'')))"
    using assms by (simp add: CheckIdentified_def ex_identified_store_def ex_world_def const_defs)
  ultimately show ?thesis
    by (subst HandleAuthorize_live [of _ _ _ ex_stored _ _ _ "[]"])
      (simp_all add: client_matches_def completeAuthorize_eq ex_RandomToken, simp_all add: ex_world_def
        ex_identified_store_def NewStore_def pendingRequestURIKey_def)
qed


text \<open>
  The second visit is also bound by the 60 s of the pushed request, not only by the ten minutes of
  the identification cookie: with the pushed request past its lifetime the endpoint refuses the
  \<^verbatim>\<open>request_uri\<close> and forgets it, although the cookie is still good for it.
\<close>

lemma second_visit_needs_live_par:
  assumes "uri \<noteq> []" and "parRequests (sessions st) uri = Some e"
    and "clk w 0 - pr_CreatedAt e > parRequestTTL"
    and "CheckIdentified (clk w 0) cookie uri (sessions st) = Some (rec, ps)"
  shows "HandleAuthorize N svc w uri cid cookie st =
      (Inl (BadRequest InvalidRequest ''Invalid or expired request_uri''),
       st\<lparr>sessions := (sessions st)\<lparr>parRequests := (parRequests (sessions st))(uri := None)\<rparr>\<rparr>) \<and>
    CheckIdentified (clk w 0) cookie uri (sessions (snd (HandleAuthorize N svc w uri cid cookie st))) = Some (rec, ps)"
  using assms by (auto simp: HandleAuthorize_def PeekParRequest_def CheckIdentified_Some)

lemma second_visit_needs_live_par_witness:
  "fst (HandleAuthorize ex_net ex_service (ex_world (2 * minute) (CHR ''c'')) (ex_uri (CHR ''u'')) ''client''
     (ex_tok (CHR ''k'')) ex_identified) = Inl (BadRequest InvalidRequest ''Invalid or expired request_uri'')"
  using second_visit_needs_live_par [of "ex_uri (CHR ''u'')" ex_identified "\<lparr>pr_Params = ex_stored, pr_CreatedAt = 0\<rparr>"
      "ex_world (2 * minute) (CHR ''c'')" "ex_tok (CHR ''k'')" "''rec''"
      "ex_stored(pendingRequestURIKey \<mapsto> ex_uri (CHR ''u''))" ex_net ex_service "''client''"]
  by (simp add: ex_identified_store_def ex_world_def const_defs CheckIdentified_def)

text \<open>
  The identified branch uses up neither the \<^verbatim>\<open>request_uri\<close> nor the cookie: repeating the second
  visit while both are live yields another code each time, and both codes are then redeemable.
\<close>

lemma identified_visit_repeatable:
  assumes "HandleAuthorize N svc w uri cid cookie st = (Inr r, st')"
    and "ar_IdentifyRedirect r = []" and "parRequests (sessions st') uri \<noteq> None"
    and "fst (PeekParRequest (clk w' 0) uri (sessions st')) \<noteq> None"
    and "CheckIdentified (clk w' 1) cookie uri (sessions st') \<noteq> None"
    and "RandomToken 32 (rnd w' 1) \<noteq> ar_Code r"
  shows "\<exists>r' st''. HandleAuthorize N svc w' uri cid cookie st' = (Inr r', st'') \<and>
    ar_Code r' \<noteq> ar_Code r \<and> ar_RedirectURI r' = ar_RedirectURI r \<and>
    authCodes (sessions st'') (ar_Code r) = authCodes (sessions st') (ar_Code r) \<and>
    (\<exists>d d'. authCodes (sessions st'') (ar_Code r) = Some d \<and> authCodes (sessions st'') (ar_Code r') = Some d' \<and>
       sd_Metadata d' = sd_Metadata d)"
  using assms(1)
proof (rule HandleAuthorize_Inr)
  fix ps rec
  assume u: "uri \<noteq> []" and p: "PeekParRequest (clk w 0) uri (sessions st) = (Some ps, sessions st)"
    and c: "client_matches cid ps" and o: "offered_record N svc ps = Inr rec"
  note eq = HandleAuthorize_live [OF u p c o, of cookie]
  have rec: "rec = []"
  proof (rule ccontr)
    assume "rec \<noteq> []"
    then have "parRequests (sessions st') uri = None" using assms(1) eq
      by (auto simp: completeAuthorize_eq ConsumeParRequest_def Let_def split: option.splits if_splits)
    then show False using assms(3) by simp
  qed
  then obtain rec' ps' where ci: "CheckIdentified (clk w 1) cookie uri (sessions st) = Some (rec', ps')"
    using assms(1,2) eq by (cases "CheckIdentified (clk w 1) cookie uri (sessions st)") auto
  define d where "d = \<lparr>sd_SessionID = RandomToken 16 (rnd w 0), sd_CreatedAt = clk w 2,
    sd_Metadata = authCodeMetadata rec' ps'\<rparr>"
  have r: "ar_Code r = RandomToken 32 (rnd w 1)" "ar_RedirectURI r = idx ps' ''redirect_uri''"
    and st': "st' = st\<lparr>sessions := (sessions st)\<lparr>authCodes := (authCodes (sessions st))(ar_Code r \<mapsto> d)\<rparr>\<rparr>"
    using assms(1) eq rec ci by (auto simp: completeAuthorize_eq d_def)
  have p': "PeekParRequest (clk w' 0) uri (sessions st') = (Some ps, sessions st')"
    using p assms(4) unfolding st' by (auto simp: PeekParRequest_Some PeekParRequest_None_iff)
  have ci': "CheckIdentified (clk w' 1) cookie uri (sessions st') = Some (rec', ps')"
    using ci assms(5) unfolding st' by (auto simp: CheckIdentified_Some)
  show ?thesis
    using HandleAuthorize_live [OF u p' c o, of cookie] rec ci' assms(6) r st'
    by (auto simp: completeAuthorize_eq d_def)
qed

lemma identified_visit_repeatable_witness:
  "\<exists>r' st''. HandleAuthorize ex_net ex_service (ex_world (4 * second) (CHR ''d'')) (ex_uri (CHR ''u'')) ''client''
      (ex_tok (CHR ''k'')) (snd (HandleAuthorize ex_net ex_service (ex_world (3 * second) (CHR ''c''))
        (ex_uri (CHR ''u'')) ''client'' (ex_tok (CHR ''k'')) ex_identified)) = (Inr r', st'') \<and>
     ar_Code r' \<noteq> ex_tok (CHR ''c'')"
proof -
  have t: "2 * second \<le> 3 * second" "3 * second \<le> minute" by (simp_all add: const_defs)
  obtain r st' where v: "HandleAuthorize ex_net ex_service (ex_world (3 * second) (CHR ''c'')) (ex_uri (CHR ''u''))
      ''client'' (ex_tok (CHR ''k'')) ex_identified = (Inr r, st')"
    and r: "ar_IdentifyRedirect r = []" "ar_Code r = ex_tok (CHR ''c'')"
    and s: "parRequests (sessions st') = parRequests ex_identified_store"
      "identifiedSessions (sessions st') = identifiedSessions ex_identified_store"
    using ex_second_visit [OF t, of "[''j1'']"] by simp
  have "\<exists>r' st''. HandleAuthorize ex_net ex_service (ex_world (4 * second) (CHR ''d'')) (ex_uri (CHR ''u''))
      ''client'' (ex_tok (CHR ''k'')) st' = (Inr r', st'') \<and> ar_Code r' \<noteq> ar_Code r \<and>
      ar_RedirectURI r' = ar_RedirectURI r \<and>
      authCodes (sessions st'') (ar_Code r) = authCodes (sessions st') (ar_Code r) \<and>
      (\<exists>d d'. authCodes (sessions st'') (ar_Code r) = Some d \<and> authCodes (sessions st'') (ar_Code r') = Some d' \<and>
       sd_Metadata d' = sd_Metadata d)"
    by (rule identified_visit_repeatable [OF v r(1)])
      (simp_all add: s r(2) ex_RandomToken, simp_all add: s PeekParRequest_def CheckIdentified_def ex_identified_store_def
        ex_world_def const_defs)
  then show ?thesis unfolding v r(2) snd_conv by blast
qed

subsection \<open>Identification\<close>

lemma CompleteIdentification_Inr:
  assumes "CompleteIdentification L N svc w tok data sty sref st = (Inr (redirect, cookie), st')"
    and "GetIdentifyReplay (clk w 0) tok (sessions st) = None"
  obtains ps scope recID where "pendingAuth (sessions st) tok = Some ps" "idx ps pendingRequestURIKey \<noteq> []"
    "identifiedScope ps = Inr scope"
    "issuer_Create L N (az_issuer svc) \<lparr>cr_CredentialType = scope, cr_CredentialData = data,
       cr_SourceType = sty, cr_SourceRef = sref\<rparr> = Inr recID"
    "redirect = az_baseURL svc @ ''/oid4vci/v1/authorize?request_uri='' @ QueryEscape (idx ps pendingRequestURIKey)"
    "cookie = RandomToken 24 (rnd w 0)"
    "st' = st\<lparr>sessions := (sessions st)\<lparr>pendingAuth := (pendingAuth (sessions st))(tok := None),
       identifiedSessions := (identifiedSessions (sessions st))(cookie \<mapsto>
         \<lparr>is_RequestURI = idx ps pendingRequestURIKey, is_RecordID = recID, is_Params = ps, is_CreatedAt = clk w 1\<rparr>),
       identifyReplay := (identifyReplay (sessions st))(tok \<mapsto>
         \<lparr>ir_Redirect = redirect, ir_Expiry = clk w 2 + identifyReplayTTL\<rparr>)\<rparr>\<rparr>"
  using assms unfolding CompleteIdentification_def Let_def
  by (auto simp: ConsumePendingAuth_def MarkIdentified_def StoreIdentifyReplay_def Let_def
      split: option.splits if_splits sum.splits prod.splits)

lemma RejectIdentification_Inr:
  assumes "RejectIdentification L w tok st = (Inr redirect, st')"
    and "GetIdentifyReplay (clk w 0) tok (sessions st) = None"
  obtains ps u q where "pendingAuth (sessions st) tok = Some ps" "url_Parse L (idx ps ''redirect_uri'') = Inr u"
    "redirect = url_String L (u\<lparr>url_RawQuery := q\<rparr>)"
    "map_of (ParseQuery q) = (map_of (ParseQuery (url_RawQuery u)) ++
       (if idx ps ''state'' = [] then Map.empty else [''state'' \<mapsto> [idx ps ''state'']]))
       (''error'' \<mapsto> [''access_denied''],
        ''error_description'' \<mapsto> [''The end-user denied the authorization request''])"
    "st' = st\<lparr>sessions := (sessions st)\<lparr>pendingAuth := (pendingAuth (sessions st))(tok := None),
       identifyReplay := (identifyReplay (sessions st))(tok \<mapsto>
         \<lparr>ir_Redirect = redirect, ir_Expiry = clk w 1 + identifyReplayTTL\<rparr>)\<rparr>\<rparr>"
proof -
  from assms obtain ps u where ps: "pendingAuth (sessions st) tok = Some ps"
    and u: "url_Parse L (idx ps ''redirect_uri'') = Inr u"
    unfolding RejectIdentification_def Let_def
    by (auto simp: ConsumePendingAuth_def split: option.splits sum.splits)
  define m where "m = values_set ''error_description'' ''The end-user denied the authorization request''
    (values_set ''error'' ''access_denied'' (ParseQuery (url_RawQuery u)))"
  define m' where "m' = (if idx ps ''state'' \<noteq> [] then values_set ''state'' (idx ps ''state'') m else m)"
  have r: "redirect = url_String L (u\<lparr>url_RawQuery := values_Encode m'\<rparr>)"
    and st': "st' = st\<lparr>sessions := (sessions st)\<lparr>pendingAuth := (pendingAuth (sessions st))(tok := None),
       identifyReplay := (identifyReplay (sessions st))(tok \<mapsto>
         \<lparr>ir_Redirect = redirect, ir_Expiry = clk w 1 + identifyReplayTTL\<rparr>)\<rparr>\<rparr>"
    using assms ps u unfolding RejectIdentification_def Let_def m'_def m_def
    by (auto simp: ConsumePendingAuth_def StoreIdentifyReplay_def)
  have "map_of (ParseQuery (values_Encode m')) = map_of m'"
    by (rule ParseQuery_Encode) (simp add: m'_def m_def)
  then show thesis
    by (intro that [OF ps u r _ st']) (auto simp: m'_def m_def fun_eq_iff map_add_def split: option.splits)
qed

text \<open>
  C25: completing identification creates the issuance record for exactly the credential the form was
  shown for, and arms the second visit of exactly the \<^verbatim>\<open>request_uri\<close> that was deferred: the cookie
  answers for it, with the new record and the pushed parameters, for ten minutes, and for no other;
  the browser is sent back to the authorization endpoint with that \<^verbatim>\<open>request_uri\<close>, and no code is made.
\<close>

theorem identification_arms_second_visit:
  assumes "CompleteIdentification L N svc w tok data sty sref st = (Inr (redirect, cookie), st')"
    and "GetIdentifyReplay (clk w 0) tok (sessions st) = None" and "rnd w 0 24 \<noteq> []"
  shows "\<exists>ps scope recID q. GetPendingAuth tok (sessions st) = Some ps \<and>
    ResolveIdentifyScope tok st = Inr scope \<and>
    issuer_Create L N (az_issuer svc) \<lparr>cr_CredentialType = scope, cr_CredentialData = data,
       cr_SourceType = sty, cr_SourceRef = sref\<rparr> = Inr recID \<and>
    (\<forall>now uri. CheckIdentified now cookie uri (sessions st') =
       (if uri = idx ps pendingRequestURIKey \<and> now - clk w 1 \<le> 10 * minute then Some (recID, ps) else None)) \<and>
    redirect = az_baseURL svc @ ''/oid4vci/v1/authorize?'' @ q \<and>
    map_of (ParseQuery q) = [''request_uri'' \<mapsto> [idx ps pendingRequestURIKey]] \<and>
    authCodes (sessions st') = authCodes (sessions st) \<and> parRequests (sessions st') = parRequests (sessions st)"
  using assms(1,2)
proof (rule CompleteIdentification_Inr)
  fix ps scope recID
  let ?uri = "idx ps pendingRequestURIKey"
  let ?q = "''request_uri='' @ QueryEscape ?uri"
  assume *: "pendingAuth (sessions st) tok = Some ps" "identifiedScope ps = Inr scope"
    "issuer_Create L N (az_issuer svc) \<lparr>cr_CredentialType = scope, cr_CredentialData = data,
       cr_SourceType = sty, cr_SourceRef = sref\<rparr> = Inr recID"
    "redirect = az_baseURL svc @ ''/oid4vci/v1/authorize?request_uri='' @ QueryEscape ?uri"
    "cookie = RandomToken 24 (rnd w 0)"
    "st' = st\<lparr>sessions := (sessions st)\<lparr>pendingAuth := (pendingAuth (sessions st))(tok := None),
       identifiedSessions := (identifiedSessions (sessions st))(cookie \<mapsto>
         \<lparr>is_RequestURI = ?uri, is_RecordID = recID, is_Params = ps, is_CreatedAt = clk w 1\<rparr>),
       identifyReplay := (identifyReplay (sessions st))(tok \<mapsto>
         \<lparr>ir_Redirect = redirect, ir_Expiry = clk w 2 + identifyReplayTTL\<rparr>)\<rparr>\<rparr>"
  have e: "?q = go_join (CHR ''&'') (map encode_pair [(''request_uri'', ?uri)])"
    by (simp add: encode_pair_def) code_simp
  have q: "map_of (ParseQuery ?q) = [''request_uri'' \<mapsto> [?uri]]"
    unfolding e by (rule ext) (simp only: ParseQuery_join, simp)
  have "cookie \<noteq> []" using assms(3) *(5) by (simp add: RandomToken_def)
  then show ?thesis using * q
    by (intro exI [of _ ps] exI [of _ scope] exI [of _ recID] exI [of _ ?q])
      (auto simp: GetPendingAuth_def ResolveIdentifyScope_def CheckIdentified_def identifiedSessionTTL_def)
qed

definition ex_pending :: authz_state where
  "ex_pending = \<lparr>sessions = NewStore\<lparr>
     parRequests := [ex_uri (CHR ''u'') \<mapsto> \<lparr>pr_Params = ex_stored, pr_CreatedAt = 0\<rparr>],
     pendingAuth := [ex_tok (CHR ''t'') \<mapsto> ex_stored(pendingRequestURIKey \<mapsto> ex_uri (CHR ''u''))]\<rparr>, jtis = [''j1'']\<rparr>"

lemma ex_issuer_Create: "issuer_Create ex_lib ex_net base req = Inr ''rec''"
  by (simp add: issuer_Create_def ex_lib_def ex_net_def decode_struct_def ascii_lower_def)

lemma ex_CompleteIdentification:
  "CompleteIdentification ex_lib ex_net ex_service (ex_world (2 * second) (CHR ''k'')) (ex_tok (CHR ''t'')) data sty sref
     ex_pending =
   (Inr (ex_base @ ''/oid4vci/v1/authorize?request_uri='' @ QueryEscape (ex_uri (CHR ''u'')), ex_tok (CHR ''k'')),
    ex_identified)"
proof -
  let ?ps = "ex_stored(pendingRequestURIKey \<mapsto> ex_uri (CHR ''u''))"
  have "GetIdentifyReplay (clk (ex_world (2 * second) (CHR ''k'')) 0) (ex_tok (CHR ''t'')) (sessions ex_pending) = None"
    by (simp add: GetIdentifyReplay_def ex_pending_def NewStore_def)
  moreover have "ConsumePendingAuth (ex_tok (CHR ''t'')) (sessions ex_pending) =
      (Some ?ps, (sessions ex_pending)\<lparr>pendingAuth := Map.empty\<rparr>)"
    by (simp add: ConsumePendingAuth_def ex_pending_def)
  moreover have "identifiedScope ?ps = Inr ''pid''"
    by (simp add: identifiedScope_def pendingRequestURIKey_def)
  ultimately show ?thesis
    by (simp add: CompleteIdentification_def ex_issuer_Create MarkIdentified_def ex_RandomToken StoreIdentifyReplay_def Let_def)
      (simp add: ex_pending_def ex_identified_store_def NewStore_def ex_world_def)
qed

theorem identification_arms_second_visit_witness:
  "\<exists>recID. CheckIdentified minute (ex_tok (CHR ''k'')) (ex_uri (CHR ''u'')) ex_identified_store =
     Some (recID, ex_stored(pendingRequestURIKey \<mapsto> ex_uri (CHR ''u'')))"
  using identification_arms_second_visit [OF ex_CompleteIdentification]
  by (fastforce simp: ex_pending_def GetIdentifyReplay_def NewStore_def ex_world_def GetPendingAuth_def const_defs)

text \<open>
  C26: an identification session is settled once. After it has been completed, or rejected, every
  later submission of it, to either endpoint, with whatever data, changes nothing: for two minutes it
  gets the same redirect again (and no cookie), afterwards it is refused; in particular a
  completed session is never rejected and no second issuance record is asked for.
\<close>

theorem identification_settled_once:
  assumes "GetIdentifyReplay (clk w 0) tok (sessions st) = None"
    and "CompleteIdentification L N svc w tok data sty sref st = (Inr (redirect, cookie), st') \<and> t = clk w 2 \<or>
         RejectIdentification L w tok st = (Inr redirect, st') \<and> t = clk w 1"
  shows "CompleteIdentification L' N' svc w' tok data' sty' sref' st' =
      ((if clk w' 0 > t + 120 * second then Inl invalid_session else Inr (redirect, [])), st') \<and>
    RejectIdentification L' w' tok st' =
      ((if clk w' 0 > t + 120 * second then Inl invalid_session else Inr redirect), st')"
proof -
  have "pendingAuth (sessions st') tok = None \<and>
      identifyReplay (sessions st') tok = Some \<lparr>ir_Redirect = redirect, ir_Expiry = t + identifyReplayTTL\<rparr>"
    using assms by (auto elim!: CompleteIdentification_Inr RejectIdentification_Inr)
  then show ?thesis
    by (simp add: CompleteIdentification_def RejectIdentification_def GetIdentifyReplay_def
        ConsumePendingAuth_def identifyReplayTTL_def)
qed

theorem identification_settled_once_witness:
  "RejectIdentification ex_lib (ex_world minute (CHR ''z'')) (ex_tok (CHR ''t'')) ex_identified =
     (Inr (ex_base @ ''/oid4vci/v1/authorize?request_uri='' @ QueryEscape (ex_uri (CHR ''u''))), ex_identified)"
  using identification_settled_once [of "ex_world (2 * second) (CHR ''k'')" "ex_tok (CHR ''t'')" ex_pending
      ex_lib ex_net ex_service "[]" "[]" "[]" "ex_base @ ''/oid4vci/v1/authorize?request_uri='' @ QueryEscape (ex_uri (CHR ''u''))"
      "ex_tok (CHR ''k'')" ex_identified "2 * second" ex_lib ex_net
      "ex_world minute (CHR ''z'')" "[]" "[]" "[]"]
    ex_CompleteIdentification [of "[]" "[]" "[]"]
  by (simp add: ex_pending_def GetIdentifyReplay_def NewStore_def)
    (simp add: ex_world_def const_defs)

subsection \<open>Token endpoint\<close>

text \<open>
  C29: what a token request does to a code. Without a valid attestation and DPoP proof no code is
  touched; with them the code presented is gone afterwards whatever the outcome, no other code is
  affected, and every failure from there on is reported as \<^verbatim>\<open>invalid_grant\<close>, or as
  \<^verbatim>\<open>invalid_request\<close> when the token could not be minted.
\<close>

theorem token_request_burns_code:
  assumes "HandleAuthCodeToken L svc w req dpop wia pop st = (r, st')"
  shows "(case Resolve L (az_attestations svc) (clk w 0) wia pop (tr_ClientAssertionType req) (tr_ClientAssertion req) of
      Inl e \<Rightarrow> r = Inl e \<and> st' = st
    | Inr c \<Rightarrow>
        if c = [] \<or> tr_ClientID req \<notin> {[], c} then isl r \<and> st' = st
        else case ValidateDPoPProof L (clk w 1) (ord w) dpop ''POST'' (az_baseURL svc @ ''/oid4vci/v1/token'') [] (jtis st) of
          (Inl e, js) \<Rightarrow> r = Inl e \<and> sessions st' = sessions st
        | (Inr key, js) \<Rightarrow>
            jtis st' = js \<and>
            (if tr_Code req = [] then isl r \<and> sessions st' = sessions st
             else authCodes (sessions st') = (authCodes (sessions st))(tr_Code req := None)) \<and>
            (case r of Inr _ \<Rightarrow> True | Inl e \<Rightarrow> (\<exists>d. e = BadRequest InvalidGrant d) \<or>
                (\<exists>d. e = BadRequest InvalidRequest (''Failed to mint access token: '' @ d))))"
proof (cases "Resolve L (az_attestations svc) (clk w 0) wia pop (tr_ClientAssertionType req) (tr_ClientAssertion req)")
  case (Inl e)
  then show ?thesis using assms by (simp add: HandleAuthCodeToken_def)
next
  case c: (Inr c)
  obtain x js where v: "ValidateDPoPProof L (clk w 1) (ord w) dpop ''POST'' (az_baseURL svc @ ''/oid4vci/v1/token'') []
      (jtis st) = (x, js)" by fastforce
  show ?thesis
  proof (cases "c = [] \<or> tr_ClientID req \<notin> {[], c} \<or> isl x \<or> tr_Code req = []")
    case True
    then show ?thesis using assms c v
      by (cases x) (auto simp: HandleAuthCodeToken_def split: if_splits)
  next
    case False
    then obtain key where x: "x = Inr key" by (cases x) auto
    then have v': "ValidateDPoPProof L (clk w 1) (ord w) dpop ''POST'' (az_baseURL svc @ ''/oid4vci/v1/token'') []
      (jtis st) = (Inr key, js)" using v by simp
    note eq = HandleAuthCodeToken_redeems [OF c _ _ v']
    obtain y reused s where y: "ConsumeAuthCode (clk w 2) (tr_Code req) (sessions st) = ((y, reused), s)"
      by (metis surj_pair)
    then have s: "authCodes s = (authCodes (sessions st))(tr_Code req := None)"
      by (cases y) (auto simp: ConsumeAuthCode_Some dest: ConsumeAuthCode_None)
    have "jtis st' = js \<and> authCodes (sessions st') = (authCodes (sessions st))(tr_Code req := None) \<and>
        (case r of Inr _ \<Rightarrow> True | Inl e \<Rightarrow> (\<exists>d. e = BadRequest InvalidGrant d) \<or>
           (\<exists>d. e = BadRequest InvalidRequest (''Failed to mint access token: '' @ d)))"
    proof (cases y)
      case None
      then show ?thesis using assms eq False y s
        by (auto simp: RevokeTokensForCode_def split: option.splits)
    next
      case (Some sess)
      then have g: "grantToken L svc w req c key sess \<lparr>sessions = s, jtis = js\<rparr> = (r, st')"
        using assms eq False y by simp
      show ?thesis
      proof (cases r)
        case (Inl e)
        then show ?thesis using g grantToken_Inl s by fastforce
      next
        case (Inr tok)
        then show ?thesis using g s by (auto simp: RecordIssuedJTI_def elim!: grantToken_Inr)
      qed
    qed
    then show ?thesis using c False v' by simp
  qed
qed
definition ex_request :: "string \<Rightarrow> token_request" where
  "ex_request code = \<lparr>tr_GrantType = ''authorization_code'', tr_Code = code, tr_RedirectURI = [],
     tr_CodeVerifier = ''verifier'', tr_ClientID = ''client'', tr_ClientAssertionType = [], tr_ClientAssertion = []\<rparr>"

definition ex_metadata :: "string \<rightharpoonup> json" where
  "ex_metadata = authCodeMetadata ''rec'' (ex_stored(pendingRequestURIKey \<mapsto> ex_uri (CHR ''u'')))"

lemma ex_metadata_at:
  "ex_metadata boundClientIDKey = Some (JStr ''client'')" "ex_metadata ''issuanceRecordId'' = Some (JStr ''rec'')"
  "ex_metadata ''code_challenge'' = Some (JStr (computeS256Challenge ''verifier''))"
  "ex_metadata ''dpop_jkt'' = Some (JStr (RawURL_Encode ''thumb''))"
  by (simp_all add: ex_metadata_def authCodeMetadata_def ex_stored_def ex_params_def boundClientIDKey_def
      pendingRequestURIKey_def Let_def)

lemma ex_HandleAuthCodeToken:
  assumes "0 \<le> t" "t \<le> minute" "''j2'' \<notin> set js" "length js < jtiStoreMaxSize"
    and "authCodes s code = Some d" "sd_Metadata d = ex_metadata" "t - sd_CreatedAt d \<le> authCodeTTL" "code \<noteq> []"
  shows "HandleAuthCodeToken ex_lib ex_service (ex_world t c) (ex_request code) ''dpop2'' ''wia'' ''pop''
      \<lparr>sessions = s, jtis = js\<rparr> =
    (Inr (DPoPToken ''signed''),
     \<lparr>sessions = s\<lparr>authCodes := (authCodes s)(code := None),
        issuedJTIByCode := (issuedJTIByCode s)(code \<mapsto> ex_tok c)\<rparr>, jtis = ''j2'' # js\<rparr>)"
proof -
  let ?w = "ex_world t c"
  have w: "clk ?w i = t" "ord ?w = id" "rnd ?w i n = [c]" for i n by (simp_all add: ex_world_def)
  have mint: "Mint ex_lib (az_minter ex_service) t (rnd ?w 1) claims = Inr (''signed'', ex_tok c)" for claims
    by (simp add: Mint_def RandomJTI_def w ex_tok_def DPoPThumbprint_def ex_lib_def)
  have consume: "ConsumeAuthCode t code s = ((Some d, False), s\<lparr>authCodes := (authCodes s)(code := None)\<rparr>)"
    using assms(5,7) by (simp add: ConsumeAuthCode_Some)
  show ?thesis
    using ex_attested [OF assms(1,2)] ex_dpop2 [OF assms(1-4)] assms(8)
    by (subst HandleAuthCodeToken_redeems [where c = "''client''" and key = ex_dpopKey and js = "''j2'' # js"])
      (simp_all add: w ex_request_def consume grantToken_def ex_metadata_at assms(6) ex_thumbprint
        VerifyPKCES256_def mint [unfolded One_nat_def] RecordIssuedJTI_def Let_def)
qed

definition ex_coded :: authz_state where
  "ex_coded = \<lparr>sessions = ex_identified_store\<lparr>authCodes := [ex_tok (CHR ''c'') \<mapsto>
     \<lparr>sd_SessionID = ex_tok (CHR ''c''), sd_CreatedAt = 3 * second, sd_Metadata = ex_metadata\<rparr>]\<rparr>, jtis = [''j1'']\<rparr>"

lemma ex_token_flow:
  "HandleAuthCodeToken ex_lib ex_service (ex_world (4 * second) (CHR ''j'')) (ex_request (ex_tok (CHR ''c'')))
     ''dpop2'' ''wia'' ''pop'' ex_coded =
   (Inr (DPoPToken ''signed''),
     \<lparr>sessions = ex_identified_store\<lparr>authCodes := Map.empty, issuedJTIByCode := [ex_tok (CHR ''c'') \<mapsto> ex_tok (CHR ''j'')]\<rparr>,
      jtis = [''j2'', ''j1'']\<rparr>)"
  unfolding ex_coded_def
  by (subst ex_HandleAuthCodeToken)
    (simp_all add: const_defs jtiStoreMaxSize_def, simp_all add: ex_identified_store_def NewStore_def)

theorem token_request_burns_code_witness:
  "authCodes (sessions (snd (HandleAuthCodeToken ex_lib ex_service (ex_world (4 * second) (CHR ''j''))
     (ex_request (ex_tok (CHR ''c''))) ''dpop2'' ''wia'' ''pop'' ex_coded))) (ex_tok (CHR ''c'')) = None"
proof -
  have w: "clk (ex_world (4 * second) (CHR ''j'')) i = 4 * second" "ord (ex_world (4 * second) (CHR ''j'')) = id" for i
    by (simp_all add: ex_world_def)
  have t: "0 \<le> 4 * second" "4 * second \<le> minute" "''j2'' \<notin> set (jtis ex_coded)" "length (jtis ex_coded) < jtiStoreMaxSize"
    by (simp_all add: const_defs ex_coded_def jtiStoreMaxSize_def)
  obtain r st' where h: "HandleAuthCodeToken ex_lib ex_service (ex_world (4 * second) (CHR ''j''))
     (ex_request (ex_tok (CHR ''c''))) ''dpop2'' ''wia'' ''pop'' ex_coded = (r, st')" by fastforce
  from token_request_burns_code [OF this] show ?thesis
    unfolding w ex_base_service ex_attested [OF t(1,2)] ex_dpop2 [OF t] h
    by (simp add: ex_request_def)
qed

end
