(* ===== verification/Authz_System.thy ===== *)
theory Authz_System
  imports Authz_Flow
begin

text \<open>
  The authorization server as a system: its endpoints as events, applied in any order to one shared
  state. The invariant traces everything the store holds to pushed requests that were accepted; from it
  follow the guarantees on issued tokens, and from the frame lemmas of the handlers that a code buys
  at most one token and that presenting it again revokes that token.
\<close>

subsection \<open>The system\<close>

text \<open>
  Every request the service can receive, with what it reads of the outside world; \<open>EvVerification\<close>
  is any call of the verifier, which shares the store.
\<close>

datatype authz_event =
    EvPar world params string string string
  | EvAuthorize net world string string string
  | EvComplete net world string json_map string string
  | EvReject world string
  | EvToken world token_request string string string
  | EvRevoked time
  | EvVerification time store_op

fun exec_event :: "lib \<Rightarrow> authz_service \<Rightarrow> authz_state \<Rightarrow> authz_event \<Rightarrow> authz_state" where
  "exec_event L svc st (EvPar w ps wia pop dpop) = snd (HandlePar L svc w ps wia pop dpop st)"
| "exec_event L svc st (EvAuthorize N w uri cid cookie) = snd (HandleAuthorize N svc w uri cid cookie st)"
| "exec_event L svc st (EvComplete N w tok data sty sref) =
     snd (CompleteIdentification L N svc w tok data sty sref st)"
| "exec_event L svc st (EvReject w tok) = snd (RejectIdentification L w tok st)"
| "exec_event L svc st (EvToken w req dpop wia pop) = snd (HandleAuthCodeToken L svc w req dpop wia pop st)"
| "exec_event L svc st (EvRevoked now) = snd (authz_RevokedJTIs now st)"
| "exec_event L svc st (EvVerification now op) =
     (if verification_op op then st\<lparr>sessions := exec_op now op (sessions st)\<rparr> else st)"

text \<open>The history kept beside the state: the pushed requests accepted so far.\<close>

fun granted :: "lib \<Rightarrow> authz_service \<Rightarrow> authz_state \<Rightarrow> authz_event \<Rightarrow> par_call set" where
  "granted L svc st (EvPar w ps wia pop dpop) = (case HandlePar L svc w ps wia pop dpop st of
     (Inl _, _) \<Rightarrow> {}
   | (Inr (uri, _), st') \<Rightarrow> (case parRequests (sessions st') uri of None \<Rightarrow> {}
       | Some e \<Rightarrow> {\<lparr>pc_world = w, pc_params = ps, pc_wia = wia, pc_pop = pop, pc_dpop = dpop, pc_uri = uri,
                   pc_stored = pr_Params e\<rparr>}))"
| "granted L svc st _ = {}"

fun logged_step :: "lib \<Rightarrow> authz_service \<Rightarrow> authz_state \<times> par_call set \<Rightarrow> authz_event \<Rightarrow> authz_state \<times> par_call set" where
  "logged_step L svc (st, H) e = (exec_event L svc st e, H \<union> granted L svc st e)"

text \<open>Everything the store holds on behalf of a wallet comes from an accepted pushed request.\<close>

definition par_origin :: "par_call set \<Rightarrow> store \<Rightarrow> bool" where
  "par_origin H s \<longleftrightarrow> (\<forall>uri e. parRequests s uri = Some e \<longrightarrow>
     (\<exists>q\<in>H. pc_uri q = uri \<and> pc_stored q = pr_Params e))"

definition pending_origin :: "par_call set \<Rightarrow> store \<Rightarrow> bool" where
  "pending_origin H s \<longleftrightarrow> (\<forall>tok ps. pendingAuth s tok = Some ps \<longrightarrow>
     (\<exists>q\<in>H. ps = (pc_stored q)(pendingRequestURIKey \<mapsto> pc_uri q)))"

definition identified_origin :: "par_call set \<Rightarrow> store \<Rightarrow> bool" where
  "identified_origin H s \<longleftrightarrow> (\<forall>c e. identifiedSessions s c = Some e \<longrightarrow>
     (\<exists>q\<in>H. is_RequestURI e = pc_uri q \<and> is_Params e = (pc_stored q)(pendingRequestURIKey \<mapsto> pc_uri q)))"

definition code_origin :: "par_call set \<Rightarrow> store \<Rightarrow> bool" where
  "code_origin H s \<longleftrightarrow> (\<forall>c d. authCodes s c = Some d \<longrightarrow>
     (\<exists>q\<in>H. \<exists>rec. sd_Metadata d = authCodeMetadata rec (pc_stored q)))"

lemmas origins = par_origin_def pending_origin_def identified_origin_def code_origin_def

definition store_origin :: "par_call set \<Rightarrow> store \<Rightarrow> bool" where
  "store_origin H s \<longleftrightarrow> par_origin H s \<and> pending_origin H s \<and> identified_origin H s \<and> code_origin H s"

fun authz_inv :: "lib \<Rightarrow> authz_service \<Rightarrow> authz_state \<times> par_call set \<Rightarrow> bool" where
  "authz_inv L svc (st, H) \<longleftrightarrow> (\<forall>q\<in>H. par_granted L svc q) \<and> store_origin H (sessions st)"

lemma authCodeMetadata_pending [simp]:
  "authCodeMetadata rec (ps(pendingRequestURIKey \<mapsto> x)) = authCodeMetadata rec ps"
  by (simp add: authCodeMetadata_def pendingRequestURIKey_def boundClientIDKey_def Let_def)

lemma store_origin_mono:
  assumes "store_origin H s" "H \<subseteq> H'"
  shows "store_origin H' s"
proof -
  have "par_origin H' s" using assms unfolding store_origin_def par_origin_def by blast
  moreover have "pending_origin H' s" using assms unfolding store_origin_def pending_origin_def by blast
  moreover have "identified_origin H' s" using assms unfolding store_origin_def identified_origin_def by blast
  moreover have "code_origin H' s" using assms unfolding store_origin_def code_origin_def by blast
  ultimately show ?thesis by (simp add: store_origin_def)
qed

lemma map_le_Some: "m' \<subseteq>\<^sub>m m \<Longrightarrow> m' k = Some v \<Longrightarrow> m k = Some v"
  by (metis domI map_le_def)

lemma store_origin_shrink:
  assumes "store_origin H s" "parRequests s' \<subseteq>\<^sub>m parRequests s" "pendingAuth s' \<subseteq>\<^sub>m pendingAuth s"
    "identifiedSessions s' \<subseteq>\<^sub>m identifiedSessions s" "authCodes s' \<subseteq>\<^sub>m authCodes s"
  shows "store_origin H s'"
proof -
  note le = assms(2-5) [THEN map_le_Some]
  have "par_origin H s'" using assms(1) le(1) unfolding store_origin_def par_origin_def by blast
  moreover have "pending_origin H s'" using assms(1) le(2) unfolding store_origin_def pending_origin_def by blast
  moreover have "identified_origin H s'" using assms(1) le(3) unfolding store_origin_def identified_origin_def by blast
  moreover have "code_origin H s'" using assms(1) le(4) unfolding store_origin_def code_origin_def by blast
  ultimately show ?thesis by (simp add: store_origin_def)
qed

lemma map_le_delete: "m(k := None) \<subseteq>\<^sub>m m"
  by (simp add: map_le_def)

lemma completeAuthorize_origin:
  assumes "store_origin H s" "q \<in> H" "authCodeMetadata rec ps = authCodeMetadata rec (pc_stored q)"
  shows "store_origin H (snd (completeAuthorize now draws rec ps s))"
  using assms by (auto simp: completeAuthorize_eq store_origin_def origins)

lemma PeekPar_shrinks:
  "store_origin H s \<Longrightarrow> store_origin H (snd (PeekParRequest now uri s))"
  "store_origin H s \<Longrightarrow> store_origin H (snd (ConsumeParRequest now uri s))"
  by (auto simp: PeekParRequest_def ConsumeParRequest_def Let_def map_le_delete split: option.splits
      intro: store_origin_shrink)

lemma HandleAuthorize_origin:
  assumes inv: "store_origin H (sessions st)"
  shows "store_origin H (sessions (snd (HandleAuthorize N svc w uri cid cookie st)))"
proof (cases "HandleAuthorize N svc w uri cid cookie st")
  case (Pair r st')
  show ?thesis
  proof (cases "\<exists>x. r = Inr x")
    case True
    then obtain x where "HandleAuthorize N svc w uri cid cookie st = (Inr x, st')" using Pair by auto
    then show ?thesis
    proof (rule HandleAuthorize_Inr)
      fix ps rec
      assume u: "uri \<noteq> []" and p: "PeekParRequest (clk w 0) uri (sessions st) = (Some ps, sessions st)"
        and c: "client_matches cid ps" and o: "offered_record N svc ps = Inr rec"
      from p obtain q where q: "q \<in> H" "pc_uri q = uri" "pc_stored q = ps"
        using inv unfolding store_origin_def par_origin_def PeekParRequest_Some by metis
      have consumed: "store_origin H (snd (completeAuthorize t draws rec ps' s'))"
        if "ConsumeParRequest (clk w 1) uri (sessions st) = (Some ps', s')" for t draws ps' s'
      proof (rule completeAuthorize_origin)
        show "store_origin H s'" using PeekPar_shrinks(2) [OF inv, of "clk w 1" uri] that by simp
        show "authCodeMetadata rec ps' = authCodeMetadata rec (pc_stored q)"
          using that p q by (auto simp: ConsumeParRequest_Some PeekParRequest_Some)
      qed (rule q)
      have ident: "store_origin H (snd (completeAuthorize t draws rec' ps' (sessions st)))"
        if "CheckIdentified (clk w 1) cookie uri (sessions st) = Some (rec', ps')" for t draws rec' ps'
      proof -
        from that inv obtain q' where "q' \<in> H" "ps' = (pc_stored q')(pendingRequestURIKey \<mapsto> pc_uri q')"
          unfolding store_origin_def identified_origin_def CheckIdentified_Some by metis
        then show ?thesis using inv by (intro completeAuthorize_origin [of _ _ q']) auto
      qed
      have pend: "store_origin H (snd (StorePendingAuth draw (ps(pendingRequestURIKey \<mapsto> uri)) (sessions st)))" for draw
        using inv q unfolding store_origin_def origins StorePendingAuth_def by (auto simp: Let_def)
      show ?thesis
        using HandleAuthorize_live [OF u p c o, of cookie] consumed ident pend PeekPar_shrinks(2) [OF inv, of "clk w 1" uri]
        by (auto split: option.splits prod.splits simp: case_prod_unfold)
    qed
  next
    case False
    then obtain e where "r = Inl e" by (cases r) auto
    then show ?thesis
      using inv Pair PeekPar_shrinks [OF inv] PeekPar_shrinks(2) [OF PeekPar_shrinks(1) [OF inv]]
      unfolding HandleAuthorize_def Let_def
      by (auto split: if_splits sum.splits option.splits prod.splits dest!: arg_cong [where f = snd])
  qed
qed

lemma CompleteIdentification_origin:
  assumes inv: "store_origin H (sessions st)"
  shows "store_origin H (sessions (snd (CompleteIdentification L N svc w tok data sty sref st)))"
proof (cases "GetIdentifyReplay (clk w 0) tok (sessions st)")
  case (Some x)
  then show ?thesis using inv by (simp add: CompleteIdentification_def)
next
  case None
  have del: "store_origin H ((sessions st)\<lparr>pendingAuth := (pendingAuth (sessions st))(tok := None)\<rparr>)"
    using inv by (rule store_origin_shrink) (simp_all add: map_le_delete)
  obtain r st' where h: "CompleteIdentification L N svc w tok data sty sref st = (r, st')" by fastforce
  show ?thesis
  proof (cases r)
    case (Inl e)
    then show ?thesis using h None inv del unfolding CompleteIdentification_def Let_def
      by (auto simp: ConsumePendingAuth_def split: option.splits if_splits sum.splits prod.splits)
  next
    case (Inr a)
    then obtain redirect cookie where h': "CompleteIdentification L N svc w tok data sty sref st = (Inr (redirect, cookie), st')"
      using h by (cases a) auto
    from h' None show ?thesis
    proof (rule CompleteIdentification_Inr)
      fix ps recID
      assume ps: "pendingAuth (sessions st) tok = Some ps"
        and st': "st' = st\<lparr>sessions := (sessions st)\<lparr>pendingAuth := (pendingAuth (sessions st))(tok := None),
       identifiedSessions := (identifiedSessions (sessions st))(cookie \<mapsto>
         \<lparr>is_RequestURI = idx ps pendingRequestURIKey, is_RecordID = recID, is_Params = ps, is_CreatedAt = clk w 1\<rparr>),
       identifyReplay := (identifyReplay (sessions st))(tok \<mapsto>
         \<lparr>ir_Redirect = redirect, ir_Expiry = clk w 2 + identifyReplayTTL\<rparr>)\<rparr>\<rparr>"
      from ps inv obtain q where "q \<in> H" "ps = (pc_stored q)(pendingRequestURIKey \<mapsto> pc_uri q)"
        unfolding store_origin_def pending_origin_def by metis
      then have "\<exists>q\<in>H. idx ps pendingRequestURIKey = pc_uri q \<and> ps = (pc_stored q)(pendingRequestURIKey \<mapsto> pc_uri q)"
        by auto
      then show ?thesis using del h' unfolding st' store_origin_def
        by (auto simp: origins)
    qed
  qed
qed

lemma RejectIdentification_origin:
  assumes inv: "store_origin H (sessions st)"
  shows "store_origin H (sessions (snd (RejectIdentification L w tok st)))"
proof -
  have "parRequests s' \<subseteq>\<^sub>m parRequests (sessions st) \<and> pendingAuth s' \<subseteq>\<^sub>m pendingAuth (sessions st) \<and>
    identifiedSessions s' \<subseteq>\<^sub>m identifiedSessions (sessions st) \<and> authCodes s' \<subseteq>\<^sub>m authCodes (sessions st)"
    if "s' = sessions (snd (RejectIdentification L w tok st))" for s'
    unfolding that RejectIdentification_def Let_def
    by (auto simp: ConsumePendingAuth_def StoreIdentifyReplay_def map_le_delete split: option.splits sum.splits)
  then show ?thesis using inv by (blast intro: store_origin_shrink)
qed

text \<open>What a token request may change in the store: the code it presents and the issued and revoked tokens.\<close>

definition token_frame :: "string \<Rightarrow> store \<Rightarrow> store \<Rightarrow> bool" where
  "token_frame code s s' \<longleftrightarrow> parRequests s' = parRequests s \<and> pendingAuth s' = pendingAuth s \<and>
     identifiedSessions s' = identifiedSessions s \<and> identifyReplay s' = identifyReplay s \<and>
     authCodes s' \<in> {authCodes s, (authCodes s)(code := None)}"

lemma token_frame_refl [simp]: "token_frame code s s"
  by (simp add: token_frame_def)

lemma token_frame_trans: "token_frame code s s' \<Longrightarrow> token_frame code s' s'' \<Longrightarrow> token_frame code s s''"
  by (auto simp: token_frame_def)

lemma token_frame_ops:
  "token_frame code s (snd (ConsumeAuthCode t code s))" "token_frame code s (RevokeTokensForCode t code s)"
  "token_frame code s (RecordIssuedJTI code jti s)"
  by (auto simp: token_frame_def store_defs Let_def split: option.splits)

lemma grantToken_frame:
  "token_frame (tr_Code req) (sessions st) (sessions (snd (grantToken L svc w req c key sess st)))"
  unfolding grantToken_def Let_def by (auto simp: token_frame_ops split: sum.splits)

lemma HandleAuthCodeToken_frame:
  "token_frame (tr_Code req) (sessions st) (sessions (snd (HandleAuthCodeToken L svc w req dpop wia pop st)))"
proof -
  have c: "token_frame (tr_Code req) (sessions st) s" if "ConsumeAuthCode t (tr_Code req) (sessions st) = (x, s)" for t x s
    using token_frame_ops(1) [of "tr_Code req" "sessions st" t] that by simp
  have "token_frame (tr_Code req) (sessions st)
      (sessions (snd (grantToken L svc w req cl key sess (st\<lparr>jtis := js, sessions := s\<rparr>))))"
    if "ConsumeAuthCode t (tr_Code req) (sessions st) = (x, s)" for t x s cl key sess js
    using token_frame_trans [OF c [OF that] grantToken_frame [of req "st\<lparr>jtis := js, sessions := s\<rparr>", simplified]] by simp
  then show ?thesis unfolding HandleAuthCodeToken_def Let_def
    by (auto split: sum.splits prod.splits option.splits dest: c intro: token_frame_trans [OF c token_frame_ops(2)])
qed

lemma HandleAuthCodeToken_origin:
  assumes "store_origin H (sessions st)"
  shows "store_origin H (sessions (snd (HandleAuthCodeToken L svc w req dpop wia pop st)))"
  using assms HandleAuthCodeToken_frame [of req st L svc w dpop wia pop]
  by (intro store_origin_shrink [OF assms]) (auto simp: token_frame_def map_le_delete)

lemma verification_op_frame:
  "verification_op op \<Longrightarrow> parRequests (exec_op now op s) = parRequests s \<and>
     pendingAuth (exec_op now op s) = pendingAuth s \<and> identifiedSessions (exec_op now op s) = identifiedSessions s \<and>
     authCodes (exec_op now op s) = authCodes s \<and> issuedJTIByCode (exec_op now op s) = issuedJTIByCode s \<and>
     revokedJTIs (exec_op now op s) = revokedJTIs s"
  by (cases op) (auto simp: store_defs Let_def split: option.splits)

lemma HandlePar_origin:
  assumes "authz_inv L svc (st, H)"
  shows "authz_inv L svc (logged_step L svc (st, H) (EvPar w ps wia pop dpop))"
proof -
  obtain r st' where h: "HandlePar L svc w ps wia pop dpop st = (r, st')" by fastforce
  show ?thesis
  proof (cases r)
    case (Inl e)
    then have "sessions st' = sessions st" using h
      by (auto simp: HandlePar_def Let_def split: if_splits sum.splits prod.splits)
    then show ?thesis using assms h Inl by simp
  next
    case (Inr a)
    then obtain uri n where a: "a = (uri, n)" by (cases a)
    from h Inr a have "HandlePar L svc w ps wia pop dpop st = (Inr (uri, n), st')" by simp
    then obtain q js where q: "par_granted L svc q" "pc_world q = w" "pc_params q = ps" "pc_wia q = wia"
      "pc_pop q = pop" "pc_dpop q = dpop" "pc_uri q = uri"
      "st' = \<lparr>sessions = StoreParRequest (clk w 2) uri (pc_stored q) (sessions st), jtis = js\<rparr>"
      by (rule HandlePar_granted)
    have g: "granted L svc st (EvPar w ps wia pop dpop) = {q}"
      using h Inr a q(2-8) by (cases q) (auto simp: StoreParRequest_def)
    have "store_origin (insert q H) (sessions st)" using assms by (auto intro: store_origin_mono)
    then have "store_origin (insert q H) (sessions st')"
      using q(7,8) by (auto simp: store_origin_def origins StoreParRequest_def)
    then show ?thesis using assms h q(1) by (simp add: g del: granted.simps)
  qed
qed

lemma logged_step_inv:
  assumes "authz_inv L svc sH"
  shows "authz_inv L svc (logged_step L svc sH e)"
proof -
  obtain st H where sH: "sH = (st, H)" by (cases sH)
  with assms have inv: "store_origin H (sessions st)" by simp
  show ?thesis
  proof (cases e)
    case (EvPar w ps wia pop dpop)
    then show ?thesis using HandlePar_origin assms sH by blast
  next
    case (EvVerification now op)
    then show ?thesis using assms inv verification_op_frame [of op now "sessions st"] sH
      by (auto intro!: store_origin_shrink [OF inv])
  next
    case (EvRevoked now)
    have "store_origin H (sessions (snd (authz_RevokedJTIs now st)))"
      using inv by (rule store_origin_shrink) (simp_all add: authz_RevokedJTIs_def RevokedJTIs_def Let_def)
    then show ?thesis using assms sH EvRevoked by simp
  qed (use assms sH inv HandleAuthorize_origin CompleteIdentification_origin RejectIdentification_origin
      HandleAuthCodeToken_origin in auto)
qed

interpretation authz: state_system "(init_state, {})" "logged_step L svc" "authz_inv L svc" for L svc
proof
  show "authz_inv L svc (init_state, {})"
    by (simp add: init_state_def NewStore_def store_origin_def origins)
qed (rule logged_step_inv)

abbreviation par_event :: "par_call \<Rightarrow> authz_event" where
  "par_event q \<equiv> EvPar (pc_world q) (pc_params q) (pc_wia q) (pc_pop q) (pc_dpop q)"

lemma logged_only_par:
  "snd (foldl (logged_step L svc) sH es) \<subseteq> snd sH \<union> {q. par_event q \<in> set es}"
proof (induction es arbitrary: sH)
  case (Cons e es)
  obtain st H where sH: "sH = (st, H)" by (cases sH)
  have "granted L svc st e \<subseteq> {q. par_event q = e}"
    by (cases e) (auto split: sum.splits option.splits)
  moreover have "snd (foldl (logged_step L svc) (logged_step L svc sH e) es) \<subseteq>
      snd (logged_step L svc sH e) \<union> {q. par_event q \<in> set es}" by (rule Cons.IH)
  ultimately show ?case using sH by auto
qed simp

lemma fst_logged: "fst (foldl (logged_step L svc) (st, H) es) = foldl (exec_event L svc) st es"
  by (induction es arbitrary: st H) simp_all

text \<open>
  What an issued token rests on: the request \<open>req\<close> comes from the attested client that pushed \<open>q\<close>, who
  opens its S256 challenge and holds the DPoP key, which is the one \<open>q\<close> fixed if it fixed one; the
  token is signed over that client and key.
\<close>

definition token_backed ::
  "lib \<Rightarrow> authz_service \<Rightarrow> par_call \<Rightarrow> world \<Rightarrow> token_request \<Rightarrow> string \<Rightarrow> string \<Rightarrow> string \<Rightarrow> token_response \<Rightarrow> bool" where
  "token_backed L svc q w req dpop wia pop tok \<longleftrightarrow> (\<exists>c key th recID t.
    c = idx (pc_stored q) boundClientIDKey \<and>
    client_attested L (az_attestations svc) (clk w 0) wia pop (tr_ClientAssertionType req) (tr_ClientAssertion req) c \<and>
    computeS256Challenge (tr_CodeVerifier req) = idx (pc_params q) ''code_challenge'' \<and>
    proof_ok L (clk w 1) dpop ''POST'' (az_baseURL svc @ ''/oid4vci/v1/token'') [] key \<and>
    DPoPThumbprint L key = Inr th \<and> idx (pc_stored q) ''dpop_jkt'' \<in> {[], th} \<and>
    jwt_Sign L (access_token_body (az_minter svc) (clk w 4) (RandomJTI (rnd w 1)) th
        \<lparr>atc_IssuanceRecordID = recID, atc_CNonce = GenerateNonce (rnd w 0), atc_ClientID = c, atc_DPoPKey = key\<rparr>)
      (accessTokenHeaders (sk_kid (mt_key (az_minter svc)))) (sk_private (mt_key (az_minter svc))) = Inr t \<and>
    tok = DPoPToken t)"

lemma grant_backed:
  assumes q: "par_granted L svc q" "sd_Metadata sess = authCodeMetadata recID (pc_stored q)"
    and c: "Resolve L (az_attestations svc) (clk w 0) wia pop (tr_ClientAssertionType req) (tr_ClientAssertion req) = Inr c"
      "c \<noteq> []"
    and v: "ValidateDPoPProof L (clk w 1) (ord w) dpop ''POST'' (az_baseURL svc @ ''/oid4vci/v1/token'') [] js = (Inr key, js')"
    and g: "grantToken L svc w req c key sess st = (Inr tok, st')"
  shows "token_backed L svc q w req dpop wia pop tok"
  using g
proof (rule grantToken_Inr)
  fix t jti
  assume b: "str_or_empty (sd_Metadata sess boundClientIDKey) \<in> {[], c}"
      "str_or_empty (sd_Metadata sess ''dpop_jkt'') \<noteq> [] \<Longrightarrow>
         DPoPThumbprint L key = Inr (str_or_empty (sd_Metadata sess ''dpop_jkt''))"
      "str_or_empty (sd_Metadata sess ''code_challenge'') = computeS256Challenge (tr_CodeVerifier req)"
    and m: "Mint L (az_minter svc) (clk w 4) (rnd w 1)
       \<lparr>atc_IssuanceRecordID = str_or_empty (sd_Metadata sess ''issuanceRecordId''),
        atc_CNonce = GenerateNonce (rnd w 0), atc_ClientID = c, atc_DPoPKey = key\<rparr> = Inr (t, jti)"
    and t: "tok = DPoPToken t"
  have stored: "idx (pc_stored q) ''code_challenge'' = idx (pc_params q) ''code_challenge''"
    using q(1) by (simp add: par_granted_def idx_def Let_def boundClientIDKey_def)
  have meta: "str_or_empty (sd_Metadata sess boundClientIDKey) = idx (pc_stored q) boundClientIDKey"
    "str_or_empty (sd_Metadata sess ''dpop_jkt'') = idx (pc_stored q) ''dpop_jkt''"
    "str_or_empty (sd_Metadata sess ''code_challenge'') = idx (pc_stored q) ''code_challenge''"
    unfolding q(2) by (auto simp: authCodeMetadata_def boundClientIDKey_def Let_def)
  have "idx (pc_stored q) boundClientIDKey \<noteq> []" using q(1) by (simp add: par_granted_def Let_def)
  then have ceq: "c = idx (pc_stored q) boundClientIDKey" using b(1) meta(1) by auto
  have ok: "proof_ok L (clk w 1) dpop ''POST'' (az_baseURL svc @ ''/oid4vci/v1/token'') [] key"
    using v by (simp add: ValidateDPoPProof_Inr)
  from m obtain th where th: "DPoPThumbprint L key = Inr th"
    "jwt_Sign L (access_token_body (az_minter svc) (clk w 4) (RandomJTI (rnd w 1)) th
        \<lparr>atc_IssuanceRecordID = str_or_empty (sd_Metadata sess ''issuanceRecordId''),
         atc_CNonce = GenerateNonce (rnd w 0), atc_ClientID = c, atc_DPoPKey = key\<rparr>)
      (accessTokenHeaders (sk_kid (mt_key (az_minter svc)))) (sk_private (mt_key (az_minter svc))) = Inr t"
    by (auto simp: Mint_Inr DPoPThumbprint_def)
  show ?thesis
    unfolding token_backed_def
    using ceq Resolve_attested [OF c] b(2,3) meta stored ok th t
    by (intro conjI exI [of _ c] exI [of _ key] exI [of _ th]
        exI [of _ "str_or_empty (sd_Metadata sess ''issuanceRecordId'')"] exI [of _ t]) auto
qed

lemma token_traces:
  assumes run: "foldl (exec_event L svc) init_state es = st"
    and tok: "HandleAuthCodeToken L svc w req dpop wia pop st = (Inr tok, st')"
  shows "\<exists>q. par_event q \<in> set es \<and> par_granted L svc q \<and> token_backed L svc q w req dpop wia pop tok"
proof -
  obtain c key js sess st1 where c: "Resolve L (az_attestations svc) (clk w 0) wia pop (tr_ClientAssertionType req)
       (tr_ClientAssertion req) = Inr c" "c \<noteq> []"
    and v: "ValidateDPoPProof L (clk w 1) (ord w) dpop ''POST'' (az_baseURL svc @ ''/oid4vci/v1/token'') []
       (jtis st) = (Inr key, js)"
    and s: "authCodes (sessions st) (tr_Code req) = Some sess"
    and g: "grantToken L svc w req c key sess st1 = (Inr tok, st')"
    using tok by (rule HandleAuthCodeToken_grants)
  obtain H where H: "foldl (logged_step L svc) (init_state, {}) es = (st, H)"
    using fst_logged [of L svc init_state "{}" es] run by (metis prod.collapse)
  have inv: "authz_inv L svc (st, H)" using authz.reachable_inv [of L svc es] H by simp
  then obtain q recID where q: "q \<in> H" "par_granted L svc q" "sd_Metadata sess = authCodeMetadata recID (pc_stored q)"
    using s unfolding authz_inv.simps store_origin_def code_origin_def by metis
  have "par_event q \<in> set es" using logged_only_par [of L svc "(init_state, {})" es] H q(1) by auto
  then show ?thesis using grant_backed [OF q(2,3) c v g] q(2) by blast
qed

subsection \<open>A complete flow\<close>

definition ex_events :: "authz_event list" where
  "ex_events =
     [EvPar (ex_world 0 (CHR ''u'')) ex_params ''wia'' ''pop'' ''dpop1'',
      EvAuthorize ex_net (ex_world second (CHR ''t'')) (ex_uri (CHR ''u'')) ''client'' [],
      EvComplete ex_net (ex_world (2 * second) (CHR ''k'')) (ex_tok (CHR ''t'')) [] [] [],
      EvAuthorize ex_net (ex_world (3 * second) (CHR ''c'')) (ex_uri (CHR ''u'')) ''client'' (ex_tok (CHR ''k''))]"

lemma ex_first_visit:
  "HandleAuthorize ex_net ex_service (ex_world second (CHR ''t'')) (ex_uri (CHR ''u'')) ''client'' []
     \<lparr>sessions = StoreParRequest 0 (ex_uri (CHR ''u'')) ex_stored NewStore, jtis = [''j1'']\<rparr> =
   (Inr \<lparr>ar_Code = [], ar_RedirectURI = [], ar_State = [],
      ar_IdentifyRedirect = ex_base @ ''/identify/?session='' @ ex_tok (CHR ''t'')\<rparr>, ex_pending)"
proof -
  let ?st = "\<lparr>sessions = StoreParRequest 0 (ex_uri (CHR ''u'')) ex_stored NewStore, jtis = [''j1'']\<rparr>"
  have "PeekParRequest (clk (ex_world second (CHR ''t'')) 0) (ex_uri (CHR ''u'')) (sessions ?st) = (Some ex_stored, sessions ?st)"
    by (simp add: PeekParRequest_def StoreParRequest_def ex_world_def const_defs)
  then show ?thesis
    by (subst HandleAuthorize_live [of _ _ _ ex_stored _ _ _ "[]"])
      (simp_all add: client_matches_def CheckIdentified_def ex_RandomToken StorePendingAuth_def Let_def,
       simp add: ex_pending_def StoreParRequest_def NewStore_def)
qed

lemma ex_flow: "foldl (exec_event ex_lib ex_service) init_state ex_events = ex_coded"
proof -
  have "snd (HandlePar ex_lib ex_service (ex_world 0 (CHR ''u'')) ex_params ''wia'' ''pop'' ''dpop1'' init_state) =
      \<lparr>sessions = StoreParRequest 0 (ex_uri (CHR ''u'')) ex_stored NewStore, jtis = [''j1'']\<rparr>"
    by (subst ex_HandlePar) (simp_all add: init_state_def NewJTIStore_def const_defs jtiStoreMaxSize_def)
  moreover have "snd (HandleAuthorize ex_net ex_service (ex_world (3 * second) (CHR ''c'')) (ex_uri (CHR ''u'')) ''client''
      (ex_tok (CHR ''k'')) ex_identified) = ex_coded"
    by (subst ex_second_visit) (simp_all add: const_defs ex_coded_def ex_metadata_def)
  ultimately show ?thesis
    by (simp add: ex_events_def ex_first_visit ex_CompleteIdentification)
qed

subsection \<open>Codes are redeemed once\<close>

fun draws_code :: "string \<Rightarrow> authz_event \<Rightarrow> bool" where
  "draws_code code (EvAuthorize N w uri cid cookie) \<longleftrightarrow> RandomToken 32 (rnd w 1) = code"
| "draws_code code _ \<longleftrightarrow> False"

fun presents_code :: "string \<Rightarrow> authz_event \<Rightarrow> bool" where
  "presents_code code (EvToken w req dpop wia pop) \<longleftrightarrow> tr_Code req = code"
| "presents_code code _ \<longleftrightarrow> False"

lemma HandlePar_codes:
  "authCodes (sessions (snd (HandlePar L svc w ps wia pop dpop st))) = authCodes (sessions st) \<and>
   issuedJTIByCode (sessions (snd (HandlePar L svc w ps wia pop dpop st))) = issuedJTIByCode (sessions st)"
  by (auto simp: HandlePar_def StoreParRequest_def Let_def split: sum.splits prod.splits)

lemma HandleAuthorize_codes:
  "authCodes (sessions (snd (HandleAuthorize N svc w uri cid cookie st))) \<in>
     {authCodes (sessions st)} \<union> {(authCodes (sessions st))(RandomToken 32 (rnd w 1) \<mapsto> d) | d. True} \<and>
   issuedJTIByCode (sessions (snd (HandleAuthorize N svc w uri cid cookie st))) = issuedJTIByCode (sessions st)"
  unfolding HandleAuthorize_def Let_def completeAuthorize_eq
  by (auto simp: PeekParRequest_def ConsumeParRequest_def StorePendingAuth_def Let_def
      split: sum.splits option.splits if_splits)

lemma identification_codes:
  "authCodes (sessions (snd (CompleteIdentification L N svc w tok data sty sref st))) = authCodes (sessions st) \<and>
   issuedJTIByCode (sessions (snd (CompleteIdentification L N svc w tok data sty sref st))) = issuedJTIByCode (sessions st)"
  "authCodes (sessions (snd (RejectIdentification L w tok st))) = authCodes (sessions st) \<and>
   issuedJTIByCode (sessions (snd (RejectIdentification L w tok st))) = issuedJTIByCode (sessions st)"
  by (auto simp: CompleteIdentification_def RejectIdentification_def ConsumePendingAuth_def MarkIdentified_def
      StoreIdentifyReplay_def Let_def split: sum.splits option.splits)

lemma exec_event_absent:
  "authCodes (sessions st) code = None \<Longrightarrow> \<not> draws_code code e \<Longrightarrow>
     authCodes (sessions (exec_event L svc st e)) code = None"
proof (cases e)
  case (EvAuthorize N w uri cid cookie)
  then show "authCodes (sessions st) code = None \<Longrightarrow> \<not> draws_code code e \<Longrightarrow> ?thesis"
    using HandleAuthorize_codes [of N svc w uri cid cookie st] by auto
next
  case (EvToken w req dpop wia pop)
  then show "authCodes (sessions st) code = None \<Longrightarrow> \<not> draws_code code e \<Longrightarrow> ?thesis"
    using HandleAuthCodeToken_frame [of req st L svc w dpop wia pop] by (auto simp: token_frame_def)
qed (auto simp: HandlePar_codes identification_codes authz_RevokedJTIs_def RevokedJTIs_def verification_op_frame Let_def)

lemma events_absent:
  "authCodes (sessions st) code = None \<Longrightarrow> (\<And>e. e \<in> set es \<Longrightarrow> \<not> draws_code code e) \<Longrightarrow>
     authCodes (sessions (foldl (exec_event L svc) st es)) code = None"
  by (induction es arbitrary: st) (simp_all add: exec_event_absent)

lemma token_needs_code:
  "authCodes (sessions st) (tr_Code req) = None \<Longrightarrow> isl (fst (HandleAuthCodeToken L svc w req dpop wia pop st))"
  by (cases "HandleAuthCodeToken L svc w req dpop wia pop st"; cases "fst (HandleAuthCodeToken L svc w req dpop wia pop st)")
    (auto elim!: HandleAuthCodeToken_Inr)

text \<open>
  An authorization code buys at most one access token: once a token has been issued for it, and
  as long as the generator does not draw the same 32 bytes again, no later token request presenting
  it succeeds, whatever requests are served in between.
\<close>

lemma code_buys_one_token:
  assumes "HandleAuthCodeToken L svc w req dpop wia pop st = (Inr tok, st')"
    and "\<And>e. e \<in> set es \<Longrightarrow> \<not> draws_code (tr_Code req) e" and "tr_Code req' = tr_Code req"
  shows "isl (fst (HandleAuthCodeToken L svc w' req' dpop' wia' pop' (foldl (exec_event L svc) st' es)))"
proof -
  have "authCodes (sessions st') (tr_Code req) = None"
    using assms(1) by (auto elim!: HandleAuthCodeToken_Inr)
  then show ?thesis using events_absent assms(2,3) token_needs_code by metis
qed

lemma code_buys_one_token_witness:
  "isl (fst (HandleAuthCodeToken ex_lib ex_service (ex_world (5 * second) (CHR ''i''))
     (ex_request (ex_tok (CHR ''c''))) ''dpop2'' ''wia'' ''pop''
     (foldl (exec_event ex_lib ex_service)
        (snd (HandleAuthCodeToken ex_lib ex_service (ex_world (4 * second) (CHR ''j'')) (ex_request (ex_tok (CHR ''c'')))
           ''dpop2'' ''wia'' ''pop'' ex_coded))
        [EvAuthorize ex_net (ex_world (4 * second) (CHR ''d'')) (ex_uri (CHR ''u'')) ''client'' (ex_tok (CHR ''k''))])))"
  unfolding ex_token_flow snd_conv
  by (rule code_buys_one_token [OF ex_token_flow]) (auto simp: ex_request_def ex_RandomToken)

lemma grantToken_issued:
  "code \<noteq> tr_Code req \<Longrightarrow>
   issuedJTIByCode (sessions (snd (grantToken L svc w req c key sess st))) code = issuedJTIByCode (sessions st) code"
  unfolding grantToken_def Let_def by (auto simp: RecordIssuedJTI_def split: sum.splits)

lemma HandleAuthCodeToken_issued:
  "code \<noteq> tr_Code req \<Longrightarrow>
   issuedJTIByCode (sessions (snd (HandleAuthCodeToken L svc w req dpop wia pop st))) code =
     issuedJTIByCode (sessions st) code"
  unfolding HandleAuthCodeToken_def Let_def
  by (auto simp: ConsumeAuthCode_Some RevokeTokensForCode_def grantToken_issued dest!: ConsumeAuthCode_None
      split: sum.splits prod.splits option.splits)

lemma exec_event_issued:
  assumes "\<not> presents_code code e"
  shows "issuedJTIByCode (sessions (exec_event L svc st e)) code = issuedJTIByCode (sessions st) code"
  using assms
  by (cases e) (auto simp: HandlePar_codes HandleAuthorize_codes identification_codes HandleAuthCodeToken_issued
      authz_RevokedJTIs_def RevokedJTIs_def verification_op_frame Let_def)

lemma events_issued:
  "(\<And>e. e \<in> set es \<Longrightarrow> \<not> presents_code code e) \<Longrightarrow>
     issuedJTIByCode (sessions (foldl (exec_event L svc) st es)) code = issuedJTIByCode (sessions st) code"
  by (induction es arbitrary: st) (simp_all add: exec_event_issued)

text \<open>
  C20: presenting a code again revokes the token it bought: after a token was issued for a code and
  any other requests were served, an authenticated token request with the same code is refused as
  \<^verbatim>\<open>invalid_grant\<close>, and from then on the token's identifier is on the list served to the Credential
  Issuer for as long as that token is valid.
\<close>

theorem code_reuse_revokes_token:
  assumes tok: "HandleAuthCodeToken L svc w req dpop wia pop st = (Inr tok, st')"
    and es: "\<And>e. e \<in> set es \<Longrightarrow> \<not> draws_code (tr_Code req) e \<and> \<not> presents_code (tr_Code req) e"
    and st2: "st2 = foldl (exec_event L svc) st' es"
    and c: "Resolve L (az_attestations svc) (clk w' 0) wia' pop' (tr_ClientAssertionType req')
      (tr_ClientAssertion req') = Inr c" "c \<noteq> []" "tr_ClientID req' \<in> {[], c}"
    and v: "ValidateDPoPProof L (clk w' 1) (ord w') dpop' ''POST'' (az_baseURL svc @ ''/oid4vci/v1/token'') []
      (jtis st2) = (Inr key, js)"
    and code: "tr_Code req' = tr_Code req"
    and later: "clk w 4 \<le> clk w' 3" and valid: "t \<le> clk w 4 + AccessTokenTTL"
  shows "\<exists>st3. HandleAuthCodeToken L svc w' req' dpop' wia' pop' st2 =
      (Inl (BadRequest InvalidGrant ''Invalid authorization code''), st3) \<and>
    RandomJTI (rnd w 1) \<in> set (fst (authz_RevokedJTIs t st3))"
proof -
  let ?jti = "RandomJTI (rnd w 1)"
  have st': "authCodes (sessions st') (tr_Code req) = None \<and> issuedJTIByCode (sessions st') (tr_Code req) = Some ?jti \<and>
      tr_Code req \<noteq> []"
    using tok by (auto simp: Mint_Inr elim!: HandleAuthCodeToken_Inr)
  have none: "authCodes (sessions st2) (tr_Code req) = None"
    unfolding st2 using st' es by (intro events_absent) auto
  have some: "issuedJTIByCode (sessions st2) (tr_Code req) = Some ?jti"
    using events_issued [of es "tr_Code req" L svc st'] es st' unfolding st2 by simp
  let ?st3 = "\<lparr>sessions = RevokeTokensForCode (clk w' 3) (tr_Code req) (sessions st2), jtis = js\<rparr>"
  have "HandleAuthCodeToken L svc w' req' dpop' wia' pop' st2 =
      (Inl (BadRequest InvalidGrant ''Invalid authorization code''), ?st3)"
    by (subst HandleAuthCodeToken_redeems [OF c v]) (use code none some st' in \<open>simp_all add: ConsumeAuthCode_def\<close>)
  moreover have "?jti \<in> set (fst (RevokedJTIs t (sessions ?st3)))"
    using revoke_publishes [OF some, of "clk w' 3"] poll_keeps [of ?jti _ "sessions ?st3" t] later valid
    by (fastforce simp: const_defs)
  ultimately show ?thesis by (auto simp: authz_RevokedJTIs_def case_prod_unfold Let_def)
qed

theorem code_reuse_revokes_token_witness:
  "\<exists>st3. HandleAuthCodeToken ex_lib ex_service (ex_world (5 * second) (CHR ''i'')) (ex_request (ex_tok (CHR ''c'')))
      ''dpop3'' ''wia'' ''pop'' (snd (HandleAuthCodeToken ex_lib ex_service (ex_world (4 * second) (CHR ''j''))
        (ex_request (ex_tok (CHR ''c''))) ''dpop2'' ''wia'' ''pop'' ex_coded)) =
      (Inl (BadRequest InvalidGrant ''Invalid authorization code''), st3) \<and>
    ex_tok (CHR ''j'') \<in> set (fst (authz_RevokedJTIs minute st3))"
proof -
  have w: "clk (ex_world t c) i = t" "ord (ex_world t c) = id" for t c i by (simp_all add: ex_world_def)
  have j: "RandomJTI (rnd (ex_world t c) i) = ex_tok c" for t c i
    by (simp add: RandomJTI_def ex_world_def ex_tok_def)
  have t: "0 \<le> 5 * second" "5 * second \<le> minute" "''j3'' \<notin> set [''j2'', ''j1'']" "length [''j2'', ''j1''] < jtiStoreMaxSize"
    by (simp_all add: const_defs jtiStoreMaxSize_def)
  have "\<exists>st3. HandleAuthCodeToken ex_lib ex_service (ex_world (5 * second) (CHR ''i'')) (ex_request (ex_tok (CHR ''c'')))
      ''dpop3'' ''wia'' ''pop'' (snd (HandleAuthCodeToken ex_lib ex_service (ex_world (4 * second) (CHR ''j''))
        (ex_request (ex_tok (CHR ''c''))) ''dpop2'' ''wia'' ''pop'' ex_coded)) =
      (Inl (BadRequest InvalidGrant ''Invalid authorization code''), st3) \<and>
    RandomJTI (rnd (ex_world (4 * second) (CHR ''j'')) 1) \<in> set (fst (authz_RevokedJTIs minute st3))"
  proof (rule code_reuse_revokes_token [OF ex_token_flow, where es = "[]"])
    show "ValidateDPoPProof ex_lib (clk (ex_world (5 * second) (CHR ''i'')) 1) (ord (ex_world (5 * second) (CHR ''i'')))
        ''dpop3'' ''POST'' (az_baseURL ex_service @ ''/oid4vci/v1/token'') []
        (jtis (snd (HandleAuthCodeToken ex_lib ex_service (ex_world (4 * second) (CHR ''j''))
          (ex_request (ex_tok (CHR ''c''))) ''dpop2'' ''wia'' ''pop'' ex_coded))) = (Inr ex_dpopKey, [''j3'', ''j2'', ''j1''])"
      unfolding ex_token_flow w using ex_dpop3 [OF t] by simp
    show "Resolve ex_lib (az_attestations ex_service) (clk (ex_world (5 * second) (CHR ''i'')) 0) ''wia'' ''pop''
        (tr_ClientAssertionType (ex_request (ex_tok (CHR ''c''))))
        (tr_ClientAssertion (ex_request (ex_tok (CHR ''c'')))) = Inr ''client''"
      unfolding w by (rule ex_attested [OF t(1,2)])
  qed (simp add: ex_token_flow | simp add: ex_request_def w const_defs)+
  then show ?thesis unfolding j .
qed

text \<open>
  Reuse is only noticed once the first redemption has recorded its token. \<open>ConsumeAuthCode\<close> and
  \<open>RecordIssuedJTI\<close> are two separate critical sections: a second request that presents the code
  between them is refused but not recognised as reuse, the token recorded afterwards is on no
  denylist, and only a third presentation of the code would put it there.
\<close>

lemma reuse_before_record_undetected:
  assumes "authCodes s code = Some d" "issuedJTIByCode s code = None" "t1 - sd_CreatedAt d \<le> authCodeTTL"
    and "jti \<notin> fst ` set (revokedJTIs s)"
  shows "case ConsumeAuthCode t1 code s of (r1, s1) \<Rightarrow> case ConsumeAuthCode t2 code s1 of (r2, s2) \<Rightarrow>
    let s3 = RecordIssuedJTI code jti s2 in
    r1 = (Some d, False) \<and> r2 = (None, False) \<and>
    (\<forall>t. jti \<notin> set (fst (RevokedJTIs t s3))) \<and> fst (ConsumeAuthCode t3 code s3) = (None, True)"
  using assms by (auto simp: store_defs Let_def)

lemma reuse_before_record_undetected_witness:
  "fst (ConsumeAuthCode second (ex_tok (CHR ''c''))
     (snd (ConsumeAuthCode second (ex_tok (CHR ''c'')) (sessions ex_coded)))) = (None, False)"
proof -
  let ?d = "\<lparr>sd_SessionID = ex_tok (CHR ''c''), sd_CreatedAt = 3 * second, sd_Metadata = ex_metadata\<rparr>"
  have "authCodes (sessions ex_coded) (ex_tok (CHR ''c'')) = Some ?d" "issuedJTIByCode (sessions ex_coded) (ex_tok (CHR ''c'')) = None"
    "second - sd_CreatedAt ?d \<le> authCodeTTL" "''jti'' \<notin> fst ` set (revokedJTIs (sessions ex_coded))"
    by (simp_all add: ex_coded_def ex_identified_store_def NewStore_def const_defs)
  from reuse_before_record_undetected [OF this, of second] show ?thesis
    by (auto simp: case_prod_unfold Let_def)
qed

end
