(* ===== verification/Idp_System.thy ===== *)
theory Idp_System
  imports Idp_Main Oidc_Login Authz_System
begin

text \<open>
  The running service: one state for all parts, moved by requests to the registered endpoints, by the
  login page and by the OpenID library. Every run is at once a run of the authorization server's
  system and of the bridge's, hence of the verifier's; the guarantees proved there hold of the
  replies sent over HTTP.
\<close>

subsection \<open>Calls of the verifier as operations on the store\<close>

definition vop :: "store \<Rightarrow> store \<Rightarrow> bool" where
  "vop s s' \<longleftrightarrow> (\<exists>t op. verification_op op \<and> s' = exec_op t op s)"

abbreviation vops :: "store \<Rightarrow> store \<Rightarrow> bool" where "vops \<equiv> vop\<^sup>*\<^sup>*"

lemma vop_lookups:
  "vops s (snd (FindVerification t sid s))" "vops s (snd (FindVerificationByState t st s))"
  "vops s (snd (FindVerificationByEncryptionKID t kid s))" "vops s (UpdateVerificationStatus t sid st s)"
  "vops s (UpdateVerificationResult t sid st toks cl sub e s)" "vops s (StoreVerification t v s)"
proof -
  have op: "vops s (exec_op t op s)" if "verification_op op" for op using that by (intro r_into_rtranclp) (auto simp: vop_def)
  show "vops s (snd (FindVerification t sid s))" using op [of "OpFind sid"] by simp
  show "vops s (snd (FindVerificationByState t st s))" using op [of "OpFindByState st"] by simp
  show "vops s (snd (FindVerificationByEncryptionKID t kid s))" using op [of "OpFindByKID kid"] by simp
  show "vops s (UpdateVerificationStatus t sid st s)" using op [of "OpUpdateStatus sid st"] by simp
  show "vops s (UpdateVerificationResult t sid st toks cl sub e s)" using op [of "OpUpdateResult sid st toks cl sub e"] by simp
  show "vops s (StoreVerification t v s)" using op [of "OpStoreVerification v"] by simp
qed

lemma vops_CreateSession: "vops s (snd (CreateSession L J v w creds s))"
  by (cases rule: CreateSession_cases [of L J v w creds s]) (simp_all add: vop_lookups)

lemma vops_GetRequestObject: "vops s (snd (GetRequestObject w sid s))"
proof -
  obtain f s1 where f: "FindVerification (clk w 0) sid s = (f, s1)" by fastforce
  then have "vops s s1" using vop_lookups(1) [of s "clk w 0" sid] by simp
  then show ?thesis using f vop_lookups(4) [of s1]
    by (auto simp: GetRequestObject_def split: option.split intro: rtranclp_trans)
qed

lemma vops_GetResult: "vops s (snd (GetResult w sid s))"
  by (simp add: snd_GetResult vop_lookups)

lemma vops_HandleResponse: "vops s (snd (HandleResponse L J C N w req s))"
proof -
  obtain loc s1 where l: "(if rr_Response req \<noteq> [] then locate_encrypted L J (clk w 0) (rr_Response req) s
      else locate_plain (clk w 0) req s) = (loc, s1)" by fastforce
  have "vops s (snd (locate_plain t req s))" for t
    using vop_lookups(2) [of s t "rr_State req"] by (auto simp: locate_plain_def Let_def split: prod.splits)
  moreover have "vops s (snd (locate_encrypted L J t r s))" for t r
    using vop_lookups(3) [of s t] by (auto simp: locate_encrypted_def Let_def split: prod.splits sum.splits) (metis snd_conv)
  ultimately have s1: "vops s s1" using l by (metis snd_conv)
  have "vops s1 (snd (record_outcome L C N w' v raw s1))" for w' v raw
    by (auto simp: record_outcome_def Let_def vop_lookups split: option.splits sum.splits prod.splits)
  with s1 show ?thesis
    by (auto simp: HandleResponse_def l split: sum.splits prod.splits) (metis rtranclp_trans snd_conv)
qed

lemmas vops_verifier = vops_CreateSession vops_GetRequestObject vops_GetResult vops_HandleResponse

lemma vops_page: "vops (bs_sessions b) (bs_sessions (snd (login_ServeHTTP L J h w i b)))"
  using vops_CreateSession
  by (auto simp: login_ServeHTTP_def start_login_def Let_def split: option.splits prod.splits sum.splits) (metis snd_conv)+

lemma vops_poll: "vops (bs_sessions b) (bs_sessions (snd (PollHandler h w i b)))"
  using vop_lookups(1)
  by (auto simp: PollHandler_def verifier_Session_def Let_def split: option.splits prod.splits) (metis snd_conv)+

text \<open>They are events of the authorization server's system that push no request.\<close>

lemma vops_events:
  assumes "vops s s'"
  shows "\<exists>es. foldl (exec_event L svc) (st\<lparr>sessions := s\<rparr>) es = st\<lparr>sessions := s'\<rparr> \<and> (\<forall>q. par_event q \<notin> set es)"
  using assms
proof (induction rule: rtranclp_induct)
  case base
  show ?case by (rule exI [of _ "[]"]) simp
next
  case (step s1 s2)
  then obtain es t op where es: "foldl (exec_event L svc) (st\<lparr>sessions := s\<rparr>) es = st\<lparr>sessions := s1\<rparr>" "\<forall>q. par_event q \<notin> set es"
    and op: "verification_op op" "s2 = exec_op t op s1" by (auto simp: vop_def)
  then show ?case by (intro exI [of _ "es @ [EvVerification t op]"]) simp
qed

text \<open>The authorization server never touches the verifier's part of the store.\<close>

definition verif_part :: "store \<Rightarrow> (string \<rightharpoonup> verification_session) \<times> (string \<rightharpoonup> string) \<times> (string \<rightharpoonup> string)" where
  "verif_part s = (verifications s, verificationIDByState s, verificationIDByEncKID s)"

lemma verif_part_ops [simp]:
  "verif_part (StoreParRequest t u ps s) = verif_part s" "verif_part (snd (ConsumeParRequest t u s)) = verif_part s"
  "verif_part (snd (PeekParRequest t u s)) = verif_part s" "verif_part (snd (CreateAuthCode t d sd s)) = verif_part s"
  "verif_part (snd (ConsumeAuthCode t c s)) = verif_part s" "verif_part (RecordIssuedJTI c j s) = verif_part s"
  "verif_part (RevokeTokensForCode t c s) = verif_part s" "verif_part (snd (RevokedJTIs t s)) = verif_part s"
  "verif_part (snd (StorePendingAuth d ps s)) = verif_part s" "verif_part (snd (ConsumePendingAuth tok s)) = verif_part s"
  "verif_part (snd (MarkIdentified t d u r ps s)) = verif_part s" "verif_part (StoreIdentifyReplay t tok r s) = verif_part s"
  by (auto simp: verif_part_def store_defs Let_def split: option.splits)


lemma verif_part_results:
  "ConsumeParRequest t u s = (x, s') \<Longrightarrow> verif_part s' = verif_part s"
  "PeekParRequest t u s = (x, s') \<Longrightarrow> verif_part s' = verif_part s"
  "CreateAuthCode t d sd s = (code, s') \<Longrightarrow> verif_part s' = verif_part s"
  "ConsumeAuthCode t c s = (y, s') \<Longrightarrow> verif_part s' = verif_part s"
  "StorePendingAuth d ps s = (tok, s') \<Longrightarrow> verif_part s' = verif_part s"
  "ConsumePendingAuth tok s = (x, s') \<Longrightarrow> verif_part s' = verif_part s"
  "MarkIdentified t d u r ps s = (ck, s') \<Longrightarrow> verif_part s' = verif_part s"
  using verif_part_ops by (metis snd_conv)+

lemma verif_part_complete: "verif_part (snd (completeAuthorize t d rec ps s)) = verif_part s"
  by (simp add: completeAuthorize_def Let_def split: prod.split) (auto dest: verif_part_results)

lemma verif_part_par: "verif_part (sessions (snd (HandlePar L svc w ps wia pop dpop st))) = verif_part (sessions st)"
  by (auto simp: HandlePar_def Let_def split: sum.splits prod.splits)

lemma verif_part_authorize:
  "verif_part (sessions (snd (HandleAuthorize N svc w uri cid cookie st))) = verif_part (sessions st)"
  using verif_part_complete
  by (auto simp: HandleAuthorize_def Let_def split: sum.splits prod.splits option.splits dest!: verif_part_results)
    (metis snd_conv)+

lemma verif_part_identification:
  "verif_part (sessions (snd (CompleteIdentification L N svc w tok data sty sref st))) = verif_part (sessions st)"
  "verif_part (sessions (snd (RejectIdentification L w tok st))) = verif_part (sessions st)"
  by (auto simp: CompleteIdentification_def RejectIdentification_def Let_def
      split: sum.splits prod.splits option.splits dest!: verif_part_results)

lemma verif_part_grant: "verif_part (sessions (snd (grantToken L svc w req c key sess st))) = verif_part (sessions st)"
  by (auto simp: grantToken_def Let_def split: sum.splits)

lemma verif_part_token:
  "verif_part (sessions (snd (HandleAuthCodeToken L svc w req dpop wia pop st))) = verif_part (sessions st)"
  by (auto simp: HandleAuthCodeToken_def Let_def verif_part_grant
      split: sum.splits prod.splits option.splits dest!: verif_part_results)

lemma verif_part_revoked: "verif_part (sessions (snd (authz_RevokedJTIs t st))) = verif_part (sessions st)"
  by (simp add: authz_RevokedJTIs_def case_prod_unfold Let_def)

lemmas verif_part_handlers = verif_part_par verif_part_authorize verif_part_identification verif_part_token verif_part_revoked

subsection \<open>The running service\<close>

abbreviation bridge_view :: "idp_state \<Rightarrow> bridge_state" where
  "bridge_view s \<equiv> \<lparr>bs_oidc = sv_oidc s, bs_sessions = sessions (sv_authz s)\<rparr>"

definition bridge_put :: "bridge_state \<Rightarrow> idp_state \<Rightarrow> idp_state" where
  "bridge_put b s = \<lparr>sv_authz = (sv_authz s)\<lparr>sessions := bs_sessions b\<rparr>, sv_oidc = bs_oidc b\<rparr>"

text \<open>The identifiers drawn for a new verification session are in no use and in no login's memory.\<close>

definition fresh_ids :: "lib \<Rightarrow> key_lib \<Rightarrow> verifier_service \<Rightarrow> world \<Rightarrow> idp_state \<Rightarrow> bool" where
  "fresh_ids L J v w s \<longleftrightarrow> fresh_draws L J v w (sessions (sv_authz s)) \<and>
     (\<forall>i e. os_authRequests (sv_oidc s) i = Some e \<longrightarrow> are_verificationSessionID e \<noteq> RandomToken 16 (rnd w 0))"

record served =
  sv_net :: net
  sv_world :: world
  sv_endpoint :: endpoint
  sv_request :: server_request

definition answer ::
  "lib \<Rightarrow> key_lib \<Rightarrow> cbor_lib \<Rightarrow> http_lib \<Rightarrow> idp \<Rightarrow> served \<Rightarrow> authz_state \<Rightarrow> reply option \<times> authz_state" where
  "answer L J C H p x = WithCORS (serve_api L J C H (sv_net x) (idp_api p) (sv_world x) (sv_endpoint x)) (sv_request x)"

text \<open>
  A run: requests to registered endpoints, loads and polls of the login page where there is one, and
  calls of the OpenID library. The list records the requests served by the API; \<open>P\<close> are the loads of the
  login page that may occur.
\<close>

inductive idp_run :: "lib \<Rightarrow> key_lib \<Rightarrow> cbor_lib \<Rightarrow> http_lib \<Rightarrow> idp \<Rightarrow> (world \<times> string) set \<Rightarrow> served list \<Rightarrow> idp_state \<Rightarrow> bool"
  for L J C H p P where
  run_start: "idp_run L J C H p P [] \<lparr>sv_authz = init_state, sv_oidc = newStore\<rparr>"
| run_api: "idp_run L J C H p P xs s \<Longrightarrow> sv_endpoint x \<in> snd ` set (api_Routes (idp_api p)) \<Longrightarrow> ord_ok (sv_world x) \<Longrightarrow>
    (\<And>v. sv_endpoint x = VpCreateSession \<Longrightarrow> hd_verifier (idp_api p) = Some v \<Longrightarrow> fresh_ids L J v (sv_world x) s) \<Longrightarrow>
    idp_run L J C H p P (xs @ [x]) (s\<lparr>sv_authz := snd (answer L J C H p x (sv_authz s))\<rparr>)"
| run_page: "idp_run L J C H p P xs s \<Longrightarrow> idp_bridge p = Some (sto, h) \<Longrightarrow> (w, i) \<in> P \<Longrightarrow> fresh_ids L J (lh_verifier h) w s \<Longrightarrow>
    idp_run L J C H p P xs (bridge_put (snd (login_ServeHTTP L J h w i (bridge_view s))) s)"
| run_poll: "idp_run L J C H p P xs s \<Longrightarrow> idp_bridge p = Some (sto, h) \<Longrightarrow>
    idp_run L J C H p P xs (bridge_put (snd (PollHandler h w i (bridge_view s))) s)"
| run_call: "idp_run L J C H p P xs s \<Longrightarrow> idp_bridge p \<noteq> None \<Longrightarrow>
    (\<And>w req. c = CallAuthorize w req \<Longrightarrow> os_authRequests (sv_oidc s) (RandomToken 16 (rnd w 0)) = None) \<Longrightarrow>
    idp_run L J C H p P xs (s\<lparr>sv_oidc := exec_call c (sv_oidc s)\<rparr>)"

lemma run_loads_mono: "idp_run L J C H p P xs s \<Longrightarrow> P \<subseteq> P' \<Longrightarrow> idp_run L J C H p P' xs s"
proof (induction rule: idp_run.induct)
  case (run_page xs s sto h w i)
  then show ?case by (intro idp_run.run_page) auto
qed (auto intro: idp_run.intros)

text \<open>The responses of wallets among the requests served.\<close>

definition response_of :: "params \<Rightarrow> response_request" where
  "response_of form = \<lparr>rr_VPToken = idx form ''vp_token'', rr_State = idx form ''state'', rr_Response = idx form ''response''\<rparr>"

definition responses :: "lib \<Rightarrow> http_lib \<Rightarrow> served list \<Rightarrow> received set" where
  "responses L H xs = {(sv_net x, sv_world x, response_of form) |x form. x \<in> set xs \<and> sv_endpoint x = VpResponse \<and>
     parseForm L H (sv_request x) = Inr form}"

text \<open>How a request to the API moves the state.\<close>

lemma answer_state:
  "snd (answer L J C H p x st) = (if sq_Method (sv_request x) = ''OPTIONS'' then st
     else snd (serve_api L J C H (sv_net x) (idp_api p) (sv_world x) (sv_endpoint x) (sv_request x) st))"
  by (simp add: answer_def WithCORS_def split: prod.split)

lemma vops_with_verifier:
  assumes "\<And>v s. vops s (snd (f v s))"
  shows "\<exists>s'. vops (sessions st) s' \<and> snd (with_verifier h st f) = st\<lparr>sessions := s'\<rparr>"
  using assms by (auto simp: with_verifier_def intro: exI [of _ "sessions st"] split: option.split)

lemma vops_endpoints:
  "vops s (snd (oid4vpCreateSession L J H v w r s))" "vops s (snd (oid4vpResponse L J C H N v w r s))"
  "vops s (snd (map_prod Some id (oid4vpRequestObject w r s)))" "vops s (snd (map_prod Some id (oid4vpResult w r s)))"
  using vops_CreateSession vops_HandleResponse vops_GetRequestObject vops_GetResult
  by (auto simp: oid4vpCreateSession_def oid4vpResponse_def oid4vpRequestObject_def oid4vpResult_def case_prod_unfold Let_def
      split: sum.split)

definition par_served :: "lib \<Rightarrow> http_lib \<Rightarrow> served \<Rightarrow> par_call \<Rightarrow> bool" where
  "par_served L H x q \<longleftrightarrow> sv_endpoint x = Par \<and> sv_world x = pc_world q \<and>
     parseForm L H (sv_request x) = Inr (pc_params q) \<and>
     clientAttestationHeaders (sv_request x) = (pc_wia q, pc_pop q) \<and>
     SingleDPoPHeader (sq_Header (sv_request x) ''DPoP'') = Inr (pc_dpop q)"

lemma serve_api_events:
  fixes x :: served
  assumes "sv_endpoint x = ep" "sv_world x = w" "sv_request x = r"
  shows "\<exists>es. foldl (exec_event L (hd_authz h)) st es = snd (serve_api L J C H N h w ep r st) \<and>
     (\<forall>q. par_event q \<in> set es \<longrightarrow> par_served L H x q)"
proof -
  let ?goal = "\<lambda>st'. \<exists>es. foldl (exec_event L (hd_authz h)) st es = st' \<and> (\<forall>q. par_event q \<in> set es \<longrightarrow> par_served L H x q)"
  have none: "?goal st" by (rule exI [of _ "[]"]) simp
  have one: "?goal (exec_event L (hd_authz h) st e)" if "\<And>q. e = par_event q \<Longrightarrow> par_served L H x q" for e
    using that by (intro exI [of _ "[e]"]) auto
  have many: "?goal (st\<lparr>sessions := s'\<rparr>)" if "vops (sessions st) s'" for s'
    using vops_events [OF that, of L "hd_authz h" st] by auto
  have vp: "?goal (snd (with_verifier h st f))" if "\<And>v s. vops s (snd (f v s))" for f
    using vops_with_verifier [of f st h, OF that] many by fastforce
  show ?thesis
  proof (cases ep)
    case Par
    show ?thesis
    proof (cases "\<exists>form dpop. parseForm L H r = Inr form \<and> SingleDPoPHeader (sq_Header r ''DPoP'') = Inr dpop")
      case True
      then obtain form dpop where f: "parseForm L H r = Inr form" "SingleDPoPHeader (sq_Header r ''DPoP'') = Inr dpop" by blast
      let ?e = "EvPar w form (fst (clientAttestationHeaders r)) (snd (clientAttestationHeaders r)) dpop"
      have "?goal (exec_event L (hd_authz h) st ?e)" using assms Par f by (intro one) (auto simp: par_served_def prod_eq_iff)
      then show ?thesis unfolding Par using f by (simp add: api_par_def case_prod_unfold Let_def)
    next
      case False
      then show ?thesis unfolding Par using none by (auto simp: api_par_def case_prod_unfold Let_def split: sum.splits)
    qed
  next
    case Authorize
    show ?thesis unfolding Authorize using one [of "EvAuthorize N w (query_Get r ''request_uri'') (query_Get r ''client_id'') _"]
      by (auto simp: api_authorize_def case_prod_unfold Let_def)
  next
    case Token
    show ?thesis unfolding Token using none one [of "EvToken _ _ _ _ _"]
      by (auto simp: api_token_def case_prod_unfold Let_def split: sum.splits)
  next
    case RevokedTokens
    show ?thesis unfolding RevokedTokens using one [of "EvRevoked (clk w 0)"]
      by (auto simp: api_revokedTokens_def case_prod_unfold Let_def)
  next
    case IdentifyComplete
    show ?thesis unfolding IdentifyComplete using none one [of "EvComplete _ _ _ _ _ _"]
      by (auto simp: api_identifyComplete_def case_prod_unfold Let_def split: option.splits)
  next
    case IdentifyReject
    show ?thesis unfolding IdentifyReject using none one [of "EvReject _ _"]
      by (auto simp: api_identifyReject_def case_prod_unfold Let_def split: option.splits)
  qed (use none vp vops_endpoints in simp_all)
qed

subsection \<open>The run as a run of each part\<close>

lemma bridge_put_authz:
  assumes "vops (sessions (sv_authz s)) (bs_sessions b)"
  shows "\<exists>es. foldl (exec_event L svc) (sv_authz s) es = sv_authz (bridge_put b s) \<and> (\<forall>q. par_event q \<notin> set es)"
  using vops_events [OF assms, of L svc "sv_authz s"] by (simp add: bridge_put_def)

text \<open>Seen from the authorization server a run is a sequence of its events.\<close>

lemma run_authz:
  assumes "idp_run L J C H p P xs s"
  shows "\<exists>es. foldl (exec_event L (hd_authz (idp_api p))) init_state es = sv_authz s \<and>
     (\<forall>q. par_event q \<in> set es \<longrightarrow> (\<exists>x\<in>set xs. par_served L H x q))"
  using assms
proof (induction rule: idp_run.induct)
  case run_start
  show ?case by (rule exI [of _ "[]"]) simp
next
  case (run_api xs s x)
  let ?svc = "hd_authz (idp_api p)"
  from run_api obtain es where es: "foldl (exec_event L ?svc) init_state es = sv_authz s"
    "\<forall>q. par_event q \<in> set es \<longrightarrow> (\<exists>x\<in>set xs. par_served L H x q)" by blast
  have "\<exists>es'. foldl (exec_event L ?svc) (sv_authz s) es' = snd (answer L J C H p x (sv_authz s)) \<and>
      (\<forall>q. par_event q \<in> set es' \<longrightarrow> par_served L H x q)"
    using serve_api_events [of x _ _ _ L "idp_api p" "sv_authz s" J C H "sv_net x", OF refl refl refl]
    by (auto simp: answer_state intro: exI [of _ "[]"])
  then obtain es' where "foldl (exec_event L ?svc) (sv_authz s) es' = snd (answer L J C H p x (sv_authz s))"
    "\<forall>q. par_event q \<in> set es' \<longrightarrow> par_served L H x q" by blast
  with es show ?case by (intro exI [of _ "es @ es'"]) auto
next
  case (run_page xs s sto h w i)
  with bridge_put_authz [OF vops_page [of "bridge_view s" L J h w i, simplified], of L "hd_authz (idp_api p)"]
  obtain es es' where "foldl (exec_event L (hd_authz (idp_api p))) init_state es = sv_authz s"
    "\<forall>q. par_event q \<in> set es \<longrightarrow> (\<exists>x\<in>set xs. par_served L H x q)"
    "foldl (exec_event L (hd_authz (idp_api p))) (sv_authz s) es' =
      sv_authz (bridge_put (snd (login_ServeHTTP L J h w i (bridge_view s))) s)" "\<forall>q. par_event q \<notin> set es'" by blast
  then show ?case by (intro exI [of _ "es @ es'"]) auto
next
  case (run_poll xs s sto h w i)
  with bridge_put_authz [OF vops_poll [of "bridge_view s" h w i, simplified], of L "hd_authz (idp_api p)"]
  obtain es es' where "foldl (exec_event L (hd_authz (idp_api p))) init_state es = sv_authz s"
    "\<forall>q. par_event q \<in> set es \<longrightarrow> (\<exists>x\<in>set xs. par_served L H x q)"
    "foldl (exec_event L (hd_authz (idp_api p))) (sv_authz s) es' =
      sv_authz (bridge_put (snd (PollHandler h w i (bridge_view s))) s)" "\<forall>q. par_event q \<notin> set es'" by blast
  then show ?case by (intro exI [of _ "es @ es'"]) auto
qed simp

text \<open>Seen from the verifier a request to the API is one of its steps, or leaves its sessions alone.\<close>

lemma api_verifier_step:
  assumes "ord_ok w" and W: "\<And>form. ep = VpResponse \<Longrightarrow> parseForm L H r = Inr form \<Longrightarrow> (N, w, response_of form) \<in> W"
    and "\<And>v. ep = VpCreateSession \<Longrightarrow> hd_verifier h = Some v \<Longrightarrow> fresh_draws L J v w (sessions st)"
    and "\<And>v. hd_verifier h = Some v \<Longrightarrow> v = svc"
  shows "verifier_step L J C svc W (sessions st) (sessions (snd (serve_api L J C H N h w ep r st)))"
proof -
  have still: "verifier_step L J C svc W (sessions st) s'" if "verif_part s' = verif_part (sessions st)" for s'
    using that by (intro step_elsewhere) (simp_all add: verif_part_def)
  have vp: "verifier_step L J C svc W (sessions st) (sessions (snd (with_verifier h st f)))"
    if "\<And>v. hd_verifier h = Some v \<Longrightarrow> verifier_step L J C svc W (sessions st) (snd (f svc (sessions st)))" for f
    using that assms(4) still by (auto simp: with_verifier_def split: option.split)
  show ?thesis
  proof (cases ep)
    case VpCreateSession
    then show ?thesis using assms(3,4) step_create [of L J svc w "sessions st" C W]
      by (auto simp: oid4vpCreateSession_def case_prod_unfold Let_def intro!: vp)
  next
    case VpRequestObject
    then show ?thesis using step_fetch
      by (auto simp: oid4vpRequestObject_def case_prod_unfold Let_def intro!: vp)
  next
    case VpResponse
    then show ?thesis using step_respond [OF assms(1) W] still
      by (auto simp: oid4vpResponse_def response_of_def case_prod_unfold Let_def intro!: vp split: sum.split)
  next
    case VpResult
    then show ?thesis using step_poll
      by (auto simp: oid4vpResult_def case_prod_unfold Let_def intro!: vp)
  qed (auto intro!: still simp: api_par_def api_authorize_def api_token_def api_revokedTokens_def api_identifyComplete_def
      api_identifyReject_def verif_part_handlers case_prod_unfold Let_def split: sum.split option.split)
qed

lemma asks_same_fetch: "asks_same s (snd (GetRequestObject w sid s))"
proof -
  obtain f s1 where f: "FindVerification (clk w 0) sid s = (f, s1)" by fastforce
  then have "asks_same s s1" using asks_same_lookups(1) [of s "clk w 0" sid] by simp
  then show ?thesis using f asks_same_trans [OF _ asks_same_update(1)] by (simp add: GetRequestObject_def split: option.split)
qed

lemma asks_same_poll: "asks_same s (snd (GetResult w sid s))"
  by (simp add: snd_GetResult asks_same_lookups)

lemma asks_same_links: "asks_same s s' \<Longrightarrow> links_kept o1 s s'"
  unfolding links_kept_def asks_same_def by (metis not_None_eq)

lemma create_links:
  assumes "\<And>i e. os_authRequests o1 i = Some e \<Longrightarrow> are_verificationSessionID e \<noteq> RandomToken 16 (rnd w 0)"
  shows "links_kept o1 s (snd (CreateSession L J v w creds s))"
proof (cases rule: CreateSession_cases [of L J v w creds s])
  case (2 clientID key metadata jwt)
  then show ?thesis using assms
    by (auto simp: links_kept_def StoreVerification_def new_session_def Let_def)
qed (simp add: links_kept_def)

lemma api_links:
  assumes "\<And>v. ep = VpCreateSession \<Longrightarrow> hd_verifier h = Some v \<Longrightarrow> \<forall>i e. os_authRequests o1 i = Some e \<longrightarrow>
    are_verificationSessionID e \<noteq> RandomToken 16 (rnd w 0)"
  shows "links_kept o1 (sessions st) (sessions (snd (serve_api L J C H N h w ep r st)))"
proof -
  have still: "links_kept o1 (sessions st) s'" if "verif_part s' = verif_part (sessions st)" for s'
    using that by (simp add: verif_part_def links_kept_def)
  have vp: "links_kept o1 (sessions st) (sessions (snd (with_verifier h st f)))"
    if "\<And>v. hd_verifier h = Some v \<Longrightarrow> links_kept o1 (sessions st) (snd (f v (sessions st)))" for f
    using that still by (auto simp: with_verifier_def split: option.split)
  show ?thesis
  proof (cases ep)
    case VpCreateSession
    then show ?thesis using assms
      by (auto simp: oid4vpCreateSession_def case_prod_unfold Let_def intro!: vp create_links)
  next
    case VpRequestObject
    then show ?thesis using vp asks_same_links [OF asks_same_fetch]
      by (auto simp: oid4vpRequestObject_def case_prod_unfold Let_def)
  next
    case VpResponse
    then show ?thesis using still asks_same_links [OF asks_same_HandleResponse]
      by (auto simp: oid4vpResponse_def case_prod_unfold Let_def intro!: vp split: sum.split)
  next
    case VpResult
    then show ?thesis using vp asks_same_links [OF asks_same_poll]
      by (auto simp: oid4vpResult_def case_prod_unfold Let_def)
  qed (auto intro!: still simp: api_par_def api_authorize_def api_token_def api_revokedTokens_def api_identifyComplete_def
      api_identifyReject_def verif_part_handlers case_prod_unfold Let_def split: sum.split option.split)
qed

lemma page_links:
  assumes "\<And>i e. os_authRequests (bs_oidc b) i = Some e \<Longrightarrow> are_verificationSessionID e \<noteq> RandomToken 16 (rnd w 0)"
  shows "links_kept (bs_oidc b) (bs_sessions b) (bs_sessions (snd (login_ServeHTTP L J h w i b)))"
proof -
  have c: "links_kept (bs_oidc b) (bs_sessions b) s1" if "CreateSession L J v (after (Suc 0) w) creds (bs_sessions b) = (x, s1)" for v creds x s1
    using create_links [of "bs_oidc b" "after (Suc 0) w" "bs_sessions b" L J v creds] assms that by simp
  show ?thesis
    by (auto simp: login_ServeHTTP_def start_login_def Let_def asks_same_links split: option.splits prod.splits sum.splits dest!: c)
qed

text \<open>
  The bridge's system is the view of the run with the login page that is mounted, or any other on the
  same verifier where none is.
\<close>

definition login_of :: "idp \<Rightarrow> login_handler \<Rightarrow> bool" where
  "login_of p h \<longleftrightarrow> (\<forall>sto h'. idp_bridge p = Some (sto, h') \<longrightarrow> h' = h) \<and>
     (\<forall>v. hd_verifier (idp_api p) = Some v \<longrightarrow> v = lh_verifier h)"

lemma call_bridge_step:
  "(\<And>w req. c = CallAuthorize w req \<Longrightarrow> os_authRequests (bs_oidc b) (RandomToken 16 (rnd w 0)) = None) \<Longrightarrow>
   bridge_step L J C h W P b (b\<lparr>bs_oidc := exec_call c (bs_oidc b)\<rparr>)"
  by (cases c) (auto intro: bridge_step.intros)

lemma run_bridge:
  assumes "idp_run L J C H p P xs s" and h: "login_of p h" and W: "responses L H xs \<subseteq> W"
  shows "bridge_reachable L J C h W P (bridge_view s)"
  using assms(1) W
proof (induction rule: idp_run.induct)
  case run_start
  show ?case using bridge_start by (simp add: init_state_def)
next
  case (run_api xs s x)
  let ?st' = "snd (answer L J C H p x (sv_authz s))"
  have fresh: "sv_endpoint x = VpCreateSession \<Longrightarrow> hd_verifier (idp_api p) = Some v \<Longrightarrow> fresh_ids L J v (sv_world x) s" for v
    using run_api by blast
  have W: "(sv_net x, sv_world x, response_of form) \<in> W" if "sv_endpoint x = VpResponse" "parseForm L H (sv_request x) = Inr form" for form
    using run_api.prems that by (auto simp: responses_def)
  have IH: "bridge_reachable L J C h W P (bridge_view s)" using run_api.prems by (intro run_api.IH) (auto simp: responses_def)
  have "verifier_step L J C (lh_verifier h) W (sessions (sv_authz s)) (sessions ?st') \<and>
      links_kept (sv_oidc s) (sessions (sv_authz s)) (sessions ?st')"
    using api_verifier_step [of "sv_world x" "sv_endpoint x" L H "sv_request x" "sv_net x" W "idp_api p" J "sv_authz s" "lh_verifier h" C]
      api_links [of "sv_endpoint x" "idp_api p" "sv_oidc s" "sv_world x" "sv_authz s" L J C H "sv_net x" "sv_request x"]
      run_api(3) fresh h W step_elsewhere [of "sessions (sv_authz s)" "sessions (sv_authz s)" L J C "lh_verifier h" W]
    by (auto simp: answer_state fresh_ids_def login_of_def asks_same_links)
  with br_verifier [of L J C h W "bridge_view s" "sessions ?st'" P] bridge_next [OF IH] show ?case by simp
next
  case (run_page xs s sto h' w i)
  then have h': "h' = h" using h by (simp add: login_of_def)
  obtain rr b' where l: "login_ServeHTTP L J h w i (bridge_view s) = (rr, b')" by fastforce
  have "bridge_step L J C h W P (bridge_view s) b'"
    using run_page(3,4) page_links [of "bridge_view s" w L J h i] l unfolding h'
    by (intro br_page [OF l]) (auto simp: fresh_ids_def)
  from bridge_next [OF run_page.IH [OF run_page.prems] this] l h' show ?case by (cases b') (simp add: bridge_put_def)
next
  case (run_poll xs s sto h' w i)
  then have h': "h' = h" using h by (simp add: login_of_def)
  from bridge_next [OF run_poll.IH [OF run_poll.prems] br_poll [of L J C h W P _ w i]] h' show ?case
    by (cases "snd (PollHandler h w i (bridge_view s))") (simp add: bridge_put_def)
next
  case (run_call xs s c)
  have "bridge_step L J C h W P (bridge_view s) (bridge_view s\<lparr>bs_oidc := exec_call c (sv_oidc s)\<rparr>)"
    using call_bridge_step [of c "bridge_view s"] run_call(3) by simp
  from bridge_next [OF run_call.IH [OF run_call.prems] this] show ?case by simp
qed

subsection \<open>Every request is answered\<close>

lemma CreateSession_replies: "fst (CreateSession L J v w creds s) \<noteq> None"
proof -
  have "buildClientMetadata L v dcql key \<noteq> None" if "session_key L J v d = Inr key" for dcql key d
    using that by (auto simp: buildClientMetadata_def session_key_def Let_def split: if_splits option.splits)
  then show ?thesis by (auto simp: CreateSession_def Let_def simp del: not_None_eq split: sum.splits option.splits)
qed

lemma verifyPresentation_replies:
  assumes "session_ok L J C W v" "\<And>ref. CheckValid L N ref \<noteq> None"
  shows "verifyPresentation L C N w v cred tok \<noteq> None"
  using assms by (auto simp: verifyPresentation_def session_ok_def mdoc_thumbprint_def status_error_def Let_def
      simp del: not_None_eq split: option.splits prod.splits)

lemma verify_each_replies:
  assumes "session_ok L J C W v" "\<And>ref. CheckValid L N ref \<noteq> None"
  shows "verify_each L C N w v toks creds claims keys \<noteq> None"
  using verifyPresentation_replies [OF assms]
  by (induction creds arbitrary: w claims keys) (auto simp del: not_None_eq split: option.splits sum.splits)

lemma HandleResponse_replies:
  assumes inv: "verifier_inv L J C W s" and ref: "\<And>ref. CheckValid L N ref \<noteq> None"
  shows "fst (HandleResponse L J C N w req s) \<noteq> None"
proof -
  obtain loc s1 where l: "(if rr_Response req \<noteq> [] then locate_encrypted L J (clk w 0) (rr_Response req) s
      else locate_plain (clk w 0) req s) = (loc, s1)" by fastforce
  have early: "loc \<noteq> Inl None"
  proof
    assume "loc = Inl None"
    then obtain kid v where v: "FindVerificationByEncryptionKID (clk w 0) kid s = (Some v, s1)" "vs_EncryptionKey v = None"
      using l by (auto simp: locate_encrypted_def locate_plain_def invalid_request_result_def Let_def
          split: if_splits sum.splits prod.splits option.splits)
    then obtain sid where "verificationIDByEncKID s kid = Some sid" "verifications s sid = Some v"
      by (auto simp: FindVerificationByEncryptionKID_def findVerificationLocked_def split: option.splits if_splits)
    then show False using inv v(2) by (auto simp: verifier_inv_def verif_wf_def index_ok_def kid_of_def)
  qed
  have "fst (record_outcome L C N w' v raw s') \<noteq> None" if "session_ok L J C W v" for w' v raw s'
    using verify_each_replies [OF that ref]
    by (auto simp: record_outcome_def verifyPresentations_def Let_def split: option.splits sum.splits)
  moreover have "session_ok L J C W v" if "loc = Inr (v, raw)" for v raw
    using located_session [OF inv, of req L J "clk w 0"] l that inv by (auto simp: verifier_inv_def)
  ultimately show ?thesis using early l
    by (auto simp: HandleResponse_def split: sum.splits prod.splits) (metis fst_conv option.distinct(1))+
qed

lemma login_exists: "shares_verifier p \<Longrightarrow> \<exists>h. login_of p h"
proof (cases "idp_bridge p")
  case None
  then show ?thesis
    by (cases "hd_verifier (idp_api p)")
      (auto simp: login_of_def intro: exI [of _ "\<lparr>lh_clients = undefined, lh_verifier = v, lh_authCallback = undefined, lh_issuer = []\<rparr>" for v])
next
  case (Some b)
  then show "shares_verifier p \<Longrightarrow> ?thesis"
    by (cases b) (auto simp: login_of_def shares_verifier_def)
qed

lemma run_verifier_inv:
  assumes "idp_run L J C H p P xs s" "shares_verifier p" "thumbprints_ok L"
  shows "verifier_inv L J C (responses L H xs) (sessions (sv_authz s))"
proof -
  obtain h where "login_of p h" using login_exists [OF assms(2)] by blast
  from bridge_reachable_inv [OF run_bridge [OF assms(1) this subset_refl] assms(3)] show ?thesis by (simp add: bridge_inv_def)
qed

lemma registered_verifier:
  "ep \<in> snd ` set (api_Routes h) \<Longrightarrow> ep \<in> {VpCreateSession, VpRequestObject, VpResponse, VpResult} \<Longrightarrow> hd_verifier h \<noteq> None"
  by (cases "hd_verifier h") (auto simp: api_Routes_def)

lemma serve_api_replies:
  assumes "ep \<in> snd ` set (api_Routes h)" "verifier_inv L J C W (sessions st)" "\<And>ref. CheckValid L N ref \<noteq> None"
  shows "fst (serve_api L J C H N h w ep r st) \<noteq> None"
proof -
  have vp: "fst (with_verifier h st f) \<noteq> None"
    if "ep \<in> {VpCreateSession, VpRequestObject, VpResponse, VpResult}" "\<And>v. fst (f v (sessions st)) \<noteq> None" for f
    using registered_verifier [OF assms(1) that(1)] that(2) by (auto simp: with_verifier_def split: option.split)
  show ?thesis
  proof (cases ep)
    case VpCreateSession
    have "fst (with_verifier h st (\<lambda>v. oid4vpCreateSession L J H v w r)) \<noteq> None"
      using CreateSession_replies VpCreateSession
      by (intro vp) (auto simp: oid4vpCreateSession_def case_prod_unfold Let_def simp del: not_None_eq)
    then show ?thesis by (simp add: VpCreateSession)
  next
    case VpResponse
    have "fst (with_verifier h st (\<lambda>v. oid4vpResponse L J C H N v w r)) \<noteq> None"
      using HandleResponse_replies [OF assms(2,3)] VpResponse
      by (intro vp) (auto simp: oid4vpResponse_def case_prod_unfold Let_def simp del: not_None_eq split: sum.split)
    then show ?thesis by (simp add: VpResponse)
  next
    case VpRequestObject
    then show ?thesis using vp [of "\<lambda>v s. map_prod Some id (oid4vpRequestObject w r s)"] by simp
  next
    case VpResult
    then show ?thesis using vp [of "\<lambda>v s. map_prod Some id (oid4vpResult w r s)"] by simp
  qed simp_all
qed

subsection \<open>What the replies of a run rest on\<close>

text \<open>A token goes back to a pushed request, a verification result to the presentations, and every request is answered.\<close>

lemma run_token_traces:
  assumes run: "idp_run L J C H p P xs s" and x: "sv_endpoint x = Token"
    and rep: "fst (answer L J C H p x (sv_authz s)) = Some rep" "rp_Body rep = JsonBody (token_json tok)"
  shows "\<exists>y\<in>set xs. \<exists>q form dpop. par_served L H y q \<and> par_granted L (hd_authz (idp_api p)) q \<and>
    parseForm L H (sv_request x) = Inr form \<and> SingleDPoPHeader (sq_Header (sv_request x) ''DPoP'') = Inr dpop \<and>
    token_backed L (hd_authz (idp_api p)) q (sv_world x) (token_request_of (sv_request x) form) dpop
      (fst (clientAttestationHeaders (sv_request x))) (snd (clientAttestationHeaders (sv_request x))) tok"
proof -
  let ?svc = "hd_authz (idp_api p)" and ?w = "sv_world x" and ?r = "sv_request x"
  have differ: "error_json e \<noteq> token_json t" "token_json t = token_json t' \<longleftrightarrow> t = t'" for e t t'
    by (auto simp: error_json_def token_json_def intro: token_response.equality)
  from rep obtain form dpop st' where f: "parseForm L H ?r = Inr form" "SingleDPoPHeader (sq_Header ?r ''DPoP'') = Inr dpop"
    and t: "HandleAuthCodeToken L ?svc ?w (token_request_of ?r form) dpop (fst (clientAttestationHeaders ?r))
      (snd (clientAttestationHeaders ?r)) (sv_authz s) = (Inr tok, st')"
    using differ
    by (auto simp: answer_def WithCORS_def x api_token_def invalid_form_def writeOAuthError_def writeJSON_def no_store_def
        case_prod_unfold Let_def prod_eq_iff split: if_splits sum.splits)
  from run_authz [OF run] obtain es where es: "foldl (exec_event L ?svc) init_state es = sv_authz s"
    "\<forall>q. par_event q \<in> set es \<longrightarrow> (\<exists>y\<in>set xs. par_served L H y q)" by blast
  from token_traces [OF es(1) t] es(2) f show ?thesis by blast
qed

lemma run_result_justified:
  assumes run: "idp_run L J C H p P xs s" and "shares_verifier p" and "thumbprints_ok L" and x: "sv_endpoint x = VpResult" "ord_ok (sv_world x)"
    and rep: "fst (answer L J C H p x (sv_authz s)) = Some rep" "rp_Body rep = JsonBody (result_json (successResult claims))"
  shows "\<exists>v. verifications (sessions (sv_authz s)) (sq_PathID (sv_request x)) = Some v \<and>
    clk (sv_world x) 0 - vs_CreatedAt v \<le> verificationSessionTTL \<and>
    earned L J C (responses L H xs) v (vs_VPTokens v) (vs_VerifiedClaims v) (vs_SubjectID v) \<and> reported claims (vs_VerifiedClaims v)"
proof -
  let ?s = "sessions (sv_authz s)"
  have inv: "verifier_inv L J C (responses L H xs) ?s" using assms(1-3) by (rule run_verifier_inv)
  have differ: "error_json e \<noteq> result_json (successResult a)" "result_json (errorResult c d) \<noteq> result_json (successResult a)"
    "result_json (successResult a) = result_json (successResult b) \<longleftrightarrow> a = b" for a b c d e
    by (auto simp: result_json_def successResult_def errorResult_def error_json_def StatusSuccess_def StatusError_def)
  from rep have "\<exists>s'. GetResult (sv_world x) (sq_PathID (sv_request x)) ?s = (Inr (successResult claims), s')"
    using differ
    by (auto simp: answer_def WithCORS_def x(1) with_verifier_def oid4vpResult_def GetResult_def writeOAuthError_def writeJSON_def
        case_prod_unfold Let_def split: if_splits option.splits sum.splits)
  then obtain v where v: "verifications ?s (sq_PathID (sv_request x)) = Some v" "vs_Status v = ''verified''"
    "clk (sv_world x) 0 - vs_CreatedAt v \<le> verificationSessionTTL" "claims = mergeClaims (sv_world x) (vs_VerifiedClaims v)"
    by (auto simp: GetResult_def FindVerification_def findVerificationLocked_def errorResult_def successResult_def
        StatusSuccess_def StatusError_def split: option.splits if_splits prod.splits)
  then show ?thesis using inv mergeClaims_reported [OF x(2)] by (auto simp: verifier_inv_def session_ok_def)
qed

lemma run_answered:
  assumes run: "idp_run L J C H p P xs s" and "shares_verifier p" and "thumbprints_ok L"
    and ep: "sv_endpoint x \<in> snd ` set (api_Routes (idp_api p))"
    and status: "\<And>ref. CheckValid L (sv_net x) ref \<noteq> None"
  shows "\<exists>rep. fst (answer L J C H p x (sv_authz s)) = Some rep \<and> set cors_headers \<subseteq> set (rp_Headers rep)"
proof -
  have "fst (serve_api L J C H (sv_net x) (idp_api p) (sv_world x) (sv_endpoint x) (sv_request x) (sv_authz s)) \<noteq> None"
    using serve_api_replies [OF ep run_verifier_inv [OF assms(1-3)] status] .
  then show ?thesis by (auto simp: answer_def WithCORS_def case_prod_unfold Let_def)
qed

end
