(* ===== verification/Idp_Http.thy ===== *)
theory Idp_Http
  imports Idp_System
begin

text \<open>
  The service as the server sees it: requests with a host, a method and a path, which the mux dispatches.
  Every run of such requests is a run of the service in the sense of \<open>Idp_System\<close>, in which a request is
  served by an endpoint exactly when its method and path are those the endpoint is registered for.
\<close>

record incoming =
  in_Net :: net
  in_World :: world
  in_Host :: string
  in_Path :: string
  in_Request :: server_request

abbreviation dispatch_of :: "idp \<Rightarrow> incoming \<Rightarrow> target dispatch" where
  "dispatch_of p x \<equiv> mux_dispatch (idp_mux p) (in_Host x) (sq_Method (in_Request x)) (in_Path x)"

text \<open>\<^verbatim>\<open>r.PathValue("id")\<close> reads the value the mux has set.\<close>

definition api_request :: "incoming \<Rightarrow> endpoint \<Rightarrow> (string \<times> string) list \<Rightarrow> served" where
  "api_request x ep vals = \<lparr>sv_net = in_Net x, sv_world = in_World x, sv_endpoint = ep,
     sv_request = (in_Request x)\<lparr>sq_PathID := (case map_of vals ''id'' of None \<Rightarrow> [] | Some v \<Rightarrow> v)\<rparr>\<rparr>"

text \<open>
  The replies are those of the parts; a redirect or an error of the mux itself is left as the outcome of the dispatch,
  and what the OpenID library replies is its own matter (its calls of the storage are steps of a run).
\<close>

datatype http_reply =
    Preflight
  | ApiReply "reply option"
  | UiReply reply
  | LoginReply "login_response option"
  | FromProvider
  | FromMux "target dispatch"

definition http_serve :: "lib \<Rightarrow> key_lib \<Rightarrow> cbor_lib \<Rightarrow> http_lib \<Rightarrow> idp \<Rightarrow> incoming \<Rightarrow> idp_state \<Rightarrow> http_reply \<times> idp_state" where
  "http_serve L J C H p x s =
     (if sq_Method (in_Request x) = ''OPTIONS'' then (Preflight, s)
      else case dispatch_of p x of
        Dispatched k vals \<Rightarrow>
          (case k of
             ToApi ep \<Rightarrow> (let (rep, st) = answer L J C H p (api_request x ep vals) (sv_authz s) in (ApiReply rep, s\<lparr>sv_authz := st\<rparr>))
           | ToFiles \<Rightarrow> (UiReply (webui_files (idp_webui p) (unescape_seg (in_Path x))), s)
           | ToRoot \<Rightarrow> (UiReply (webui_root (idp_webui p)), s)
           | ToLogin \<Rightarrow> (case idp_bridge p of None \<Rightarrow> (LoginReply None, s)
               | Some (_, h) \<Rightarrow> (let (rep, b) = login_ServeHTTP L J h (in_World x) (query_Get (in_Request x) ''id'') (bridge_view s) in
                   (LoginReply rep, bridge_put b s)))
           | ToPoll \<Rightarrow> (case idp_bridge p of None \<Rightarrow> (LoginReply None, s)
               | Some (_, h) \<Rightarrow> (let (rep, b) = PollHandler h (in_World x) (query_Get (in_Request x) ''id'') (bridge_view s) in
                   (LoginReply (Some rep), bridge_put b s)))
           | ToProvider \<Rightarrow> (FromProvider, s))
      | d \<Rightarrow> (FromMux d, s))"

text \<open>Requests that may create a verification session.\<close>

definition creates_session :: "idp \<Rightarrow> incoming \<Rightarrow> bool" where
  "creates_session p x \<longleftrightarrow> (\<exists>vals. dispatch_of p x = Dispatched (ToApi VpCreateSession) vals \<or> dispatch_of p x = Dispatched ToLogin vals)"

inductive http_run :: "lib \<Rightarrow> key_lib \<Rightarrow> cbor_lib \<Rightarrow> http_lib \<Rightarrow> idp \<Rightarrow> incoming list \<Rightarrow> idp_state \<Rightarrow> bool"
  for L J C H p where
  http_start: "http_run L J C H p [] \<lparr>sv_authz = init_state, sv_oidc = newStore\<rparr>"
| http_request: "http_run L J C H p xs s \<Longrightarrow> ord_ok (in_World x) \<Longrightarrow>
    (\<And>v. creates_session p x \<Longrightarrow> hd_verifier (idp_api p) = Some v \<Longrightarrow> fresh_ids L J v (in_World x) s) \<Longrightarrow>
    http_run L J C H p (xs @ [x]) (snd (http_serve L J C H p x s))"
| http_call: "http_run L J C H p xs s \<Longrightarrow> idp_bridge p \<noteq> None \<Longrightarrow>
    (\<And>w req. c = CallAuthorize w req \<Longrightarrow> os_authRequests (sv_oidc s) (RandomToken 16 (rnd w 0)) = None) \<Longrightarrow>
    http_run L J C H p xs (s\<lparr>sv_oidc := exec_call c (sv_oidc s)\<rparr>)"

text \<open>The service whose mux is the one its patterns make.\<close>

definition mounted :: "idp \<Rightarrow> bool" where
  "mounted p \<longleftrightarrow> shares_verifier p \<and>
     (\<exists>bs. idp_mux p = service_mux (hd_verifier (idp_api p) \<noteq> None) bs (idp_bridge p \<noteq> None))"

lemma api_endpoints: "snd ` set (api_shapes (hd_verifier h \<noteq> None)) = snd ` set (api_Routes h)"
proof -
  have "map snd (api_Routes h) = map snd (api_shapes (hd_verifier h \<noteq> None))"
    using api_parsed [of h] by (induction rule: list_all2_induct) simp_all
  then have "set (map snd (api_Routes h)) = set (map snd (api_shapes (hd_verifier h \<noteq> None)))" by (rule arg_cong)
  then show ?thesis by (simp only: set_map)
qed

lemma to_api_shape: "((m, ys, t), ToApi ep) \<in> set (service_shapes v bs b) \<longleftrightarrow> ((m, ys, t), ep) \<in> set (api_shapes v)"
  by (force simp: service_shapes_def ui_shapes_def bridge_shapes_def map_prod_def split: if_splits)

lemma dispatched_api:
  assumes "mounted p" "dispatch_of p x = Dispatched (ToApi ep) vals"
  shows "ep \<in> snd ` set (api_Routes (idp_api p))"
proof -
  from assms(1) obtain bs where "idp_mux p = service_mux (hd_verifier (idp_api p) \<noteq> None) bs (idp_bridge p \<noteq> None)"
    by (auto simp: mounted_def)
  with assms(2) obtain m ys t where "((m, ys, t), ep) \<in> set (api_shapes (hd_verifier (idp_api p) \<noteq> None))"
    using dispatched_shape to_api_shape by metis
  then show ?thesis unfolding api_endpoints [symmetric] by (rule rev_image_eqI) simp
qed

lemma http_api_reply:
  assumes "dispatch_of p x = Dispatched (ToApi ep) vals" "sq_Method (in_Request x) \<noteq> ''OPTIONS''"
  shows "http_serve L J C H p x s = (ApiReply (fst (answer L J C H p (api_request x ep vals) (sv_authz s))),
    s\<lparr>sv_authz := snd (answer L J C H p (api_request x ep vals) (sv_authz s))\<rparr>)"
  using assms by (simp add: http_serve_def case_prod_unfold Let_def)

lemma api_request_simps [simp]: "sv_net (api_request x ep vals) = in_Net x" "sv_world (api_request x ep vals) = in_World x"
  "sv_endpoint (api_request x ep vals) = ep" "sq_Method (sv_request (api_request x ep vals)) = sq_Method (in_Request x)"
  "sq_PathID (sv_request (api_request x ep vals)) = (case map_of vals ''id'' of None \<Rightarrow> [] | Some v \<Rightarrow> v)"
  by (simp_all add: api_request_def)

text \<open>The value of the path's wildcard is read by the handlers of verification sessions only.\<close>

lemma path_value_unread:
  "parseForm L H (r\<lparr>sq_PathID := i\<rparr>) = parseForm L H r" "token_request_of (r\<lparr>sq_PathID := i\<rparr>) = token_request_of r"
  "clientAttestationHeaders (r\<lparr>sq_PathID := i\<rparr>) = clientAttestationHeaders r"
proof -
  have "parsePostForm L H (r\<lparr>sq_PathID := i\<rparr>) = parsePostForm L H r"
    by (simp add: parsePostForm_def header_Get_def Let_def split: prod.split)
  then show "parseForm L H (r\<lparr>sq_PathID := i\<rparr>) = parseForm L H r" by (simp add: parseForm_def)
qed (simp_all add: token_request_of_def fun_eq_iff clientAttestationHeaders_def header_Get_def)

text \<open>Requests that reach a handler registered for one literal path.\<close>

lemma dispatched_literal:
  assumes "mounted p" "dispatch_of p x = Dispatched k vals"
    and only: "\<And>m ys t v bs b. ((m, ys, t), k) \<in> set (service_shapes v bs b) \<Longrightarrow> m = m0 \<and> ys = ys0 \<and> t = Full"
  shows "m0 \<in> {[], sq_Method (in_Request x)} \<or> sq_Method (in_Request x) = ''HEAD'' \<and> m0 = ''GET''"
    "map unescape_seg (path_segs (in_Path x)) = ys0" "vals = []"
proof -
  from assms(1) obtain bs where M: "idp_mux p = service_mux (hd_verifier (idp_api p) \<noteq> None) bs (idp_bridge p \<noteq> None)"
    by (auto simp: mounted_def)
  from dispatched_shape [OF assms(2) [unfolded M]] only
  have "(m0 \<in> {[], sq_Method (in_Request x)} \<or> sq_Method (in_Request x) = ''HEAD'' \<and> m0 = ''GET'') \<and>
      seg_matches (map Lit ys0 @ tail_segs Full) (path_segs (in_Path x)) \<and>
      vals = zip (wildcard_names (map Lit ys0 @ tail_segs Full)) (seg_values (map Lit ys0 @ tail_segs Full) (path_segs (in_Path x)))" by blast
  moreover have "wildcard_names (map Lit ys0) = []" by (induction ys0) simp_all
  ultimately show "m0 \<in> {[], sq_Method (in_Request x)} \<or> sq_Method (in_Request x) = ''HEAD'' \<and> m0 = ''GET''"
    "map unescape_seg (path_segs (in_Path x)) = ys0" "vals = []"
    unfolding seg_matches_shape by simp_all
qed

lemma dispatched_par:
  assumes "mounted p" "dispatch_of p x = Dispatched (ToApi Par) vals"
  shows "sq_Method (in_Request x) = ''POST''" "map unescape_seg (path_segs (in_Path x)) = [''oid4vci'', ''v1'', ''par'']" "vals = []"
proof -
  have only: "m = ''POST'' \<and> ys = [''oid4vci'', ''v1'', ''par''] \<and> t = Full" if "((m, ys, t), ToApi Par) \<in> set (service_shapes v bs b)" for m ys t v bs b
    using that unfolding to_api_shape by (simp add: api_shapes_def split: if_splits)
  note d = dispatched_literal [OF assms only]
  show "sq_Method (in_Request x) = ''POST''" "map unescape_seg (path_segs (in_Path x)) = [''oid4vci'', ''v1'', ''par'']" "vals = []"
    using d by simp_all
qed

lemma dispatched_response:
  assumes "mounted p" "dispatch_of p x = Dispatched (ToApi VpResponse) vals"
  shows "sq_Method (in_Request x) = ''POST''" "map unescape_seg (path_segs (in_Path x)) = [''oid4vp'', ''v1'', ''response'']"
proof -
  have only: "m = ''POST'' \<and> ys = [''oid4vp'', ''v1'', ''response''] \<and> t = Full" if "((m, ys, t), ToApi VpResponse) \<in> set (service_shapes v bs b)" for m ys t v bs b
    using that unfolding to_api_shape by (simp add: api_shapes_def split: if_splits)
  note d = dispatched_literal [OF assms only]
  show "sq_Method (in_Request x) = ''POST''" "map unescape_seg (path_segs (in_Path x)) = [''oid4vp'', ''v1'', ''response'']"
    using d by simp_all
qed

lemma dispatched_login:
  assumes "mounted p" "dispatch_of p x = Dispatched ToLogin vals"
  shows "sq_Method (in_Request x) \<in> {''GET'', ''HEAD''}" "map unescape_seg (path_segs (in_Path x)) = [''oidc'', ''v1'', ''login'']"
proof -
  have only: "m = ''GET'' \<and> ys = [''oidc'', ''v1'', ''login''] \<and> t = Full" if "((m, ys, t), ToLogin) \<in> set (service_shapes v bs b)" for m ys t v bs b
    using that by (auto simp: service_shapes_def ui_shapes_def bridge_shapes_def split: if_splits)
  note d = dispatched_literal [OF assms only]
  show "sq_Method (in_Request x) \<in> {''GET'', ''HEAD''}" "map unescape_seg (path_segs (in_Path x)) = [''oidc'', ''v1'', ''login'']"
    using d by auto
qed

text \<open>The loads of the login page and the responses of wallets among the requests received, by method and path.\<close>

definition page_loads :: "incoming list \<Rightarrow> (world \<times> string) set" where
  "page_loads xs = {(in_World x, query_Get (in_Request x) ''id'') |x. x \<in> set xs \<and> sq_Method (in_Request x) \<in> {''GET'', ''HEAD''} \<and>
     map unescape_seg (path_segs (in_Path x)) = [''oidc'', ''v1'', ''login'']}"

definition received_in :: "lib \<Rightarrow> http_lib \<Rightarrow> incoming list \<Rightarrow> received set" where
  "received_in L H xs = {(in_Net x, in_World x, response_of form) |x form. x \<in> set xs \<and> sq_Method (in_Request x) = ''POST'' \<and>
     map unescape_seg (path_segs (in_Path x)) = [''oid4vp'', ''v1'', ''response''] \<and> parseForm L H (in_Request x) = Inr form}"

lemma page_loads_append: "page_loads xs \<subseteq> page_loads (xs @ ys)"
  by (auto simp: page_loads_def)

text \<open>The two kinds of request that move the state.\<close>

lemma http_api_step:
  assumes run: "idp_run L J C H p P ys s" and "mounted p" and d: "dispatch_of p x = Dispatched (ToApi ep) vals"
    and "sq_Method (in_Request x) \<noteq> ''OPTIONS''" "ord_ok (in_World x)"
    and fresh: "\<And>v. creates_session p x \<Longrightarrow> hd_verifier (idp_api p) = Some v \<Longrightarrow> fresh_ids L J v (in_World x) s"
  shows "idp_run L J C H p P (ys @ [api_request x ep vals]) (snd (http_serve L J C H p x s))"
proof -
  have "idp_run L J C H p P (ys @ [api_request x ep vals]) (s\<lparr>sv_authz := snd (answer L J C H p (api_request x ep vals) (sv_authz s))\<rparr>)"
    using dispatched_api [OF assms(2) d] assms(5) fresh d
    by (intro run_api [OF run]) (auto simp: creates_session_def)
  then show ?thesis using http_api_reply [OF d assms(4)] by simp
qed

lemma http_other_step:
  assumes run: "idp_run L J C H p P ys s" and "mounted p" and other: "\<And>ep vals. dispatch_of p x \<noteq> Dispatched (ToApi ep) vals"
    and fresh: "\<And>v. creates_session p x \<Longrightarrow> hd_verifier (idp_api p) = Some v \<Longrightarrow> fresh_ids L J v (in_World x) s"
    and P: "page_loads [x] \<subseteq> P"
  shows "idp_run L J C H p P ys (snd (http_serve L J C H p x s))"
proof (cases "sq_Method (in_Request x) = ''OPTIONS'' \<or> idp_bridge p = None")
  case True
  then show ?thesis using run other by (auto simp: http_serve_def split: dispatch.split target.split)
next
  case False
  then obtain sto h where b: "idp_bridge p = Some (sto, h)" by auto
  then have v: "hd_verifier (idp_api p) = Some (lh_verifier h)" using assms(2) by (auto simp: mounted_def shares_verifier_def)
  have page: "idp_run L J C H p P ys (bridge_put (snd (login_ServeHTTP L J h (in_World x) (query_Get (in_Request x) ''id'') (bridge_view s))) s)"
    if "dispatch_of p x = Dispatched ToLogin vals" for vals
    using that fresh [OF _ v] dispatched_login [OF assms(2) that] P
    by (intro run_page [OF run b]) (auto simp: creates_session_def page_loads_def)
  show ?thesis using False b run run_poll [OF run b] page other
    by (auto simp: http_serve_def case_prod_unfold Let_def split: dispatch.split target.split)
qed

text \<open>A request that an endpoint served, by its method and path.\<close>

definition served_from :: "idp \<Rightarrow> incoming list \<Rightarrow> served \<Rightarrow> bool" where
  "served_from p xs y \<longleftrightarrow> (\<exists>x\<in>set xs. \<exists>vals. dispatch_of p x = Dispatched (ToApi (sv_endpoint y)) vals \<and>
     y = api_request x (sv_endpoint y) vals)"

lemma http_run_is_run:
  assumes "http_run L J C H p xs s" "mounted p"
  shows "\<exists>ys. idp_run L J C H p (page_loads xs) ys s \<and> (\<forall>y\<in>set ys. served_from p xs y)"
  using assms(1)
proof induction
  case http_start
  then show ?case by (intro exI [of _ "[]"]) (simp add: run_start)
next
  case (http_request xs s x)
  from http_request.IH obtain ys where "idp_run L J C H p (page_loads xs) ys s" and srv: "\<forall>y\<in>set ys. served_from p xs y" by blast
  from run_loads_mono [OF this(1) page_loads_append] have run: "idp_run L J C H p (page_loads (xs @ [x])) ys s" .
  from srv have old: "\<forall>y\<in>set ys. served_from p (xs @ [x]) y" by (auto simp: served_from_def)
  have P: "page_loads [x] \<subseteq> page_loads (xs @ [x])" by (auto simp: page_loads_def)
  show ?case
  proof (cases "sq_Method (in_Request x) \<noteq> ''OPTIONS'' \<and> (\<exists>ep vals. dispatch_of p x = Dispatched (ToApi ep) vals)")
    case True
    then obtain ep vals where d: "dispatch_of p x = Dispatched (ToApi ep) vals" by blast
    have "served_from p (xs @ [x]) (api_request x ep vals)" using d by (auto simp: served_from_def api_request_def)
    moreover have "idp_run L J C H p (page_loads (xs @ [x])) (ys @ [api_request x ep vals]) (snd (http_serve L J C H p x s))"
      using http_api_step [OF run assms(2) d _ http_request.hyps(2,3)] True by blast
    ultimately show ?thesis using old by (intro exI [of _ "ys @ [api_request x ep vals]"]) simp
  next
    case False
    have "idp_run L J C H p (page_loads (xs @ [x])) ys (snd (http_serve L J C H p x s))"
    proof (cases "sq_Method (in_Request x) = ''OPTIONS''")
      case True
      then show ?thesis using run by (simp add: http_serve_def)
    qed (use False http_other_step [OF run assms(2) _ http_request.hyps(3) P] in blast)
    then show ?thesis using old by blast
  qed
next
  case (http_call xs s c)
  then show ?case using run_call by metis
qed

lemma responses_received:
  assumes "\<forall>y\<in>set ys. served_from p xs y" "mounted p"
  shows "responses L H ys \<subseteq> received_in L H xs"
proof
  fix z
  assume "z \<in> responses L H ys"
  then obtain y form where y: "y \<in> set ys" "sv_endpoint y = VpResponse" "parseForm L H (sv_request y) = Inr form"
    "z = (sv_net y, sv_world y, response_of form)" by (auto simp: responses_def)
  from y(1,2) assms(1) obtain x vals where x: "x \<in> set xs" "dispatch_of p x = Dispatched (ToApi VpResponse) vals" "y = api_request x VpResponse vals"
    by (auto simp: served_from_def)
  have "parseForm L H (in_Request x) = Inr form" using y(3) by (simp add: x(3) api_request_def path_value_unread)
  then show "z \<in> received_in L H xs" using dispatched_response [OF assms(2) x(2)] x(1) y(4) by (auto simp: received_in_def x(3))
qed

subsection \<open>Paths of the service\<close>

lemma dispatch_literal:
  assumes "mounted p" "((m, ys, Full), ep) \<in> set (api_shapes (hd_verifier (idp_api p) \<noteq> None))"
  shows "mux_dispatch (idp_mux p) host m (slashed ys) = Dispatched (ToApi ep) []"
proof -
  from assms(1) obtain bs where M: "idp_mux p = service_mux (hd_verifier (idp_api p) \<noteq> None) bs (idp_bridge p \<noteq> None)"
    by (auto simp: mounted_def)
  show ?thesis unfolding M using api_shapes_plain [OF assms(2)] assms(2)
    by (intro literal_dispatched) (auto simp del: not_None_eq simp: to_api_shape)
qed

lemma dispatch_session:
  assumes "mounted p" "hd_verifier (idp_api p) \<noteq> None" "clean_seg i" "unescape_seg i \<noteq> ''/''"
  shows "m \<in> {''GET'', ''POST''} \<Longrightarrow> mux_dispatch (idp_mux p) host m (''/oid4vp/v1/request/'' @ i) =
      Dispatched (ToApi VpRequestObject) [(''id'', unescape_seg i)]"
    "mux_dispatch (idp_mux p) host ''GET'' (''/oid4vp/v1/result/'' @ i) = Dispatched (ToApi VpResult) [(''id'', unescape_seg i)]"
proof -
  from assms(1,2) obtain bs b where M: "idp_mux p = service_mux True bs b" by (auto simp: mounted_def)
  show "mux_dispatch (idp_mux p) host m (''/oid4vp/v1/request/'' @ i) = Dispatched (ToApi VpRequestObject) [(''id'', unescape_seg i)]"
    if "m \<in> {''GET'', ''POST''}"
    using session_dispatched [where r = "''request''", OF _ assms(3,4), of m VpRequestObject True bs b host] that unfolding M
    by (auto simp: api_shapes_def)
  show "mux_dispatch (idp_mux p) host ''GET'' (''/oid4vp/v1/result/'' @ i) = Dispatched (ToApi VpResult) [(''id'', unescape_seg i)]"
    using session_dispatched [where r = "''result''", OF _ assms(3,4), of "''GET''" VpResult True bs b host] unfolding M
    by (auto simp: api_shapes_def)
qed

lemma dispatch_bridge:
  assumes "mounted p" "idp_bridge p \<noteq> None"
  shows "mux_dispatch (idp_mux p) host ''GET'' ''/oidc/v1/login'' = Dispatched ToLogin []"
    "mux_dispatch (idp_mux p) host ''GET'' ''/oidc/v1/login/poll'' = Dispatched ToPoll []"
proof -
  from assms obtain v bs where M: "idp_mux p = service_mux v bs True" by (auto simp: mounted_def)
  show "mux_dispatch (idp_mux p) host ''GET'' ''/oidc/v1/login'' = Dispatched ToLogin []"
    "mux_dispatch (idp_mux p) host ''GET'' ''/oidc/v1/login/poll'' = Dispatched ToPoll []"
    using literal_dispatched [of "''GET''" "[''oidc'', ''v1'', ''login'']" ToLogin v bs True host]
      literal_dispatched [of "''GET''" "[''oidc'', ''v1'', ''login'', ''poll'']" ToPoll v bs True host] unfolding M
    by (simp_all add: service_shapes_def bridge_shapes_def plain_seg_def clean_seg_def)
qed

lemma dispatched_bridge: "mounted p \<Longrightarrow> dispatch_of p x = Dispatched k vals \<Longrightarrow> k \<in> {ToLogin, ToPoll} \<Longrightarrow> idp_bridge p \<noteq> None"
proof -
  assume p: "mounted p" "dispatch_of p x = Dispatched k vals" and k: "k \<in> {ToLogin, ToPoll}"
  then obtain bs where M: "idp_mux p = service_mux (hd_verifier (idp_api p) \<noteq> None) bs (idp_bridge p \<noteq> None)"
    by (auto simp: mounted_def)
  from dispatched_shape [OF p(2) [unfolded M]] k show ?thesis
    by (auto simp: service_shapes_def ui_shapes_def split: if_splits)
qed

text \<open>Identifiers drawn at random are plain segments.\<close>

lemma token_segment:
  assumes "draw n \<noteq> []"
  shows "clean_seg (RandomToken n draw)" "unescape_seg (RandomToken n draw) = RandomToken n draw" "RandomToken n draw \<noteq> ''/''"
proof -
  have c: "unreserved c \<and> c \<noteq> CHR ''.''" if "c \<in> set (RandomToken n draw)" for c
    using that b64_unreserved by (auto simp: RandomToken_def RawURL_Encode_def)
  have ne: "RandomToken n draw \<noteq> []" using assms by (simp add: RandomToken_def RawURL_Encode_nonempty)
  have no: "CHR ''/'' \<notin> set (RandomToken n draw)" "CHR ''%'' \<notin> set (RandomToken n draw)" "CHR ''.'' \<notin> set (RandomToken n draw)"
    using c [of "CHR ''/''"] c [of "CHR ''%''"] c [of "CHR ''.''"] by (auto simp: unreserved_def)
  then show "clean_seg (RandomToken n draw)" "RandomToken n draw \<noteq> ''/''" using ne by (auto simp: clean_seg_def)
  show "unescape_seg (RandomToken n draw) = RandomToken n draw" using no(2) by (rule unescape_plain)
qed

subsection \<open>The service that a start-up mounts\<close>

text \<open>A base path of plain segments, with or without a slash at its end.\<close>

definition plain_base :: "string list \<Rightarrow> string \<Rightarrow> bool" where
  "plain_base bs path \<longleftrightarrow> path \<in> {slashed bs, slashed bs @ ''/''} \<and> (\<forall>b\<in>set bs. plain_seg b)"

lemma webui_base:
  assumes "plain_base bs path"
  shows "wu_basePath (webui_NewHandler fs path) = slashed bs" "\<forall>b\<in>set bs. plain_seg b"
proof -
  show p: "\<forall>b\<in>set bs. plain_seg b" using assms by (simp add: plain_base_def)
  have "bs \<noteq> [] \<Longrightarrow> last (slashed bs) \<noteq> CHR ''/''" using last_slashed [of bs] p by (simp add: plain_seg_def)
  then show "wu_basePath (webui_NewHandler fs path) = slashed bs"
    using assms by (cases "bs = []") (auto simp: plain_base_def webui_NewHandler_def)
qed

lemma started_mounted:
  assumes "idp_main L J D unmarshal P static w env = Inr (p, s)" "plain_base bs (cf_BasePath (config_Load env))"
  shows "mounted p" "s = \<lparr>sv_authz = init_state, sv_oidc = newStore\<rparr>"
proof -
  from assms(1) obtain key v b fs where
    b: "oidc_New L J unmarshal P w (cf_OIDCClientsPath (config_Load env)) key v (cf_BaseURL (config_Load env)) = Inr b"
      "idp_bridge p = map_option (\<lambda>(storage, _, login). (storage, login)) b"
      "s = \<lparr>sv_authz = init_state, sv_oidc = (case b of None \<Rightarrow> newStore | Some (_, st, _) \<Rightarrow> st)\<rparr>"
    and ui: "idp_webui p = webui_NewHandler fs (cf_BasePath (config_Load env))"
    by (rule idp_main_Inr)
  have w: "wired p" using assms(1) by (rule started_wired)
  have "mux_register (service_routes (idp_api p) (idp_webui p) (idp_bridge p \<noteq> None)) [] =
      Inr (service_mux (hd_verifier (idp_api p) \<noteq> None) bs (idp_bridge p \<noteq> None))"
    using webui_base [OF assms(2)] unfolding ui by (intro routes_registered) simp_all
  then show "mounted p" using w unfolding mounted_def wired_def by (metis sum.inject(2))
  show "s = \<lparr>sv_authz = init_state, sv_oidc = newStore\<rparr>"
    using b by (auto split: option.splits dest!: oidc_New_Some)
qed

text \<open>
  The base path of the configuration moves the pages of the UI, and only them: with one, the page is not at the address
  \<open>HandleAuthorize\<close> redirects to, and a base URL that carries it does not lead to the API.
\<close>

lemma base_path_splits_service:
  assumes "bs \<noteq> []" "\<forall>b\<in>set bs. plain_seg b"
  shows "mux_dispatch (service_mux v bs b) host meth ''/identify/'' \<noteq> Dispatched ToFiles vals"
    "mux_dispatch (service_mux v bs b) host meth (slashed bs @ ''/oid4vci/v1/par'') \<noteq> Dispatched (ToApi Par) vals"
proof -
  have "path_segs ''/identify/'' = [''identify'', ''/'']" by code_simp
  moreover have "map unescape_seg [''identify'', ''/''] = [''identify'', ''/'']" by code_simp
  ultimately show "mux_dispatch (service_mux v bs b) host meth ''/identify/'' \<noteq> Dispatched ToFiles vals"
    using dispatched_shape [of v bs b host meth "''/identify/''" ToFiles vals] assms(1)
    by (auto simp: service_shapes_def ui_shapes_def bridge_shapes_def seg_matches_shape Cons_eq_append_conv split: if_splits)
  let ?ss = "bs @ [''oid4vci'', ''v1'', ''par'']"
  have c: "\<forall>s\<in>set ?ss. plain_seg s" using assms(2) by (auto simp: plain_seg_def clean_seg_def)
  then have "path_segs (slashed ?ss) = ?ss" "map unescape_seg ?ss = ?ss"
    using path_segs_slashed(1) [of ?ss] by (auto simp: plain_seg_def intro!: map_idI unescape_plain)
  then show "mux_dispatch (service_mux v bs b) host meth (slashed bs @ ''/oid4vci/v1/par'') \<noteq> Dispatched (ToApi Par) vals"
    using dispatched_shape [of v bs b host meth "slashed ?ss" "ToApi Par" vals] assms(1)
    unfolding to_api_shape seg_matches_shape by (auto simp: api_shapes_def split: if_splits)
qed

end
