(* ===== verification/Example_Service.thy ===== *)
theory Example_Service
  imports Idp_Http
begin

text \<open>
  Three runs of the service over HTTP, on the libraries and services of the earlier examples: a
  credential is verified, a login at the OpenID Connect bridge is completed by a wallet's response, and an
  access token is about to be issued after pushed request, identification and two visits to the
  authorization endpoint.
\<close>

subsection \<open>An example verification over HTTP\<close>

definition ex_web :: http_lib where
  "ex_web = ex_http\<lparr>hl_DecodeBody := (\<lambda>_. Inr (JObj [(''credentials'', JArr [JObj [(''id'', JStr ''pid''),
     (''credential_type'', JStr ''urn:pid''), (''claims'', JArr [JStr ''family_name'']), (''format'', JStr ''sd'')]])]))\<rparr>"

definition ex_webui :: webui_handler where
  "ex_webui = webui_NewHandler (\<lambda>_. not_found) []"

text \<open>A request to an endpoint as it arrives at the server.\<close>

definition ex_sent :: "string \<Rightarrow> served \<Rightarrow> incoming" where
  "ex_sent path y = \<lparr>in_Net = sv_net y, in_World = sv_world y, in_Host = ''idp'', in_Path = path, in_Request = sv_request y\<rparr>"

lemma ex_sent_simps [simp]: "in_Net (ex_sent path y) = sv_net y" "in_World (ex_sent path y) = sv_world y" "in_Path (ex_sent path y) = path"
  "in_Request (ex_sent path y) = sv_request y" "in_Host (ex_sent path y) = ''idp''"
  by (simp_all add: ex_sent_def)

lemma ex_sent_request: "sq_PathID (sv_request y) = [] \<Longrightarrow> api_request (ex_sent path y) (sv_endpoint y) [] = y"
  by (simp add: api_request_def)

lemma ex_sent_step:
  assumes run: "http_run L J C H p xs s" and d: "dispatch_of p (ex_sent path y) = Dispatched (ToApi (sv_endpoint y)) []"
    and y: "sq_PathID (sv_request y) = []" "sq_Method (sv_request y) \<noteq> ''OPTIONS''" "ord_ok (sv_world y)"
    and "\<And>v. sv_endpoint y = VpCreateSession \<Longrightarrow> hd_verifier (idp_api p) = Some v \<Longrightarrow> fresh_ids L J v (sv_world y) s"
  shows "http_run L J C H p (xs @ [ex_sent path y]) (s\<lparr>sv_authz := snd (answer L J C H p y (sv_authz s))\<rparr>)"
  using http_request [OF run, of "ex_sent path y"] http_api_reply [OF d, of L J C H s] assms(6) d y
  by (auto simp: ex_sent_request creates_session_def)

definition ex_verifying :: idp where
  "ex_verifying = \<lparr>idp_api = NewHandler ex_base \<lparr>sk_kid = ''kid'', sk_private = 1, sk_public = JWK []\<rparr> ex_service ''https://issuer''
     (Some ex_verifier), idp_webui = ex_webui, idp_bridge = None, idp_mux = service_mux True [] False\<rparr>"

definition ex_form :: url_values where
  "ex_form = [(''vp_token'', [ex_pres]), (''state'', [RandomToken 32 (rnd ex_draws 1)])]"

definition ex_vp :: "endpoint \<Rightarrow> string \<Rightarrow> server_request \<Rightarrow> served" where
  "ex_vp ep i r = \<lparr>sv_net = ex_offline, sv_world = ex_draws, sv_endpoint = ep, sv_request = r\<lparr>sq_PathID := i\<rparr>\<rparr>"

abbreviation ex_create_req :: served where
  "ex_create_req \<equiv> ex_vp VpCreateSession [] (ex_post (\<lambda>_. []) [])"
abbreviation ex_response_req :: served where
  "ex_response_req \<equiv> ex_vp VpResponse [] (ex_post (\<lambda>_. []) (values_Encode ex_form))"
abbreviation ex_result_req :: served where
  "ex_result_req \<equiv> ex_vp VpResult (RandomToken 16 (rnd ex_draws 0)) (ex_post (\<lambda>_. []) [])"

abbreviation ex_idp_state :: "store \<Rightarrow> idp_state" where
  "ex_idp_state s \<equiv> \<lparr>sv_authz = init_state\<lparr>sessions := s\<rparr>, sv_oidc = newStore\<rparr>"

lemma ex_vp_simps [simp]: "sv_net (ex_vp ep i r) = ex_offline" "sv_world (ex_vp ep i r) = ex_draws" "sv_endpoint (ex_vp ep i r) = ep"
  "sq_PathID (sv_request (ex_vp ep i r)) = i" "sq_Method (sv_request (ex_vp ep i (ex_post hs b))) = ''POST''"
  by (simp_all add: ex_vp_def ex_post_def)

lemma ex_verifying_simps [simp]: "hd_verifier (idp_api ex_verifying) = Some ex_verifier" "idp_bridge ex_verifying = None"
  by (simp_all add: ex_verifying_def NewHandler_def)

lemma ex_ord: "ord_ok ex_draws"
  by (simp add: ord_ok_def)

lemma ex_created: "snd (answer ex_vf_lib ex_key_lib ex_cbor ex_web ex_verifying ex_create_req (sv_authz (ex_idp_state NewStore))) =
    sv_authz (ex_idp_state (ex_waiting (Verifier_Sessions.ex_request ''sd'')))"
proof -
  have "fst (decode_body ex_web dec_session \<lparr>cse_Credentials = [], cse_CredentialType = [], cse_Claims = [], cse_Format = []\<rparr> r) =
      \<lparr>cse_Credentials = [Verifier_Sessions.ex_request ''sd''], cse_CredentialType = [], cse_Claims = [], cse_Format = []\<rparr>" for r
    by (simp add: decode_body_def ex_web_def dec_session_def dec_credential_def field_def first_error_def ascii_lower_def
        zero_credential_def Verifier_Sessions.ex_request_def)
  then show ?thesis
    using ex_create [of "Verifier_Sessions.ex_request ''sd''"]
    by (simp add: answer_state with_verifier_def oid4vpCreateSession_def requested_credentials_def case_prod_unfold Let_def)
qed

lemma ex_response_handled:
  assumes "hd_verifier (idp_api p) = Some ex_verifier"
  shows "snd (answer ex_vf_lib ex_key_lib ex_cbor ex_web p ex_response_req st) =
    st\<lparr>sessions := snd (HandleResponse ex_vf_lib ex_key_lib ex_cbor ex_offline ex_draws ex_response (sessions st))\<rparr>"
proof -
  let ?r = "sv_request ex_response_req"
  have wf: "values_wf ex_form" by (simp add: values_wf_def ex_form_def)
  have "length (values_Encode ex_form) \<le> 100" by code_simp
  then have "posts_form ex_web ?r ex_form"
    by (simp add: posts_form_def ex_vp_def ex_post_def header_Get_def ex_web_def ex_http_def maxFormSize_def)
  note f = parseForm_posted [OF wf this, of ex_vf_lib]
  have "RandomToken 32 (rnd ex_draws 1) \<noteq> []" "ex_pres \<noteq> []"
    by (simp_all add: RandomToken_def RawURL_Encode_nonempty ex_draws_def ex_pres_def)
  then have "\<lparr>rr_VPToken = idx (\<lambda>k. if values_Get k ex_form = [] then None else Some (values_Get k ex_form)) ''vp_token'',
      rr_State = idx (\<lambda>k. if values_Get k ex_form = [] then None else Some (values_Get k ex_form)) ''state'',
      rr_Response = idx (\<lambda>k. if values_Get k ex_form = [] then None else Some (values_Get k ex_form)) ''response''\<rparr> = ex_response"
    by (simp add: idx_def values_Get_def ex_form_def ex_response_def)
  then show ?thesis
    using assms by (simp add: answer_state with_verifier_def oid4vpResponse_def f case_prod_unfold Let_def)
qed

lemma ex_answered_state: "snd (answer ex_vf_lib ex_key_lib ex_cbor ex_web ex_verifying ex_response_req
      (sv_authz (ex_idp_state (ex_waiting (Verifier_Sessions.ex_request ''sd''))))) = sv_authz (ex_idp_state ex_verified)"
  by (simp add: ex_response_handled ex_verified_def)

lemma ex_verifying_mounted: "mounted ex_verifying"
  by (auto simp: mounted_def shares_verifier_def) (simp add: ex_verifying_def, rule exI, rule refl)

abbreviation ex_vp_sent :: "incoming list" where
  "ex_vp_sent \<equiv> [ex_sent ''/oid4vp/v1/session'' ex_create_req, ex_sent ''/oid4vp/v1/response'' ex_response_req]"

lemma ex_verifying_run: "http_run ex_vf_lib ex_key_lib ex_cbor ex_web ex_verifying ex_vp_sent (ex_idp_state ex_verified)"
proof -
  let ?R = "http_run ex_vf_lib ex_key_lib ex_cbor ex_web ex_verifying"
  have d: "mux_dispatch (idp_mux ex_verifying) host ''POST'' ''/oid4vp/v1/session'' = Dispatched (ToApi VpCreateSession) []"
    "mux_dispatch (idp_mux ex_verifying) host ''POST'' ''/oid4vp/v1/response'' = Dispatched (ToApi VpResponse) []" for host
    using dispatch_literal [OF ex_verifying_mounted, of "''POST''" "[''oid4vp'', ''v1'', ''session'']" VpCreateSession host]
      dispatch_literal [OF ex_verifying_mounted, of "''POST''" "[''oid4vp'', ''v1'', ''response'']" VpResponse host]
    by (simp_all add: api_shapes_def)
  have "?R [] (ex_idp_state NewStore)" using http_start by (simp add: init_state_def)
  from ex_sent_step [OF this, of "''/oid4vp/v1/session''" ex_create_req]
  have "?R [ex_sent ''/oid4vp/v1/session'' ex_create_req] (ex_idp_state (ex_waiting (Verifier_Sessions.ex_request ''sd'')))"
    using d ex_ord ex_created by (simp add: fresh_ids_def fresh_draws_def NewStore_def newStore_def session_key_def)
  from ex_sent_step [OF this, of "''/oid4vp/v1/response''" ex_response_req] show ?thesis
    using d ex_ord ex_answered_state by simp
qed

subsection \<open>An example login over HTTP\<close>

definition ex_bridged :: idp where
  "ex_bridged = ex_verifying\<lparr>idp_mux := service_mux True [] True, idp_bridge := Some (\<lparr>sto_clients = ex_registry,
     sto_signingKey = \<lparr>sk_kid = ''kid'', sk_private = 1, sk_public = JWK []\<rparr>, sto_loginBasePath = ''https://i/oidc/v1/login''\<rparr>, ex_login)\<rparr>"

lemma ex_bridged_simps [simp]: "hd_verifier (idp_api ex_bridged) = Some ex_verifier" "idp_bridge ex_bridged =
    Some (\<lparr>sto_clients = ex_registry, sto_signingKey = \<lparr>sk_kid = ''kid'', sk_private = 1, sk_public = JWK []\<rparr>,
      sto_loginBasePath = ''https://i/oidc/v1/login''\<rparr>, ex_login)"
  by (simp_all add: ex_bridged_def)

lemma ex_bridged_mounted: "mounted ex_bridged"
  by (auto simp: mounted_def shares_verifier_def ex_login_def) (simp add: ex_bridged_def, rule exI, rule refl)

definition ex_page_req :: "string \<Rightarrow> incoming" where
  "ex_page_req path = \<lparr>in_Net = ex_offline, in_World = ex_draws, in_Host = ''idp'', in_Path = path, in_Request =
     \<lparr>sq_Method = ''GET'', sq_PathID = [], sq_RawQuery = values_Encode [(''id'', [ex_id])], sq_Header = (\<lambda>_. []), sq_Cookies = [],
      sq_BasicAuth = None, sq_Body = Inr []\<rparr>\<rparr>"

lemma ex_page_req_simps [simp]: "in_World (ex_page_req path) = ex_draws" "in_Path (ex_page_req path) = path"
  "sq_Method (in_Request (ex_page_req path)) = ''GET''" "query_Get (in_Request (ex_page_req path)) ''id'' = ex_id"
  using query_Get_Encode [of "[(''id'', [ex_id])]" "in_Request (ex_page_req path)"]
  by (simp_all add: ex_page_req_def values_wf_def values_Get_def)

text \<open>The library stores a request, its page is loaded, the wallet responds, the page polls, the library stores a code.\<close>

abbreviation ex_login_sent :: "incoming list" where
  "ex_login_sent \<equiv> [ex_page_req ''/oidc/v1/login'', ex_sent ''/oid4vp/v1/response'' ex_response_req, ex_page_req ''/oidc/v1/login/poll'']"

lemma ex_login_run: "http_run ex_vf_lib ex_key_lib ex_cbor ex_web ex_bridged ex_login_sent
    \<lparr>sv_authz = init_state\<lparr>sessions := ex_answered\<rparr>, sv_oidc = SaveAuthCode 0 ex_id ''code'' ex_completed\<rparr>"
proof -
  let ?R = "http_run ex_vf_lib ex_key_lib ex_cbor ex_web ex_bridged" and ?q = "login_credential ex_scope"
  let ?s = "\<lparr>sv_authz = init_state\<lparr>sessions := NewStore\<rparr>, sv_oidc = ex_linked []\<rparr>"
  have d: "dispatch_of ex_bridged (ex_page_req ''/oidc/v1/login'') = Dispatched ToLogin []"
    "dispatch_of ex_bridged (ex_page_req ''/oidc/v1/login/poll'') = Dispatched ToPoll []"
    using dispatch_bridge [OF ex_bridged_mounted] by simp_all
  have i: "init_state\<lparr>sessions := NewStore\<rparr> = init_state" by (simp add: init_state_def)
  have none: "os_authRequests newStore x = None" for x by (simp add: newStore_def)
  have "?R [] \<lparr>sv_authz = init_state\<lparr>sessions := NewStore\<rparr>, sv_oidc = newStore\<rparr>" using http_start unfolding i .
  from http_call [OF this, of "CallAuthorize ex_draws ex_auth_params"] have "?R [] ?s" by (simp add: ex_authorized none)
  moreover have "fresh_ids ex_vf_lib ex_key_lib ex_verifier ex_draws ?s"
    using ex_id_nonempty by (auto simp: fresh_ids_def fresh_draws_def NewStore_def ex_linked_def ex_entry_def split: if_splits)
  ultimately have "?R [ex_page_req ''/oidc/v1/login''] (snd (http_serve ex_vf_lib ex_key_lib ex_cbor ex_web ex_bridged (ex_page_req ''/oidc/v1/login'') ?s))"
    using http_request [of ex_vf_lib ex_key_lib ex_cbor ex_web ex_bridged "[]" ?s "ex_page_req ''/oidc/v1/login''"] ex_ord by simp
  then have "?R [ex_page_req ''/oidc/v1/login''] \<lparr>sv_authz = init_state\<lparr>sessions := ex_waiting ?q\<rparr>, sv_oidc = ex_linked ex_id\<rparr>"
    using d(1) ex_paged by (simp add: http_serve_def bridge_put_def case_prod_unfold Let_def)
  moreover have "mux_dispatch (idp_mux ex_bridged) host ''POST'' ''/oid4vp/v1/response'' = Dispatched (ToApi VpResponse) []" for host
    using dispatch_literal [OF ex_bridged_mounted, of "''POST''" "[''oid4vp'', ''v1'', ''response'']" VpResponse host] by (simp add: api_shapes_def)
  ultimately have "?R [ex_page_req ''/oidc/v1/login'', ex_sent ''/oid4vp/v1/response'' ex_response_req]
      \<lparr>sv_authz = init_state\<lparr>sessions := ex_answered\<rparr>, sv_oidc = ex_linked ex_id\<rparr>"
    using ex_sent_step [of ex_vf_lib ex_key_lib ex_cbor ex_web ex_bridged _ _ "''/oid4vp/v1/response''" ex_response_req] ex_ord
    by (fastforce simp: ex_response_handled ex_answered_def)
  from http_request [OF this, of "ex_page_req ''/oidc/v1/login/poll''"]
  have "?R ex_login_sent \<lparr>sv_authz = init_state\<lparr>sessions := ex_answered\<rparr>, sv_oidc = ex_completed\<rparr>"
    using d(2) ex_polled ex_ord by (simp add: http_serve_def bridge_put_def creates_session_def case_prod_unfold Let_def)
  from http_call [OF this, of "CallSave 0 ex_id ''code''"] show ?thesis by simp
qed

subsection \<open>An example issuance over HTTP\<close>

definition ex_issuing :: idp where
  "ex_issuing = \<lparr>idp_api = NewHandler ex_base \<lparr>sk_kid = ''kid'', sk_private = 1, sk_public = JWK []\<rparr> ex_service ''https://issuer'' None,
     idp_webui = ex_webui, idp_bridge = None, idp_mux = service_mux False [] False\<rparr>"

definition ex_par_form :: url_values where
  "ex_par_form = [(''client_id'', [''client'']), (''code_challenge'', [computeS256Challenge ''verifier'']),
     (''code_challenge_method'', [''S256'']), (''redirect_uri'', [''https://w/cb?x=1'']), (''response_type'', [''code'']),
     (''scope'', [''pid'']), (''state'', [''s1''])]"

lemma length_b64: "length (b64_encode u s) \<le> 2 * length s"
  by (induction u s rule: b64_encode.induct) simp_all

lemma length_QueryEscape: "length (QueryEscape s) \<le> 3 * length s"
  by (induction s) (auto simp: QueryEscape_def query_escape_byte_def percent_def)

lemma length_go_join: "length (go_join c xs) \<le> sum_list (map (\<lambda>x. length x + 1) xs)"
  by (induction c xs rule: go_join.induct) simp_all

lemma length_Encode:
  assumes "sorted (map fst m)"
  shows "length (values_Encode m) \<le> sum_list (map (\<lambda>kv. 3 * (length (fst kv) + length (snd kv)) + 2) (value_pairs m))"
proof -
  have "length (encode_pair kv) + 1 \<le> 3 * (length (fst kv) + length (snd kv)) + 2" for kv
    using length_QueryEscape [of "fst kv"] length_QueryEscape [of "snd kv"] by (simp add: encode_pair_def)
  then have "sum_list (map (\<lambda>x. length x + 1) (map encode_pair ps)) \<le>
      sum_list (map (\<lambda>kv. 3 * (length (fst kv) + length (snd kv)) + 2) ps)" for ps
    by (simp add: comp_def sum_list_mono)
  then show ?thesis using length_go_join [of "CHR ''&''" "map encode_pair (value_pairs m)"] le_trans
    by (fastforce simp: values_Encode_def sort_key_id_if_sorted [OF assms])
qed

lemma ex_par_form_small: "length (values_Encode ex_par_form) \<le> maxFormSize"
proof -
  have "sorted (map fst ex_par_form)" by (simp add: ex_par_form_def)
  from length_Encode [OF this] show ?thesis
    using length_b64 [of True "sha256 ''verifier''"] length_sha256 [of "''verifier''"]
    by (simp add: ex_par_form_def value_pairs_def maxFormSize_def computeS256Challenge_def RawURL_Encode_def)
qed

definition ex_headers :: "string \<Rightarrow> string \<Rightarrow> string list" where
  "ex_headers dpop = (\<lambda>_. [])(HeaderClientAttestation := [''wia''], HeaderClientAttestationPoP := [''pop''], ''DPoP'' := [dpop])"

definition ex_token_form :: url_values where
  "ex_token_form = [(''client_id'', [''client'']), (''code'', [ex_tok (CHR ''c'')]), (''code_verifier'', [''verifier'']),
     (''grant_type'', [''authorization_code''])]"

definition ex_visit :: "string \<Rightarrow> server_request" where
  "ex_visit cookie = \<lparr>sq_Method = ''GET'', sq_PathID = [],
     sq_RawQuery = values_Encode [(''client_id'', [''client'']), (''request_uri'', [ex_uri (CHR ''u'')])],
     sq_Header = (\<lambda>_. []), sq_Cookies = (if cookie = [] then [] else [(IdentifiedCookieName, cookie)]),
     sq_BasicAuth = None, sq_Body = Inr []\<rparr>"

definition ex_served :: "time \<Rightarrow> char \<Rightarrow> endpoint \<Rightarrow> server_request \<Rightarrow> served" where
  "ex_served t c ep r = \<lparr>sv_net = ex_net, sv_world = ex_world t c, sv_endpoint = ep, sv_request = r\<rparr>"

definition ex_requests :: "served list" where
  "ex_requests =
     [ex_served 0 (CHR ''u'') Par (ex_post (ex_headers ''dpop1'') (values_Encode ex_par_form)),
      ex_served second (CHR ''t'') Authorize (ex_visit []),
      ex_served (2 * second) (CHR ''k'') IdentifyComplete (ex_post (\<lambda>_. []) (ex_tok (CHR ''t''))),
      ex_served (3 * second) (CHR ''c'') Authorize (ex_visit (ex_tok (CHR ''k'')))]"

definition ex_token_req :: served where
  "ex_token_req = ex_served (4 * second) (CHR ''j'') Token (ex_post (ex_headers ''dpop2'') (values_Encode ex_token_form))"

lemma ex_issuing_simps [simp]: "hd_authz (idp_api ex_issuing) = ex_service" "hd_verifier (idp_api ex_issuing) = None"
  by (simp_all add: ex_issuing_def NewHandler_def)

lemma ex_served_simps [simp]: "sv_net (ex_served t c ep r) = ex_net" "sv_world (ex_served t c ep r) = ex_world t c"
  "sv_endpoint (ex_served t c ep r) = ep" "sv_request (ex_served t c ep r) = r"
  by (simp_all add: ex_served_def)

lemma ex_post_simps [simp]: "sq_Method (ex_post hs b) = ''POST''" "sq_Method (ex_visit cookie) = ''GET''"
  "clientAttestationHeaders (ex_post (ex_headers d) b) = (''wia'', ''pop'')" "sq_Header (ex_post (ex_headers d) b) ''DPoP'' = [d]"
  by (simp_all add: ex_post_def ex_visit_def clientAttestationHeaders_def header_Get_def ex_headers_def HeaderClientAttestation_def
      HeaderClientAttestationPoP_def)

lemma ex_posts:
  "values_wf m \<Longrightarrow> length (values_Encode m) \<le> maxFormSize \<Longrightarrow> parseForm L ex_http (ex_post hs (values_Encode m)) =
     Inr (\<lambda>k. if values_Get k m = [] then None else Some (values_Get k m))"
  by (rule parseForm_posted) (simp_all add: posts_form_def ex_post_def header_Get_def ex_http_def)

lemma ex_par_params: "parseForm L ex_http (ex_post hs (values_Encode ex_par_form)) = Inr ex_params"
proof -
  have "values_wf ex_par_form" by (simp add: ex_par_form_def values_wf_def)
  from ex_posts [OF this ex_par_form_small] show ?thesis
    by (auto simp: fun_eq_iff values_Get_def ex_par_form_def ex_params_def)
qed

lemma ex_token_params: "\<exists>form. parseForm L ex_http (ex_post hs (values_Encode ex_token_form)) = Inr form \<and>
    TokenRequestFromForm form = Authz_Flow.ex_request (ex_tok (CHR ''c''))"
proof -
  have wf: "values_wf ex_token_form" by (simp add: ex_token_form_def values_wf_def)
  have "length (values_Encode ex_token_form) \<le> 200" by code_simp
  then have "length (values_Encode ex_token_form) \<le> maxFormSize" by (simp add: maxFormSize_def)
  from ex_posts [OF wf this] show ?thesis
    by (simp add: TokenRequestFromForm_def idx_def values_Get_def ex_token_form_def Authz_Flow.ex_request_def)
qed

lemma ex_query: "query_Get (ex_visit cookie) ''request_uri'' = ex_uri (CHR ''u'')" "query_Get (ex_visit cookie) ''client_id'' = ''client''"
  using query_Get_Encode [of "[(''client_id'', [''client'']), (''request_uri'', [ex_uri (CHR ''u'')])]" "ex_visit cookie"]
  by (simp_all add: ex_visit_def values_wf_def values_Get_def)

lemma ex_visited: "snd (answer ex_lib J C ex_http ex_issuing (ex_served t c Authorize (ex_visit cookie)) st) =
    snd (HandleAuthorize ex_net ex_service (ex_world t c) (ex_uri (CHR ''u'')) ''client'' cookie st)"
proof -
  have "(case map_of (sq_Cookies (ex_visit cookie)) IdentifiedCookieName of None \<Rightarrow> [] | Some v \<Rightarrow> v) = cookie"
    by (simp add: ex_visit_def)
  then show ?thesis by (simp add: answer_state api_authorize_def ex_query case_prod_unfold Let_def)
qed

lemma ex_issuing_state:
  "foldl (\<lambda>st x. snd (answer ex_lib ex_key_lib ex_cbor ex_http ex_issuing x st)) init_state ex_requests = ex_coded"
proof -
  let ?a = "\<lambda>x st. snd (answer ex_lib ex_key_lib ex_cbor ex_http ex_issuing x st)"
  have "?a (ex_served 0 (CHR ''u'') Par (ex_post (ex_headers ''dpop1'') (values_Encode ex_par_form))) init_state =
      snd (HandlePar ex_lib ex_service (ex_world 0 (CHR ''u'')) ex_params ''wia'' ''pop'' ''dpop1'' init_state)"
    by (simp add: answer_state api_par_def ex_par_params SingleDPoPHeader_def case_prod_unfold Let_def)
  moreover have "?a (ex_served (2 * second) (CHR ''k'') IdentifyComplete (ex_post (\<lambda>_. []) (ex_tok (CHR ''t'')))) st =
      snd (CompleteIdentification ex_lib ex_net ex_service (ex_world (2 * second) (CHR ''k'')) (ex_tok (CHR ''t'')) [] [] [] st)" for st
    by (simp add: answer_state api_identifyComplete_def decode_body_def dec_complete_def ex_http_def field_def
        first_error_def ascii_lower_def case_prod_unfold Let_def) (simp add: ex_post_def)
  ultimately have "foldl (\<lambda>st x. ?a x st) init_state ex_requests = foldl (exec_event ex_lib ex_service) init_state ex_events"
    by (simp add: ex_requests_def ex_events_def ex_visited)
  then show ?thesis using ex_flow by simp
qed

lemma ex_issuing_mounted: "mounted ex_issuing"
  by (auto simp: mounted_def shares_verifier_def) (simp_all add: ex_issuing_def, rule exI, rule refl)

definition ex_path :: "endpoint \<Rightarrow> string" where
  "ex_path ep = (if ep = Par then ''/oid4vci/v1/par'' else if ep = Authorize then ''/oid4vci/v1/authorize''
     else if ep = IdentifyComplete then ''/identify/complete'' else ''/oid4vci/v1/token'')"

lemma ex_dispatched:
  "mux_dispatch (idp_mux ex_issuing) host ''POST'' ''/oid4vci/v1/par'' = Dispatched (ToApi Par) []"
  "mux_dispatch (idp_mux ex_issuing) host ''GET'' ''/oid4vci/v1/authorize'' = Dispatched (ToApi Authorize) []"
  "mux_dispatch (idp_mux ex_issuing) host ''POST'' ''/identify/complete'' = Dispatched (ToApi IdentifyComplete) []"
  using dispatch_literal [OF ex_issuing_mounted, of "''POST''" "[''oid4vci'', ''v1'', ''par'']" Par host]
    dispatch_literal [OF ex_issuing_mounted, of "''GET''" "[''oid4vci'', ''v1'', ''authorize'']" Authorize host]
    dispatch_literal [OF ex_issuing_mounted, of "''POST''" "[''identify'', ''complete'']" IdentifyComplete host]
  by (simp_all add: api_shapes_def)

abbreviation ex_all_sent :: "incoming list" where
  "ex_all_sent \<equiv> map (\<lambda>y. ex_sent (ex_path (sv_endpoint y)) y) ex_requests"

lemma ex_issuing_run: "http_run ex_lib ex_key_lib ex_cbor ex_http ex_issuing ex_all_sent \<lparr>sv_authz = ex_coded, sv_oidc = newStore\<rparr>"
proof -
  let ?R = "http_run ex_lib ex_key_lib ex_cbor ex_http ex_issuing" and ?send = "\<lambda>y. ex_sent (ex_path (sv_endpoint y)) y"
  let ?a = "\<lambda>x st. snd (answer ex_lib ex_key_lib ex_cbor ex_http ex_issuing x st)"
  let ?ok = "\<lambda>y. dispatch_of ex_issuing (?send y) = Dispatched (ToApi (sv_endpoint y)) [] \<and> sq_PathID (sv_request y) = [] \<and>
      sq_Method (sv_request y) \<noteq> ''OPTIONS'' \<and> ord_ok (sv_world y)"
  have run: "?R (xs @ map ?send ys) \<lparr>sv_authz = foldl (\<lambda>st x. ?a x st) st ys, sv_oidc = newStore\<rparr>"
    if "?R xs \<lparr>sv_authz = st, sv_oidc = newStore\<rparr>" "\<forall>y\<in>set ys. ?ok y" for xs ys st
    using that
  proof (induction ys arbitrary: xs st)
    case (Cons y ys)
    then show ?case using Cons.IH [of "xs @ [?send y]"] ex_sent_step [OF Cons.prems(1), of "ex_path (sv_endpoint y)" y] by simp
  qed simp
  have "ord (ex_world t c) = id" for t c by (simp add: ex_world_def)
  then have "\<forall>y\<in>set ex_requests. ?ok y"
    using ex_dispatched by (simp add: ex_requests_def ex_path_def ord_ok_def ex_post_def ex_visit_def)
  from run [OF http_start this] show ?thesis by (simp add: ex_issuing_state)
qed

end
