(* ===== verification/Threads.thy ===== *)
theory Threads
  imports Prelude
begin

text \<open>
  Handlers as programs. Go serves every request on a goroutine of its own; the goroutines share the
  stores, whose methods each hold a mutex. A handler is therefore a sequence of critical sections with
  pure code between them, and what the service does is an interleaving of the critical sections of all
  requests. This theory has such programs, their interleavings, and the two proof rules the components use:
  an invariant with thread-local knowledge (in the manner of rely and guarantee), and the rule
  that a resource made once is won once.
\<close>

subsection \<open>Programs of critical sections\<close>

datatype ('s, 'r) prog =
    Done 'r
  | Atomic "'s \<Rightarrow> ('s, 'r) prog \<times> 's"

text \<open>The program run without interference.\<close>

primrec run_alone :: "('s, 'r) prog \<Rightarrow> 's \<Rightarrow> 'r \<times> 's" where
  "run_alone (Done r) = (\<lambda>s. (r, s))"
| "run_alone (Atomic f) = (\<lambda>s. case map_prod run_alone id (f s) of (run, s') \<Rightarrow> run s')"

lemma run_alone_Atomic [simp]: "run_alone (Atomic f) s = (case f s of (p, s') \<Rightarrow> run_alone p s')"
  by (simp add: case_prod_unfold)

declare run_alone.simps(2) [simp del]

lemma run_map_prog [simp]: "run_alone (map_prog g p) s = apfst g (run_alone p s)"
proof (induction p arbitrary: s)
  case (Atomic f)
  obtain q s' where f: "f s = (q, s')" by fastforce
  then have "run_alone (map_prog g q) s' = apfst g (run_alone q s')" by (metis Atomic fsts.intros fst_conv rangeI)
  then show ?case by (simp add: f)
qed simp

text \<open>The first \<open>n\<close> critical sections of a program, without interference.\<close>

fun advance :: "nat \<Rightarrow> ('s, 'r) prog \<Rightarrow> 's \<Rightarrow> ('s, 'r) prog \<times> 's" where
  "advance (Suc n) (Atomic f) s = (case f s of (p, s') \<Rightarrow> advance n p s')"
| "advance n p s = (p, s)"

lemma run_advance: "advance n p s = (q, s') \<Longrightarrow> run_alone p s = run_alone q s'"
  by (induction n p s rule: advance.induct) (auto split: prod.splits)

text \<open>
  The first critical sections of a program among those of other requests: before each of its own sections,
  the others have changed the state by the next of the functions \<open>gs\<close>.
\<close>

fun among :: "('s \<Rightarrow> 's) list \<Rightarrow> ('s, 'r) prog \<Rightarrow> 's \<Rightarrow> ('s, 'r) prog \<times> 's" where
  "among (g # gs) (Atomic f) s = (case f (g s) of (p, s') \<Rightarrow> among gs p s')"
| "among gs p s = (p, s)"

lemma among_Nil [simp]: "among [] p s = (p, s)"
  by (cases p) simp_all

lemma among_alone:
  assumes "run_alone p s = (r, s')"
  obtains n where "\<And>k. n \<le> k \<Longrightarrow> among (replicate k id) p s = (Done r, s')"
  using assms
proof (induction p arbitrary: s thesis)
  case (Atomic f)
  obtain q s1 where f: "f s = (q, s1)" by fastforce
  have q: "run_alone q s1 = (r, s')" using Atomic.prems(2) by (simp add: f)
  have "q \<in> Basic_BNFs.fsts (f s)" by (metis f fst_conv fsts.intros)
  then obtain n where n: "\<And>k. n \<le> k \<Longrightarrow> among (replicate k id) q s1 = (Done r, s')" using Atomic.IH [OF rangeI _ _ q] by blast
  show ?case
  proof (rule Atomic.prems(1) [of "Suc n"])
    fix k assume "Suc n \<le> k"
    then obtain k' where "k = Suc k'" "n \<le> k'" by (cases k) auto
    then show "among (replicate k id) (Atomic f) s = (Done r, s')" using n by (simp add: f)
  qed
qed simp

text \<open>
  The running requests with what is left of their programs, and the shared state. Finished requests
  stay in the list with their results. \<open>R\<close> is what is assumed of every step (that the random generator
  does not repeat itself, say).
\<close>

type_synonym ('c, 's, 'r) threads = "('c \<times> ('s, 'r) prog) list"

inductive conc ::
  "('c \<Rightarrow> ('s, 'r) prog) \<Rightarrow> ('s \<Rightarrow> 's \<Rightarrow> bool) \<Rightarrow> 's \<Rightarrow> ('c, 's, 'r) threads \<Rightarrow> 's \<Rightarrow> bool"
  for body R s0 where
  conc_init: "conc body R s0 [] s0"
| conc_call: "conc body R s0 ts s \<Longrightarrow> conc body R s0 (ts @ [(c, body c)]) s"
| conc_act: "conc body R s0 (ts @ (c, Atomic f) # us) s \<Longrightarrow> f s = (p, s') \<Longrightarrow> R s s' \<Longrightarrow>
    conc body R s0 (ts @ (c, p) # us) s'"

text \<open>Where nothing is assumed of the steps.\<close>

abbreviation any_step :: "'s \<Rightarrow> 's \<Rightarrow> bool" where
  "any_step \<equiv> \<lambda>_ _. True"

text \<open>A program run without interference, where every one of its steps is as assumed.\<close>

inductive runs :: "('s \<Rightarrow> 's \<Rightarrow> bool) \<Rightarrow> ('s, 'r) prog \<Rightarrow> 's \<Rightarrow> 'r \<Rightarrow> 's \<Rightarrow> bool" for R where
  runs_Done [intro]: "runs R (Done r) s r s"
| runs_Atomic: "f s = (p, s1) \<Longrightarrow> R s s1 \<Longrightarrow> runs R p s1 r s' \<Longrightarrow> runs R (Atomic f) s r s'"

inductive steady :: "('s \<Rightarrow> 's \<Rightarrow> bool) \<Rightarrow> ('s, 'r) prog \<Rightarrow> bool" for R where
  steady_Done [simp, intro]: "steady R (Done r)"
| steady_Atomic [intro]: "(\<And>s. R s (snd (f s))) \<Longrightarrow> (\<And>s. steady R (fst (f s))) \<Longrightarrow> steady R (Atomic f)"

inductive_simps runs_Done_iff [simp]: "runs R (Done r) s r' s'"
inductive_simps runs_Atomic_iff: "runs R (Atomic f) s r s'"

lemma steady_runs: "steady R p \<Longrightarrow> run_alone p s = (r, s') \<Longrightarrow> runs R p s r s'"
proof (induction arbitrary: s rule: steady.induct)
  case (steady_Atomic f)
  obtain p s1 where f: "f s = (p, s1)" by fastforce
  then have "R s s1" "runs R p s1 r s'"
    using steady_Atomic.hyps(1) [of s] steady_Atomic.IH [of s s1] steady_Atomic.prems by simp_all
  then show ?case using f by (blast intro: runs_Atomic)
qed auto

lemma steady_any: "steady any_step p"
proof (induction p)
  case (Atomic f)
  then show ?case by (blast intro: steady_Atomic fsts.intros prod.collapse [symmetric] rangeI)
qed auto

text \<open>Serving requests one after the other is one of the interleavings.\<close>

lemma conc_runs:
  assumes "runs R p s r s'" "conc body R s0 (ts @ (c, p) # us) s"
  shows "conc body R s0 (ts @ (c, Done r) # us) s'"
  using assms by induction (blast intro: conc_act)+

lemma conc_next: "conc body R s0 ts s \<Longrightarrow> runs R (body c) s r s' \<Longrightarrow> conc body R s0 (ts @ [(c, Done r)]) s'"
  by (blast intro: conc_call conc_runs)

lemma conc_alone:
  "conc body any_step s0 ts s \<Longrightarrow> run_alone (body c) s = (r, s') \<Longrightarrow> conc body any_step s0 (ts @ [(c, Done r)]) s'"
  by (blast intro: conc_next steady_runs steady_any)

subsection \<open>Invariants and thread-local knowledge\<close>

text \<open>The requests answered so far, with their answers: a log that only grows.\<close>

definition answered :: "('c, 's, 'r) threads \<Rightarrow> ('c \<times> 'r) set" where
  "answered ts = {(c, r). (c, Done r) \<in> set ts}"

definition reply_of :: "'c \<Rightarrow> ('s, 'r) prog \<Rightarrow> ('c \<times> 'r) set" where
  "reply_of c p = (case p of Done r \<Rightarrow> {(c, r)} | Atomic _ \<Rightarrow> {})"

lemma reply_of_simps [simp]: "reply_of c (Done r) = {(c, r)}" "reply_of c (Atomic f) = {}"
  by (simp_all add: reply_of_def)

lemma answered_Nil [simp]: "answered [] = {}"
  by (simp add: answered_def)

lemma answered_Cons [simp]: "answered ((c, p) # ts) = reply_of c p \<union> answered ts"
  by (cases p) (auto simp: answered_def)

lemma answered_append [simp]: "answered (ts @ us) = answered ts \<union> answered us"
  by (auto simp: answered_def)

text \<open>
  \<open>safe I Q R c H s p\<close>: a request \<open>c\<close> with the rest \<open>p\<close> of its program, at a moment where \<open>H\<close> was answered and
  the state was \<open>s\<close>, keeps the invariant at each of its critical sections and ends with an answer for
  which \<open>Q\<close> holds, whatever is done by and answered to others in between.
\<close>

inductive safe ::
  "(('c \<times> 'r) set \<Rightarrow> 's \<Rightarrow> bool) \<Rightarrow> (('c \<times> 'r) set \<Rightarrow> 'c \<Rightarrow> 'r \<Rightarrow> bool) \<Rightarrow> ('s \<Rightarrow> 's \<Rightarrow> bool) \<Rightarrow> 'c \<Rightarrow> ('c \<times> 'r) set \<Rightarrow> 's \<Rightarrow>
   ('s, 'r) prog \<Rightarrow> bool"
  for I Q R c where
  safe_Done: "Q H c r \<Longrightarrow> safe I Q R c H s (Done r)"
| safe_Atomic: "(\<And>H' s'. H \<subseteq> H' \<Longrightarrow> R s s' \<Longrightarrow> I H' s' \<Longrightarrow> R s' (snd (f s')) \<Longrightarrow> I (H' \<union> reply_of c (fst (f s'))) (snd (f s'))) \<Longrightarrow>
    (\<And>H' s'. H \<subseteq> H' \<Longrightarrow> R s s' \<Longrightarrow> I H' s' \<Longrightarrow> R s' (snd (f s')) \<Longrightarrow> safe I Q R c H' (snd (f s')) (fst (f s'))) \<Longrightarrow>
    safe I Q R c H s (Atomic f)"

inductive_simps safe_Done_iff [simp]: "safe I Q R c H s (Done r)"
inductive_cases safe_AtomicE: "safe I Q R c H s (Atomic f)"

locale interleaved =
  fixes body :: "'c \<Rightarrow> ('s, 'r) prog"
    and R :: "'s \<Rightarrow> 's \<Rightarrow> bool"
    and s0 :: 's
    and calls :: "'c set"
    and I :: "('c \<times> 'r) set \<Rightarrow> 's \<Rightarrow> bool"
    and Q :: "('c \<times> 'r) set \<Rightarrow> 'c \<Rightarrow> 'r \<Rightarrow> bool"
  assumes R_refl: "R s s"
    and R_trans: "R s s' \<Longrightarrow> R s' s'' \<Longrightarrow> R s s''"
    and inv_init: "I {} s0"
    and inv_call: "c \<in> calls \<Longrightarrow> I H s \<Longrightarrow> I (H \<union> reply_of c (body c)) s"
    and post_mono: "Q H c r \<Longrightarrow> H \<subseteq> H' \<Longrightarrow> Q H' c r"
    and bodies_safe: "c \<in> calls \<Longrightarrow> I H s \<Longrightarrow> safe I Q R c H s (body c)"
begin

lemma safe_mono: "safe I Q R c H s p \<Longrightarrow> H \<subseteq> H' \<Longrightarrow> R s s' \<Longrightarrow> safe I Q R c H' s' p"
proof (induction rule: safe.induct)
  case (safe_Done H r s)
  then show ?case by (auto intro: post_mono)
next
  case (safe_Atomic H s f)
  note le = subset_trans [OF safe_Atomic.prems(1)] R_trans [OF safe_Atomic.prems(2)]
  show ?case by (rule safe.safe_Atomic) (simp_all add: safe_Atomic.hyps le)
qed

lemma conc_safe:
  assumes "conc body R s0 ts s" "fst ` set ts \<subseteq> calls"
  shows "I (answered ts) s \<and> (\<forall>c p. (c, p) \<in> set ts \<longrightarrow> safe I Q R c (answered ts) s p)"
  using assms
proof (induction rule: conc.induct)
  case conc_init
  show ?case by (simp add: inv_init)
next
  case (conc_call ts s c)
  then have "I (answered ts) s" "\<forall>c p. (c, p) \<in> set ts \<longrightarrow> safe I Q R c (answered ts) s p" "c \<in> calls" by auto
  then show ?case by (auto intro: safe_mono [OF _ _ R_refl] bodies_safe dest: inv_call [of c])
next
  case (conc_act ts c f us s p s')
  let ?H = "answered (ts @ (c, Atomic f) # us)"
  from conc_act.IH conc_act.prems have IH: "I ?H s" "\<forall>d q. (d, q) \<in> set (ts @ (c, Atomic f) # us) \<longrightarrow> safe I Q R d ?H s q" by auto
  then have "safe I Q R c ?H s (Atomic f)" by auto
  then have "I (?H \<union> reply_of c p) s'" "safe I Q R c ?H s' p"
    using IH(1) conc_act.hyps(2,3) R_refl by (metis order_refl safe_AtomicE fst_conv snd_conv)+
  moreover have "answered (ts @ (c, p) # us) = ?H \<union> reply_of c p" by auto
  ultimately show ?case using IH(2) conc_act.hyps(3) by (auto intro: safe_mono R_refl)
qed

lemma conc_inv: "conc body R s0 ts s \<Longrightarrow> fst ` set ts \<subseteq> calls \<Longrightarrow> I (answered ts) s"
  using conc_safe by blast

lemma conc_post: "conc body R s0 ts s \<Longrightarrow> fst ` set ts \<subseteq> calls \<Longrightarrow> (c, Done r) \<in> set ts \<Longrightarrow> Q (answered ts) c r"
  using conc_safe by fastforce

end

subsection \<open>What is made once is won once\<close>

text \<open>
  \<open>avail s\<close> says that a resource is there. A program is inert if none of its critical sections makes it, a
  maker if it makes it at most once, and a taker if it can end with a winning answer only by
  having taken the resource away.
\<close>

inductive inert :: "('s \<Rightarrow> bool) \<Rightarrow> ('s, 'r) prog \<Rightarrow> bool" for avail where
  inert_Done [simp, intro]: "inert avail (Done r)"
| inert_Atomic [intro]: "(\<And>s. avail (snd (f s)) \<Longrightarrow> avail s) \<Longrightarrow> (\<And>s. inert avail (fst (f s))) \<Longrightarrow> inert avail (Atomic f)"

inductive maker :: "('s \<Rightarrow> bool) \<Rightarrow> ('s, 'r) prog \<Rightarrow> bool" for avail where
  maker_Done [simp, intro]: "maker avail (Done r)"
| maker_Atomic [intro]: "(\<And>s. (avail (snd (f s)) \<longrightarrow> avail s) \<and> maker avail (fst (f s)) \<or> inert avail (fst (f s))) \<Longrightarrow>
    maker avail (Atomic f)"

inductive taker :: "('s \<Rightarrow> bool) \<Rightarrow> ('r \<Rightarrow> bool) \<Rightarrow> ('s, 'r) prog \<Rightarrow> bool" for avail win where
  taker_Done [intro]: "\<not> win r \<Longrightarrow> taker avail win (Done r)"
| taker_Atomic [intro]: "(\<And>s. avail s \<and> \<not> avail (snd (f s)) \<or> taker avail win (fst (f s))) \<Longrightarrow> taker avail win (Atomic f)"

inductive_simps taker_Done_iff [simp]: "taker avail win (Done r)"
inductive_cases inert_AtomicE: "inert avail (Atomic f)"
inductive_cases maker_AtomicE: "maker avail (Atomic f)"
inductive_cases taker_AtomicE: "taker avail win (Atomic f)"

lemma maker_inert: "inert avail p \<Longrightarrow> maker avail p"
  by (induction rule: inert.induct) auto

lemma taker_never: "taker avail (\<lambda>_. False) p"
proof (induction p)
  case (Atomic f)
  show ?case by (rule taker_Atomic) (metis Atomic fsts.intros prod.collapse rangeI fst_conv)
qed auto

locale made_once =
  fixes body :: "'c \<Rightarrow> ('s, 'r) prog"
    and s0 :: 's
    and avail :: "'s \<Rightarrow> bool"
    and makes :: "'c \<Rightarrow> bool"
    and win :: "'c \<Rightarrow> 'r \<Rightarrow> bool"
  assumes none_first: "\<not> avail s0"
    and others_inert: "\<not> makes c \<Longrightarrow> inert avail (body c)"
    and makers: "makes c \<Longrightarrow> maker avail (body c)"
    and takers: "taker avail (win c) (body c)"
begin

definition won :: "('c, 's, 'r) threads \<Rightarrow> ('c, 's, 'r) threads" where
  "won = filter (\<lambda>(c, p). \<not> taker avail (win c) p)"

definition makers_of :: "('c, 's, 'r) threads \<Rightarrow> ('c, 's, 'r) threads" where
  "makers_of = filter (\<lambda>(c, p). makes c)"

definition once_inv :: "('c, 's, 'r) threads \<Rightarrow> 's \<Rightarrow> bool" where
  "once_inv ts s \<longleftrightarrow>
     (\<forall>c p. (c, p) \<in> set ts \<longrightarrow> (if makes c then maker avail p else inert avail p)) \<and>
     (avail s \<or> won ts \<noteq> [] \<longrightarrow> makers_of ts \<noteq> [] \<and> (\<forall>c p. (c, p) \<in> set ts \<longrightarrow> inert avail p)) \<and>
     (avail s \<longrightarrow> won ts = []) \<and> length (won ts) \<le> 1"

lemma won_simps [simp]:
  "won [] = []" "won (ts @ us) = won ts @ won us"
  "won ((c, p) # ts) = (if taker avail (win c) p then won ts else (c, p) # won ts)"
  "makers_of [] = []" "makers_of (ts @ us) = makers_of ts @ makers_of us"
  "makers_of ((c, p) # ts) = (if makes c then (c, p) # makers_of ts else makers_of ts)"
  by (simp_all add: won_def makers_of_def)

lemma not_makers: "makers_of ts = [] \<Longrightarrow> (c, p) \<in> set ts \<Longrightarrow> \<not> makes c"
  by (auto simp: makers_of_def filter_empty_conv)

lemma once_inv_call:
  "once_inv ts s \<Longrightarrow> length (makers_of (ts @ [(c, body c)])) \<le> 1 \<Longrightarrow> once_inv (ts @ [(c, body c)]) s"
  using takers [of c] makers [of c] others_inert [of c]
  by (auto simp: once_inv_def split: if_splits)

lemma once_inv_act:
  assumes inv: "once_inv (ts @ (c, Atomic f) # us) s" and one: "length (makers_of (ts @ (c, Atomic f) # us)) \<le> 1"
    and f: "f s = (p, s')"
  shows "once_inv (ts @ (c, p) # us) s'"
proof (cases "avail s' \<and> \<not> avail s")
  case True
  have no: "\<not> inert avail (Atomic f)" using True f by (metis inert_AtomicE snd_conv)
  with inv have m: "makes c" "maker avail (Atomic f)" and w: "won (ts @ (c, Atomic f) # us) = []"
    by (auto simp: once_inv_def split: if_splits)
  from m(2) have p: "inert avail p" using True f by (metis maker_AtomicE fst_conv snd_conv)
  from w have "taker avail (win c) (Atomic f)" by (auto split: if_splits)
  then have t: "taker avail (win c) p" using True f by (metis taker_AtomicE fst_conv)
  from one m(1) have "makers_of ts = []" "makers_of us = []" by auto
  then have "\<forall>d q. (d, q) \<in> set (ts @ us) \<longrightarrow> inert avail q" using inv by (auto simp: once_inv_def dest: not_makers split: if_splits)
  then show ?thesis using p t w m(1) maker_inert by (auto simp: once_inv_def split: if_splits)
next
  case False
  have i: "inert avail p" if "inert avail (Atomic f)" using that f by (metis inert_AtomicE fst_conv)
  have m: "maker avail p" if "maker avail (Atomic f)" using that f maker_inert by (metis maker_AtomicE fst_conv)
  show ?thesis
  proof (cases "taker avail (win c) (Atomic f) \<and> \<not> taker avail (win c) p")
    case True
    then have "avail s" "\<not> avail s'" using f by (metis taker_AtomicE fst_conv snd_conv)+
    then show ?thesis using inv i m True by (auto simp: once_inv_def split: if_splits)
  next
    case same: False
    then show ?thesis using inv i m False by (auto simp: once_inv_def split: if_splits)
  qed
qed

lemma conc_once: "conc body R s0 ts s \<Longrightarrow> length (makers_of ts) \<le> 1 \<Longrightarrow> once_inv ts s"
proof (induction rule: conc.induct)
  case conc_init
  show ?case by (simp add: once_inv_def none_first)
next
  case (conc_call ts s c)
  then show ?case by (intro once_inv_call) auto
next
  case (conc_act ts c f us s p s')
  then show ?case by (intro once_inv_act [OF conc_act.IH _ conc_act.hyps(2)]) auto
qed

lemma won_at_most_once:
  assumes "conc body R s0 ts s" "length (makers_of ts) \<le> 1"
  shows "length (filter (\<lambda>(c, p). \<exists>r. p = Done r \<and> win c r) ts) \<le> 1"
proof -
  have "length (filter (\<lambda>(c, p). \<exists>r. p = Done r \<and> win c r) ts) \<le> length (won ts)"
    by (induction ts) (auto simp: won_def)
  then show ?thesis using conc_once [OF assms] by (simp add: once_inv_def)
qed

end

end
