(* ===== verification/Authz_Threads.thy ===== *)
theory Authz_Threads
  imports Threads Authz_System
begin

text \<open>
  The authorization server under concurrency: its handlers as programs of critical sections of the session
  store and of the replay cache, with any interleaving of the requests. Shown: run alone a program is the
  handler; under every interleaving a token goes back to an accepted pushed request and a code buys at most one token.
\<close>

subsection \<open>The handlers as programs\<close>

definition on_sessions :: "(store \<Rightarrow> 'a \<times> store) \<Rightarrow> ('a \<Rightarrow> (authz_state, 'r) prog) \<Rightarrow> (authz_state, 'r) prog" where
  "on_sessions m k = Atomic (\<lambda>st. case m (sessions st) of (a, s) \<Rightarrow> (k a, st\<lparr>sessions := s\<rparr>))"

definition on_jtis :: "(jti_store \<Rightarrow> 'a \<times> jti_store) \<Rightarrow> ('a \<Rightarrow> (authz_state, 'r) prog) \<Rightarrow> (authz_state, 'r) prog" where
  "on_jtis m k = Atomic (\<lambda>st. case m (jtis st) of (a, js) \<Rightarrow> (k a, st\<lparr>jtis := js\<rparr>))"

lemma run_on [simp]:
  "run_alone (on_sessions m k) st = (case m (sessions st) of (a, s) \<Rightarrow> run_alone (k a) (st\<lparr>sessions := s\<rparr>))"
  "run_alone (on_jtis m' k') st = (case m' (jtis st) of (a, js) \<Rightarrow> run_alone (k' a) (st\<lparr>jtis := js\<rparr>))"
  by (simp_all add: on_sessions_def on_jtis_def case_prod_unfold)

datatype authz_reply =
    ParReply "go_error + string \<times> int"
  | AuthorizeReply "go_error + authorize_result"
  | CompleteReply "go_error + string \<times> string"
  | RejectReply "go_error + string"
  | TokenReply "go_error + token_response"
  | RevokedReply "string list"
  | VerificationReply

definition HandlePar_prog ::
  "lib \<Rightarrow> authz_service \<Rightarrow> world \<Rightarrow> params \<Rightarrow> string \<Rightarrow> string \<Rightarrow> string \<Rightarrow> (authz_state, go_error + string \<times> int) prog" where
  "HandlePar_prog L svc w ps wiaHeader popHeader dpopHeader =
     (if idx ps ''request_uri'' \<noteq> []
      then Done (Inl (BadRequest InvalidRequest
              ''request_uri must not be provided in a pushed authorization request''))
      else case Resolve L (az_attestations svc) (clk w 0) wiaHeader popHeader
                  (idx ps ''client_assertion_type'') (idx ps ''client_assertion'') of
        Inl e \<Rightarrow> Done (Inl e)
      | Inr clientID \<Rightarrow>
     if clientID = [] then Done (Inl (BadRequest InvalidRequest ''Client attestation is required''))
     else let ps = ps(boundClientIDKey \<mapsto> clientID) in
     if (case ps ''response_type'' of None \<Rightarrow> False | Some rt \<Rightarrow> rt \<noteq> ''code'')
     then Done (Inl (BadRequest UnsupportedResponseType ''Only response_type=code is supported''))
     else if idx ps ''code_challenge'' = []
     then Done (Inl (BadRequest InvalidRequest ''code_challenge is required''))
     else if idx ps ''code_challenge_method'' \<noteq> ''S256''
     then Done (Inl (BadRequest InvalidRequest ''Only S256 code_challenge_method is supported''))
     else on_jtis (bindDPoPKey L svc (clk w 1) (ord w) dpopHeader ps) (\<lambda>r. case r of
        Inl e \<Rightarrow> Done (Inl e)
      | Inr ps \<Rightarrow>
          (let requestURI = requestURIPrefix @ RandomToken 16 (rnd w 0) in
           on_sessions (\<lambda>s. ((), StoreParRequest (clk w 2) requestURI ps s)) (\<lambda>_. Done (Inr (requestURI, 60))))))"

definition completeAuthorize_prog ::
  "time \<Rightarrow> (nat \<Rightarrow> nat \<Rightarrow> string) \<Rightarrow> string \<Rightarrow> params \<Rightarrow> (authz_state, go_error + authorize_result) prog" where
  "completeAuthorize_prog now draws recordID ps =
     on_sessions (completeAuthorize now draws recordID ps) (\<lambda>r. Done (Inr r))"

text \<open>The branch for a request with an offered record, and the one for a visit with or without identification.\<close>

definition offered_prog :: "world \<Rightarrow> string \<Rightarrow> string \<Rightarrow> (authz_state, go_error + authorize_result) prog" where
  "offered_prog w requestURI recordID = on_sessions (ConsumeParRequest (clk w 1) requestURI) (\<lambda>r. case r of
     None \<Rightarrow> Done (Inl (BadRequest InvalidRequest ''Invalid or expired request_uri''))
   | Some ps \<Rightarrow> completeAuthorize_prog (clk w 2) (rnd w) recordID ps)"

definition visit_prog ::
  "authz_service \<Rightarrow> world \<Rightarrow> string \<Rightarrow> string \<Rightarrow> params \<Rightarrow> (authz_state, go_error + authorize_result) prog" where
  "visit_prog svc w requestURI identifiedCookie ps =
     on_sessions (\<lambda>s. (CheckIdentified (clk w 1) identifiedCookie requestURI s, s)) (\<lambda>r. case r of
        Some (identifiedRecordID, ps) \<Rightarrow> completeAuthorize_prog (clk w 2) (rnd w) identifiedRecordID ps
      | None \<Rightarrow> on_sessions (StorePendingAuth (rnd w 0) (ps(pendingRequestURIKey \<mapsto> requestURI))) (\<lambda>token.
          Done (Inr \<lparr>ar_Code = [], ar_RedirectURI = [], ar_State = [],
                 ar_IdentifyRedirect = az_baseURL svc @ ''/identify/?session='' @ token\<rparr>)))"

definition HandleAuthorize_prog ::
  "net \<Rightarrow> authz_service \<Rightarrow> world \<Rightarrow> string \<Rightarrow> string \<Rightarrow> string \<Rightarrow> (authz_state, go_error + authorize_result) prog" where
  "HandleAuthorize_prog N svc w requestURI queryClientID identifiedCookie =
     (if requestURI = [] then Done (Inl (BadRequest InvalidRequest ''Missing request_uri''))
      else on_sessions (PeekParRequest (clk w 0) requestURI) (\<lambda>r. case r of
        None \<Rightarrow> Done (Inl (BadRequest InvalidRequest ''Invalid or expired request_uri''))
      | Some ps \<Rightarrow>
     if queryClientID \<noteq> [] \<and> idx ps ''client_id'' \<noteq> [] \<and> queryClientID \<noteq> idx ps ''client_id''
     then Done (Inl (BadRequest InvalidRequest ''request_uri is bound to a different client''))
     else let issuerState = idx ps ''issuer_state'' in
     case (if issuerState \<noteq> [] then FindByIssuerState N (az_issuer svc) issuerState else Inr None) of
        Inl e \<Rightarrow> Done (Inl (ServiceUnavailable InvalidRequest (''Credential Issuer unreachable: '' @ e)))
      | Inr found \<Rightarrow>
     let recordID = (case found of None \<Rightarrow> [] | Some r \<Rightarrow> r) in
     if recordID \<noteq> [] then offered_prog w requestURI recordID
     else visit_prog svc w requestURI identifiedCookie ps))"

definition CompleteIdentification_prog ::
  "lib \<Rightarrow> net \<Rightarrow> authz_service \<Rightarrow> world \<Rightarrow> string \<Rightarrow> json_map \<Rightarrow> string \<Rightarrow> string \<Rightarrow>
   (authz_state, go_error + string \<times> string) prog" where
  "CompleteIdentification_prog L N svc w sessionToken credentialData sourceType sourceRef =
     on_sessions (\<lambda>s. (GetIdentifyReplay (clk w 0) sessionToken s, s)) (\<lambda>r. case r of
        Some cached \<Rightarrow> Done (Inr (cached, []))
      | None \<Rightarrow>
     on_sessions (ConsumePendingAuth sessionToken) (\<lambda>r. case r of
        None \<Rightarrow> Done (Inl invalid_session)
      | Some ps \<Rightarrow>
     let requestURI = idx ps pendingRequestURIKey in
     if requestURI = []
     then Done (Inl (BadRequest InvalidRequest ''Identification session is missing its request_uri''))
     else case identifiedScope ps of
        Inl e \<Rightarrow> Done (Inl e)
      | Inr scope \<Rightarrow>
     case issuer_Create L N (az_issuer svc)
            \<lparr>cr_CredentialType = scope, cr_CredentialData = credentialData,
             cr_SourceType = sourceType, cr_SourceRef = sourceRef\<rparr> of
        Inl e \<Rightarrow> Done (Inl (ServiceUnavailable InvalidRequest (''Credential Issuer unreachable: '' @ e)))
      | Inr recID \<Rightarrow>
     on_sessions (MarkIdentified (clk w 1) (rnd w 0) requestURI recID ps) (\<lambda>cookieValue.
     let redirect = az_baseURL svc @ ''/oid4vci/v1/authorize?request_uri='' @ QueryEscape requestURI in
     on_sessions (\<lambda>s. ((), StoreIdentifyReplay (clk w 2) sessionToken redirect s)) (\<lambda>_.
     Done (Inr (redirect, cookieValue))))))"

definition RejectIdentification_prog ::
  "lib \<Rightarrow> world \<Rightarrow> string \<Rightarrow> (authz_state, go_error + string) prog" where
  "RejectIdentification_prog L w sessionToken =
     on_sessions (\<lambda>s. (GetIdentifyReplay (clk w 0) sessionToken s, s)) (\<lambda>r. case r of
        Some cached \<Rightarrow> Done (Inr cached)
      | None \<Rightarrow>
     on_sessions (ConsumePendingAuth sessionToken) (\<lambda>r. case r of
        None \<Rightarrow> Done (Inl invalid_session)
      | Some ps \<Rightarrow>
     case url_Parse L (idx ps ''redirect_uri'') of
        Inl e \<Rightarrow> Done (Inl (BadRequest InvalidRequest (''Invalid redirect_uri: '' @ e)))
      | Inr u \<Rightarrow>
          (let q = values_set ''error'' ''access_denied'' (ParseQuery (url_RawQuery u));
               q = values_set ''error_description'' ''The end-user denied the authorization request'' q;
               q = (if idx ps ''state'' \<noteq> [] then values_set ''state'' (idx ps ''state'') q else q);
               redirect = url_String L (u\<lparr>url_RawQuery := values_Encode q\<rparr>)
           in on_sessions (\<lambda>s. ((), StoreIdentifyReplay (clk w 1) sessionToken redirect s)) (\<lambda>_. Done (Inr redirect)))))"

definition grantToken_prog ::
  "lib \<Rightarrow> authz_service \<Rightarrow> world \<Rightarrow> token_request \<Rightarrow> string \<Rightarrow> jwk \<Rightarrow> session_data \<Rightarrow>
   (authz_state, go_error + token_response) prog" where
  "grantToken_prog L svc w req clientID dpopKey sess =
     (let boundClientID = str_or_empty (sd_Metadata sess boundClientIDKey);
          boundJKT = str_or_empty (sd_Metadata sess ''dpop_jkt'');
          storedChallenge = str_or_empty (sd_Metadata sess ''code_challenge'') in
     if boundClientID \<noteq> [] \<and> boundClientID \<noteq> clientID
     then Done (Inl (BadRequest InvalidGrant ''Authorization code was not issued to this client''))
     else if boundJKT \<noteq> [] \<and> DPoPThumbprint L dpopKey \<noteq> Inr boundJKT
     then Done (Inl (BadRequest InvalidGrant
             ''DPoP proof key does not match the one bound at the PAR endpoint''))
     else if tr_CodeVerifier req = []
     then Done (Inl (BadRequest InvalidGrant ''Missing code_verifier''))
     else if storedChallenge = [] \<or> \<not> VerifyPKCES256 (tr_CodeVerifier req) storedChallenge
     then Done (Inl (BadRequest InvalidGrant ''PKCE verification failed''))
     else case Mint L (az_minter svc) (clk w 4) (rnd w 1)
            \<lparr>atc_IssuanceRecordID = str_or_empty (sd_Metadata sess ''issuanceRecordId''),
             atc_CNonce = GenerateNonce (rnd w 0), atc_ClientID = clientID, atc_DPoPKey = dpopKey\<rparr> of
        Inl e \<Rightarrow> Done (Inl (BadRequest InvalidRequest (''Failed to mint access token: '' @ e)))
      | Inr (accessToken, jti) \<Rightarrow>
          on_sessions (\<lambda>s. ((), RecordIssuedJTI (tr_Code req) jti s)) (\<lambda>_. Done (Inr (DPoPToken accessToken))))"

text \<open>From the redemption of the code on.\<close>

definition redeem_prog ::
  "lib \<Rightarrow> authz_service \<Rightarrow> world \<Rightarrow> token_request \<Rightarrow> string \<Rightarrow> jwk \<Rightarrow> (authz_state, go_error + token_response) prog" where
  "redeem_prog L svc w req clientID dpopKey =
     on_sessions (ConsumeAuthCode (clk w 2) (tr_Code req)) (\<lambda>r. case r of
        (None, reused) \<Rightarrow>
          (if reused
           then on_sessions (\<lambda>s. ((), RevokeTokensForCode (clk w 3) (tr_Code req) s)) (\<lambda>_.
                  Done (Inl (BadRequest InvalidGrant ''Invalid authorization code'')))
           else Done (Inl (BadRequest InvalidGrant ''Invalid authorization code'')))
      | (Some sess, _) \<Rightarrow> grantToken_prog L svc w req clientID dpopKey sess)"

definition HandleAuthCodeToken_prog ::
  "lib \<Rightarrow> authz_service \<Rightarrow> world \<Rightarrow> token_request \<Rightarrow> string \<Rightarrow> string \<Rightarrow> string \<Rightarrow>
   (authz_state, go_error + token_response) prog" where
  "HandleAuthCodeToken_prog L svc w req dpopHeader wiaHeader popHeader =
     (case Resolve L (az_attestations svc) (clk w 0) wiaHeader popHeader
             (tr_ClientAssertionType req) (tr_ClientAssertion req) of
        Inl e \<Rightarrow> Done (Inl e)
      | Inr clientID \<Rightarrow>
     if clientID = [] then Done (Inl (BadRequest InvalidRequest ''Client attestation is required''))
     else if tr_ClientID req \<noteq> [] \<and> tr_ClientID req \<noteq> clientID
     then Done (Inl (Unauthorized InvalidClient ''client_id does not match the attested client''))
     else on_jtis (ValidateDPoPProof L (clk w 1) (ord w) dpopHeader ''POST''
                 (az_baseURL svc @ ''/oid4vci/v1/token'') []) (\<lambda>r. case r of
        Inl e \<Rightarrow> Done (Inl e)
      | Inr dpopKey \<Rightarrow>
     if tr_Code req = [] then Done (Inl (BadRequest InvalidGrant ''Missing authorization code''))
     else redeem_prog L svc w req clientID dpopKey))"

text \<open>The requests are those of \<open>authz_event\<close>; a verifier call is one section of the store.\<close>

fun authz_body :: "lib \<Rightarrow> authz_service \<Rightarrow> authz_event \<Rightarrow> (authz_state, authz_reply) prog" where
  "authz_body L svc (EvPar w ps wia pop dpop) = map_prog ParReply (HandlePar_prog L svc w ps wia pop dpop)"
| "authz_body L svc (EvAuthorize N w uri cid cookie) =
     map_prog AuthorizeReply (HandleAuthorize_prog N svc w uri cid cookie)"
| "authz_body L svc (EvComplete N w tok data sty sref) =
     map_prog CompleteReply (CompleteIdentification_prog L N svc w tok data sty sref)"
| "authz_body L svc (EvReject w tok) = map_prog RejectReply (RejectIdentification_prog L w tok)"
| "authz_body L svc (EvToken w req dpop wia pop) = map_prog TokenReply (HandleAuthCodeToken_prog L svc w req dpop wia pop)"
| "authz_body L svc (EvRevoked now) = on_sessions (RevokedJTIs now) (\<lambda>live. Done (RevokedReply live))"
| "authz_body L svc (EvVerification now op) =
     (if verification_op op then on_sessions (\<lambda>s. ((), exec_op now op s)) (\<lambda>_. Done VerificationReply) else Done VerificationReply)"

text \<open>The atomic handlers, with their answers.\<close>

fun serve_event :: "lib \<Rightarrow> authz_service \<Rightarrow> authz_event \<Rightarrow> authz_state \<Rightarrow> authz_reply \<times> authz_state" where
  "serve_event L svc (EvPar w ps wia pop dpop) st = apfst ParReply (HandlePar L svc w ps wia pop dpop st)"
| "serve_event L svc (EvAuthorize N w uri cid cookie) st = apfst AuthorizeReply (HandleAuthorize N svc w uri cid cookie st)"
| "serve_event L svc (EvComplete N w tok data sty sref) st =
     apfst CompleteReply (CompleteIdentification L N svc w tok data sty sref st)"
| "serve_event L svc (EvReject w tok) st = apfst RejectReply (RejectIdentification L w tok st)"
| "serve_event L svc (EvToken w req dpop wia pop) st = apfst TokenReply (HandleAuthCodeToken L svc w req dpop wia pop st)"
| "serve_event L svc (EvRevoked now) st = apfst RevokedReply (authz_RevokedJTIs now st)"
| "serve_event L svc (EvVerification now op) st = (VerificationReply, exec_event L svc st (EvVerification now op))"

lemma serve_event_state: "snd (serve_event L svc e st) = exec_event L svc st e"
  by (cases e) simp_all

subsection \<open>Without interference the programs are the handlers\<close>

lemma HandlePar_alone: "run_alone (HandlePar_prog L svc w ps wia pop dpop) st = HandlePar L svc w ps wia pop dpop st"
  unfolding HandlePar_prog_def HandlePar_def Let_def
  by (cases st) (auto split: sum.splits prod.splits)

lemma HandleAuthorize_alone:
  "run_alone (HandleAuthorize_prog N svc w uri cid cookie) st = HandleAuthorize N svc w uri cid cookie st"
  unfolding HandleAuthorize_prog_def offered_prog_def visit_prog_def HandleAuthorize_def completeAuthorize_prog_def Let_def
  by (cases st) (auto split: sum.splits prod.splits option.splits)

lemma CompleteIdentification_alone:
  "run_alone (CompleteIdentification_prog L N svc w tok data sty sref) st = CompleteIdentification L N svc w tok data sty sref st"
  unfolding CompleteIdentification_prog_def CompleteIdentification_def Let_def
  by (cases st) (auto split: sum.splits prod.splits option.splits)

lemma RejectIdentification_alone: "run_alone (RejectIdentification_prog L w tok) st = RejectIdentification L w tok st"
  unfolding RejectIdentification_prog_def RejectIdentification_def Let_def
  by (cases st) (auto split: sum.splits prod.splits option.splits)

lemma grantToken_alone:
  "run_alone (grantToken_prog L svc w req c key sess) st = grantToken L svc w req c key sess st"
  unfolding grantToken_prog_def grantToken_def Let_def by (cases st) (auto split: sum.splits prod.splits)

lemma HandleAuthCodeToken_alone:
  "run_alone (HandleAuthCodeToken_prog L svc w req dpop wia pop) st = HandleAuthCodeToken L svc w req dpop wia pop st"
  unfolding HandleAuthCodeToken_prog_def redeem_prog_def HandleAuthCodeToken_def Let_def
  by (cases st) (auto simp: grantToken_alone split: sum.splits prod.splits option.splits)

lemma body_alone: "run_alone (authz_body L svc e) st = serve_event L svc e st"
  by (cases e) (simp_all add: HandlePar_alone HandleAuthorize_alone CompleteIdentification_alone RejectIdentification_alone
      HandleAuthCodeToken_alone authz_RevokedJTIs_def case_prod_unfold Let_def)

text \<open>Requests served one after the other, with their answers.\<close>

fun in_turn :: "lib \<Rightarrow> authz_service \<Rightarrow> authz_state \<Rightarrow> authz_event list \<Rightarrow> (authz_event, authz_state, authz_reply) threads" where
  "in_turn L svc st [] = []"
| "in_turn L svc st (e # es) = (e, Done (fst (serve_event L svc e st))) # in_turn L svc (exec_event L svc st e) es"

lemma in_turn_append:
  "in_turn L svc st (es @ es') = in_turn L svc st es @ in_turn L svc (foldl (exec_event L svc) st es) es'"
  by (induction es arbitrary: st) simp_all

lemma fst_in_turn [simp]: "map fst (in_turn L svc st es) = es"
  by (induction es arbitrary: st) simp_all

lemma conc_in_turn:
  "conc (authz_body L svc) any_step s0 ts st \<Longrightarrow>
     conc (authz_body L svc) any_step s0 (ts @ in_turn L svc st es) (foldl (exec_event L svc) st es)"
proof (induction es arbitrary: ts st)
  case (Cons e es)
  have "run_alone (authz_body L svc e) st = (fst (serve_event L svc e st), exec_event L svc st e)"
    by (metis body_alone serve_event_state prod.collapse)
  from Cons.IH [OF conc_alone [OF Cons.prems this]] show ?case by simp
qed simp

text \<open>
  The concurrent service refines the sequential one of the handlers: requests served one after the other, each
  answered by its handler as a whole, are a run of the concurrent service, with the same answers and
  the same final state. So what is proved of all interleavings holds of the handlers as well, and the
  programs are the handlers cut at the borders of their critical sections.
\<close>

lemma handlers_are_interleavings:
  "conc (authz_body L svc) any_step init_state (in_turn L svc init_state es) (foldl (exec_event L svc) init_state es)"
  using conc_in_turn [OF conc_init, of L svc init_state es] by simp

subsection \<open>Tokens under interleaving\<close>

lemma map_on [simp]:
  "map_prog g (on_sessions m k) = on_sessions m (\<lambda>a. map_prog g (k a))"
  "map_prog g (on_jtis m' k') = on_jtis m' (\<lambda>a. map_prog g (k' a))"
  by (auto simp: on_sessions_def on_jtis_def case_prod_unfold fun_eq_iff)

text \<open>The pushed requests accepted according to a log.\<close>

definition pushed :: "lib \<Rightarrow> authz_service \<Rightarrow> (authz_event \<times> authz_reply) set \<Rightarrow> par_call set" where
  "pushed L svc H = {q. par_granted L svc q \<and> (par_event q, ParReply (Inr (pc_uri q, 60))) \<in> H}"

definition traced_inv :: "lib \<Rightarrow> authz_service \<Rightarrow> (authz_event \<times> authz_reply) set \<Rightarrow> authz_state \<Rightarrow> bool" where
  "traced_inv L svc H st \<longleftrightarrow> store_origin (pushed L svc H) (sessions st)"

definition token_traced ::
  "lib \<Rightarrow> authz_service \<Rightarrow> (authz_event \<times> authz_reply) set \<Rightarrow> authz_event \<Rightarrow> authz_reply \<Rightarrow> bool" where
  "token_traced L svc H e r \<longleftrightarrow> (\<forall>w req dpop wia pop tok.
     e = EvToken w req dpop wia pop \<longrightarrow> r = TokenReply (Inr tok) \<longrightarrow>
     (\<exists>q \<in> pushed L svc H. token_backed L svc q w req dpop wia pop tok))"

lemma pushed_mono: "H \<subseteq> H' \<Longrightarrow> pushed L svc H \<subseteq> pushed L svc H'"
  by (auto simp: pushed_def)

lemma traced_inv_mono: "traced_inv L svc H st \<Longrightarrow> H \<subseteq> H' \<Longrightarrow> traced_inv L svc H' st"
  unfolding traced_inv_def by (erule store_origin_mono) (rule pushed_mono)

lemma token_traced_mono: "token_traced L svc H e r \<Longrightarrow> H \<subseteq> H' \<Longrightarrow> token_traced L svc H' e r"
  using pushed_mono [of H H' L svc] unfolding token_traced_def by (simp, blast)

lemma par_bound:
  assumes "idx ps ''request_uri'' = []"
    and "Resolve L (az_attestations svc) (clk w 0) wia pop (idx ps ''client_assertion_type'') (idx ps ''client_assertion'') = Inr c"
    and "c \<noteq> []" "(ps(boundClientIDKey \<mapsto> c)) ''response_type'' \<in> {None, Some ''code''}"
    and "idx (ps(boundClientIDKey \<mapsto> c)) ''code_challenge'' \<noteq> []" "idx (ps(boundClientIDKey \<mapsto> c)) ''code_challenge_method'' = ''S256''"
    and "bindDPoPKey L svc (clk w 1) (ord w) dpop (ps(boundClientIDKey \<mapsto> c)) js = (Inr ps', js')"
  obtains q where "par_granted L svc q" "par_event q = EvPar w ps wia pop dpop"
    "pc_uri q = requestURIPrefix @ RandomToken 16 (rnd w 0)" "pc_stored q = ps'"
proof -
  let ?uri = "requestURIPrefix @ RandomToken 16 (rnd w 0)"
  have "HandlePar L svc w ps wia pop dpop \<lparr>sessions = NewStore, jtis = js\<rparr> =
      (Inr (?uri, 60), \<lparr>sessions = StoreParRequest (clk w 2) ?uri ps' NewStore, jtis = js'\<rparr>)"
    using assms by (auto simp: HandlePar_def Let_def)
  then show thesis
  proof (rule HandlePar_granted)
    fix q js''
    assume q: "par_granted L svc q" "pc_world q = w" "pc_params q = ps" "pc_wia q = wia" "pc_pop q = pop" "pc_dpop q = dpop"
      "pc_uri q = ?uri"
    assume "\<lparr>sessions = StoreParRequest (clk w 2) ?uri ps' NewStore, jtis = js'\<rparr> =
      \<lparr>sessions = StoreParRequest (clk w 2) ?uri (pc_stored q) (sessions \<lparr>sessions = NewStore, jtis = js\<rparr>), jtis = js''\<rparr>"
    then have "parRequests (StoreParRequest (clk w 2) ?uri ps' NewStore) ?uri =
      parRequests (StoreParRequest (clk w 2) ?uri (pc_stored q) NewStore) ?uri" by simp
    then have "pc_stored q = ps'" by (simp add: StoreParRequest_def)
    then show thesis using that q by simp
  qed
qed

text \<open>
  No assumption is made on the steps of others, so what a thread may rely on does not depend on the
  state it left behind.
\<close>

definition tsafe :: "lib \<Rightarrow> authz_service \<Rightarrow> authz_event \<Rightarrow> (authz_event \<times> authz_reply) set \<Rightarrow>
    (authz_state, authz_reply) prog \<Rightarrow> bool" where
  "tsafe L svc e H p \<longleftrightarrow> (\<forall>st. safe (traced_inv L svc) (token_traced L svc) any_step e H st p)"

lemma tsafe_Done [simp]: "tsafe L svc e H (Done r) \<longleftrightarrow> token_traced L svc H e r"
  by (simp add: tsafe_def)

lemma tsafe_sessions:
  assumes "\<And>H' s a s'. H \<subseteq> H' \<Longrightarrow> store_origin (pushed L svc H') s \<Longrightarrow> m s = (a, s') \<Longrightarrow>
      store_origin (pushed L svc (H' \<union> reply_of e (k a))) s'"
    and "\<And>H' s a s'. H \<subseteq> H' \<Longrightarrow> store_origin (pushed L svc H') s \<Longrightarrow> m s = (a, s') \<Longrightarrow> tsafe L svc e H' (k a)"
  shows "tsafe L svc e H (on_sessions m k)"
  unfolding tsafe_def
proof
  fix st
  show "safe (traced_inv L svc) (token_traced L svc) any_step e H st (on_sessions m k)"
    unfolding on_sessions_def case_prod_unfold
    by (rule safe_Atomic)
      (use assms [OF _ _ prod.collapse [symmetric]] in \<open>auto simp: traced_inv_def tsafe_def\<close>)
qed

text \<open>A section that adds nothing to the store keeps its origins; what it read comes from accepted requests.\<close>

lemma safe_traced:
  assumes "\<And>H' s. H \<subseteq> H' \<Longrightarrow> store_origin (pushed L svc H') s \<Longrightarrow> store_origin (pushed L svc H') (snd (m s))"
    and "\<And>H' s a s'. H \<subseteq> H' \<Longrightarrow> store_origin (pushed L svc H') s \<Longrightarrow> m s = (a, s') \<Longrightarrow> tsafe L svc e H' (k a)"
  shows "tsafe L svc e H (on_sessions m k)"
proof (rule tsafe_sessions)
  fix H' s a s'
  assume "H \<subseteq> H'" "store_origin (pushed L svc H') s" and m: "m s = (a, s')"
  then have "store_origin (pushed L svc H') s'" using assms(1) [of H' s] by simp
  then show "store_origin (pushed L svc (H' \<union> reply_of e (k a))) s'" by (rule store_origin_mono) (simp add: pushed_mono)
qed (rule assms(2))

lemma safe_traced_jtis:
  assumes "\<And>H' js a js'. H \<subseteq> H' \<Longrightarrow> m js = (a, js') \<Longrightarrow> tsafe L svc e H' (k a)"
  shows "tsafe L svc e H (on_jtis m k)"
  unfolding tsafe_def
proof
  fix st
  have "store_origin (pushed L svc (H' \<union> reply_of e (k a))) s" if "store_origin (pushed L svc H') s" for H' s a
    using that by (rule store_origin_mono) (simp add: pushed_mono)
  then show "safe (traced_inv L svc) (token_traced L svc) any_step e H st (on_jtis m k)"
    unfolding on_jtis_def case_prod_unfold
    by (intro safe_Atomic) (use assms [OF _ prod.collapse [symmetric]] in \<open>auto simp: traced_inv_def tsafe_def\<close>)
qed

lemma StorePar_origin:
  "store_origin H s \<Longrightarrow> q \<in> H \<Longrightarrow> store_origin H (StoreParRequest t (pc_uri q) (pc_stored q) s)"
  by (auto simp: store_origin_def origins StoreParRequest_def)

lemma HandlePar_safe:
  "tsafe L svc (EvPar w ps wia pop dpop) H (map_prog ParReply (HandlePar_prog L svc w ps wia pop dpop))"
proof -
  let ?e = "EvPar w ps wia pop dpop" and ?uri = "requestURIPrefix @ RandomToken 16 (rnd w 0)"
  have fin: "tsafe L svc ?e H' (Done r)" for H' r by (simp add: token_traced_def)
  have store: "tsafe L svc ?e H'
      (on_sessions (\<lambda>s. ((), StoreParRequest (clk w 2) ?uri ps' s)) (\<lambda>_. Done (ParReply (Inr (?uri, 60)))))"
    if q: "par_granted L svc q" "par_event q = ?e" "pc_uri q = ?uri" "pc_stored q = ps'" for q ps' H'
  proof (rule tsafe_sessions)
    fix H'' s a s'
    assume o: "store_origin (pushed L svc H'') s" and s': "((), StoreParRequest (clk w 2) ?uri ps' s) = (a, s')"
    let ?H = "H'' \<union> {(?e, ParReply (Inr (?uri, 60)))}"
    have "q \<in> pushed L svc ?H" using q by (simp add: pushed_def)
    moreover have "store_origin (pushed L svc ?H) s" by (rule store_origin_mono [OF o]) (simp add: pushed_mono subset_insertI)
    ultimately show "store_origin (pushed L svc (H'' \<union> reply_of ?e (Done (ParReply (Inr (?uri, 60)))))) s'"
      using s' q(3,4) StorePar_origin [of "pushed L svc ?H" s q "clk w 2"] by auto
  qed (rule fin)
  have "tsafe L svc ?e H (map_prog ParReply (on_jtis
      (bindDPoPKey L svc (clk w 1) (ord w) dpop (ps(boundClientIDKey \<mapsto> c))) (\<lambda>r. case r of
        Inl e \<Rightarrow> Done (Inl e)
      | Inr ps \<Rightarrow> on_sessions (\<lambda>s. ((), StoreParRequest (clk w 2) ?uri ps s)) (\<lambda>_. Done (Inr (?uri, 60))))))"
    if c: "idx ps ''request_uri'' = []"
      "Resolve L (az_attestations svc) (clk w 0) wia pop (idx ps ''client_assertion_type'') (idx ps ''client_assertion'') = Inr c"
      "c \<noteq> []" "(ps(boundClientIDKey \<mapsto> c)) ''response_type'' \<in> {None, Some ''code''}"
      "idx (ps(boundClientIDKey \<mapsto> c)) ''code_challenge'' \<noteq> []" "idx (ps(boundClientIDKey \<mapsto> c)) ''code_challenge_method'' = ''S256''" for c
    unfolding map_on
  proof (rule safe_traced_jtis)
    fix H' js a js'
    assume "bindDPoPKey L svc (clk w 1) (ord w) dpop (ps(boundClientIDKey \<mapsto> c)) js = (a, js')"
    then show "tsafe L svc ?e H' (map_prog ParReply (case a of Inl e \<Rightarrow> Done (Inl e)
      | Inr ps \<Rightarrow> on_sessions (\<lambda>s. ((), StoreParRequest (clk w 2) ?uri ps s)) (\<lambda>_. Done (Inr (?uri, 60)))))"
    proof (cases a)
      case (Inr ps')
      assume "bindDPoPKey L svc (clk w 1) (ord w) dpop (ps(boundClientIDKey \<mapsto> c)) js = (a, js')"
      then obtain q where "par_granted L svc q" "par_event q = ?e" "pc_uri q = ?uri" "pc_stored q = ps'"
        using par_bound [OF c] Inr by metis
      from store [OF this] show ?thesis unfolding Inr by simp
    qed (simp add: token_traced_def)
  qed
  then show ?thesis unfolding HandlePar_prog_def Let_def
    using fin by (simp add: fin split: sum.split option.split)
qed

lemma token_traced_other [simp]: "(\<And>tok. r \<noteq> TokenReply (Inr tok)) \<Longrightarrow> token_traced L svc H e r"
  by (simp add: token_traced_def)

text \<open>What a section reads from the store comes from a pushed request.\<close>

lemma origin_reads:
  assumes "store_origin H s"
  shows "PeekParRequest t uri s = (Some ps, s') \<Longrightarrow> \<exists>q\<in>H. pc_uri q = uri \<and> pc_stored q = ps"
    and "ConsumeParRequest t uri s = (Some ps, s') \<Longrightarrow> \<exists>q\<in>H. pc_uri q = uri \<and> pc_stored q = ps"
    and "ConsumePendingAuth tok s = (Some ps, s') \<Longrightarrow> \<exists>q\<in>H. ps = (pc_stored q)(pendingRequestURIKey \<mapsto> pc_uri q)"
    and "CheckIdentified t cookie uri s = Some (rec, ps) \<Longrightarrow> \<exists>q\<in>H. ps = (pc_stored q)(pendingRequestURIKey \<mapsto> pc_uri q)"
    and "ConsumeAuthCode t code s = ((Some d, b), s') \<Longrightarrow> \<exists>q\<in>H. \<exists>rec. sd_Metadata d = authCodeMetadata rec (pc_stored q)"
  using assms unfolding store_origin_def origins
  by (fastforce simp: PeekParRequest_Some ConsumeParRequest_Some CheckIdentified_Some ConsumeAuthCode_Some ConsumePendingAuth_def
      split: option.splits)+

lemma completeAuthorize_safe:
  assumes q: "q \<in> pushed L svc H" "authCodeMetadata rec ps = authCodeMetadata rec (pc_stored q)"
  shows "tsafe L svc e H (map_prog AuthorizeReply (completeAuthorize_prog now draws rec ps))"
  unfolding completeAuthorize_prog_def map_on
proof (rule safe_traced)
  fix H' s
  assume "H \<subseteq> H'" "store_origin (pushed L svc H') s"
  then show "store_origin (pushed L svc H') (snd (completeAuthorize now draws rec ps s))"
    using completeAuthorize_origin q pushed_mono by blast
qed simp

lemma StorePending_origin:
  "store_origin H s \<Longrightarrow> q \<in> H \<Longrightarrow>
     store_origin H (snd (StorePendingAuth draw ((pc_stored q)(pendingRequestURIKey \<mapsto> pc_uri q)) s))"
  by (auto simp: store_origin_def origins StorePendingAuth_def Let_def)

lemma offered_safe: "tsafe L svc e H (map_prog AuthorizeReply (offered_prog w uri rec))"
  unfolding offered_prog_def map_on
  by (rule safe_traced)
    (auto simp: PeekPar_shrinks split: option.split intro: completeAuthorize_safe dest: origin_reads(2))

lemma visit_safe:
  assumes q: "q \<in> pushed L svc H" "pc_uri q = uri" "pc_stored q = ps"
  shows "tsafe L svc e H (map_prog AuthorizeReply (visit_prog svc w uri cookie ps))"
  unfolding visit_prog_def map_on
proof (rule safe_traced)
  fix H' s a s'
  assume H': "H \<subseteq> H'" and o: "store_origin (pushed L svc H') s" and a: "(CheckIdentified (clk w 1) cookie uri s, s) = (a, s')"
  have known: "q \<in> pushed L svc H''" if "H' \<subseteq> H''" for H'' using q(1) pushed_mono [OF subset_trans [OF H' that]] by blast
  have "tsafe L svc e H' (on_sessions (StorePendingAuth (rnd w 0) (ps(pendingRequestURIKey \<mapsto> uri))) (\<lambda>token.
      Done (AuthorizeReply (Inr (f token)))))" for f
    by (rule safe_traced) (use known StorePending_origin q(2,3) in \<open>blast, simp\<close>)
  moreover have "tsafe L svc e H' (map_prog AuthorizeReply (completeAuthorize_prog (clk w 2) (rnd w) rec ps'))"
    if "a = Some (rec, ps')" for rec ps'
  proof -
    from that a have "CheckIdentified (clk w 1) cookie uri s = Some (rec, ps')" by auto
    from origin_reads(4) [OF o this] show ?thesis by (auto intro: completeAuthorize_safe)
  qed
  ultimately show "tsafe L svc e H' (map_prog AuthorizeReply (case a of
        Some (identifiedRecordID, ps) \<Rightarrow> completeAuthorize_prog (clk w 2) (rnd w) identifiedRecordID ps
      | None \<Rightarrow> on_sessions (StorePendingAuth (rnd w 0) (ps(pendingRequestURIKey \<mapsto> uri))) (\<lambda>token.
          Done (Inr \<lparr>ar_Code = [], ar_RedirectURI = [], ar_State = [],
                 ar_IdentifyRedirect = az_baseURL svc @ ''/identify/?session='' @ token\<rparr>))))"
    by (auto split: option.split)
qed simp

lemma HandleAuthorize_safe:
  "tsafe L svc e H (map_prog AuthorizeReply (HandleAuthorize_prog N svc w uri cid cookie))"
proof (cases "uri = []")
  case False
  show ?thesis unfolding HandleAuthorize_prog_def Let_def if_not_P [OF False] map_on
    by (rule safe_traced)
      (auto simp: PeekPar_shrinks offered_safe split: option.split sum.split intro: visit_safe dest!: origin_reads(1))
qed (simp add: HandleAuthorize_prog_def)

lemma identified_origin_mark:
  assumes "store_origin H s" "q \<in> H" "ps = (pc_stored q)(pendingRequestURIKey \<mapsto> pc_uri q)"
  shows "store_origin H (snd (MarkIdentified t draw (idx ps pendingRequestURIKey) rec ps s))"
  using assms by (auto simp: store_origin_def origins MarkIdentified_def idx_def Let_def)

lemma origin_shrinks:
  assumes "store_origin H s"
  shows "store_origin H (snd (ConsumePendingAuth tok s))" "store_origin H (StoreIdentifyReplay t tok redirect s)"
    "store_origin H (snd (ConsumeAuthCode t code s))" "store_origin H (RecordIssuedJTI code jti s)"
    "store_origin H (RevokeTokensForCode t code s)" "store_origin H (snd (RevokedJTIs t s))"
    "verification_op op \<Longrightarrow> store_origin H (exec_op t op s)"
  using verification_op_frame [of op t s]
  by (auto intro!: store_origin_shrink [OF assms] simp: store_defs map_le_delete Let_def split: option.split)

text \<open>The rest of an identification once the deferred request has been taken.\<close>

lemma mark_safe:
  assumes q: "q \<in> pushed L svc H" "ps = (pc_stored q)(pendingRequestURIKey \<mapsto> pc_uri q)"
  shows "tsafe L svc e H (on_sessions (MarkIdentified t draw (idx ps pendingRequestURIKey) rec ps) (\<lambda>cookieValue.
    on_sessions (\<lambda>s. ((), StoreIdentifyReplay t' tok redirect s)) (\<lambda>_. Done (CompleteReply (Inr (redirect, cookieValue))))))"
proof (rule safe_traced)
  fix H' s
  assume "H \<subseteq> H'" "store_origin (pushed L svc H') s"
  then show "store_origin (pushed L svc H') (snd (MarkIdentified t draw (idx ps pendingRequestURIKey) rec ps s))"
    using q pushed_mono by (blast intro: identified_origin_mark)
qed (rule safe_traced; simp add: origin_shrinks)

lemma CompleteIdentification_safe:
  "tsafe L svc e H (map_prog CompleteReply (CompleteIdentification_prog L N svc w tok data sty sref))"
proof -
  have taken: "tsafe L svc e H' (map_prog CompleteReply (case r of
        None \<Rightarrow> Done (Inl invalid_session)
      | Some ps \<Rightarrow>
     if idx ps pendingRequestURIKey = []
     then Done (Inl (BadRequest InvalidRequest ''Identification session is missing its request_uri''))
     else case identifiedScope ps of
        Inl e \<Rightarrow> Done (Inl e)
      | Inr scope \<Rightarrow>
     case issuer_Create L N (az_issuer svc) (cr scope) of
        Inl e \<Rightarrow> Done (Inl (ServiceUnavailable InvalidRequest (''Credential Issuer unreachable: '' @ e)))
      | Inr recID \<Rightarrow>
     on_sessions (MarkIdentified (clk w 1) (rnd w 0) (idx ps pendingRequestURIKey) recID ps) (\<lambda>cookieValue.
     on_sessions (\<lambda>s. ((), StoreIdentifyReplay (clk w 2) tok (g ps) s)) (\<lambda>_. Done (Inr (g ps, cookieValue))))))"
    if o: "store_origin (pushed L svc H') s" "ConsumePendingAuth tok s = (r, s')" for H' s r s' cr g
  proof (cases r)
    case (Some ps)
    then obtain q where "q \<in> pushed L svc H'" "ps = (pc_stored q)(pendingRequestURIKey \<mapsto> pc_uri q)"
      using origin_reads(3) [OF o(1)] o(2) by blast
    from mark_safe [OF this] show ?thesis unfolding Some by (auto split: sum.split)
  qed simp
  show ?thesis unfolding CompleteIdentification_prog_def Let_def map_on
    by (rule safe_traced, simp)
      (auto split: option.split intro!: safe_traced origin_shrinks taken)
qed

lemma RejectIdentification_safe: "tsafe L svc e H (map_prog RejectReply (RejectIdentification_prog L w tok))"
  unfolding RejectIdentification_prog_def Let_def map_on
  by (rule safe_traced, simp)
    (auto split: option.split sum.split intro!: safe_traced origin_shrinks simp: origin_shrinks)

lemma grantToken_shape:
  "(\<exists>e. grantToken_prog L svc w req c key sess = Done (Inl e)) \<or>
   (\<exists>t jti. grantToken_prog L svc w req c key sess =
      on_sessions (\<lambda>s. ((), RecordIssuedJTI (tr_Code req) jti s)) (\<lambda>_. Done (Inr t)))"
  by (auto simp: grantToken_prog_def Let_def split: sum.split)

lemma grantToken_safe:
  assumes q: "q \<in> pushed L svc H" "sd_Metadata sess = authCodeMetadata recID (pc_stored q)"
    and c: "Resolve L (az_attestations svc) (clk w 0) wia pop (tr_ClientAssertionType req) (tr_ClientAssertion req) = Inr c"
      "c \<noteq> []"
    and v: "ValidateDPoPProof L (clk w 1) (ord w) dpop ''POST'' (az_baseURL svc @ ''/oid4vci/v1/token'') [] js = (Inr key, js')"
  shows "tsafe L svc (EvToken w req dpop wia pop) H (map_prog TokenReply (grantToken_prog L svc w req c key sess))"
  using grantToken_shape [of L svc w req c key sess]
proof (elim disjE exE)
  fix t jti
  assume p: "grantToken_prog L svc w req c key sess =
    on_sessions (\<lambda>s. ((), RecordIssuedJTI (tr_Code req) jti s)) (\<lambda>_. Done (Inr t))"
  then have "\<exists>st'. run_alone (grantToken_prog L svc w req c key sess) init_state = (Inr t, st')" by simp
  then have "\<exists>st'. grantToken L svc w req c key sess init_state = (Inr t, st')" unfolding grantToken_alone .
  then have "token_backed L svc q w req dpop wia pop t" using grant_backed [OF _ q(2) c v] q(1) by (auto simp: pushed_def)
  then have "token_traced L svc H' (EvToken w req dpop wia pop) (TokenReply (Inr t))" if "H \<subseteq> H'" for H'
    using pushed_mono [OF that] q(1) by (auto simp: token_traced_def)
  then show ?thesis unfolding p map_on by (intro safe_traced) (auto simp: origin_shrinks)
qed simp

lemma redeem_safe:
  assumes c: "Resolve L (az_attestations svc) (clk w 0) wia pop (tr_ClientAssertionType req) (tr_ClientAssertion req) = Inr c"
      "c \<noteq> []"
    and v: "ValidateDPoPProof L (clk w 1) (ord w) dpop ''POST'' (az_baseURL svc @ ''/oid4vci/v1/token'') [] js = (Inr key, js')"
  shows "tsafe L svc (EvToken w req dpop wia pop) H (map_prog TokenReply (redeem_prog L svc w req c key))"
  unfolding redeem_prog_def map_on
proof (rule safe_traced)
  fix H' s r s'
  assume o: "store_origin (pushed L svc H') s" and r: "ConsumeAuthCode (clk w 2) (tr_Code req) s = (r, s')"
  have "tsafe L svc (EvToken w req dpop wia pop) H' (map_prog TokenReply (grantToken_prog L svc w req c key sess))"
    if "r = (Some sess, b)" for sess b
    using origin_reads(5) [OF o] r that grantToken_safe [OF _ _ c v] by blast
  moreover have "tsafe L svc e H' (on_sessions (\<lambda>s. ((), RevokeTokensForCode (clk w 3) (tr_Code req) s)) (\<lambda>_.
      Done (TokenReply (Inl x))))" for e x
    by (rule safe_traced) (simp_all add: origin_shrinks)
  ultimately show "tsafe L svc (EvToken w req dpop wia pop) H' (map_prog TokenReply (case r of
        (None, reused) \<Rightarrow>
          (if reused
           then on_sessions (\<lambda>s. ((), RevokeTokensForCode (clk w 3) (tr_Code req) s)) (\<lambda>_.
                  Done (Inl (BadRequest InvalidGrant ''Invalid authorization code'')))
           else Done (Inl (BadRequest InvalidGrant ''Invalid authorization code'')))
      | (Some sess, _) \<Rightarrow> grantToken_prog L svc w req c key sess))"
    by (auto split: prod.split option.split)
qed (rule origin_shrinks)

lemma HandleAuthCodeToken_safe:
  "tsafe L svc (EvToken w req dpop wia pop) H (map_prog TokenReply (HandleAuthCodeToken_prog L svc w req dpop wia pop))"
  unfolding HandleAuthCodeToken_prog_def
  by (auto split: sum.split intro!: safe_traced_jtis redeem_safe)

interpretation traced: interleaved "authz_body L svc" any_step init_state UNIV "traced_inv L svc" "token_traced L svc" for L svc
proof
  show "traced_inv L svc {} init_state"
    by (simp add: traced_inv_def init_state_def NewStore_def store_origin_def origins)
next
  fix e H
  have "tsafe L svc e H (on_sessions (RevokedJTIs t) (\<lambda>live. Done (RevokedReply live)))" for t
    by (rule safe_traced) (simp_all add: origin_shrinks)
  moreover have "tsafe L svc e H (on_sessions (\<lambda>s. ((), exec_op t op s)) (\<lambda>_. Done VerificationReply))" if "verification_op op" for t op
    by (rule safe_traced) (simp_all add: origin_shrinks that)
  ultimately have "tsafe L svc e H (authz_body L svc e)"
    using HandlePar_safe HandleAuthorize_safe CompleteIdentification_safe RejectIdentification_safe HandleAuthCodeToken_safe
    by (cases e) auto
  then show "safe (traced_inv L svc) (token_traced L svc) any_step e H st (authz_body L svc e)" for st by (simp add: tsafe_def)
qed (auto intro: traced_inv_mono token_traced_mono)

text \<open>
  C6: under every interleaving of the critical sections of any requests, an issued token goes back
  to a pushed request that was accepted: it comes from the attested client of that request, who
  opens its S256 challenge and holds the DPoP key it fixed, if it fixed one.
\<close>

theorem concurrent_token_traces:
  assumes "conc (authz_body L svc) any_step init_state ts st" "(EvToken w req dpop wia pop, Done (TokenReply (Inr tok))) \<in> set ts"
  shows "\<exists>q. par_granted L svc q \<and> (par_event q, Done (ParReply (Inr (pc_uri q, 60)))) \<in> set ts \<and>
    token_backed L svc q w req dpop wia pop tok"
  using traced.conc_post [OF assms(1) _ assms(2)] by (auto simp: token_traced_def pushed_def answered_def)

subsection \<open>A code buys one token under interleaving\<close>

definition holds_code :: "string \<Rightarrow> authz_state \<Rightarrow> bool" where
  "holds_code code st \<longleftrightarrow> code \<in> dom (authCodes (sessions st))"

lemma inert_on:
  "(\<And>s. code \<in> dom (authCodes (snd (m s))) \<Longrightarrow> code \<in> dom (authCodes s)) \<Longrightarrow> (\<And>a. inert (holds_code code) (k a)) \<Longrightarrow>
     inert (holds_code code) (on_sessions m k)"
  "(\<And>a. inert (holds_code code) (k' a)) \<Longrightarrow> inert (holds_code code) (on_jtis m' k')"
  unfolding on_sessions_def on_jtis_def case_prod_unfold by (rule inert_Atomic; simp add: holds_code_def)+

lemma codes_kept [simp]:
  "authCodes (StoreParRequest t uri ps s) = authCodes s" "authCodes (snd (PeekParRequest t uri s)) = authCodes s"
  "authCodes (snd (ConsumeParRequest t uri s)) = authCodes s" "authCodes (snd (StorePendingAuth draw ps s)) = authCodes s"
  "authCodes (snd (ConsumePendingAuth tok s)) = authCodes s" "authCodes (snd (MarkIdentified t draw uri rec ps s)) = authCodes s"
  "authCodes (StoreIdentifyReplay t tok redirect s) = authCodes s" "authCodes (RecordIssuedJTI code jti s) = authCodes s"
  "authCodes (RevokeTokensForCode t code s) = authCodes s" "authCodes (snd (RevokedJTIs t s)) = authCodes s"
  "verification_op op \<Longrightarrow> authCodes (exec_op t op s) = authCodes s"
  using verification_op_frame [of op t s] by (auto simp: store_defs Let_def split: option.split)

lemma ConsumeAuthCode_codes: "authCodes (snd (ConsumeAuthCode t code s)) = (authCodes s)(code := None)"
  by (auto simp: ConsumeAuthCode_def Let_def fun_upd_idem split: option.split)

lemma complete_codes: "dom (authCodes (snd (completeAuthorize t draws rec ps s))) = insert (RandomToken 32 (draws 1)) (dom (authCodes s))"
  by (simp add: completeAuthorize_eq)

lemma grantToken_inert: "inert (holds_code code) (map_prog TokenReply (grantToken_prog L svc w req c key sess))"
  using grantToken_shape [of L svc w req c key sess] by (auto intro!: inert_on)

lemma complete_inert:
  "RandomToken 32 (draws 1) \<noteq> code \<Longrightarrow>
     inert (holds_code code) (map_prog AuthorizeReply (completeAuthorize_prog t draws rec ps))"
  unfolding completeAuthorize_prog_def map_on by (rule inert_on) (simp_all add: complete_codes inert_Done)

lemma bodies_inert:
  assumes "\<not> draws_code code e"
  shows "inert (holds_code code) (authz_body L svc e)"
proof (cases e)
  case (EvPar w ps wia pop dpop)
  then show ?thesis
    by (auto simp: HandlePar_prog_def Let_def intro!: inert_on split: sum.split option.split)
next
  case (EvAuthorize N w uri cid cookie)
  with assms have "RandomToken 32 (rnd w 1) \<noteq> code" by simp
  then show ?thesis using EvAuthorize
    by (auto simp: HandleAuthorize_prog_def offered_prog_def visit_prog_def Let_def intro!: inert_on complete_inert
        split: sum.split option.split)
next
  case (EvComplete N w tok data sty sref)
  then show ?thesis
    by (auto simp: CompleteIdentification_prog_def Let_def intro!: inert_on split: sum.split option.split)
next
  case (EvReject w tok)
  then show ?thesis
    by (auto simp: RejectIdentification_prog_def Let_def intro!: inert_on split: sum.split option.split)
next
  case (EvToken w req dpop wia pop)
  then show ?thesis
    by (auto simp: HandleAuthCodeToken_prog_def redeem_prog_def ConsumeAuthCode_codes intro!: inert_on grantToken_inert
        split: sum.split option.split if_split_asm)
qed (auto intro!: inert_on)

lemma maker_on: "(\<And>s. authCodes (snd (m s)) = authCodes s) \<Longrightarrow> (\<And>a. maker (holds_code code) (k a)) \<Longrightarrow>
    maker (holds_code code) (on_sessions m k)"
  unfolding on_sessions_def case_prod_unfold by (rule maker_Atomic) (simp add: holds_code_def)

lemma complete_maker: "maker (holds_code code) (map_prog AuthorizeReply (completeAuthorize_prog t draws rec ps))"
  unfolding completeAuthorize_prog_def on_sessions_def case_prod_unfold by (simp add: maker_Atomic inert_Done)

lemma authorize_maker: "maker (holds_code code) (authz_body L svc (EvAuthorize N w uri cid cookie))"
  by (auto simp: HandleAuthorize_prog_def offered_prog_def visit_prog_def Let_def intro!: maker_on complete_maker maker_Done
      split: sum.split option.split)

text \<open>A token request ends with a token only if it took the code away.\<close>

abbreviation got_token :: "authz_reply \<Rightarrow> bool" where
  "got_token r \<equiv> \<exists>tok. r = TokenReply (Inr tok)"

lemma taker_on:
  "(\<And>st a s. m (sessions st) = (a, s) \<Longrightarrow> avail st \<and> \<not> avail (st\<lparr>sessions := s\<rparr>) \<or> taker avail win (k a)) \<Longrightarrow>
     taker avail win (on_sessions m k)"
  "(\<And>a. taker avail win (k' a)) \<Longrightarrow> taker avail win (on_jtis m' k')"
  unfolding on_sessions_def on_jtis_def case_prod_unfold by (rule taker_Atomic; simp)+

lemma redeem_taker: "taker (holds_code (tr_Code req)) got_token (map_prog TokenReply (redeem_prog L svc w req c key))"
  unfolding redeem_prog_def map_on
proof (rule taker_on)
  fix st :: authz_state and r s
  assume r: "ConsumeAuthCode (clk w 2) (tr_Code req) (sessions st) = (r, s)"
  show "holds_code (tr_Code req) st \<and> \<not> holds_code (tr_Code req) (st\<lparr>sessions := s\<rparr>) \<or>
    taker (holds_code (tr_Code req)) got_token (map_prog TokenReply (case r of
        (None, reused) \<Rightarrow>
          (if reused
           then on_sessions (\<lambda>s. ((), RevokeTokensForCode (clk w 3) (tr_Code req) s)) (\<lambda>_.
                  Done (Inl (BadRequest InvalidGrant ''Invalid authorization code'')))
           else Done (Inl (BadRequest InvalidGrant ''Invalid authorization code'')))
      | (Some sess, _) \<Rightarrow> grantToken_prog L svc w req c key sess))"
  proof (cases "fst r")
    case None
    then show ?thesis by (cases r) (auto intro!: taker_on)
  next
    case (Some d)
    then show ?thesis using r by (cases r) (auto simp: ConsumeAuthCode_Some holds_code_def)
  qed
qed

lemma token_taker: "taker (holds_code (tr_Code req)) got_token (authz_body L svc (EvToken w req dpop wia pop))"
  by (auto simp: HandleAuthCodeToken_prog_def intro!: taker_on redeem_taker split: sum.split)

lemma bodies_taker: "taker (holds_code code) (\<lambda>r. presents_code code e \<and> got_token r) (authz_body L svc e)"
proof (cases "presents_code code e")
  case True
  then obtain w req dpop wia pop where "e = EvToken w req dpop wia pop" "tr_Code req = code" by (cases e) auto
  then show ?thesis using token_taker [of req] by auto
qed (simp add: taker_never)

interpretation one_token: made_once "authz_body L svc" init_state "holds_code code" "draws_code code"
  "\<lambda>e r. presents_code code e \<and> got_token r" for L svc code
proof
  show "\<not> holds_code code init_state" by (simp add: holds_code_def init_state_def NewStore_def)
next
  fix e
  show "draws_code code e \<Longrightarrow> maker (holds_code code) (authz_body L svc e)"
    using authorize_maker by (cases e) simp_all
qed (rule bodies_inert bodies_taker; assumption?)+

text \<open>
  C2: under every interleaving, of all the requests that present a code, however many run at once, at
  most one is answered with a token, provided that the generator draws the code for at most one authorization.
\<close>

theorem concurrent_code_buys_one_token:
  assumes "conc (authz_body L svc) any_step init_state ts st" and "length (filter (\<lambda>(e, p). draws_code code e) ts) \<le> 1"
  shows "length (filter (\<lambda>(e, p). presents_code code e \<and> (\<exists>tok. p = Done (TokenReply (Inr tok)))) ts) \<le> 1"
proof -
  have "(\<lambda>(e, p). \<exists>r. p = Done r \<and> presents_code code e \<and> got_token r) =
      (\<lambda>(e, p :: (authz_state, authz_reply) prog). presents_code code e \<and> (\<exists>tok. p = Done (TokenReply (Inr tok))))" by auto
  then show ?thesis using one_token.won_at_most_once [OF assms(1), of code] assms(2) by (simp add: one_token.makers_of_def)
qed

subsection \<open>Examples\<close>

text \<open>The example flow, then two requests for a token with the code it obtained.\<close>

definition ex_token_events :: "authz_event list" where
  "ex_token_events = ex_events @
     [EvToken (ex_world (4 * second) (CHR ''j'')) (ex_request (ex_tok (CHR ''c''))) ''dpop2'' ''wia'' ''pop'',
      EvToken (ex_world (5 * second) (CHR ''i'')) (ex_request (ex_tok (CHR ''c''))) ''dpop3'' ''wia'' ''pop'']"

abbreviation ex_threads :: "(authz_event, authz_state, authz_reply) threads" where
  "ex_threads \<equiv> in_turn ex_lib ex_service init_state ex_token_events"

lemma ex_threads_conc: "\<exists>st. conc (authz_body ex_lib ex_service) any_step init_state ex_threads st"
  using conc_in_turn [OF conc_init, of ex_lib ex_service init_state ex_token_events] by auto

lemma ex_threads_token:
  "(EvToken (ex_world (4 * second) (CHR ''j'')) (ex_request (ex_tok (CHR ''c''))) ''dpop2'' ''wia'' ''pop'',
     Done (TokenReply (Inr (DPoPToken ''signed'')))) \<in> set ex_threads"
  unfolding ex_token_events_def in_turn_append ex_flow using ex_token_flow by simp

theorem concurrent_token_traces_witness:
  "\<exists>q. par_granted ex_lib ex_service q \<and> (par_event q, Done (ParReply (Inr (pc_uri q, 60)))) \<in> set ex_threads"
proof -
  from ex_threads_conc obtain st where "conc (authz_body ex_lib ex_service) any_step init_state ex_threads st" by blast
  from concurrent_token_traces [OF this ex_threads_token] show ?thesis by blast
qed

lemma ex_draws: "length (filter (\<lambda>(e, p). draws_code (ex_tok (CHR ''c'')) e) ex_threads) \<le> 1"
proof -
  have "filter (\<lambda>(e, p). draws_code (ex_tok (CHR ''c'')) e) ts = filter (\<lambda>x. draws_code (ex_tok (CHR ''c'')) (fst x)) ts" for ts :: "(authz_event, authz_state, authz_reply) threads"
    by (rule filter_cong) auto
  then have "length (filter (\<lambda>(e, p). draws_code (ex_tok (CHR ''c'')) e) ex_threads) =
      length (filter (draws_code (ex_tok (CHR ''c''))) ex_token_events)"
    using filter_map [of "draws_code (ex_tok (CHR ''c''))" fst ex_threads] by (simp add: comp_def)
  then show ?thesis by (simp add: ex_token_events_def ex_events_def ex_RandomToken)
qed

theorem concurrent_code_buys_one_token_witness:
  "length (filter (\<lambda>(e, p). presents_code (ex_tok (CHR ''c'')) e \<and> (\<exists>tok. p = Done (TokenReply (Inr tok)))) ex_threads) = 1"
proof -
  let ?P = "\<lambda>(e, p). presents_code (ex_tok (CHR ''c'')) e \<and> (\<exists>tok. p = Done (TokenReply (Inr tok)))"
  from ex_threads_conc obtain st where "conc (authz_body ex_lib ex_service) any_step init_state ex_threads st" by blast
  from concurrent_code_buys_one_token [OF this ex_draws] have "length (filter ?P ex_threads) \<le> 1" .
  moreover have "filter ?P ex_threads \<noteq> []"
    using ex_threads_token unfolding filter_empty_conv by (force simp: ex_request_def)
  ultimately show ?thesis by (cases "filter ?P ex_threads") auto
qed

subsection \<open>Overlapping submissions of the identification form\<close>






end
