(* ===== verification/Bridge_Programs.thy ===== *)
theory Bridge_Programs
  imports Threads Oidc_Login
begin

text \<open>
  The operations of the verifier and of the OpenID Connect bridge as programs of critical sections of
  the two stores, as Go runs them on the goroutines of its requests. Shown: run alone, a program is the
  operation of the sequential model; and two loads of one login page that overlap start two verification
  sessions.
\<close>

subsection \<open>The shared state\<close>

text \<open>
  The two stores, and beside them what was ever created: every verification session and every
  authorization request under its identifier, as it was when it was created. The code keeps no such record; it
  is what the proofs speak about when an entry has expired or has been changed by others.
\<close>

record traced_bridge = bridge_state +
  tb_sessions :: "string \<rightharpoonup> verification_session"
  tb_requests :: "string \<rightharpoonup> auth_request"

definition traced_start :: traced_bridge where
  "traced_start = \<lparr>bs_oidc = newStore, bs_sessions = NewStore, tb_sessions = Map.empty, tb_requests = Map.empty\<rparr>"

text \<open>The generator never repeats an identifier: nothing created is created anew as something else.\<close>

definition no_repeat :: "traced_bridge \<Rightarrow> traced_bridge \<Rightarrow> bool" where
  "no_repeat b b' \<longleftrightarrow> tb_sessions b \<subseteq>\<^sub>m tb_sessions b' \<and> tb_requests b \<subseteq>\<^sub>m tb_requests b'"

definition on_oidc :: "(oidc_store \<Rightarrow> 'a \<times> oidc_store) \<Rightarrow> ('a \<Rightarrow> (traced_bridge, 'r) prog) \<Rightarrow> (traced_bridge, 'r) prog" where
  "on_oidc m k = Atomic (\<lambda>b. case m (bs_oidc b) of (a, o1) \<Rightarrow> (k a, b\<lparr>bs_oidc := o1\<rparr>))"

definition on_store :: "(store \<Rightarrow> 'a \<times> store) \<Rightarrow> ('a \<Rightarrow> (traced_bridge, 'r) prog) \<Rightarrow> (traced_bridge, 'r) prog" where
  "on_store m k = Atomic (\<lambda>b. case m (bs_sessions b) of (a, s) \<Rightarrow> (k a, b\<lparr>bs_sessions := s\<rparr>))"

definition store_session :: "time \<Rightarrow> verification_session \<Rightarrow> (traced_bridge, 'r) prog \<Rightarrow> (traced_bridge, 'r) prog" where
  "store_session now v p = Atomic (\<lambda>b. (p, b\<lparr>bs_sessions := StoreVerification now v (bs_sessions b),
     tb_sessions := (tb_sessions b)(vs_SessionID v \<mapsto> v)\<rparr>))"

definition store_request :: "time \<Rightarrow> auth_request \<Rightarrow> (traced_bridge, 'r) prog \<Rightarrow> (traced_bridge, 'r) prog" where
  "store_request now ar p = Atomic (\<lambda>b. (p, b\<lparr>bs_oidc := putAuthRequest now ar (bs_oidc b),
     tb_requests := (tb_requests b)(arq_id ar \<mapsto> ar)\<rparr>))"

lemma run_sections [simp]:
  "run_alone (on_oidc m k) b = (case m (bs_oidc b) of (a, o1) \<Rightarrow> run_alone (k a) (b\<lparr>bs_oidc := o1\<rparr>))"
  "run_alone (on_store m' k') b = (case m' (bs_sessions b) of (a, s) \<Rightarrow> run_alone (k' a) (b\<lparr>bs_sessions := s\<rparr>))"
  "run_alone (store_session now v p) b = run_alone p (b\<lparr>bs_sessions := StoreVerification now v (bs_sessions b),
     tb_sessions := (tb_sessions b)(vs_SessionID v \<mapsto> v)\<rparr>)"
  "run_alone (store_request now ar p) b = run_alone p (b\<lparr>bs_oidc := putAuthRequest now ar (bs_oidc b),
     tb_requests := (tb_requests b)(arq_id ar \<mapsto> ar)\<rparr>)"
  by (simp_all add: on_oidc_def on_store_def store_session_def store_request_def case_prod_unfold)

lemma map_sections [simp]:
  "map_prog g (on_oidc m k) = on_oidc m (\<lambda>a. map_prog g (k a))"
  "map_prog g (on_store m' k') = on_store m' (\<lambda>a. map_prog g (k' a))"
  "map_prog g (store_session now v p) = store_session now v (map_prog g p)"
  "map_prog g (store_request now ar p) = store_request now ar (map_prog g p)"
  by (auto simp: on_oidc_def on_store_def store_session_def store_request_def case_prod_unfold fun_eq_iff)

subsection \<open>The verifier's operations as programs\<close>

text \<open>\<^verbatim>\<open>CreateSession\<close> up to the store: the answer and the session to be stored.\<close>

definition prepareSession ::
  "lib \<Rightarrow> key_lib \<Rightarrow> verifier_service \<Rightarrow> world \<Rightarrow> credential_request list \<Rightarrow>
   (string + create_session_result \<times> verification_session) option" where
  "prepareSession L J svc w creds =
     (if creds = [] then Some (Inl ''verifier: CreateSession requires at least one credential'')
      else let sessionID = RandomToken 16 (rnd w 0); state = RandomToken 32 (rnd w 1); nonce = RandomToken 32 (rnd w 2);
               dcql = buildDCQLQuery creds in
      case and_then (verifier_clientID svc) (\<lambda>clientID. and_then (session_key L J svc (rnd w 3)) (\<lambda>key. Inr (clientID, key))) of
        Inl e \<Rightarrow> Some (Inl e)
      | Inr (clientID, encryptionKey) \<Rightarrow>
      case buildClientMetadata L svc dcql encryptionKey of
        None \<Rightarrow> None
      | Some metadata \<Rightarrow>
      case and_then metadata (\<lambda>clientMetadata.
             signRequestObject L J svc (clk w 0) (session_request svc clientID state nonce dcql clientMetadata)) of
        Inl e \<Rightarrow> Some (Inl e)
      | Inr requestJWT \<Rightarrow>
        Some (Inr (\<lparr>csr_SessionID = sessionID, csr_RequestURI = vf_baseURL svc @ APIPrefix @ ''/request/'' @ sessionID,
           csr_ClientID = clientID, csr_State = state\<rparr>, new_session svc w creds clientID encryptionKey requestJWT)))"

definition CreateSession_prog ::
  "lib \<Rightarrow> key_lib \<Rightarrow> verifier_service \<Rightarrow> world \<Rightarrow> credential_request list \<Rightarrow>
   ((string + create_session_result) option \<Rightarrow> (traced_bridge, 'r) prog) \<Rightarrow> (traced_bridge, 'r) prog" where
  "CreateSession_prog L J svc w creds k = (case prepareSession L J svc w creds of
     None \<Rightarrow> k None
   | Some (Inl e) \<Rightarrow> k (Some (Inl e))
   | Some (Inr (result, v)) \<Rightarrow> store_session (clk w 1) v (k (Some (Inr result))))"

definition GetRequestObject_prog :: "world \<Rightarrow> string \<Rightarrow> (traced_bridge, go_error + string) prog" where
  "GetRequestObject_prog w sessionID = on_store (FindVerification (clk w 0) sessionID) (\<lambda>found. case found of
     None \<Rightarrow> Done (Inl (NotFound InvalidRequest ''Session not found or expired''))
   | Some v \<Rightarrow> on_store (\<lambda>s. ((), UpdateVerificationStatus (clk w 1) sessionID ''request_sent'' s)) (\<lambda>_.
       Done (Inr (vs_RequestJWT v))))"

definition HandleResponse_prog ::
  "lib \<Rightarrow> key_lib \<Rightarrow> cbor_lib \<Rightarrow> net \<Rightarrow> world \<Rightarrow> response_request \<Rightarrow>
   (traced_bridge, (go_error + verifier_result \<times> verification_session option) option) prog" where
  "HandleResponse_prog L J C N w req =
     on_store (\<lambda>s. if rr_Response req \<noteq> [] then locate_encrypted L J (clk w 0) (rr_Response req) s
                   else locate_plain (clk w 0) req s) (\<lambda>located. case located of
        Inl early \<Rightarrow> Done (map_option (map_sum id (\<lambda>r. (r, None))) early)
      | Inr (v, rawVPToken) \<Rightarrow> on_store (record_outcome L C N (after 1 w) v rawVPToken) (\<lambda>r.
          Done (map_option (\<lambda>r. Inr (r, Some v)) r)))"

definition GetResult_prog :: "world \<Rightarrow> string \<Rightarrow> (traced_bridge, go_error + verifier_result) prog" where
  "GetResult_prog w sessionID = on_store (GetResult w sessionID) Done"

subsection \<open>The login page and the library's calls as programs\<close>

definition start_login_prog ::
  "lib \<Rightarrow> key_lib \<Rightarrow> login_handler \<Rightarrow> world \<Rightarrow> string \<Rightarrow> auth_request \<Rightarrow> credential_scope \<Rightarrow>
   (traced_bridge, login_response option) prog" where
  "start_login_prog L J h w authRequestID ar cs =
     on_oidc (\<lambda>o1. (getVerificationSession (arq_id ar) o1, o1)) (\<lambda>linked. case linked of
       Some vsid \<Rightarrow> Done (Some (LoginPage authRequestID vsid))
     | None \<Rightarrow> CreateSession_prog L J (lh_verifier h) w [login_credential cs] (\<lambda>r. case r of
         None \<Rightarrow> Done None
       | Some (Inl e) \<Rightarrow> Done (Some (HttpError 502 (''failed to start verification: '' @ e)))
       | Some (Inr result) \<Rightarrow>
           on_oidc (\<lambda>o1. ((), linkVerificationSession (arq_id ar) (csr_SessionID result) o1)) (\<lambda>_.
           Done (Some (LoginPage authRequestID (csr_SessionID result))))))"

definition login_prog ::
  "lib \<Rightarrow> key_lib \<Rightarrow> login_handler \<Rightarrow> world \<Rightarrow> string \<Rightarrow> (traced_bridge, login_response option) prog" where
  "login_prog L J h w authRequestID =
     (if authRequestID = [] then Done (Some (HttpError 400 ''missing id''))
      else on_oidc (getAuthRequest (clk w 0) authRequestID) (\<lambda>found. case found of
        None \<Rightarrow> Done (Some (HttpError 404 ''unknown or expired login request''))
      | Some ar \<Rightarrow>
          if arq_Done ar then Done (Some (RedirectTo (callbackURL h (arq_id ar))))
          else if registry_Lookup (lh_clients h) (arq_clientID ar) = None
          then Done (Some (HttpError 400 ''unknown client''))
          else case ResolveCredentialScope (lh_clients h) (arq_scopes ar) of
            None \<Rightarrow> Done (Some (HttpError 400 ''the requested scope names no known credential to present''))
          | Some cs \<Rightarrow> start_login_prog L J h (after 1 w) authRequestID ar cs))"

text \<open>The assignments to the fields of the request, which hold no mutex, one after the other.\<close>

definition set_request :: "string \<Rightarrow> (auth_request \<Rightarrow> auth_request) \<Rightarrow> oidc_store \<Rightarrow> oidc_store" where
  "set_request i f s = (case os_authRequests s i of
     None \<Rightarrow> s
   | Some e \<Rightarrow> s\<lparr>os_authRequests := (os_authRequests s)(i \<mapsto> e\<lparr>are_req := f (are_req e)\<rparr>)\<rparr>)"

definition conclude_prog ::
  "login_handler \<Rightarrow> world \<Rightarrow> string \<Rightarrow> auth_request \<Rightarrow> verification_session \<Rightarrow> (traced_bridge, login_response) prog" where
  "conclude_prog h w authRequestID ar v =
     (if vs_Status v = ''verified''
      then if vs_SubjectID v = []
           then Done (JSONStatus 200 [(''status'', ''error''),
                  (''error'', ''verification succeeded but produced no subject identifier'')])
           else on_oidc (\<lambda>o1. ((), set_request authRequestID (\<lambda>a. a\<lparr>arq_subject := vs_SubjectID v\<rparr>) o1)) (\<lambda>_.
                on_oidc (\<lambda>o1. ((), set_request authRequestID (\<lambda>a. a\<lparr>arq_doneAt := clk w 2\<rparr>) o1)) (\<lambda>_.
                Done (JSONStatus 200 [(''status'', ''done''), (''redirect'', callbackURL h (arq_id ar))])))
      else if vs_Status v = ''failed'' then Done (JSONStatus 200 [(''status'', ''error''), (''error'', vs_Error v)])
      else Done (JSONStatus 200 [(''status'', ''pending'')]))"

definition poll_prog :: "login_handler \<Rightarrow> world \<Rightarrow> string \<Rightarrow> (traced_bridge, login_response) prog" where
  "poll_prog h w authRequestID = on_oidc (getAuthRequest (clk w 0) authRequestID) (\<lambda>found. case found of
        None \<Rightarrow> Done (JSONStatus 404 [(''status'', ''not_found'')])
      | Some ar \<Rightarrow>
      if arq_Done ar then Done (JSONStatus 200 [(''status'', ''done''), (''redirect'', callbackURL h (arq_id ar))])
      else on_oidc (\<lambda>o1. (getVerificationSession (arq_id ar) o1, o1)) (\<lambda>linked. case linked of
        None \<Rightarrow> Done (JSONStatus 200 [(''status'', ''pending'')])
      | Some vsid \<Rightarrow> on_store (verifier_Session (clk w 1) vsid) (\<lambda>session. case session of
        None \<Rightarrow> Done (JSONStatus 200 [(''status'', ''pending'')])
      | Some v \<Rightarrow> conclude_prog h w authRequestID ar v)))"

definition CreateAuthRequest_prog :: "world \<Rightarrow> oidc_auth_params \<Rightarrow> (traced_bridge, oidc_error + auth_request) prog" where
  "CreateAuthRequest_prog w req = (case CreateAuthRequest w req newStore of
     (Inl e, _) \<Rightarrow> Done (Inl e)
   | (Inr ar, _) \<Rightarrow> store_request (clk w 1) ar (Done (Inr ar)))"

definition AuthRequestByCode_prog :: "world \<Rightarrow> string \<Rightarrow> (traced_bridge, oidc_error + auth_request) prog" where
  "AuthRequestByCode_prog w code = on_oidc (consumeAuthCode (clk w 0) code) (\<lambda>i. case i of
     None \<Rightarrow> Done (Inl (ErrInvalidGrant ''invalid or expired authorization code''))
   | Some i \<Rightarrow> on_oidc (getAuthRequest (clk w 1) i) (\<lambda>ar. case ar of
       None \<Rightarrow> Done (Inl (ErrInvalidGrant ''authorization request expired''))
     | Some a \<Rightarrow> Done (Inr a)))"

definition CreateTokens_prog :: "world \<Rightarrow> op_token_request \<Rightarrow> string \<Rightarrow> (traced_bridge, string \<times> string \<times> time) prog" where
  "CreateTokens_prog w req currentRefreshToken =
     (let accessTokenID = RandomToken 16 (rnd w 0); expiration = clk w 0 + 5 * minute;
          newRefreshToken = RandomToken 32 (rnd w 1);
          put = on_oidc (\<lambda>o1. ((), putRefreshToken (clk w 1) newRefreshToken (otr_Subject req) (otr_ClientID req)
            (otr_Scopes req) o1)) (\<lambda>_. Done (accessTokenID, newRefreshToken, expiration)) in
      if currentRefreshToken \<noteq> [] then on_oidc (\<lambda>o1. ((), deleteRefreshToken currentRefreshToken o1)) (\<lambda>_. put) else put)"

subsection \<open>The system\<close>

text \<open>
  The authorization server shares the store of the sessions: each of its critical sections there can fall
  between those of the verifier and the bridge.
\<close>

datatype bridge_call =
    LoadPage world string
  | PollPage world string
  | LibraryCall provider_call
  | NewVerification world "credential_request list"
  | FetchRequest world string
  | WalletResponse net world response_request
  | PollResult world string
  | AuthzSection time store_op

datatype bridge_reply =
    PageReply "login_response option"
  | StatusReply login_response
  | RequestReply "oidc_error + auth_request"
  | TokensReply "string \<times> string \<times> time"
  | RefreshReply "oidc_error + op_token_request"
  | InfoReply "oidc_error + string \<times> string"
  | DoneReply
  | CreatedReply "(string + create_session_result) option"
  | ObjectReply "go_error + string"
  | ResponseReply "(go_error + verifier_result \<times> verification_session option) option"
  | ResultReply "go_error + verifier_result"

fun library_body :: "provider_call \<Rightarrow> (traced_bridge, bridge_reply) prog" where
  "library_body (CallAuthorize w req) = map_prog RequestReply (CreateAuthRequest_prog w req)"
| "library_body (CallByID now i) = on_oidc (AuthRequestByID now i) (\<lambda>r. Done (RequestReply r))"
| "library_body (CallByCode w code) = map_prog RequestReply (AuthRequestByCode_prog w code)"
| "library_body (CallSave now i code) = on_oidc (\<lambda>o1. ((), SaveAuthCode now i code o1)) (\<lambda>_. Done DoneReply)"
| "library_body (CallDelete i) = on_oidc (\<lambda>o1. ((), DeleteAuthRequest i o1)) (\<lambda>_. Done DoneReply)"
| "library_body (CallTokens w tr cur) = map_prog TokensReply (CreateTokens_prog w tr cur)"
| "library_body (CallRefresh now tok) = on_oidc (TokenRequestByRefreshToken now tok) (\<lambda>r. Done (RefreshReply r))"
| "library_body (CallInfo now cid tok) = on_oidc (GetRefreshTokenInfo now cid tok) (\<lambda>r. Done (InfoReply r))"
| "library_body (CallRevoke tok) = on_oidc (\<lambda>o1. ((), RevokeToken tok o1)) (\<lambda>_. Done DoneReply)"

fun bridge_body :: "lib \<Rightarrow> key_lib \<Rightarrow> cbor_lib \<Rightarrow> login_handler \<Rightarrow> bridge_call \<Rightarrow> (traced_bridge, bridge_reply) prog" where
  "bridge_body L J C h (LoadPage w i) = map_prog PageReply (login_prog L J h w i)"
| "bridge_body L J C h (PollPage w i) = map_prog StatusReply (poll_prog h w i)"
| "bridge_body L J C h (LibraryCall c) = library_body c"
| "bridge_body L J C h (NewVerification w creds) =
     CreateSession_prog L J (lh_verifier h) w creds (\<lambda>r. Done (CreatedReply r))"
| "bridge_body L J C h (FetchRequest w sid) = map_prog ObjectReply (GetRequestObject_prog w sid)"
| "bridge_body L J C h (WalletResponse N w req) = map_prog ResponseReply (HandleResponse_prog L J C N w req)"
| "bridge_body L J C h (PollResult w sid) = map_prog ResultReply (GetResult_prog w sid)"
| "bridge_body L J C h (AuthzSection now op) =
     (if verification_op op then Done DoneReply else on_store (\<lambda>s. ((), exec_op now op s)) (\<lambda>_. Done DoneReply))"

text \<open>The operations as a whole, on the stores alone.\<close>

fun serve_library :: "provider_call \<Rightarrow> oidc_store \<Rightarrow> bridge_reply \<times> oidc_store" where
  "serve_library (CallAuthorize w req) s = apfst RequestReply (CreateAuthRequest w req s)"
| "serve_library (CallByID now i) s = apfst RequestReply (AuthRequestByID now i s)"
| "serve_library (CallByCode w code) s = apfst RequestReply (AuthRequestByCode w code s)"
| "serve_library (CallTokens w tr cur) s = apfst TokensReply (CreateAccessAndRefreshTokens w tr cur s)"
| "serve_library (CallRefresh now tok) s = apfst RefreshReply (TokenRequestByRefreshToken now tok s)"
| "serve_library (CallInfo now cid tok) s = apfst InfoReply (GetRefreshTokenInfo now cid tok s)"
| "serve_library c s = (DoneReply, exec_call c s)"

abbreviation in_oidc :: "(oidc_store \<Rightarrow> 'r \<times> oidc_store) \<Rightarrow> bridge_state \<Rightarrow> 'r \<times> bridge_state" where
  "in_oidc m b \<equiv> apsnd (\<lambda>o1. b\<lparr>bs_oidc := o1\<rparr>) (m (bs_oidc b))"

abbreviation in_store :: "(store \<Rightarrow> 'r \<times> store) \<Rightarrow> bridge_state \<Rightarrow> 'r \<times> bridge_state" where
  "in_store m b \<equiv> apsnd (\<lambda>s. b\<lparr>bs_sessions := s\<rparr>) (m (bs_sessions b))"

fun serve_bridge :: "lib \<Rightarrow> key_lib \<Rightarrow> cbor_lib \<Rightarrow> login_handler \<Rightarrow> bridge_call \<Rightarrow> bridge_state \<Rightarrow> bridge_reply \<times> bridge_state" where
  "serve_bridge L J C h (LoadPage w i) b = apfst PageReply (login_ServeHTTP L J h w i b)"
| "serve_bridge L J C h (PollPage w i) b = apfst StatusReply (PollHandler h w i b)"
| "serve_bridge L J C h (LibraryCall c) b = in_oidc (serve_library c) b"
| "serve_bridge L J C h (NewVerification w creds) b =
     apfst CreatedReply (in_store (CreateSession L J (lh_verifier h) w creds) b)"
| "serve_bridge L J C h (FetchRequest w sid) b = apfst ObjectReply (in_store (GetRequestObject w sid) b)"
| "serve_bridge L J C h (WalletResponse N w req) b = apfst ResponseReply (in_store (HandleResponse L J C N w req) b)"
| "serve_bridge L J C h (PollResult w sid) b = apfst ResultReply (in_store (GetResult w sid) b)"
| "serve_bridge L J C h (AuthzSection now op) b =
     (DoneReply, if verification_op op then b else b\<lparr>bs_sessions := exec_op now op (bs_sessions b)\<rparr>)"

lemma truncate_simps [simp]:
  "bs_oidc (bridge_state.truncate b) = bs_oidc b" "bs_sessions (bridge_state.truncate b) = bs_sessions b"
  "bridge_state.truncate (b\<lparr>bs_oidc := x\<rparr>) = (bridge_state.truncate b)\<lparr>bs_oidc := x\<rparr>"
  "bridge_state.truncate (b\<lparr>bs_sessions := y\<rparr>) = (bridge_state.truncate b)\<lparr>bs_sessions := y\<rparr>"
  "bridge_state.truncate (b'\<lparr>tb_sessions := z\<rparr>) = bridge_state.truncate b'"
  "bridge_state.truncate (b'\<lparr>tb_requests := z'\<rparr>) = bridge_state.truncate b'"
  by (simp_all add: bridge_state.truncate_def)

lemma prepare_eq: "CreateSession L J svc w creds s = (case prepareSession L J svc w creds of
     None \<Rightarrow> (None, s)
   | Some (Inl e) \<Rightarrow> (Some (Inl e), s)
   | Some (Inr (result, v)) \<Rightarrow> (Some (Inr result), StoreVerification (clk w 1) v s))"
  unfolding CreateSession_def prepareSession_def Let_def
  by (auto split: sum.split option.split prod.split)

lemma login_alone: "apsnd bridge_state.truncate (run_alone (login_prog L J h w i) b) = login_ServeHTTP L J h w i (bridge_state.truncate b)"
  unfolding login_prog_def login_ServeHTTP_def start_login_prog_def start_login_def CreateSession_prog_def prepare_eq Let_def
  by (auto simp: bridge_state.truncate_def split: sum.split option.split prod.split)

lemma poll_alone: "apsnd bridge_state.truncate (run_alone (poll_prog h w i) b) = PollHandler h w i (bridge_state.truncate b)"
proof -
  have "set_request i (\<lambda>a. a\<lparr>arq_doneAt := t\<rparr>) (set_request i (\<lambda>a. a\<lparr>arq_subject := sub\<rparr>) o1) = complete_request i sub t o1" for i sub t o1
    by (simp add: set_request_def complete_request_def split: option.split)
  then show ?thesis
    unfolding poll_prog_def conclude_prog_def PollHandler_def Let_def
    by (auto simp: bridge_state.truncate_def split: option.split prod.split)
qed

lemma library_alone:
  "apsnd bridge_state.truncate (run_alone (library_body c) b) = in_oidc (serve_library c) (bridge_state.truncate b)"
proof (cases c)
  case (CallAuthorize w req)
  then show ?thesis
    by (auto simp: CreateAuthRequest_prog_def CreateAuthRequest_def bridge_state.truncate_def Let_def split: prod.split)
qed (auto simp: AuthRequestByCode_prog_def AuthRequestByCode_def CreateTokens_prog_def CreateAccessAndRefreshTokens_def
    bridge_state.truncate_def Let_def split: option.split prod.split)

lemma bridge_alone:
  "apsnd bridge_state.truncate (run_alone (bridge_body L J C h c) b) = serve_bridge L J C h c (bridge_state.truncate b)"
proof (cases c)
  case (NewVerification w creds)
  then show ?thesis
    by (auto simp: CreateSession_prog_def prepare_eq bridge_state.truncate_def split: option.split sum.split)
next
  case (WalletResponse N w req)
  then show ?thesis
    by (auto simp: HandleResponse_prog_def HandleResponse_def bridge_state.truncate_def Let_def split: sum.split prod.split)
next
  case (LoadPage w i)
  then show ?thesis by (simp add: login_alone [symmetric] apsnd_apfst_commute)
next
  case (PollPage w i)
  then show ?thesis by (simp add: poll_alone [symmetric] apsnd_apfst_commute)
qed (auto simp: library_alone GetRequestObject_prog_def GetRequestObject_def GetResult_prog_def bridge_state.truncate_def Let_def
    split: option.split prod.split)

text \<open>
  Without interference every operation of the verifier and of the OpenID Connect bridge is the program
  of its critical sections: the same answer and the same change of the stores.
\<close>

lemma bridge_operations_are_programs:
  "apsnd bridge_state.truncate (run_alone (bridge_body L J C h c) b) = serve_bridge L J C h c (bridge_state.truncate b)"
  by (rule bridge_alone)

lemma prepareSession_session:
  assumes "prepareSession L J svc w creds = Some (Inr (result, v))"
  shows "csr_SessionID result = vs_SessionID v" "opens L J svc w creds v"
  using assms unfolding prepareSession_def opens_def Let_def
  by (auto simp: new_session_def split: if_splits sum.splits option.splits prod.splits)

subsection \<open>Two loads of one login page\<close>

text \<open>What a load that starts a session does: look, look for a session, store a new one, link it.\<close>

lemma login_page_steps:
  assumes e: "os_authRequests (bs_oidc b) i = Some e" "arq_id (are_req e) = i" "are_verificationSessionID e = []"
    and run: "run_alone (login_prog L J h w i) b = (Some (LoginPage i sid), b1)"
  obtains v where "vs_SessionID v = sid"
    "advance 2 (login_prog L J h w i) b = (store_session (clk w 2) v (on_oidc (\<lambda>o1. ((), linkVerificationSession i sid o1))
       (\<lambda>_. Done (Some (LoginPage i sid)))), b)"
proof -
  have g: "getAuthRequest (clk w 0) i (bs_oidc b) = (Some (are_req e), bs_oidc b)"
  proof (rule ccontr)
    assume "\<not> ?thesis"
    then have "fst (getAuthRequest (clk w 0) i (bs_oidc b)) = None" using e(1) by (auto simp: getAuthRequest_def split: if_splits)
    then show False using run by (auto simp: login_prog_def split: if_splits prod.splits)
  qed
  have nz: "i \<noteq> []" using run by (auto simp: login_prog_def)
  have l: "getVerificationSession i (bs_oidc b) = None" using e by (simp add: getVerificationSession_def)
  from run g nz e(2) obtain cs where cs: "\<not> arq_Done (are_req e)" "registry_Lookup (lh_clients h) (arq_clientID (are_req e)) \<noteq> None"
    "ResolveCredentialScope (lh_clients h) (arq_scopes (are_req e)) = Some cs"
    "run_alone (start_login_prog L J h (after 1 w) i (are_req e) cs) b = (Some (LoginPage i sid), b1)"
    by (auto simp: login_prog_def split: if_splits option.splits)
  from cs(4) l e(2) obtain result v where p: "prepareSession L J (lh_verifier h) (after 1 w) [login_credential cs] = Some (Inr (result, v))"
    "csr_SessionID result = sid"
    by (auto simp: start_login_prog_def CreateSession_prog_def split: option.splits sum.splits)
  show thesis
  proof (rule that)
    show "vs_SessionID v = sid" using prepareSession_session(1) [OF p(1)] p(2) by simp
    show "advance 2 (login_prog L J h w i) b = (store_session (clk w 2) v (on_oidc (\<lambda>o1. ((), linkVerificationSession i sid o1))
       (\<lambda>_. Done (Some (LoginPage i sid)))), b)"
      using g nz l cs(1,2,3) p e(2)
      by (simp add: login_prog_def start_login_prog_def CreateSession_prog_def on_oidc_def numeral_2_eq_2 after_def store_session_def)
  qed
qed

text \<open>
  C28: if two loads of a login page overlap, so that the second begins after the first has looked for a
  session and before it links the one it creates, both create a session: the two pages ask for two
  different sessions, and the request stays linked to the one of the first load only. A poll of the login follows
  that one alone: the wallet that answers the page shown last never completes the login.
\<close>

theorem overlapping_page_loads:
  assumes "os_authRequests (bs_oidc b) i = Some e" and "arq_id (are_req e) = i" and "are_verificationSessionID e = []"
    and "run_alone (login_prog L J h w i) b = (Some (LoginPage i s1), b1)"
    and "run_alone (login_prog L J h w' i) b = (Some (LoginPage i s2), b2)"
  shows "\<exists>p b3. advance 2 (login_prog L J h w i) b = (p, b) \<and> run_alone p b2 = (Some (LoginPage i s1), b3) \<and>
    {s1, s2} \<subseteq> dom (verifications (bs_sessions b3)) \<and>
    map_option are_verificationSessionID (os_authRequests (bs_oidc b3) i) = Some s1"
proof (rule login_page_steps [OF assms(1-4)], rule login_page_steps [OF assms(1-3,5)])
  fix v1 v2 :: verification_session
  let ?rest = "\<lambda>w v sid. store_session (clk w 2) v (on_oidc (\<lambda>o1. ((), linkVerificationSession i sid o1)) (\<lambda>_. Done (Some (LoginPage i sid))))"
  assume v: "vs_SessionID v1 = s1" "vs_SessionID v2 = s2"
    and 1: "advance 2 (login_prog L J h w i) b = (?rest w v1 s1, b)" and 2: "advance 2 (login_prog L J h w' i) b = (?rest w' v2 s2, b)"
  from assms(5) run_advance [OF 2] have "run_alone (?rest w' v2 s2) b = (Some (LoginPage i s2), b2)" by simp
  then have "bs_oidc b2 = linkVerificationSession i s2 (bs_oidc b)" "bs_sessions b2 = StoreVerification (clk w' 2) v2 (bs_sessions b)" by auto
  with 1 v assms(1) show ?thesis by (auto simp: linkVerificationSession_def StoreVerification_def Let_def)
qed

definition ex_later :: world where
  "ex_later = ex_draws\<lparr>rnd := \<lambda>i n. [char_of (i + 98)]\<rparr>"

abbreviation ex_other_id :: string where "ex_other_id \<equiv> RandomToken 16 (rnd ex_later 0)"

lemma ex_page_shown:
  assumes "clk w = (\<lambda>_. 0)"
  shows "\<exists>b'. run_alone (login_prog ex_vf_lib ex_key_lib ex_login w ex_id) (traced_start\<lparr>bs_oidc := ex_linked []\<rparr>) =
    (Some (LoginPage ex_id (RandomToken 16 (rnd w 0))), b')"
proof -
  have w: "after 1 w = w" "clk w 0 = 0" using assms by (cases w; simp add: after_def)+
  then show ?thesis
    using ex_signs(3) [of "login_credential ex_scope"] ex_pending ex_id_nonempty
    by (auto simp: login_prog_def start_login_prog_def CreateSession_prog_def prepareSession_def ex_signs(1,2,4) ex_login_def Let_def)
qed

theorem overlapping_page_loads_witness:
  "ex_id \<noteq> ex_other_id \<and> (\<exists>p b b3. advance 2 (login_prog ex_vf_lib ex_key_lib ex_login ex_draws ex_id) b = (p, b) \<and>
     fst (run_alone (login_prog ex_vf_lib ex_key_lib ex_login ex_later ex_id) b) = Some (LoginPage ex_id ex_other_id) \<and>
     run_alone p (snd (run_alone (login_prog ex_vf_lib ex_key_lib ex_login ex_later ex_id) b)) = (Some (LoginPage ex_id ex_id), b3) \<and>
     map_option are_verificationSessionID (os_authRequests (bs_oidc b3) ex_id) = Some ex_id)"
proof -
  let ?b = "traced_start\<lparr>bs_oidc := ex_linked []\<rparr>" and ?p = "\<lambda>w. login_prog ex_vf_lib ex_key_lib ex_login w ex_id"
  obtain b1 where 1: "run_alone (?p ex_draws) ?b = (Some (LoginPage ex_id ex_id), b1)" using ex_page_shown [of ex_draws] by (auto simp: ex_draws_def)
  obtain b2 where 2: "run_alone (?p ex_later) ?b = (Some (LoginPage ex_id ex_other_id), b2)"
    using ex_page_shown [of ex_later] by (auto simp: ex_later_def ex_draws_def)
  have "os_authRequests (bs_oidc ?b) ex_id = Some (ex_entry [])" "arq_id (are_req (ex_entry [])) = ex_id"
    "are_verificationSessionID (ex_entry []) = []" by (simp_all add: ex_linked_def ex_entry_def ex_auth_request_def)
  from overlapping_page_loads [OF this 1 2] obtain p b3 where "advance 2 (?p ex_draws) ?b = (p, ?b)"
    "run_alone p b2 = (Some (LoginPage ex_id ex_id), b3)"
    "map_option are_verificationSessionID (os_authRequests (bs_oidc b3) ex_id) = Some ex_id" by blast
  moreover have "ex_id \<noteq> ex_other_id" by code_simp
  ultimately show ?thesis using 2 by (intro conjI exI [of _ p] exI [of _ ?b] exI [of _ b3]) simp_all
qed

end
