(* ===== verification/Bridge_Threads.thy ===== *)
theory Bridge_Threads
  imports Bridge_Programs
begin

text \<open>
  The verifier and the OpenID Connect bridge under concurrency. Shown: under every interleaving of the critical
  sections of any requests, a reported verification was earned by one of the responses served, and the authorization
  request handed to the OpenID library is one that was made, the subject of a completed login being earned by a session
  that a load of its own page opened.
\<close>

subsection \<open>The invariant\<close>

text \<open>What no operation changes of a request: all but its completion.\<close>

definition as_requested :: "auth_request \<Rightarrow> auth_request" where
  "as_requested a = a\<lparr>arq_subject := [], arq_doneAt := 0\<rparr>"

lemma as_requested_eq:
  assumes "as_requested a = as_requested a'"
  shows "arq_id a = arq_id a'" "arq_scopes a = arq_scopes a'" "arq_codeChallenge a = arq_codeChallenge a'"
  using assms by (cases a; cases a'; simp add: as_requested_def)+

lemma as_requested_updates [simp]:
  "as_requested (r\<lparr>arq_subject := x\<rparr>) = as_requested r" "as_requested (r\<lparr>arq_doneAt := t\<rparr>) = as_requested r"
  by (simp_all add: as_requested_def)

text \<open>The responses of wallets and the loads of login pages among the calls \<open>K\<close> that are served.\<close>

definition responses_in :: "bridge_call set \<Rightarrow> received set" where
  "responses_in K = {(N, w, req). WalletResponse N w req \<in> K}"

definition loads_in :: "bridge_call set \<Rightarrow> (world \<times> string) set" where
  "loads_in K = {(w, i). LoadPage w i \<in> K}"

text \<open>A session of the store and a request of the store, as seen from what was created and what is served.\<close>

definition session_traced :: "lib \<Rightarrow> key_lib \<Rightarrow> cbor_lib \<Rightarrow> bridge_call set \<Rightarrow> (string \<rightharpoonup> verification_session) \<Rightarrow> string \<Rightarrow>
    verification_session \<Rightarrow> bool" where
  "session_traced L J C K S sid v \<longleftrightarrow> session_ok L J C (responses_in K) v \<and> (\<exists>v0. S sid = Some v0 \<and> as_asked v = as_asked v0)"

text \<open>A verification session that a load of the page of request \<open>i\<close> opened for its scopes.\<close>

definition asks_for :: "lib \<Rightarrow> key_lib \<Rightarrow> login_handler \<Rightarrow> bridge_call set \<Rightarrow> (string \<rightharpoonup> verification_session) \<Rightarrow> string \<Rightarrow>
    string list \<Rightarrow> string \<Rightarrow> bool" where
  "asks_for L J h K S i scopes vsid \<longleftrightarrow> (\<exists>v0. S vsid = Some v0 \<and> login_session L J h (loads_in K) i scopes v0)"

abbreviation login_backed :: "lib \<Rightarrow> key_lib \<Rightarrow> cbor_lib \<Rightarrow> login_handler \<Rightarrow> bridge_call set \<Rightarrow> string \<Rightarrow> string list \<Rightarrow> string \<Rightarrow> bool" where
  "login_backed L J C h K \<equiv> backed L J C h (responses_in K) (loads_in K)"

definition entry_traced :: "lib \<Rightarrow> key_lib \<Rightarrow> cbor_lib \<Rightarrow> login_handler \<Rightarrow> bridge_call set \<Rightarrow> (string \<rightharpoonup> verification_session) \<Rightarrow>
    (string \<rightharpoonup> auth_request) \<Rightarrow> string \<Rightarrow> auth_request_entry \<Rightarrow> bool" where
  "entry_traced L J C h K S A i e \<longleftrightarrow> (\<exists>a0. A i = Some a0 \<and> as_requested (are_req e) = as_requested a0) \<and>
     (are_verificationSessionID e \<noteq> [] \<longrightarrow> asks_for L J h K S i (arq_scopes (are_req e)) (are_verificationSessionID e)) \<and>
     (arq_subject (are_req e) \<noteq> [] \<longrightarrow> login_backed L J C h K i (arq_scopes (are_req e)) (arq_subject (are_req e)))"

text \<open>The index by state leads to the session created with that state.\<close>

definition created_ok :: "traced_bridge \<Rightarrow> bool" where
  "created_ok b \<longleftrightarrow> (\<forall>sid v. tb_sessions b sid = Some v \<longrightarrow> vs_SessionID v = sid) \<and>
     (\<forall>i a. tb_requests b i = Some a \<longrightarrow> arq_id a = i \<and> cc_Method (arq_codeChallenge a) = CodeChallengeMethodS256 \<and>
        cc_Challenge (arq_codeChallenge a) \<noteq> []) \<and>
     (\<forall>st sid. verificationIDByState (bs_sessions b) st = Some sid \<longrightarrow> (\<exists>v0. tb_sessions b sid = Some v0 \<and> vs_State v0 = st))"

definition shared_inv :: "lib \<Rightarrow> key_lib \<Rightarrow> cbor_lib \<Rightarrow> login_handler \<Rightarrow> bridge_call set \<Rightarrow> traced_bridge \<Rightarrow> bool" where
  "shared_inv L J C h K b \<longleftrightarrow> created_ok b \<and>
     (\<forall>sid v. verifications (bs_sessions b) sid = Some v \<longrightarrow> session_traced L J C K (tb_sessions b) sid v) \<and>
     (\<forall>i e. os_authRequests (bs_oidc b) i = Some e \<longrightarrow> entry_traced L J C h K (tb_sessions b) (tb_requests b) i e)"

lemma no_repeat_refl: "no_repeat b b"
  by (simp add: no_repeat_def)

lemma no_repeat_trans: "no_repeat b b' \<Longrightarrow> no_repeat b' b'' \<Longrightarrow> no_repeat b b''"
  unfolding no_repeat_def by (meson map_le_trans)

lemma no_repeat_Some:
  assumes "no_repeat b b'"
  shows "tb_sessions b sid = Some v \<Longrightarrow> tb_sessions b' sid = Some v" "tb_requests b i = Some a \<Longrightarrow> tb_requests b' i = Some a"
  using assms unfolding no_repeat_def map_le_def by (metis domI)+

text \<open>
  The answers, in terms of what was created: an authorization request handed to the library is one that was
  made, with S256, and if it is completed its subject is backed; a verification reported to a frontend
  is justified for what the session of that identifier asked.
\<close>

definition request_good :: "lib \<Rightarrow> key_lib \<Rightarrow> cbor_lib \<Rightarrow> login_handler \<Rightarrow> bridge_call set \<Rightarrow> traced_bridge \<Rightarrow> auth_request \<Rightarrow> bool" where
  "request_good L J C h K b ar \<longleftrightarrow> (\<exists>a0. tb_requests b (arq_id ar) = Some a0 \<and> as_requested ar = as_requested a0) \<and>
     cc_Method (arq_codeChallenge ar) = CodeChallengeMethodS256 \<and> cc_Challenge (arq_codeChallenge ar) \<noteq> [] \<and>
     (arq_Done ar \<longrightarrow> login_backed L J C h K (arq_id ar) (arq_scopes ar) (arq_subject ar))"

definition result_good :: "lib \<Rightarrow> key_lib \<Rightarrow> cbor_lib \<Rightarrow> bridge_call set \<Rightarrow> traced_bridge \<Rightarrow> string \<Rightarrow> json_map \<Rightarrow> bool" where
  "result_good L J C K b sid claims \<longleftrightarrow> (\<exists>v toks per sub. tb_sessions b sid = Some v \<and>
     earned L J C (responses_in K) v toks per sub \<and> reported claims per)"

definition reply_good :: "lib \<Rightarrow> key_lib \<Rightarrow> cbor_lib \<Rightarrow> login_handler \<Rightarrow> bridge_call set \<Rightarrow> traced_bridge \<Rightarrow> bridge_call \<Rightarrow> bridge_reply \<Rightarrow> bool" where
  "reply_good L J C h K b c r \<longleftrightarrow>
     (\<forall>ar. r = RequestReply (Inr ar) \<longrightarrow> request_good L J C h K b ar) \<and>
     (\<forall>w sid claims. c = PollResult w sid \<longrightarrow> r = ResultReply (Inr (successResult claims)) \<longrightarrow> result_good L J C K b sid claims)"

lemma reply_good_mono: "reply_good L J C h K b c r \<Longrightarrow> no_repeat b b' \<Longrightarrow> reply_good L J C h K b' c r"
  unfolding reply_good_def request_good_def result_good_def by (blast dest: no_repeat_Some)

lemma reply_good_other [simp]:
  "(\<And>ar. r \<noteq> RequestReply (Inr ar)) \<Longrightarrow> (\<And>x. r \<noteq> ResultReply (Inr x)) \<Longrightarrow> reply_good L J C h K b c r"
  by (simp add: reply_good_def)

lemma good_update [simp]:
  "request_good L J C h K (b\<lparr>bs_oidc := o1\<rparr>) ar = request_good L J C h K b ar"
  "result_good L J C K (b\<lparr>bs_sessions := s\<rparr>) sid claims = result_good L J C K b sid claims"
  by (simp_all add: request_good_def result_good_def)

definition shared_log :: "lib \<Rightarrow> key_lib \<Rightarrow> cbor_lib \<Rightarrow> login_handler \<Rightarrow> bridge_call set \<Rightarrow> (bridge_call \<times> bridge_reply) set \<Rightarrow> traced_bridge \<Rightarrow> bool" where
  "shared_log L J C h K H b \<longleftrightarrow> shared_inv L J C h K b \<and> (\<forall>(c, r) \<in> H. reply_good L J C h K b c r)"

definition bsafe :: "lib \<Rightarrow> key_lib \<Rightarrow> cbor_lib \<Rightarrow> login_handler \<Rightarrow> bridge_call set \<Rightarrow> bridge_call \<Rightarrow> traced_bridge \<Rightarrow> (traced_bridge, bridge_reply) prog \<Rightarrow> bool" where
  "bsafe L J C h K c b p \<longleftrightarrow> (\<forall>(d, r) \<in> reply_of c p. reply_good L J C h K b d r) \<and>
     (\<forall>H. safe (shared_log L J C h K) (\<lambda>_ _ _. True) no_repeat c H b p)"

lemma bsafe_Done [simp]: "bsafe L J C h K c b (Done r) \<longleftrightarrow> reply_good L J C h K b c r"
  by (simp add: bsafe_def)

lemma bsafe_Atomic:
  assumes "\<And>b' p b''. no_repeat b b' \<Longrightarrow> shared_inv L J C h K b' \<Longrightarrow> f b' = (p, b'') \<Longrightarrow> no_repeat b' b'' \<Longrightarrow>
      shared_inv L J C h K b'' \<and> bsafe L J C h K c b'' p"
  shows "bsafe L J C h K c b (Atomic f)"
  unfolding bsafe_def reply_of_simps
proof (intro conjI allI)
  fix H
  show "safe (shared_log L J C h K) (\<lambda>_ _ _. True) no_repeat c H b (Atomic f)"
    by (rule safe_Atomic)
      (use assms [OF _ _ prod.collapse [symmetric]] reply_good_mono in \<open>fastforce simp: bsafe_def shared_log_def\<close>)+
qed simp

text \<open>Operations that only drop verification sessions.\<close>

definition shrinks :: "store \<Rightarrow> store \<Rightarrow> bool" where
  "shrinks s s' \<longleftrightarrow> (\<forall>sid v. verifications s' sid = Some v \<longrightarrow> verifications s sid = Some v) \<and>
     (\<forall>st sid. verificationIDByState s' st = Some sid \<longrightarrow> verificationIDByState s st = Some sid)"

lemma shrinks_find: "shrinks s (snd (findVerificationLocked now x s))"
  by (auto simp: shrinks_def findVerificationLocked_def deleteVerificationLocked_def split: option.splits if_splits)

lemma shrinks_lookups: "shrinks s s" "shrinks s (snd (FindVerification now x s))" "shrinks s (snd (verifier_Session now x s))"
  "shrinks s (snd (GetResult w x s))"
  by (simp_all add: shrinks_find FindVerification_def verifier_Session_def snd_GetResult) (simp add: shrinks_def)

lemma index_update:
  "verificationIDByState (UpdateVerificationStatus now sid st s) x = Some y \<Longrightarrow> verificationIDByState s x = Some y"
  "verificationIDByState (UpdateVerificationResult now sid st toks cl sub e s) x = Some y \<Longrightarrow> verificationIDByState s x = Some y"
  by (auto simp: UpdateVerificationStatus_def UpdateVerificationResult_def findVerificationPointerLocked_def
      deleteVerificationLocked_def split: option.splits if_splits)

text \<open>
  Steps in the two stores: requests may only be dropped or changed as \<open>entry_traced\<close> allows, sessions
  likewise.
\<close>

lemma oidc_step:
  assumes "shared_inv L J C h K b"
    and "\<And>i e. os_authRequests o1 i = Some e \<Longrightarrow> os_authRequests (bs_oidc b) i \<noteq> Some e \<Longrightarrow>
      entry_traced L J C h K (tb_sessions b) (tb_requests b) i e"
  shows "shared_inv L J C h K (b\<lparr>bs_oidc := o1\<rparr>)"
  using assms unfolding shared_inv_def created_ok_def by simp blast

lemma store_step:
  assumes "shared_inv L J C h K b"
    and "\<And>sid v. verifications s sid = Some v \<Longrightarrow> verifications (bs_sessions b) sid \<noteq> Some v \<Longrightarrow>
      session_traced L J C K (tb_sessions b) sid v"
    and "\<And>st sid. verificationIDByState s st = Some sid \<Longrightarrow> verificationIDByState (bs_sessions b) st = Some sid"
  shows "shared_inv L J C h K (b\<lparr>bs_sessions := s\<rparr>)"
  using assms unfolding shared_inv_def created_ok_def by simp blast

lemma bsafe_oidc:
  assumes "\<And>b' a o1. no_repeat b b' \<Longrightarrow> shared_inv L J C h K b' \<Longrightarrow> m (bs_oidc b') = (a, o1) \<Longrightarrow>
      (\<forall>i e. os_authRequests o1 i = Some e \<longrightarrow> os_authRequests (bs_oidc b') i \<noteq> Some e \<longrightarrow>
        entry_traced L J C h K (tb_sessions b') (tb_requests b') i e) \<and>
      bsafe L J C h K c (b'\<lparr>bs_oidc := o1\<rparr>) (k a)"
  shows "bsafe L J C h K c b (on_oidc m k)"
  unfolding on_oidc_def
proof (rule bsafe_Atomic)
  fix b' p b''
  assume b': "no_repeat b b'" "shared_inv L J C h K b'" and f: "(case m (bs_oidc b') of (a, o1) \<Rightarrow> (k a, b'\<lparr>bs_oidc := o1\<rparr>)) = (p, b'')"
  obtain a o1 where m: "m (bs_oidc b') = (a, o1)" by fastforce
  from assms [OF b' m] oidc_step [OF b'(2)] f m show "shared_inv L J C h K b'' \<and> bsafe L J C h K c b'' p" by auto
qed

lemma bsafe_store:
  assumes "\<And>b' a s. no_repeat b b' \<Longrightarrow> shared_inv L J C h K b' \<Longrightarrow> m (bs_sessions b') = (a, s) \<Longrightarrow>
      (\<forall>sid v. verifications s sid = Some v \<longrightarrow> verifications (bs_sessions b') sid \<noteq> Some v \<longrightarrow>
        session_traced L J C K (tb_sessions b') sid v) \<and>
      (\<forall>st sid. verificationIDByState s st = Some sid \<longrightarrow> verificationIDByState (bs_sessions b') st = Some sid) \<and>
      bsafe L J C h K c (b'\<lparr>bs_sessions := s\<rparr>) (k a)"
  shows "bsafe L J C h K c b (on_store m k)"
  unfolding on_store_def
proof (rule bsafe_Atomic)
  fix b' p b''
  assume b': "no_repeat b b'" "shared_inv L J C h K b'"
    and f: "(case m (bs_sessions b') of (a, s) \<Rightarrow> (k a, b'\<lparr>bs_sessions := s\<rparr>)) = (p, b'')"
  obtain a s where m: "m (bs_sessions b') = (a, s)" by fastforce
  from assms [OF b' m] store_step [OF b'(2)] f m show "shared_inv L J C h K b'' \<and> bsafe L J C h K c b'' p" by auto
qed

lemma bsafe_drop:
  assumes "\<And>o1. os_authRequests (snd (m o1)) \<subseteq>\<^sub>m os_authRequests o1"
    and "\<And>b' a o1. no_repeat b b' \<Longrightarrow> shared_inv L J C h K b' \<Longrightarrow> m (bs_oidc b') = (a, o1) \<Longrightarrow> bsafe L J C h K c (b'\<lparr>bs_oidc := o1\<rparr>) (k a)"
  shows "bsafe L J C h K c b (on_oidc m k)"
proof (rule bsafe_oidc)
  fix b' a o1
  assume *: "no_repeat b b'" "shared_inv L J C h K b'" "m (bs_oidc b') = (a, o1)"
  then have "os_authRequests o1 \<subseteq>\<^sub>m os_authRequests (bs_oidc b')" using assms(1) [of "bs_oidc b'"] by simp
  then have "os_authRequests (bs_oidc b') i = Some e" if "os_authRequests o1 i = Some e" for i e
    using that unfolding map_le_def by (metis domI)
  with assms(2) [OF *] show "(\<forall>i e. os_authRequests o1 i = Some e \<longrightarrow> os_authRequests (bs_oidc b') i \<noteq> Some e \<longrightarrow>
        entry_traced L J C h K (tb_sessions b') (tb_requests b') i e) \<and> bsafe L J C h K c (b'\<lparr>bs_oidc := o1\<rparr>) (k a)" by blast
qed

lemma bsafe_find:
  assumes "\<And>s. shrinks s (snd (m s))"
    and "\<And>b' a s. no_repeat b b' \<Longrightarrow> shared_inv L J C h K b' \<Longrightarrow> m (bs_sessions b') = (a, s) \<Longrightarrow> bsafe L J C h K c (b'\<lparr>bs_sessions := s\<rparr>) (k a)"
  shows "bsafe L J C h K c b (on_store m k)"
  by (rule bsafe_store) (metis assms shrinks_def snd_conv)

subsection \<open>Every operation is safe\<close>

lemma entry_known:
  assumes "shared_inv L J C h K b" "os_authRequests (bs_oidc b) i = Some e"
  obtains a0 where "tb_requests b i = Some a0" "as_requested (are_req e) = as_requested a0" "arq_id (are_req e) = i"
    "request_good L J C h K b (are_req e)"
    "are_verificationSessionID e \<noteq> [] \<Longrightarrow> asks_for L J h K (tb_sessions b) i (arq_scopes (are_req e)) (are_verificationSessionID e)"
proof -
  from assms obtain a0 where a0: "tb_requests b i = Some a0" "as_requested (are_req e) = as_requested a0"
    "arq_subject (are_req e) \<noteq> [] \<longrightarrow> login_backed L J C h K i (arq_scopes (are_req e)) (arq_subject (are_req e))"
    "are_verificationSessionID e \<noteq> [] \<longrightarrow> asks_for L J h K (tb_sessions b) i (arq_scopes (are_req e)) (are_verificationSessionID e)"
    unfolding shared_inv_def entry_traced_def by blast
  moreover have "arq_id a0 = i" "cc_Method (arq_codeChallenge a0) = CodeChallengeMethodS256" "cc_Challenge (arq_codeChallenge a0) \<noteq> []"
    using assms(1) a0(1) by (auto simp: shared_inv_def created_ok_def)
  ultimately show thesis using as_requested_eq [OF a0(2)] by (intro that) (auto simp: request_good_def arq_Done_def)
qed

lemma entry_good: "shared_inv L J C h K b \<Longrightarrow> os_authRequests (bs_oidc b) i = Some e \<Longrightarrow> request_good L J C h K b (are_req e)"
  using entry_known by blast

lemma index_known:
  assumes "shared_inv L J C h K b" "verificationIDByState (bs_sessions b) st = Some sid"
  obtains v0 where "tb_sessions b sid = Some v0" "vs_State v0 = st"
  using assms unfolding shared_inv_def created_ok_def by blast

lemma session_known:
  assumes "shared_inv L J C h K b" "verifications (bs_sessions b) sid = Some v"
  obtains v0 where "tb_sessions b sid = Some v0" "as_asked v = as_asked v0" "vs_SessionID v = sid" "session_ok L J C (responses_in K) v"
proof -
  from assms obtain v0 where "tb_sessions b sid = Some v0" "as_asked v = as_asked v0" "session_ok L J C (responses_in K) v"
    unfolding shared_inv_def session_traced_def by blast
  moreover have "vs_SessionID v0 = sid" using assms(1) calculation(1) by (auto simp: shared_inv_def created_ok_def)
  ultimately show thesis using that as_asked_eq(1) by metis
qed

lemma entry_traced_mono:
  assumes "entry_traced L J C h K S A i e" "S \<subseteq>\<^sub>m S'" "A \<subseteq>\<^sub>m A'"
  shows "entry_traced L J C h K S' A' i e"
  using assms unfolding entry_traced_def asks_for_def map_le_def by (metis domI)

lemma session_traced_mono: "session_traced L J C K S sid v \<Longrightarrow> S \<subseteq>\<^sub>m S' \<Longrightarrow> session_traced L J C K S' sid v"
  unfolding session_traced_def map_le_def by (metis domI)

lemma bsafe_store_session:
  assumes v: "session_ok L J C (responses_in K) v"
    and k: "\<And>b'. no_repeat b b' \<Longrightarrow> tb_sessions b' (vs_SessionID v) = Some v \<Longrightarrow> bsafe L J C h K c b' p"
  shows "bsafe L J C h K c b (store_session now v p)"
  unfolding store_session_def
proof (rule bsafe_Atomic)
  fix b' p' b''
  assume R: "no_repeat b b'" and inv: "shared_inv L J C h K b'" and R': "no_repeat b' b''"
    and f: "(p, b'\<lparr>bs_sessions := StoreVerification now v (bs_sessions b'), tb_sessions := (tb_sessions b')(vs_SessionID v \<mapsto> v)\<rparr>) = (p', b'')"
  have "session_ok L J C (responses_in K) (v\<lparr>vs_CreatedAt := now\<rparr>)" using v by simp
  then have new: "session_traced L J C K (tb_sessions b'') (vs_SessionID v) (v\<lparr>vs_CreatedAt := now\<rparr>)"
    using f by (auto simp: session_traced_def)
  have le: "tb_sessions b' \<subseteq>\<^sub>m tb_sessions b''" "tb_requests b'' = tb_requests b'" using R' f by (auto simp: no_repeat_def)
  have "session_traced L J C K (tb_sessions b'') sid u" if "verifications (bs_sessions b'') sid = Some u" for sid u
  proof (cases "sid = vs_SessionID v")
    case False
    then have "verifications (bs_sessions b') sid = Some u" using that f by (auto simp: StoreVerification_def Let_def)
    then show ?thesis using inv session_traced_mono [OF _ le(1)] by (simp add: shared_inv_def)
  qed (use that f new in \<open>auto simp: StoreVerification_def Let_def\<close>)
  moreover have "entry_traced L J C h K (tb_sessions b'') (tb_requests b'') i e" if "os_authRequests (bs_oidc b'') i = Some e" for i e
    using inv that f entry_traced_mono [OF _ le(1), of L J C h K "tb_requests b'" i e "tb_requests b'"] le(2)
    by (auto simp: shared_inv_def)
  moreover have "\<exists>v0. tb_sessions b'' sid = Some v0 \<and> vs_State v0 = st" if "verificationIDByState (bs_sessions b'') st = Some sid" for st sid
  proof (cases "st = vs_State v")
    case False
    then have "verificationIDByState (bs_sessions b') st = Some sid" using that f by (auto simp: StoreVerification_def Let_def)
    then show ?thesis using index_known [OF inv] no_repeat_Some(1) [OF R'] by metis
  qed (use that f in \<open>auto simp: StoreVerification_def Let_def\<close>)
  then have "created_ok b''" using inv f by (auto simp: shared_inv_def created_ok_def split: if_splits)
  ultimately have "shared_inv L J C h K b''" by (simp add: shared_inv_def)
  moreover have "tb_sessions b'' (vs_SessionID v) = Some v" using f by auto
  ultimately show "shared_inv L J C h K b'' \<and> bsafe L J C h K c b'' p'" using k [OF no_repeat_trans [OF R R']] f by auto
qed

lemma bsafe_store_request:
  assumes a: "cc_Method (arq_codeChallenge a) = CodeChallengeMethodS256" "cc_Challenge (arq_codeChallenge a) \<noteq> []" "arq_subject a = []"
    and k: "\<And>b'. tb_requests b' (arq_id a) = Some a \<Longrightarrow> bsafe L J C h K c b' p"
  shows "bsafe L J C h K c b (store_request now a p)"
  unfolding store_request_def
proof (rule bsafe_Atomic)
  fix b' p' b''
  assume R: "no_repeat b b'" and inv: "shared_inv L J C h K b'" and R': "no_repeat b' b''"
    and f: "(p, b'\<lparr>bs_oidc := putAuthRequest now a (bs_oidc b'), tb_requests := (tb_requests b')(arq_id a \<mapsto> a)\<rparr>) = (p', b'')"
  have le: "tb_requests b' \<subseteq>\<^sub>m tb_requests b''" "tb_sessions b'' = tb_sessions b'" using R' f by (auto simp: no_repeat_def)
  have "entry_traced L J C h K (tb_sessions b'') (tb_requests b'') i e" if "os_authRequests (bs_oidc b'') i = Some e" for i e
  proof (cases "i = arq_id a")
    case False
    then have "os_authRequests (bs_oidc b') i = Some e" using that f by (auto simp: putAuthRequest_def)
    then show ?thesis using inv entry_traced_mono [OF _ _ le(1), of L J C h K "tb_sessions b'" i e "tb_sessions b'"] le(2)
      by (simp add: shared_inv_def)
  qed (use that f a in \<open>auto simp: putAuthRequest_def entry_traced_def\<close>)
  moreover have "created_ok b''" using inv f a by (auto simp: shared_inv_def created_ok_def split: if_splits)
  ultimately have "shared_inv L J C h K b''" using inv f by (auto simp: shared_inv_def)
  moreover have "tb_requests b'' (arq_id a) = Some a" using f by auto
  ultimately show "shared_inv L J C h K b'' \<and> bsafe L J C h K c b'' p'" using k f by auto
qed

lemma CreateSession_safe:
  assumes "\<And>r. (\<And>x. r \<noteq> Some (Inr x)) \<Longrightarrow> bsafe L J C h K c b (k r)"
    and "\<And>b' result v. no_repeat b b' \<Longrightarrow> tb_sessions b' (csr_SessionID result) = Some v \<Longrightarrow> opens L J svc w creds v \<Longrightarrow>
      bsafe L J C h K c b' (k (Some (Inr result)))"
  shows "bsafe L J C h K c b (CreateSession_prog L J svc w creds k)"
proof (cases "\<exists>result v. prepareSession L J svc w creds = Some (Inr (result, v))")
  case True
  then obtain result v where p: "prepareSession L J svc w creds = Some (Inr (result, v))" by blast
  from prepareSession_session [OF p] opens_session(2) show ?thesis
    unfolding CreateSession_prog_def p by (auto intro!: bsafe_store_session assms(2))
next
  case False
  then show ?thesis unfolding CreateSession_prog_def by (auto intro: assms(1) split: option.split sum.split)
qed

lemma GetRequestObject_safe: "bsafe L J C h K c b (map_prog ObjectReply (GetRequestObject_prog w sid))"
proof -
  have upd: "bsafe L J C h K c b' (on_store (\<lambda>s. ((), UpdateVerificationStatus t sid ''request_sent'' s)) (\<lambda>_. Done (ObjectReply r)))" for b' t r
  proof (rule bsafe_store)
    fix b'' a s
    assume inv: "shared_inv L J C h K b''" and s: "((), UpdateVerificationStatus t sid ''request_sent'' (bs_sessions b'')) = (a, s)"
    have "session_traced L J C K (tb_sessions b'') sid (v\<lparr>vs_Status := ''request_sent''\<rparr>)"
      if "verifications (bs_sessions b'') sid = Some v" for v
      using inv that by (auto simp: shared_inv_def session_traced_def session_ok_def verifier_statuses_def)
    then show "(\<forall>x v. verifications s x = Some v \<longrightarrow> verifications (bs_sessions b'') x \<noteq> Some v \<longrightarrow> session_traced L J C K (tb_sessions b'') x v) \<and>
        (\<forall>st sid. verificationIDByState s st = Some sid \<longrightarrow> verificationIDByState (bs_sessions b'') st = Some sid) \<and>
        bsafe L J C h K c (b''\<lparr>bs_sessions := s\<rparr>) (Done (ObjectReply r))"
      using s index_update(1) [of t sid "''request_sent''" "bs_sessions b''"] by (auto simp: UpdateVerificationStatus_def findVerificationPointerLocked_def deleteVerificationLocked_def
          split: option.splits if_splits)
  qed
  show ?thesis unfolding GetRequestObject_prog_def map_sections
    by (rule bsafe_find [OF shrinks_lookups(2)]) (auto simp: upd split: option.split)
qed

lemma GetResult_safe:
  assumes "ord_ok w"
  shows "bsafe L J C h K (PollResult w sid) b (map_prog ResultReply (GetResult_prog w sid))"
  unfolding GetResult_prog_def map_sections
proof (rule bsafe_find [OF shrinks_lookups(4)])
  fix b' r s
  assume inv: "shared_inv L J C h K b'" and r: "GetResult w sid (bs_sessions b') = (r, s)"
  have "result_good L J C K b' sid claims" if "r = Inr (successResult claims)" for claims
  proof -
    from r that obtain v where v: "verifications (bs_sessions b') sid = Some v" "vs_Status v = ''verified''"
      "claims = mergeClaims w (vs_VerifiedClaims v)"
      by (auto simp: GetResult_def FindVerification_def findVerificationLocked_def errorResult_def successResult_def
        StatusSuccess_def StatusError_def split: option.splits if_splits prod.splits)
    from session_known [OF inv v(1)] obtain v0 where v0: "tb_sessions b' sid = Some v0" "as_asked v = as_asked v0"
      "session_ok L J C (responses_in K) v" by blast
    then have "earned L J C (responses_in K) v0 (vs_VPTokens v) (vs_VerifiedClaims v) (vs_SubjectID v)"
      using v(2) as_asked_eq(6) [OF v0(2)] by (simp add: session_ok_def)
    then show ?thesis using v0(1) v(3) mergeClaims_reported [OF assms] by (auto simp: result_good_def)
  qed
  then show "bsafe L J C h K (PollResult w sid) (b'\<lparr>bs_sessions := s\<rparr>) (map_prog ResultReply (Done r))"
    by (auto simp: reply_good_def)
qed

text \<open>A response is attributed to a session it names.\<close>

lemma shrinks_locate: "shrinks s (snd (locate L J now req s))"
proof -
  have "snd (locate L J now req s) = s \<or> (\<exists>x. snd (locate L J now req s) = snd (findVerificationLocked now x s))"
    by (auto simp: locate_encrypted_def locate_plain_def FindVerificationByState_def
        FindVerificationByEncryptionKID_def Let_def split: sum.splits option.splits prod.splits) (metis snd_conv)+
  then show ?thesis using shrinks_find shrinks_lookups(1) by metis
qed

lemma locate_named:
  assumes inv: "shared_inv L' J' C h K b" and l: "locate L J now req (bs_sessions b) = (Inr (v, raw), s1)"
  obtains v0 where "tb_sessions b (vs_SessionID v) = Some v0" "as_asked v = as_asked v0" "names_session L J req v raw"
proof -
  from locate_found [OF l] obtain sid where sid: "findVerificationLocked now sid (bs_sessions b) = (Some v, s1)"
    "rr_Response req = [] \<Longrightarrow> verificationIDByState (bs_sessions b) (rr_State req) = Some sid"
    "(rr_Response req = [] \<longrightarrow> vs_State v = rr_State req) \<longrightarrow> names_session L J req v raw" by blast
  from sid(1) have "verifications (bs_sessions b) sid = Some v" by (auto simp: findVerificationLocked_def split: option.splits if_splits)
  from session_known [OF inv this] obtain v0 where v0: "tb_sessions b sid = Some v0" "as_asked v = as_asked v0" "vs_SessionID v = sid" by blast
  have "vs_State v = rr_State req" if "rr_Response req = []"
    using index_known [OF inv sid(2) [OF that]] v0(1) as_asked_eq(2) [OF v0(2)] by auto
  then show thesis using sid(3) v0 by (intro that [of v0]) auto
qed

lemma HandleResponse_safe:
  assumes "thumbprints_ok L" "ord_ok w" and K: "WalletResponse N w req \<in> K"
  shows "bsafe L J C h K c b (map_prog ResponseReply (HandleResponse_prog L J C N w req))"
proof -
  have W: "(N, w, req) \<in> responses_in K" using K by (simp add: responses_in_def)
  have rec: "bsafe L J C h K c b' (on_store (record_outcome L C N (after 1 w) v raw) (\<lambda>r. Done (ResponseReply (f r))))"
    if v0: "tb_sessions b' (vs_SessionID v) = Some v0" "as_asked v = as_asked v0" and named: "names_session L J req v raw" for b' v v0 raw f
  proof (rule bsafe_store)
    fix b'' a s
    assume R: "no_repeat b' b''" and inv: "shared_inv L J C h K b''"
      and run: "record_outcome L C N (after 1 w) v raw (bs_sessions b'') = (a, s)"
    have s: "s = snd (record_outcome L C N (after 1 w) v raw (bs_sessions b''))" unfolding run by simp
    have upd: "session_traced L J C K (tb_sessions b'') x u"
      if u: "verifications (UpdateVerificationResult t (vs_SessionID v) st toks cl sub e (bs_sessions b'')) x = Some u"
        "verifications (bs_sessions b'') x \<noteq> Some u"
        and st: "st = ''failed'' \<or> st = ''verified'' \<and> earned L J C (responses_in K) v toks cl sub" for t st toks cl sub e x u
    proof -
      from u obtain u0 where u0: "x = vs_SessionID v" "verifications (bs_sessions b'') x = Some u0"
        "u = u0\<lparr>vs_Status := st, vs_VPTokens := toks, vs_VerifiedClaims := cl, vs_SubjectID := sub, vs_Error := e\<rparr>"
        by (auto simp: UpdateVerificationResult_def findVerificationPointerLocked_def deleteVerificationLocked_def
            split: option.splits if_splits)
      from session_known [OF inv u0(2)] obtain v1 where v1: "tb_sessions b'' x = Some v1" "as_asked u0 = as_asked v1"
        "session_ok L J C (responses_in K) u0" by blast
      have "as_asked v = as_asked u0" using v1(1,2) v0 no_repeat_Some(1) [OF R v0(1)] u0(1) by simp
      then have "session_ok L J C (responses_in K) u" unfolding u0(3)
        using st as_asked_eq(6) by (intro session_ok_outcome [OF v1(3)]) blast
      then show ?thesis using v1 by (auto simp: session_traced_def u0(3))
    qed
    have "(\<forall>x u. verifications s x = Some u \<longrightarrow> verifications (bs_sessions b'') x \<noteq> Some u \<longrightarrow> session_traced L J C K (tb_sessions b'') x u) \<and>
        (\<forall>st sid. verificationIDByState s st = Some sid \<longrightarrow> verificationIDByState (bs_sessions b'') st = Some sid)"
    proof (cases rule: record_outcome_updates [OF assms(1,2) W named, where C = C and n = 1 and s = "bs_sessions b''"])
      case 1
      then show ?thesis by (simp add: s)
    next
      case (2 t st toks cl sub e)
      then show ?thesis using upd [OF _ _ 2(2)] index_update(2) unfolding s by metis
    qed
    then show "(\<forall>x u. verifications s x = Some u \<longrightarrow> verifications (bs_sessions b'') x \<noteq> Some u \<longrightarrow> session_traced L J C K (tb_sessions b'') x u) \<and>
        (\<forall>st sid. verificationIDByState s st = Some sid \<longrightarrow> verificationIDByState (bs_sessions b'') st = Some sid) \<and>
        bsafe L J C h K c (b''\<lparr>bs_sessions := s\<rparr>) (Done (ResponseReply (f a)))" by simp
  qed
  show ?thesis unfolding HandleResponse_prog_def map_sections
  proof (rule bsafe_find [OF shrinks_locate])
    fix b' loc s
    assume inv: "shared_inv L J C h K b'" and l: "locate L J (clk w 0) req (bs_sessions b') = (loc, s)"
    show "bsafe L J C h K c (b'\<lparr>bs_sessions := s\<rparr>) (map_prog ResponseReply (case loc of
        Inl early \<Rightarrow> Done (map_option (map_sum id (\<lambda>r. (r, None))) early)
      | Inr (v, rawVPToken) \<Rightarrow> on_store (record_outcome L C N (after 1 w) v rawVPToken) (\<lambda>r.
          Done (map_option (\<lambda>r. Inr (r, Some v)) r))))"
    proof (cases loc)
      case (Inr vr)
      obtain v raw where vr: "vr = (v, raw)" by fastforce
      from locate_named [OF inv l [unfolded Inr vr]] obtain v0 where "tb_sessions b' (vs_SessionID v) = Some v0" "as_asked v = as_asked v0"
        "names_session L J req v raw" by blast
      then show ?thesis using rec [of "b'\<lparr>bs_sessions := s\<rparr>" v v0] by (simp add: Inr vr)
    qed simp
  qed
qed

lemma library_safe: "bsafe L J C h K (LibraryCall c) b (library_body c)"
proof (cases c)
  case (CallAuthorize w req)
  have "cc_Method (arq_codeChallenge a) = CodeChallengeMethodS256" "cc_Challenge (arq_codeChallenge a) \<noteq> []" "arq_subject a = []"
    if "CreateAuthRequest w req newStore = (Inr a, o1)" for a o1
    using that methods_differ by (auto simp: CreateAuthRequest_def Let_def split: if_splits)
  then show ?thesis unfolding CallAuthorize library_body.simps CreateAuthRequest_prog_def
    by (auto simp: reply_good_def request_good_def arq_Done_def intro!: bsafe_store_request split: prod.split sum.split)
next
  case (CallByID now i)
  show ?thesis unfolding CallByID library_body.simps
  proof (rule bsafe_drop)
    fix b' a o1
    assume inv: "shared_inv L J C h K b'" and run: "AuthRequestByID now i (bs_oidc b') = (a, o1)"
    have "request_good L J C h K b' ar" if "a = Inr ar" for ar
      using run that by (auto simp: AuthRequestByID_def getAuthRequest_Some entry_good [OF inv] split: prod.splits option.splits)
    then show "bsafe L J C h K (LibraryCall (CallByID now i)) (b'\<lparr>bs_oidc := o1\<rparr>) (Done (RequestReply a))" by (simp add: reply_good_def)
  qed (rule callbacks_drop)
next
  case (CallByCode w code)
  have get: "bsafe L J C h K (LibraryCall c) b' (map_prog RequestReply (on_oidc (getAuthRequest (clk w 1) i) (\<lambda>ar. case ar of
       None \<Rightarrow> Done (Inl (ErrInvalidGrant ''authorization request expired''))
     | Some a \<Rightarrow> Done (Inr a))))" for b' i
    unfolding map_sections
    by (rule bsafe_drop [OF getAuthRequest_le])
      (auto simp: getAuthRequest_Some reply_good_def entry_good split: option.split)
  show ?thesis using get unfolding CallByCode library_body.simps AuthRequestByCode_prog_def map_sections
    by (intro bsafe_drop) (auto simp: consumeAuthCode_def Let_def split: option.split)
next
  case (CallTokens w tr cur)
  show ?thesis unfolding CallTokens library_body.simps CreateTokens_prog_def Let_def
    by (auto simp: putRefreshToken_def deleteRefreshToken_def intro!: bsafe_drop)
qed (auto simp: callbacks_drop intro!: bsafe_drop)

lemma link_safe:
  assumes a0: "tb_requests b i = Some a0" and cs: "ResolveCredentialScope (lh_clients h) (arq_scopes a0) = Some cs"
    and v: "tb_sessions b sid = Some v" "(w, i) \<in> loads_in K" "opens L J (lh_verifier h) (after 1 w) [login_credential cs] v"
  shows "bsafe L J C h K c b (on_oidc (\<lambda>o1. ((), linkVerificationSession i sid o1)) (\<lambda>_. Done (PageReply r)))"
proof (rule bsafe_oidc)
  fix b' a o1
  assume R: "no_repeat b b'" and inv: "shared_inv L J C h K b'" and o1: "((), linkVerificationSession i sid (bs_oidc b')) = (a, o1)"
  have "entry_traced L J C h K (tb_sessions b') (tb_requests b') j e"
    if e: "os_authRequests o1 j = Some e" "os_authRequests (bs_oidc b') j \<noteq> Some e" for j e
  proof -
    from e o1 obtain e0 where e0: "j = i" "os_authRequests (bs_oidc b') i = Some e0" "e = e0\<lparr>are_verificationSessionID := sid\<rparr>"
      by (auto simp: linkVerificationSession_def split: option.splits if_splits)
    then have old: "entry_traced L J C h K (tb_sessions b') (tb_requests b') i e0" using inv by (simp add: shared_inv_def)
    moreover have "arq_scopes (are_req e0) = arq_scopes a0"
      using old no_repeat_Some(2) [OF R a0] by (auto simp: entry_traced_def dest: as_requested_eq)
    then have "asks_for L J h K (tb_sessions b') i (arq_scopes (are_req e0)) sid"
      using cs v no_repeat_Some(1) [OF R v(1)] by (auto simp: asks_for_def login_session_def)
    ultimately show ?thesis by (simp add: entry_traced_def e0)
  qed
  then show "(\<forall>j e. os_authRequests o1 j = Some e \<longrightarrow> os_authRequests (bs_oidc b') j \<noteq> Some e \<longrightarrow>
      entry_traced L J C h K (tb_sessions b') (tb_requests b') j e) \<and>
    bsafe L J C h K c (b'\<lparr>bs_oidc := o1\<rparr>) (Done (PageReply r))" by simp
qed

lemma map_CreateSession [simp]: "map_prog g (CreateSession_prog L J svc w creds k) = CreateSession_prog L J svc w creds (\<lambda>r. map_prog g (k r))"
  by (simp add: CreateSession_prog_def split: option.split sum.split)

lemma start_login_safe:
  assumes a0: "tb_requests b i = Some a0" "as_requested ar = as_requested a0" "arq_id ar = i"
    and cs: "ResolveCredentialScope (lh_clients h) (arq_scopes ar) = Some cs" and load: "(w, i) \<in> loads_in K"
  shows "bsafe L J C h K c b (map_prog PageReply (start_login_prog L J h (after 1 w) i' ar cs))"
  unfolding start_login_prog_def map_sections
proof (rule bsafe_drop)
  fix b1 linked o1
  assume R: "no_repeat b b1"
  have "no_repeat b1 (b1\<lparr>bs_oidc := o1\<rparr>)" by (simp add: no_repeat_def)
  then have R1: "no_repeat b (b1\<lparr>bs_oidc := o1\<rparr>)" using R no_repeat_trans by blast
  have link: "bsafe L J C h K c b2 (on_oidc (\<lambda>o1. ((), linkVerificationSession i (csr_SessionID result) o1)) (\<lambda>_. Done (PageReply r)))"
    if "no_repeat (b1\<lparr>bs_oidc := o1\<rparr>) b2" "tb_sessions b2 (csr_SessionID result) = Some v"
      "opens L J (lh_verifier h) (after 1 w) [login_credential cs] v" for b2 result v r
    by (rule link_safe [OF no_repeat_Some(2) [OF no_repeat_trans [OF R1 that(1)] a0(1)]])
      (use cs as_requested_eq(2) [OF a0(2)] that(2,3) load in simp_all)
  show "bsafe L J C h K c (b1\<lparr>bs_oidc := o1\<rparr>) (map_prog PageReply (case linked of
       Some vsid \<Rightarrow> Done (Some (LoginPage i' vsid))
     | None \<Rightarrow> CreateSession_prog L J (lh_verifier h) (after 1 w) [login_credential cs] (\<lambda>r. case r of
         None \<Rightarrow> Done None
       | Some (Inl e) \<Rightarrow> Done (Some (HttpError 502 (''failed to start verification: '' @ e)))
       | Some (Inr result) \<Rightarrow>
           on_oidc (\<lambda>o1. ((), linkVerificationSession (arq_id ar) (csr_SessionID result) o1)) (\<lambda>_.
           Done (Some (LoginPage i' (csr_SessionID result)))))))"
    by (cases linked) (auto simp: a0(3) link split: option.split sum.split intro!: CreateSession_safe)
qed simp

lemma login_safe:
  assumes "LoadPage w i \<in> K"
  shows "bsafe L J C h K c b (map_prog PageReply (login_prog L J h w i))"
proof (cases "i = []")
  case False
  show ?thesis unfolding login_prog_def if_not_P [OF False] map_sections
  proof (rule bsafe_drop [OF getAuthRequest_le])
    fix b1 found o1
    assume inv: "shared_inv L J C h K b1" and g: "getAuthRequest (clk w 0) i (bs_oidc b1) = (found, o1)"
    have load: "(w, i) \<in> loads_in K" using assms by (simp add: loads_in_def)
    have "\<exists>a0. tb_requests (b1\<lparr>bs_oidc := o1\<rparr>) i = Some a0 \<and> as_requested ar = as_requested a0 \<and> arq_id ar = i" if "found = Some ar" for ar
      using g that entry_known [OF inv] by (simp add: getAuthRequest_Some) metis
    then show "bsafe L J C h K c (b1\<lparr>bs_oidc := o1\<rparr>) (map_prog PageReply (case found of
        None \<Rightarrow> Done (Some (HttpError 404 ''unknown or expired login request''))
      | Some ar \<Rightarrow>
          if arq_Done ar then Done (Some (RedirectTo (callbackURL h (arq_id ar))))
          else if registry_Lookup (lh_clients h) (arq_clientID ar) = None
          then Done (Some (HttpError 400 ''unknown client''))
          else case ResolveCredentialScope (lh_clients h) (arq_scopes ar) of
            None \<Rightarrow> Done (Some (HttpError 400 ''the requested scope names no known credential to present''))
          | Some cs \<Rightarrow> start_login_prog L J h (after 1 w) i ar cs))"
      using start_login_safe [of "b1\<lparr>bs_oidc := o1\<rparr>" i _ _ h _ w K] load by (cases found) (auto split: option.split)
  qed
qed (simp add: login_prog_def)

text \<open>An assignment to a request: what was asked stays, and a new subject is backed.\<close>

lemma set_request_safe:
  assumes a0: "tb_requests b i = Some a0"
    and f: "\<And>a. as_requested (f a) = as_requested a"
      "\<And>a. arq_subject (f a) = arq_subject a \<or> login_backed L J C h K i (arq_scopes a0) (arq_subject (f a))"
    and k: "\<And>b'. no_repeat b b' \<Longrightarrow> bsafe L J C h K c b' p"
  shows "bsafe L J C h K c b (on_oidc (\<lambda>o1. ((), set_request i f o1)) (\<lambda>_. p))"
proof (rule bsafe_oidc)
  fix b' a o1
  assume R: "no_repeat b b'" and inv: "shared_inv L J C h K b'" and o1: "((), set_request i f (bs_oidc b')) = (a, o1)"
  have "entry_traced L J C h K (tb_sessions b') (tb_requests b') j e"
    if e: "os_authRequests o1 j = Some e" "os_authRequests (bs_oidc b') j \<noteq> Some e" for j e
  proof -
    from e o1 obtain e0 where e0: "j = i" "os_authRequests (bs_oidc b') i = Some e0" "e = e0\<lparr>are_req := f (are_req e0)\<rparr>"
      by (auto simp: set_request_def split: option.splits if_splits)
    then have old: "entry_traced L J C h K (tb_sessions b') (tb_requests b') i e0" using inv by (simp add: shared_inv_def)
    moreover have "arq_scopes (are_req e0) = arq_scopes a0"
      using old no_repeat_Some(2) [OF R a0] by (auto simp: entry_traced_def dest: as_requested_eq)
    moreover have "arq_scopes (f (are_req e0)) = arq_scopes (are_req e0)" using as_requested_eq(2) [OF f(1)] .
    ultimately show ?thesis using f [of "are_req e0"] by (auto simp: entry_traced_def e0)
  qed
  moreover have "no_repeat b' (b'\<lparr>bs_oidc := o1\<rparr>)" by (simp add: no_repeat_def)
  ultimately show "(\<forall>j e. os_authRequests o1 j = Some e \<longrightarrow> os_authRequests (bs_oidc b') j \<noteq> Some e \<longrightarrow>
      entry_traced L J C h K (tb_sessions b') (tb_requests b') j e) \<and> bsafe L J C h K c (b'\<lparr>bs_oidc := o1\<rparr>) p"
    using k no_repeat_trans [OF R] by blast
qed

lemma conclude_safe:
  assumes a0: "tb_requests b i = Some a0" and v: "vs_Status v = ''verified'' \<Longrightarrow> login_backed L J C h K i (arq_scopes a0) (vs_SubjectID v)"
  shows "bsafe L J C h K c b (map_prog StatusReply (conclude_prog h w i ar v))"
proof -
  have "bsafe L J C h K c b (on_oidc (\<lambda>o1. ((), set_request i (\<lambda>a. a\<lparr>arq_subject := vs_SubjectID v\<rparr>) o1)) (\<lambda>_.
      on_oidc (\<lambda>o1. ((), set_request i (\<lambda>a. a\<lparr>arq_doneAt := t\<rparr>) o1)) (\<lambda>_. Done (StatusReply r))))"
    if "vs_Status v = ''verified''" for t r
    by (rule set_request_safe [OF a0], simp, simp add: v [OF that], rule set_request_safe)
      (auto intro: no_repeat_Some(2) [OF _ a0])
  then show ?thesis by (simp add: conclude_prog_def)
qed

text \<open>The session a request is linked to, once it is verified, backs the request's scopes.\<close>

lemma linked_session_backs:
  assumes inv: "shared_inv L J C h K b" and asks: "asks_for L J h K (tb_sessions b) i scopes vsid"
    and v: "verifications (bs_sessions b) vsid = Some v" "vs_Status v = ''verified''"
  shows "login_backed L J C h K i scopes (vs_SubjectID v)"
proof -
  from asks obtain v0 where v0: "tb_sessions b vsid = Some v0" "login_session L J h (loads_in K) i scopes v0"
    by (auto simp: asks_for_def)
  from session_known [OF inv v(1)] v0(1) have v1: "as_asked v = as_asked v0" "session_ok L J C (responses_in K) v" by auto
  then have "earned L J C (responses_in K) v0 (vs_VPTokens v) (vs_VerifiedClaims v) (vs_SubjectID v)"
    using v(2) as_asked_eq(6) [OF v1(1)] by (simp add: session_ok_def)
  then show ?thesis using v0(2) by (auto simp: backed_def)
qed

lemma session_step_safe:
  assumes a0: "tb_requests b i = Some a0" and asks: "asks_for L J h K (tb_sessions b) i (arq_scopes a0) vsid"
  shows "bsafe L J C h K c b (map_prog StatusReply (on_store (verifier_Session t vsid) (\<lambda>session. case session of
        None \<Rightarrow> Done (JSONStatus 200 [(''status'', ''pending'')])
      | Some v \<Rightarrow> conclude_prog h w i ar v)))"
  unfolding map_sections
proof (rule bsafe_find)
  fix b' session s
  assume R: "no_repeat b b'" and inv: "shared_inv L J C h K b'" and g: "verifier_Session t vsid (bs_sessions b') = (session, s)"
  have asks': "asks_for L J h K (tb_sessions b') i (arq_scopes a0) vsid" using asks no_repeat_Some(1) [OF R] by (auto simp: asks_for_def)
  have "login_backed L J C h K i (arq_scopes a0) (vs_SubjectID v)" if "session = Some v" "vs_Status v = ''verified''" for v
    using linked_session_backs [OF inv asks' _ that(2)] g that(1)
    by (auto simp: verifier_Session_def FindVerification_def findVerificationLocked_def split: option.splits if_splits)
  then show "bsafe L J C h K c (b'\<lparr>bs_sessions := s\<rparr>) (map_prog StatusReply (case session of
        None \<Rightarrow> Done (JSONStatus 200 [(''status'', ''pending'')])
      | Some v \<Rightarrow> conclude_prog h w i ar v))"
    using conclude_safe [of "b'\<lparr>bs_sessions := s\<rparr>" i a0] no_repeat_Some(2) [OF R a0] by (auto split: option.split)
qed (rule shrinks_lookups)

lemma linked_step_safe:
  assumes a0: "tb_requests b i = Some a0" and ar: "arq_id ar = i"
  shows "bsafe L J C h K c b (map_prog StatusReply (on_oidc (\<lambda>o1. (getVerificationSession (arq_id ar) o1, o1)) (\<lambda>linked. case linked of
        None \<Rightarrow> Done (JSONStatus 200 [(''status'', ''pending'')])
      | Some vsid \<Rightarrow> on_store (verifier_Session t vsid) (\<lambda>session. case session of
        None \<Rightarrow> Done (JSONStatus 200 [(''status'', ''pending'')])
      | Some v \<Rightarrow> conclude_prog h w i ar v))))"
  unfolding map_sections
proof (rule bsafe_drop)
  fix b' linked o1
  assume R: "no_repeat b b'" and inv: "shared_inv L J C h K b'" and g: "(getVerificationSession (arq_id ar) (bs_oidc b'), bs_oidc b') = (linked, o1)"
  have "asks_for L J h K (tb_sessions (b'\<lparr>bs_oidc := o1\<rparr>)) i (arq_scopes a0) vsid" if vsid: "linked = Some vsid" for vsid
  proof -
    from g vsid ar obtain e where e: "os_authRequests (bs_oidc b') i = Some e" "are_verificationSessionID e = vsid" "vsid \<noteq> []"
      by (auto simp: getVerificationSession_def split: option.splits if_splits)
    from entry_known [OF inv e(1)] obtain a1 where a1: "tb_requests b' i = Some a1" "as_requested (are_req e) = as_requested a1"
      "asks_for L J h K (tb_sessions b') i (arq_scopes (are_req e)) vsid" using e by metis
    moreover have "a1 = a0" using a1(1) no_repeat_Some(2) [OF R a0] by simp
    ultimately show ?thesis using as_requested_eq(2) [OF a1(2)] by simp
  qed
  then show "bsafe L J C h K c (b'\<lparr>bs_oidc := o1\<rparr>) (map_prog StatusReply (case linked of
        None \<Rightarrow> Done (JSONStatus 200 [(''status'', ''pending'')])
      | Some vsid \<Rightarrow> on_store (verifier_Session t vsid) (\<lambda>session. case session of
        None \<Rightarrow> Done (JSONStatus 200 [(''status'', ''pending'')])
      | Some v \<Rightarrow> conclude_prog h w i ar v)))"
    using session_step_safe [of "b'\<lparr>bs_oidc := o1\<rparr>" i a0] no_repeat_Some(2) [OF R a0] by (cases linked) auto
qed simp

lemma poll_safe: "bsafe L J C h K c b (map_prog StatusReply (poll_prog h w i))"
  unfolding poll_prog_def map_sections(1)
proof (rule bsafe_drop [OF getAuthRequest_le])
  fix b' found o1
  assume inv: "shared_inv L J C h K b'" and g: "getAuthRequest (clk w 0) i (bs_oidc b') = (found, o1)"
  have "\<exists>a0. tb_requests (b'\<lparr>bs_oidc := o1\<rparr>) i = Some a0 \<and> arq_id ar = i" if "found = Some ar" for ar
    using g that entry_known [OF inv] by (simp add: getAuthRequest_Some) metis
  then show "bsafe L J C h K c (b'\<lparr>bs_oidc := o1\<rparr>) (map_prog StatusReply (case found of
        None \<Rightarrow> Done (JSONStatus 404 [(''status'', ''not_found'')])
      | Some ar \<Rightarrow>
      if arq_Done ar then Done (JSONStatus 200 [(''status'', ''done''), (''redirect'', callbackURL h (arq_id ar))])
      else on_oidc (\<lambda>o1. (getVerificationSession (arq_id ar) o1, o1)) (\<lambda>linked. case linked of
        None \<Rightarrow> Done (JSONStatus 200 [(''status'', ''pending'')])
      | Some vsid \<Rightarrow> on_store (verifier_Session (clk w 1) vsid) (\<lambda>session. case session of
        None \<Rightarrow> Done (JSONStatus 200 [(''status'', ''pending'')])
      | Some v \<Rightarrow> conclude_prog h w i ar v))))"
    using linked_step_safe by (cases found) fastforce+
qed

subsection \<open>Every interleaving\<close>

text \<open>Calls that range over maps: the order Go gives the entries of a map is an order of these entries.\<close>

fun orderly :: "bridge_call \<Rightarrow> bool" where
  "orderly (WalletResponse N w req) = ord_ok w"
| "orderly (PollResult w sid) = ord_ok w"
| "orderly _ = True"

lemma authz_section_frame: "\<not> verification_op op \<Longrightarrow> shrinks s (exec_op now op s)"
  by (cases op) (auto simp: shrinks_def store_defs Let_def split: option.splits)

lemma authz_section_safe: "bsafe L J C h K c b (bridge_body L J C h (AuthzSection now op))"
  by (auto intro!: bsafe_find simp: authz_section_frame)

lemma bridge_body_safe:
  assumes "thumbprints_ok L" "orderly c" "c \<in> K"
  shows "bsafe L J C h K c b (bridge_body L J C h c)"
proof (cases c)
  case (WalletResponse N w req)
  then show ?thesis using HandleResponse_safe [OF assms(1)] assms(2,3) by simp
next
  case (PollResult w sid)
  then show ?thesis using GetResult_safe assms(2) by simp
next
  case (LoadPage w i)
  then show ?thesis using login_safe assms(3) by simp
next
  case (NewVerification w creds)
  then show ?thesis by (auto intro!: CreateSession_safe)
next
  case (AuthzSection now op)
  then show ?thesis using authz_section_safe by blast
qed (simp_all add: poll_safe library_safe GetRequestObject_safe)

interpretation bridged: interleaved "bridge_body L J C h" no_repeat traced_start "{c. thumbprints_ok L \<and> orderly c} \<inter> K"
  "shared_log L J C h K" "\<lambda>_ _ _. True" for L J C h K
proof
  show "shared_log L J C h K {} traced_start"
    by (simp add: shared_log_def shared_inv_def created_ok_def traced_start_def newStore_def NewStore_def)
next
  fix c H b
  assume c: "c \<in> {c. thumbprints_ok L \<and> orderly c} \<inter> K" and inv: "shared_log L J C h K H b"
  then have "bsafe L J C h K c b (bridge_body L J C h c)" by (simp add: bridge_body_safe)
  then show "shared_log L J C h K (H \<union> reply_of c (bridge_body L J C h c)) b"
    "safe (shared_log L J C h K) (\<lambda>_ _ _. True) no_repeat c H b (bridge_body L J C h c)"
    using inv by (auto simp: bsafe_def shared_log_def)
qed (simp_all add: no_repeat_refl no_repeat_trans)

lemma bridge_reply_good:
  assumes "conc (bridge_body L J C h) no_repeat traced_start ts b" "thumbprints_ok L" "\<forall>(c, p) \<in> set ts. orderly c"
    and "(c, Done r) \<in> set ts"
  shows "reply_good L J C h (fst ` set ts) b c r"
proof -
  have "shared_log L J C h (fst ` set ts) (answered ts) b" using assms(2,3) by (intro bridged.conc_inv [OF assms(1)]) auto
  then show ?thesis using assms(4) by (auto simp: shared_log_def answered_def)
qed

text \<open>
  C5: whatever requests are served at the same time, those of the authorization server included, and however
  their critical sections interleave, an
  authorization request handed to the OpenID library, for its identifier or for a code, is one that was
  made, unchanged but for its completion, and bound to an S256 challenge; and if it is completed, two of the requests served
  account for its subject: a load of this login's own page opened a session for the credential its scopes select, and a
  wallet's response carried, for the state of that session, a presentation that verified for the session's client identifier and
  nonce, the subject being the hash of the thumbprint of its holder key.
\<close>

theorem concurrent_login_backed:
  assumes "conc (bridge_body L J C h) no_repeat traced_start ts b" and "thumbprints_ok L" and "\<forall>(c, p) \<in> set ts. orderly c"
    and "(c, Done (RequestReply (Inr ar))) \<in> set ts"
  shows "(\<exists>a0. tb_requests b (arq_id ar) = Some a0 \<and> as_requested ar = as_requested a0) \<and>
    cc_Method (arq_codeChallenge ar) = CodeChallengeMethodS256 \<and> cc_Challenge (arq_codeChallenge ar) \<noteq> [] \<and>
    (arq_Done ar \<longrightarrow> backed L J C h (responses_in (fst ` set ts)) (loads_in (fst ` set ts)) (arq_id ar) (arq_scopes ar) (arq_subject ar))"
  using bridge_reply_good [OF assms] by (simp add: reply_good_def request_good_def)

text \<open>
  C7: and a verification that a frontend is told succeeded was earned: a session of that identifier was
  created, and one of the requests served was a wallet's response that carried, for the state of that session, presentations that
  verify for what it asked; each claim reported was disclosed by one of them, and every claim they disclosed is reported.
\<close>

theorem concurrent_verification_justified:
  assumes "conc (bridge_body L J C h) no_repeat traced_start ts b" and "thumbprints_ok L" and "\<forall>(c, p) \<in> set ts. orderly c"
    and "(PollResult w sid, Done (ResultReply (Inr (successResult claims)))) \<in> set ts"
  shows "\<exists>v toks per sub. tb_sessions b sid = Some v \<and> earned L J C (responses_in (fst ` set ts)) v toks per sub \<and> reported claims per"
  using bridge_reply_good [OF assms] by (simp add: reply_good_def result_good_def)

subsection \<open>The example login, as threads\<close>

lemma steady_sections:
  "(\<And>a. steady no_repeat (k a)) \<Longrightarrow> steady no_repeat (on_oidc m k)"
  "(\<And>a. steady no_repeat (k a)) \<Longrightarrow> steady no_repeat (on_store m' k)"
  unfolding on_oidc_def on_store_def
  by (rule steady_Atomic; simp add: no_repeat_def split: prod.split)+

lemma runs_sections:
  "runs no_repeat (on_oidc m k) b r b' \<longleftrightarrow> (case m (bs_oidc b) of (a, o1) \<Rightarrow> runs no_repeat (k a) (b\<lparr>bs_oidc := o1\<rparr>) r b')"
  "tb_sessions b (vs_SessionID v) = None \<Longrightarrow> runs no_repeat (store_session now v p) b r b' \<longleftrightarrow>
     runs no_repeat p (b\<lparr>bs_sessions := StoreVerification now v (bs_sessions b), tb_sessions := (tb_sessions b)(vs_SessionID v \<mapsto> v)\<rparr>) r b'"
  "tb_requests b (arq_id ar) = None \<Longrightarrow> runs no_repeat (store_request now ar p) b r b' \<longleftrightarrow>
     runs no_repeat p (b\<lparr>bs_oidc := putAuthRequest now ar (bs_oidc b), tb_requests := (tb_requests b)(arq_id ar \<mapsto> ar)\<rparr>) r b'"
  unfolding on_oidc_def store_session_def store_request_def
  by (auto simp: runs_Atomic_iff no_repeat_def map_le_def split: prod.splits)

text \<open>An operation that creates nothing, served after others.\<close>

lemma conc_steady:
  assumes "conc (bridge_body L J C h) no_repeat traced_start ts b" "steady no_repeat (bridge_body L J C h c)"
    and "serve_bridge L J C h c (bridge_state.truncate b) = (r, x)"
  shows "\<exists>b'. conc (bridge_body L J C h) no_repeat traced_start (ts @ [(c, Done r)]) b' \<and> bridge_state.truncate b' = x"
proof -
  obtain r' b' where run: "run_alone (bridge_body L J C h c) b = (r', b')" by fastforce
  then have "r' = r" "bridge_state.truncate b' = x" using bridge_alone [of L J C h c b] assms(3) by simp_all
  then show ?thesis using conc_next [OF assms(1) steady_runs [OF assms(2) run]] by blast
qed

abbreviation ex_body :: "bridge_call \<Rightarrow> (traced_bridge, bridge_reply) prog" where
  "ex_body \<equiv> bridge_body ex_vf_lib ex_key_lib ex_cbor ex_login"

abbreviation ex_conc :: "(bridge_call, traced_bridge, bridge_reply) threads \<Rightarrow> traced_bridge \<Rightarrow> bool" where
  "ex_conc \<equiv> conc ex_body no_repeat traced_start"

lemma ex_conc_page: "\<exists>b. ex_conc [(LibraryCall (CallAuthorize ex_draws ex_auth_params), Done (RequestReply (Inr ex_auth_request))),
    (LoadPage ex_draws ex_id, Done (PageReply (Some (LoginPage ex_id ex_id))))] b \<and>
   bridge_state.truncate b = \<lparr>bs_oidc = ex_linked ex_id, bs_sessions = ex_waiting (login_credential ex_scope)\<rparr>"
proof -
  let ?q = "login_credential ex_scope" and ?b1 = "traced_start\<lparr>bs_oidc := ex_linked [], tb_requests := [ex_id \<mapsto> ex_auth_request]\<rparr>"
  have put: "putAuthRequest 0 ex_auth_request newStore = ex_linked []"
    by (simp add: putAuthRequest_def ex_linked_def ex_entry_def ex_pending newStore_def)
  have 1: "runs no_repeat (ex_body (LibraryCall (CallAuthorize ex_draws ex_auth_params))) traced_start (RequestReply (Inr ex_auth_request)) ?b1"
    by (simp add: CreateAuthRequest_prog_def ex_authorized runs_sections traced_start_def put ex_pending(7))
  from ex_create [of ?q] obtain result v where p: "prepareSession ex_vf_lib ex_key_lib ex_verifier ex_draws [?q] = Some (Inr (result, v))"
    "csr_SessionID result = ex_id" "StoreVerification 0 v NewStore = ex_waiting ?q"
    unfolding prepare_eq by (auto split: option.splits sum.splits)
  have v: "vs_SessionID v = ex_id" using prepareSession_session(1) [OF p(1)] p(2) by simp
  have 2: "runs no_repeat (ex_body (LoadPage ex_draws ex_id)) ?b1 (PageReply (Some (LoginPage ex_id ex_id)))
      (?b1\<lparr>bs_oidc := ex_linked ex_id, bs_sessions := ex_waiting ?q, tb_sessions := [ex_id \<mapsto> v]\<rparr>)"
    using ex_id_nonempty ex_pending p v
    by (auto simp: login_prog_def start_login_prog_def CreateSession_prog_def runs_sections ex_login_def traced_start_def)
  from conc_next [where body = ex_body, OF conc_next [where body = ex_body, OF conc_init 1] 2] show ?thesis by (auto simp: bridge_state.truncate_def traced_start_def)
qed

lemma steady_bodies:
  "steady no_repeat (ex_body (WalletResponse N w req))" "steady no_repeat (ex_body (PollPage w i))"
  "steady no_repeat (ex_body (PollResult w i))" "steady no_repeat (ex_body (LibraryCall (CallSave now i code)))"
  "steady no_repeat (ex_body (LibraryCall (CallByCode w code)))"
  by (auto simp: HandleResponse_prog_def poll_prog_def conclude_prog_def GetResult_prog_def AuthRequestByCode_prog_def
      intro!: steady_sections split: sum.split option.split prod.split)

definition ex_bridge_threads :: "(bridge_call, traced_bridge, bridge_reply) threads" where
  "ex_bridge_threads =
     [(LibraryCall (CallAuthorize ex_draws ex_auth_params), Done (RequestReply (Inr ex_auth_request))),
      (LoadPage ex_draws ex_id, Done (PageReply (Some (LoginPage ex_id ex_id)))),
      (WalletResponse ex_offline ex_draws ex_response, Done (ResponseReply (fst (HandleResponse ex_vf_lib ex_key_lib ex_cbor ex_offline
         ex_draws ex_response (ex_waiting (login_credential ex_scope))))))]"

lemma ex_threads_orderly: "\<forall>(c, p) \<in> set ex_bridge_threads. orderly c"
  by (simp add: ex_bridge_threads_def ord_ok_def ex_draws_def)

lemma ex_conc_answered: "\<exists>b. ex_conc ex_bridge_threads b \<and> bridge_state.truncate b = \<lparr>bs_oidc = ex_linked ex_id, bs_sessions = ex_answered\<rparr>"
proof -
  from ex_conc_page obtain b where b: "ex_conc [(LibraryCall (CallAuthorize ex_draws ex_auth_params), Done (RequestReply (Inr ex_auth_request))),
      (LoadPage ex_draws ex_id, Done (PageReply (Some (LoginPage ex_id ex_id))))] b"
    "bridge_state.truncate b = \<lparr>bs_oidc = ex_linked ex_id, bs_sessions = ex_waiting (login_credential ex_scope)\<rparr>" by blast
  from conc_steady [OF b(1) steady_bodies(1) [of ex_offline ex_draws ex_response]] b(2) show ?thesis
    by (simp add: ex_bridge_threads_def ex_answered_def apfst_def apsnd_def case_prod_unfold map_prod_def)
qed

theorem concurrent_verification_justified_witness:
  "\<exists>ts b claims v toks per sub. ex_conc ts b \<and> (PollResult ex_draws ex_id, Done (ResultReply (Inr (successResult claims)))) \<in> set ts \<and>
     tb_sessions b ex_id = Some v \<and> earned ex_vf_lib ex_key_lib ex_cbor (responses_in (fst ` set ts)) v toks per sub \<and> reported claims per"
proof -
  from ex_answered_session obtain u where u: "FindVerification 0 ex_id ex_answered = (Some u, ex_answered)" "vs_Status u = ''verified''" by blast
  let ?claims = "mergeClaims ex_draws (vs_VerifiedClaims u)"
  have g: "GetResult ex_draws ex_id ex_answered = (Inr (successResult ?claims), ex_answered)" using u by (simp add: GetResult_def)
  from ex_conc_answered obtain b where b: "ex_conc ex_bridge_threads b"
    "bridge_state.truncate b = \<lparr>bs_oidc = ex_linked ex_id, bs_sessions = ex_answered\<rparr>" by blast
  let ?ts = "ex_bridge_threads @ [(PollResult ex_draws ex_id, Done (ResultReply (Inr (successResult ?claims))))]"
  have "serve_bridge ex_vf_lib ex_key_lib ex_cbor ex_login (PollResult ex_draws ex_id) (bridge_state.truncate b) =
      (ResultReply (Inr (successResult ?claims)), bridge_state.truncate b)" using g b(2) by simp
  from conc_steady [OF b(1) steady_bodies(3) this] obtain b' where b': "ex_conc ?ts b'" by blast
  have orderly: "\<forall>(c, p) \<in> set ?ts. orderly c" using ex_threads_orderly by (auto simp: ord_ok_def ex_draws_def)
  have poll: "(PollResult ex_draws ex_id, Done (ResultReply (Inr (successResult ?claims)))) \<in> set ?ts" by simp
  from concurrent_verification_justified [OF b' ex_thumbprints orderly poll] b' poll show ?thesis by blast
qed

theorem concurrent_login_backed_witness:
  "\<exists>ts b ar. ex_conc ts b \<and> (LibraryCall (CallByCode ex_draws ''code''), Done (RequestReply (Inr ar))) \<in> set ts \<and> arq_Done ar \<and>
     backed ex_vf_lib ex_key_lib ex_cbor ex_login (responses_in (fst ` set ts)) (loads_in (fst ` set ts)) ex_id
       [''openid'', ''padro''] (arq_subject ar)"
proof -
  let ?serve = "serve_bridge ex_vf_lib ex_key_lib ex_cbor ex_login" and ?ar = "ex_auth_request\<lparr>arq_subject := ex_subject, arq_doneAt := 0\<rparr>"
  from ex_conc_answered obtain b where b: "ex_conc ex_bridge_threads b"
    "bridge_state.truncate b = \<lparr>bs_oidc = ex_linked ex_id, bs_sessions = ex_answered\<rparr>" by blast
  obtain r where "?serve (PollPage ex_draws ex_id) (bridge_state.truncate b) = (r, \<lparr>bs_oidc = ex_completed, bs_sessions = ex_answered\<rparr>)"
    using ex_polled b(2) by (simp add: apfst_def map_prod_def case_prod_unfold)
  from conc_steady [OF b(1) steady_bodies(2) this] obtain b1 where b1: "ex_conc (ex_bridge_threads @ [(PollPage ex_draws ex_id, Done r)]) b1"
    "bridge_state.truncate b1 = \<lparr>bs_oidc = ex_completed, bs_sessions = ex_answered\<rparr>" by blast
  let ?ts = "(ex_bridge_threads @ [(PollPage ex_draws ex_id, Done r)]) @ [(LibraryCall (CallSave 0 ex_id ''code''), Done DoneReply)]"
  from conc_steady [OF b1(1) steady_bodies(4) [of 0 ex_id "''code''"]] b1(2) obtain b2 where b2: "ex_conc ?ts b2"
    "bridge_state.truncate b2 = \<lparr>bs_oidc = SaveAuthCode 0 ex_id ''code'' ex_completed, bs_sessions = ex_answered\<rparr>" by auto
  have "\<exists>o'. AuthRequestByCode ex_draws ''code'' (SaveAuthCode 0 ex_id ''code'' ex_completed) = (Inr ?ar, o')"
    by (simp add: AuthRequestByCode_def SaveAuthCode_def ex_completed_def ex_linked_def ex_entry_def oidc_defs const_defs)
  then obtain x where "?serve (LibraryCall (CallByCode ex_draws ''code'')) (bridge_state.truncate b2) = (RequestReply (Inr ?ar), x)"
    using b2(2) by auto
  from conc_steady [OF b2(1) steady_bodies(5) this] obtain b3 where
    b3: "ex_conc (?ts @ [(LibraryCall (CallByCode ex_draws ''code''), Done (RequestReply (Inr ?ar)))]) b3" (is "ex_conc ?us b3") by blast
  have orderly: "\<forall>(c, p) \<in> set ?us. orderly c" using ex_threads_orderly by (auto simp: ord_ok_def ex_draws_def)
  have reply: "(LibraryCall (CallByCode ex_draws ''code''), Done (RequestReply (Inr ?ar))) \<in> set ?us" by simp
  have ar: "arq_Done ?ar" "arq_id ?ar = ex_id" "arq_scopes ?ar = [''openid'', ''padro'']"
    using hex_nonempty by (simp_all add: arq_Done_def ex_subject_def ex_auth_request_def)
  from concurrent_login_backed [OF b3 ex_thumbprints orderly reply] ar b3 reply show ?thesis by metis
qed

end
