(* ===== verification/Oidc_Tokens.thy ===== *)
theory Oidc_Tokens
  imports Oidc_Login
begin

text \<open>
  What the OpenID library sees of a login through its interfaces (\<^verbatim>\<open>authrequest.go\<close>, \<^verbatim>\<open>refreshtoken.go\<close>,
  \<^verbatim>\<open>client.go\<close>), and the life of refresh tokens. Shown: login requests, refresh tokens, pushed requests and
  replayed redirects are stores whose entries can be read until they expire and never after; and a
  chain of refreshes of any length stays with the subject and the client of the login it began with.
\<close>

subsection \<open>Entries that are read until they expire\<close>

interpretation par_peek: expiring_store par_look StoreParRequest PeekParRequest parRequestTTL "\<lambda>_ _. True"
  by unfold_locales (auto simp: store_defs Let_def fun_eq_iff split: option.splits)

interpretation replay: expiring_store
  "\<lambda>s k. map_option (\<lambda>e. (ir_Expiry e - identifyReplayTTL, ir_Redirect e)) (identifyReplay s k)"
  StoreIdentifyReplay "\<lambda>now k s. (GetIdentifyReplay now k s, s)" identifyReplayTTL "\<lambda>_ _. True"
  by unfold_locales (auto simp: store_defs fun_eq_iff split: option.splits)

abbreviation login_look :: "oidc_store \<Rightarrow> string \<Rightarrow> (time \<times> auth_request) option" where
  "login_look s i \<equiv> map_option (\<lambda>e. (are_expiresAt e - authRequestTTL, are_req e)) (os_authRequests s i)"

interpretation login_requests: expiring_store login_look "\<lambda>t i. putAuthRequest t" getAuthRequest authRequestTTL
  "\<lambda>i ar. arq_id ar = i"
  by unfold_locales (auto simp: oidc_defs fun_eq_iff split: option.splits)

type_synonym grant = "string \<times> string \<times> string list"

abbreviation grant_of :: "refresh_token_entry \<Rightarrow> grant" where
  "grant_of e \<equiv> (rte_subject e, rte_clientID e, rte_scopes e)"

interpretation refresh: expiring_store
  "\<lambda>s tok. map_option (\<lambda>e. (rte_expiresAt e - refreshTokenTTL, grant_of e)) (os_refreshTokens s tok)"
  "\<lambda>t tok (sub, cid, scopes). putRefreshToken t tok sub cid scopes"
  "\<lambda>now tok s. apfst (map_option grant_of) (getRefreshToken now tok s)" refreshTokenTTL "\<lambda>_ _. True"
  by unfold_locales (auto simp: oidc_defs fun_eq_iff split: option.splits prod.splits)

text \<open>
  A login request made at \<open>t\<close> is found by every lookup up to five minutes later, and by none
  after, however often and whenever it is looked up.
\<close>

lemma login_request_lives_five_minutes:
  assumes "sorted ts"
  shows "expiring_store.read_all getAuthRequest ts (arq_id ar) (putAuthRequest t ar s) =
    map (\<lambda>now. if now - t > 5 * minute then None else Some ar) ts"
  using login_requests.read_all_put [OF _ assms, where k = "arq_id ar" and v = ar] by (simp add: authRequestTTL_def)

lemma login_request_lives_five_minutes_witness:
  "expiring_store.read_all getAuthRequest [0, 5 * minute, 6 * minute] ex_id (putAuthRequest 0 ex_auth_request newStore) =
     [Some ex_auth_request, Some ex_auth_request, None]"
  using login_request_lives_five_minutes [of "[0, 5 * minute, 6 * minute]" ex_auth_request 0 newStore]
  by (simp add: ex_pending(7) const_defs)

subsection \<open>What the library sees of a login\<close>

definition arq_GetID :: "auth_request \<Rightarrow> string" where "arq_GetID a = arq_id a"
definition arq_GetACR :: "auth_request \<Rightarrow> string" where "arq_GetACR a = []"
definition arq_GetAMR :: "auth_request \<Rightarrow> string list" where "arq_GetAMR a = []"
definition arq_GetAuthTime :: "auth_request \<Rightarrow> time" where "arq_GetAuthTime a = arq_doneAt a"
definition arq_GetClientID :: "auth_request \<Rightarrow> string" where "arq_GetClientID a = arq_clientID a"
definition arq_GetCodeChallenge :: "auth_request \<Rightarrow> code_challenge" where "arq_GetCodeChallenge a = arq_codeChallenge a"
definition arq_GetNonce :: "auth_request \<Rightarrow> string" where "arq_GetNonce a = arq_nonce a"
definition arq_GetRedirectURI :: "auth_request \<Rightarrow> string" where "arq_GetRedirectURI a = arq_redirectURI a"
definition arq_GetResponseType :: "auth_request \<Rightarrow> string" where "arq_GetResponseType a = arq_responseType a"
definition arq_GetResponseMode :: "auth_request \<Rightarrow> string" where "arq_GetResponseMode a = []"
definition arq_GetScopes :: "auth_request \<Rightarrow> string list" where "arq_GetScopes a = arq_scopes a"
definition arq_GetState :: "auth_request \<Rightarrow> string" where "arq_GetState a = arq_state a"
definition arq_GetSubject :: "auth_request \<Rightarrow> string" where "arq_GetSubject a = arq_subject a"

definition rtr_GetAMR :: "op_token_request \<Rightarrow> string list" where "rtr_GetAMR r = []"
definition rtr_GetAudience :: "op_token_request \<Rightarrow> string list" where "rtr_GetAudience r = [otr_ClientID r]"
definition rtr_GetAuthTime :: "op_token_request \<Rightarrow> time" where "rtr_GetAuthTime r = zero_time"
definition rtr_GetClientID :: "op_token_request \<Rightarrow> string" where "rtr_GetClientID r = otr_ClientID r"
definition rtr_GetScopes :: "op_token_request \<Rightarrow> string list" where "rtr_GetScopes r = otr_Scopes r"
definition rtr_GetSubject :: "op_token_request \<Rightarrow> string" where "rtr_GetSubject r = otr_Subject r"

text \<open>The rest of \<^verbatim>\<open>client.go\<close>; the enumerations are those of the library.\<close>

datatype application_type = ApplicationTypeWeb | ApplicationTypeUserAgent | ApplicationTypeNative
datatype access_token_type = AccessTokenTypeBearer | AccessTokenTypeJWT

definition client_PostLogoutRedirectURIs :: "op_client \<Rightarrow> string list" where "client_PostLogoutRedirectURIs c = []"
definition client_ApplicationType :: "op_client \<Rightarrow> application_type" where "client_ApplicationType c = ApplicationTypeWeb"
definition client_AuthMethod :: "op_client \<Rightarrow> string" where "client_AuthMethod c = ''none''"
definition client_AccessTokenType :: "op_client \<Rightarrow> access_token_type" where "client_AccessTokenType c = AccessTokenTypeBearer"
definition client_DevMode :: "op_client \<Rightarrow> bool" where "client_DevMode c = False"
definition RestrictAdditionalIdTokenScopes :: "op_client \<Rightarrow> string list \<Rightarrow> string list" where
  "RestrictAdditionalIdTokenScopes c = (\<lambda>scopes. scopes)"
definition RestrictAdditionalAccessTokenScopes :: "op_client \<Rightarrow> string list \<Rightarrow> string list" where
  "RestrictAdditionalAccessTokenScopes c = (\<lambda>scopes. scopes)"
definition IDTokenUserinfoClaimsAssertion :: "op_client \<Rightarrow> bool" where "IDTokenUserinfoClaimsAssertion c = False"
definition client_ClockSkew :: "op_client \<Rightarrow> duration" where "client_ClockSkew c = 0"

text \<open>
  The library's interface of a token request, with the two types of this package that implement it, and
  any other, which has no client id.
\<close>

datatype go_token_request =
    OfAuthRequest auth_request
  | OfRefreshToken op_token_request
  | OfOther string "string list"

fun tr_GetSubject :: "go_token_request \<Rightarrow> string" where
  "tr_GetSubject (OfAuthRequest a) = arq_GetSubject a"
| "tr_GetSubject (OfRefreshToken r) = rtr_GetSubject r"
| "tr_GetSubject (OfOther subject scopes) = subject"

fun tr_GetScopes :: "go_token_request \<Rightarrow> string list" where
  "tr_GetScopes (OfAuthRequest a) = arq_GetScopes a"
| "tr_GetScopes (OfRefreshToken r) = rtr_GetScopes r"
| "tr_GetScopes (OfOther subject scopes) = scopes"

fun clientIDFromTokenRequest :: "go_token_request \<Rightarrow> string" where
  "clientIDFromTokenRequest (OfAuthRequest a) = arq_GetClientID a"
| "clientIDFromTokenRequest (OfRefreshToken r) = rtr_GetClientID r"
| "clientIDFromTokenRequest (OfOther subject scopes) = []"

definition token_request_view :: "go_token_request \<Rightarrow> op_token_request" where
  "token_request_view r = \<lparr>otr_Subject = tr_GetSubject r, otr_ClientID = clientIDFromTokenRequest r, otr_Scopes = tr_GetScopes r\<rparr>"

lemmas view_defs = token_request_view_def arq_GetSubject_def arq_GetScopes_def arq_GetClientID_def
  rtr_GetSubject_def rtr_GetScopes_def rtr_GetClientID_def

subsection \<open>Chains of refreshes\<close>

text \<open>
  A refresh: the library looks the token up, may replace the scopes by those asked for now (its
  decision is \<open>narrow\<close>), and has new tokens made. The chain goes on with the new refresh token, and ends when
  one is refused.
\<close>

fun refresh_chain ::
  "(string list \<Rightarrow> string list \<Rightarrow> string list) \<Rightarrow> (time \<times> world \<times> string list) list \<Rightarrow> string \<Rightarrow> oidc_store \<Rightarrow>
   (oidc_error + op_token_request) list" where
  "refresh_chain narrow [] tok s = []"
| "refresh_chain narrow ((t, w, asked) # rs) tok s = (case TokenRequestByRefreshToken t tok s of
     (Inl e, s1) \<Rightarrow> [Inl e]
   | (Inr r, s1) \<Rightarrow> (let r1 = SetCurrentScopes (narrow asked (rtr_GetScopes r)) r;
         ((aid, new, expiry), s2) = CreateAccessAndRefreshTokens w (token_request_view (OfRefreshToken r1)) tok s1 in
       Inr r1 # refresh_chain narrow rs new s2))"

text \<open>Every refresh within half an hour of the one before.\<close>

fun in_time :: "time \<Rightarrow> (time \<times> world \<times> string list) list \<Rightarrow> bool" where
  "in_time t0 [] = True"
| "in_time t0 ((t, w, asked) # rs) = (t - t0 \<le> 30 * minute \<and> in_time (clk w 1) rs)"

definition stays_with :: "op_token_request \<Rightarrow> oidc_error + op_token_request \<Rightarrow> bool" where
  "stays_with r0 r \<longleftrightarrow> (case r of
     Inl e \<Rightarrow> e = ErrInvalidRefreshToken
   | Inr r1 \<Rightarrow> otr_Subject r1 = otr_Subject r0 \<and> otr_ClientID r1 = otr_ClientID r0 \<and> set (otr_Scopes r1) \<subseteq> set (otr_Scopes r0))"

lemma view_refresh [simp]: "token_request_view (OfRefreshToken r) = r"
  by (cases r) (simp add: view_defs)

lemma issued_refresh_token:
  assumes "CreateAccessAndRefreshTokens w r cur s = ((aid, tok, expiry), s')"
  shows "fst (TokenRequestByRefreshToken t tok s') = (if t - clk w 1 > 30 * minute then Inl ErrInvalidRefreshToken else Inr r)"
  using assms by (auto simp: CreateAccessAndRefreshTokens_def TokenRequestByRefreshToken_def oidc_defs refreshTokenTTL_def Let_def)

lemma refresh_chain_step:
  assumes "CreateAccessAndRefreshTokens w0 r cur s0 = ((aid, tok, expiry), s)"
  shows "refresh_chain narrow ((t, w, asked) # rs) tok s =
    (if t - clk w0 1 > 30 * minute then [Inl ErrInvalidRefreshToken]
     else let r1 = SetCurrentScopes (narrow asked (otr_Scopes r)) r;
              ((aid, new, expiry), s2) = CreateAccessAndRefreshTokens w r1 tok (snd (TokenRequestByRefreshToken t tok s)) in
          Inr r1 # refresh_chain narrow rs new s2)"
  using issued_refresh_token [OF assms, of t]
  by (cases "TokenRequestByRefreshToken t tok s") (simp add: rtr_GetScopes_def Let_def)

lemma refresh_chain_stays:
  assumes narrow: "\<And>asked cur. set (narrow asked cur) \<subseteq> set cur"
    and "CreateAccessAndRefreshTokens w0 r cur s0 = ((aid, tok, expiry), s)"
    and "otr_Subject r = otr_Subject orig" "otr_ClientID r = otr_ClientID orig" "set (otr_Scopes r) \<subseteq> set (otr_Scopes orig)"
  shows "list_all (stays_with orig) (refresh_chain narrow rs tok s) \<and> (in_time (clk w0 1) rs \<longrightarrow>
    list_all (\<lambda>r. \<not> isl r) (refresh_chain narrow rs tok s) \<and> length (refresh_chain narrow rs tok s) = length rs)"
  using assms(2-)
proof (induction rs arbitrary: w0 r cur s0 aid tok expiry s)
  case (Cons x rs)
  obtain t w asked where x: "x = (t, w, asked)" by (cases x)
  let ?r1 = "SetCurrentScopes (narrow asked (otr_Scopes r)) r"
  obtain aid' new expiry' s2 where make: "CreateAccessAndRefreshTokens w ?r1 tok (snd (TokenRequestByRefreshToken t tok s)) = ((aid', new, expiry'), s2)"
    by (metis prod.collapse)
  have chain: "refresh_chain narrow (x # rs) tok s = (if t - clk w0 1 > 30 * minute then [Inl ErrInvalidRefreshToken]
      else Inr ?r1 # refresh_chain narrow rs new s2)"
    unfolding x refresh_chain_step [OF Cons.prems(1)] using make by (simp add: Let_def)
  have r1: "otr_Subject ?r1 = otr_Subject orig" "otr_ClientID ?r1 = otr_ClientID orig" "set (otr_Scopes ?r1) \<subseteq> set (otr_Scopes orig)"
    using Cons.prems(2-) narrow [of asked "otr_Scopes r"] by (auto simp: SetCurrentScopes_def)
  show ?case unfolding chain using Cons.IH [OF make r1] r1 by (auto simp: x stays_with_def)
qed simp

text \<open>
  C32: whatever refreshes follow a login, and whatever scopes they ask for, each is refused as an invalid token or
  granted for the subject and the client of that login with at most its scopes, provided the library
  never widens the scopes; and if each comes within half an hour of the one before, all are granted.
\<close>

theorem refresh_chain_keeps_identity:
  assumes "\<And>asked cur. set (narrow asked cur) \<subseteq> set cur"
    and "CreateAccessAndRefreshTokens w (token_request_view (OfAuthRequest ar)) [] s = ((aid, tok, expiry), s')"
  shows "list_all (\<lambda>r. case r of Inl e \<Rightarrow> e = ErrInvalidRefreshToken
      | Inr r1 \<Rightarrow> otr_Subject r1 = arq_subject ar \<and> otr_ClientID r1 = arq_clientID ar \<and> set (otr_Scopes r1) \<subseteq> set (arq_scopes ar))
      (refresh_chain narrow rs tok s') \<and>
    (in_time (clk w 1) rs \<longrightarrow> list_all (\<lambda>r. \<not> isl r) (refresh_chain narrow rs tok s') \<and> length (refresh_chain narrow rs tok s') = length rs)"
  using refresh_chain_stays [OF assms, where orig = "token_request_view (OfAuthRequest ar)" and rs = rs]
  by (simp add: stays_with_def [abs_def] view_defs)

lemma two_granted:
  assumes "list_all (\<lambda>r. \<not> isl r) c" "length c = 2" "list_all (\<lambda>r. case r of Inl e \<Rightarrow> P e | Inr r1 \<Rightarrow> Q r1) c"
  shows "\<exists>r1 r2. c = [Inr r1, Inr r2] \<and> Q r2"
proof -
  from assms(2) obtain x y where "c = [x, y]" by (auto simp: length_Suc_conv numeral_2_eq_2)
  then show ?thesis using assms(1,3) by (cases x; cases y) auto
qed

theorem refresh_chain_keeps_identity_witness:
  "\<exists>r1 r2. refresh_chain (\<lambda>asked cur. if asked = [] then cur else filter (\<lambda>s. s \<in> set asked) cur)
       [(minute, ex_draws, [''openid'']), (2 * minute, ex_draws, [])] (RandomToken 32 (rnd ex_draws 1))
       (snd (CreateAccessAndRefreshTokens ex_draws (token_request_view (OfAuthRequest ex_auth_request)) [] newStore)) = [Inr r1, Inr r2] \<and>
     otr_ClientID r2 = ''rp''"
proof -
  let ?n = "\<lambda>asked cur. if asked = [] then cur else filter (\<lambda>s. s \<in> set asked) cur"
    and ?rs = "[(minute, ex_draws, [''openid'']), (2 * minute, ex_draws, [])]"
  obtain s' where s': "CreateAccessAndRefreshTokens ex_draws (token_request_view (OfAuthRequest ex_auth_request)) [] newStore =
      ((RandomToken 16 (rnd ex_draws 0), RandomToken 32 (rnd ex_draws 1), 5 * minute), s')"
    by (simp add: CreateAccessAndRefreshTokens_def Let_def)
  let ?c = "refresh_chain ?n ?rs (RandomToken 32 (rnd ex_draws 1)) s'"
  have "in_time (clk ex_draws 1) ?rs" by (simp add: const_defs)
  moreover have "set (?n asked cur) \<subseteq> set cur" for asked cur by auto
  note P = refresh_chain_keeps_identity [where narrow = ?n and rs = ?rs, OF this s']
  ultimately have "list_all (\<lambda>r. \<not> isl r) ?c" "length ?c = 2" using P by simp_all
  moreover have "list_all (\<lambda>r. case r of Inl e \<Rightarrow> e = ErrInvalidRefreshToken | Inr r1 \<Rightarrow> otr_ClientID r1 = ''rp'') ?c"
    using P [THEN conjunct1] by (rule list.pred_mono_strong) (simp add: ex_auth_request_def split: sum.splits)
  ultimately have "\<exists>r1 r2. ?c = [Inr r1, Inr r2] \<and> otr_ClientID r2 = ''rp''" for c
    using two_granted by blast
  then show ?thesis using s' by simp
qed

end
