(* ===== verification/Login_Page.thy ===== *)
theory Login_Page
  imports Oidc_Login
begin

text \<open>
  The HTML of the login page (\<^verbatim>\<open>renderLoginPage\<close> and its template in \<^verbatim>\<open>internal/oidcserver/login.go\<close>) with
  the contextual escaping of Go's \<^verbatim>\<open>html/template\<close> at its two holes: an attribute that holds a URL, and a
  string of a script. Shown: whatever the identifiers are, the script reads the login request's
  identifier back unchanged, and for the identifiers the service draws the server is asked about exactly this request;
  and what the script does with the answers of the poll.
\<close>

subsection \<open>Escaping in a script's string\<close>

definition lower_hex :: "nat \<Rightarrow> char" where
  "lower_hex n = char_of (if n < 10 then n + 48 else n + 87)"

definition js_unicode :: "nat \<Rightarrow> string" where
  "js_unicode n = [CHR 0x5C, CHR ''u'', CHR ''0'', CHR ''0'', lower_hex (n div 16), lower_hex (n mod 16)]"

text \<open>The replacement of one byte: the escapes of control characters, and of what is special in HTML.\<close>

definition js_escape_byte :: "char \<Rightarrow> string" where
  "js_escape_byte c = (let n = byte_val c in
     if n = 9 then [CHR 0x5C, CHR ''t''] else if n = 10 then [CHR 0x5C, CHR ''n'']
     else if n = 12 then [CHR 0x5C, CHR ''f''] else if n = 13 then [CHR 0x5C, CHR ''r'']
     else if n < 32 \<or> n \<in> {0x22, 0x60, 0x26, 0x27, 0x2B, 0x3C, 0x3E} then js_unicode n
     else if n = 0x2F then [CHR 0x5C, CHR ''/''] else if n = 0x5C then [CHR 0x5C, CHR 0x5C]
     else [c])"

text \<open>The line separators U+2028 and U+2029 are escaped too; all other runes stand as they are.\<close>

function jsStrEscaper :: "string \<Rightarrow> string" where
  "jsStrEscaper [] = []"
| "jsStrEscaper (c # s) =
     (if c = CHR 0xE2 \<and> take 2 s = [CHR 0x80, CHR 0xA8] then [CHR 0x5C] @ ''u2028'' @ jsStrEscaper (drop 2 s)
      else if c = CHR 0xE2 \<and> take 2 s = [CHR 0x80, CHR 0xA9] then [CHR 0x5C] @ ''u2029'' @ jsStrEscaper (drop 2 s)
      else js_escape_byte c @ jsStrEscaper s)"
  by pat_completeness auto
termination by (relation "measure length") auto

text \<open>
  How a browser reads a string literal in double quotes, after the opening one: the string and the rest
  of the script after the closing quote. Line ends do not occur in such a literal.
\<close>

definition utf8 :: "nat \<Rightarrow> string" where
  "utf8 n = map char_of (if n < 0x80 then [n]
     else if n < 0x800 then [0xC0 + n div 64, 0x80 + n mod 64]
     else [0xE0 + n div 4096, 0x80 + n div 64 mod 64, 0x80 + n mod 64])"

fun unhex4 :: "string \<Rightarrow> nat option" where
  "unhex4 [a, b, c, d] = (case (unhex a, unhex b, unhex c, unhex d) of
     (Some w, Some x, Some y, Some z) \<Rightarrow> Some (4096 * w + 256 * x + 16 * y + z) | _ \<Rightarrow> None)"
| "unhex4 _ = None"

definition js_simple_escape :: "char \<Rightarrow> string" where
  "js_simple_escape c = (if c = CHR ''t'' then [CHR 0x09] else if c = CHR ''n'' then [CHR 0x0A]
     else if c = CHR ''f'' then [CHR 0x0C] else if c = CHR ''r'' then [CHR 0x0D] else [c])"

function js_string :: "string \<Rightarrow> (string \<times> string) option" where
  "js_string [] = None"
| "js_string (c # s) =
     (if c = CHR 0x22 then Some ([], s)
      else if c \<in> {CHR 0x0A, CHR 0x0D} then None
      else if c \<noteq> CHR 0x5C then map_option (apfst ((#) c)) (js_string s)
      else if s = [] then None
      else if hd s = CHR ''u'' then
        (case unhex4 (take 4 (tl s)) of
           None \<Rightarrow> None
         | Some n \<Rightarrow> map_option (apfst ((@) (utf8 n))) (js_string (drop 5 s)))
      else map_option (apfst ((@) (js_simple_escape (hd s)))) (js_string (tl s)))"
  by pat_completeness auto
termination by (relation "measure length") (auto simp: less_Suc_eq_le)

lemma append_one [simp]: "(@) [c] = (#) c"
  by (simp add: fun_eq_iff)

lemma unhex_lower_hex: "n < 16 \<Longrightarrow> unhex (lower_hex n) = Some n"
  by (auto simp: unhex_def lower_hex_def Let_def)

lemma js_string_unicode:
  assumes "byte_val c < 128"
  shows "js_string (js_unicode (byte_val c) @ r) = map_option (apfst ((#) c)) (js_string r)"
proof -
  have "unhex (CHR ''0'') = Some 0" by code_simp
  then have "unhex4 [CHR ''0'', CHR ''0'', lower_hex (byte_val c div 16), lower_hex (byte_val c mod 16)] = Some (byte_val c)"
    using assms by (simp add: unhex_lower_hex)
  moreover have "utf8 (byte_val c) = [c]" using assms by (simp add: utf8_def)
  ultimately show ?thesis by (simp add: js_unicode_def)
qed

lemma byte_val_eq: "byte_val c = n \<Longrightarrow> c = char_of n"
  by auto

lemma js_string_byte: "js_string (js_escape_byte c @ r) = map_option (apfst ((#) c)) (js_string r)"
proof (cases "byte_val c < 32 \<and> byte_val c \<notin> {9, 10, 12, 13} \<or> byte_val c \<in> {0x22, 0x60, 0x26, 0x27, 0x2B, 0x3C, 0x3E}")
  case True
  then have "js_escape_byte c = js_unicode (byte_val c)" by (auto simp: js_escape_byte_def)
  moreover have "byte_val c < 128" using True by auto
  ultimately show ?thesis by (simp add: js_string_unicode)
next
  case False
  show ?thesis
  proof (cases "byte_val c \<in> {9, 10, 12, 13, 0x2F, 0x5C}")
    case True
    have "char_of (9::nat) = CHR 0x09" "char_of (10::nat) = CHR 0x0A" "char_of (12::nat) = CHR 0x0C" "char_of (13::nat) = CHR 0x0D"
      "char_of (0x2F::nat) = CHR ''/''" "char_of (0x5C::nat) = CHR 0x5C" by code_simp+
    with True consider "c = CHR 0x09" | "c = CHR 0x0A" | "c = CHR 0x0C" | "c = CHR 0x0D" | "c = CHR ''/''" | "c = CHR 0x5C"
      by (metis byte_val_eq empty_iff insert_iff)
    then show ?thesis by cases (simp_all add: js_escape_byte_def js_simple_escape_def)
  next
    case other: False
    then have "js_escape_byte c = [c]" using False by (auto simp: js_escape_byte_def Let_def)
    moreover have "c \<notin> {CHR 0x22, CHR 0x0A, CHR 0x0D, CHR 0x5C}" using False other by auto
    ultimately show ?thesis by simp
  qed
qed

lemma take_2: "take 2 s = [a, b] \<Longrightarrow> \<exists>t. s = a # b # t"
  by (cases s; cases "tl s") auto

lemma js_string_escaped: "js_string (jsStrEscaper s @ CHR 0x22 # rest) = Some (s, rest)"
proof (induction s rule: jsStrEscaper.induct)
  case (2 c s)
  have u: "js_string (CHR 0x5C # ''u2028'' @ r) = map_option (apfst ((@) [CHR 0xE2, CHR 0x80, CHR 0xA8])) (js_string r)"
    "js_string (CHR 0x5C # ''u2029'' @ r) = map_option (apfst ((@) [CHR 0xE2, CHR 0x80, CHR 0xA9])) (js_string r)" for r
  proof -
    have "unhex (CHR ''2'') = Some 2" "unhex (CHR ''0'') = Some 0" "unhex (CHR ''8'') = Some 8" "unhex (CHR ''9'') = Some 9"
      "char_of (0xE2::nat) = CHR 0xE2" "char_of (0x80::nat) = CHR 0x80" "char_of (0xA8::nat) = CHR 0xA8"
      "char_of (0xA9::nat) = CHR 0xA9" by code_simp+
    then have "unhex4 ''2028'' = Some 0x2028" "unhex4 ''2029'' = Some 0x2029" "utf8 0x2028 = [CHR 0xE2, CHR 0x80, CHR 0xA8]"
      "utf8 0x2029 = [CHR 0xE2, CHR 0x80, CHR 0xA9]" by (simp_all add: utf8_def)
    then show "js_string (CHR 0x5C # ''u2028'' @ r) = map_option (apfst ((@) [CHR 0xE2, CHR 0x80, CHR 0xA8])) (js_string r)"
      "js_string (CHR 0x5C # ''u2029'' @ r) = map_option (apfst ((@) [CHR 0xE2, CHR 0x80, CHR 0xA9])) (js_string r)" by simp_all
  qed
  show ?case
  proof (cases "c = CHR 0xE2 \<and> take 2 s = [CHR 0x80, CHR 0xA8]")
    case True
    then obtain t where "s = CHR 0x80 # CHR 0xA8 # t" by (metis take_2)
    then show ?thesis using 2(1) [OF True] True u(1) [of "jsStrEscaper t @ CHR 0x22 # rest"] by simp
  next
    case ls: False
    show ?thesis
    proof (cases "c = CHR 0xE2 \<and> take 2 s = [CHR 0x80, CHR 0xA9]")
      case True
      then obtain t where "s = CHR 0x80 # CHR 0xA9 # t" by (metis take_2)
      then show ?thesis using 2(2) [OF ls True] True u(2) [of "jsStrEscaper t @ CHR 0x22 # rest"] by simp
    next
      case False
      then have "jsStrEscaper (c # s) = js_escape_byte c @ jsStrEscaper s" using ls by (simp only: jsStrEscaper.simps if_False)
      then show ?thesis using 2(3) [OF ls False] by (simp add: js_string_byte)
    qed
  qed
qed simp

subsection \<open>Escaping in an attribute that holds a URL\<close>

text \<open>
  \<^verbatim>\<open>html/template\<close> takes an attribute named \<^verbatim>\<open>data-...uri...\<close> for a URL: a scheme other than http, https and mailto is
  replaced altogether, what may not stand in a URL is percent-encoded, and the result is escaped as an
  attribute's value.
\<close>

definition isSafeURL :: "string \<Rightarrow> bool" where
  "isSafeURL s \<longleftrightarrow> CHR '':'' \<in> set s \<longrightarrow> (let protocol = fst (go_cut (CHR '':'') s) in
     CHR ''/'' \<in> set protocol \<or> fold_name protocol \<in> {''http'', ''https'', ''mailto''})"

definition urlFilter :: "string \<Rightarrow> string" where
  "urlFilter s = (if isSafeURL s then s else ''#ZgotmplZ'')"

definition url_reserved :: "char \<Rightarrow> bool" where
  "url_reserved c \<longleftrightarrow> c \<in> set ''!#$&*+,/:;=?@[]''"

fun urlNormalizer :: "string \<Rightarrow> string" where
  "urlNormalizer [] = []"
| "urlNormalizer (c # s) =
     (if unreserved c \<or> url_reserved c \<or> c = CHR ''%'' \<and> 2 \<le> length s \<and> unhex (s ! 0) \<noteq> None \<and> unhex (s ! 1) \<noteq> None then [c]
      else [CHR ''%'', lower_hex (byte_val c div 16), lower_hex (byte_val c mod 16)]) @ urlNormalizer s"

definition attr_escape_byte :: "char \<Rightarrow> string" where
  "attr_escape_byte c = (let n = byte_val c in
     if n = 0 then [CHR 0xEF, CHR 0xBF, CHR 0xBD] else if n = 0x22 then ''&#34;'' else if n = 0x26 then ''&amp;''
     else if n = 0x27 then ''&#39;'' else if n = 0x2B then ''&#43;'' else if n = 0x3C then ''&lt;''
     else if n = 0x3E then ''&gt;'' else [c])"

definition attrEscaper :: "string \<Rightarrow> string" where
  "attrEscaper s = concat (map attr_escape_byte s)"

definition url_attribute :: "string \<Rightarrow> string" where
  "url_attribute s = attrEscaper (urlNormalizer (urlFilter s))"

subsection \<open>The page\<close>

definition page_head :: string where
  "page_head = go_join (CHR 0x0A) [''<!DOCTYPE html>'', ''<html><head><title>Fikua Verifier Login</title></head>'', ''<body>'',
     ''<h1>Scan to sign in</h1>'', ''<p>Present your credential to continue.</p>'',
     ''<div id='' @ [CHR 0x22] @ ''qr'' @ [CHR 0x22] @ '' data-request-uri='' @ [CHR 0x22]]"

definition page_script :: string where
  "page_script = go_join (CHR 0x0A) [[CHR 0x22] @ ''></div>'', ''<script>'', ''(function poll() {'', ''  fetch('' @ [CHR 0x22]]"

definition page_tail :: string where
  "page_tail = go_join (CHR 0x0A) [[CHR 0x22] @ '')'',
     ''    .then(function(r) { return r.json(); })'',
     ''    .then(function(data) {'',
     ''      if (data.status === '' @ [CHR 0x22] @ ''done'' @ [CHR 0x22] @ '') {'',
     ''        window.location = data.redirect;'',
     ''      } else if (data.status === '' @ [CHR 0x22] @ ''error'' @ [CHR 0x22] @ '') {'',
     ''        document.body.innerHTML = '' @ [CHR 0x22] @ ''<p>Verification failed: '' @ [CHR 0x22] @
       '' + data.error + '' @ [CHR 0x22] @ ''</p>'' @ [CHR 0x22] @ '';'',
     ''      } else {'',
     ''        setTimeout(poll, 2000);'',
     ''      }'',
     ''    });'',
     ''})();'',
     ''</script>'',
     ''</body></html>'']"

definition poll_url :: string where
  "poll_url = ''/oidc/v1/login/poll?id=''"

definition renderLoginPage :: "string \<Rightarrow> string \<Rightarrow> string" where
  "renderLoginPage authRequestID verificationSessionID =
     page_head @ url_attribute verificationSessionID @ page_script @ poll_url @ jsStrEscaper authRequestID @ page_tail"

text \<open>What the script does with an answer of the poll (\<^verbatim>\<open>undefined\<close> for a missing field).\<close>

datatype page_action = Navigate string | ReplaceBody string | PollAgain

definition poll_reaction :: "(string \<times> string) list \<Rightarrow> page_action" where
  "poll_reaction data = (let field = (\<lambda>k. case map_of data k of None \<Rightarrow> ''undefined'' | Some v \<Rightarrow> v) in
     if map_of data ''status'' = Some ''done'' then Navigate (field ''redirect'')
     else if map_of data ''status'' = Some ''error'' then ReplaceBody (''<p>Verification failed: '' @ field ''error'' @ ''</p>'')
     else PollAgain)"

lemma js_string_plain: "set p \<inter> {CHR 0x22, CHR 0x0A, CHR 0x0D, CHR 0x5C} = {} \<Longrightarrow>
    js_string (p @ r) = map_option (apfst ((@) p)) (js_string r)"
  by (induction p) (auto simp: option.map_comp comp_def apfst_def map_prod_def case_prod_unfold option.map_ident)

lemma token_unreserved: "set (RandomToken n d) \<subseteq> {c. unreserved c}"
  by (auto simp: RandomToken_def RawURL_Encode_def b64_unreserved)

lemma unreserved_kept:
  assumes "set s \<subseteq> {c. unreserved c}"
  shows "url_attribute s = s" "encode_pair (k, s) = QueryEscape k @ ''='' @ s"
proof -
  have "CHR '':'' \<notin> set s" using assms by (auto simp: unreserved_def)
  then have "urlFilter s = s" by (simp add: urlFilter_def isSafeURL_def)
  moreover have "urlNormalizer s = s" using assms by (induction s) auto
  moreover have "attr_escape_byte c = [c]" if "unreserved c" for c
    using that by (auto simp: attr_escape_byte_def unreserved_def Let_def)
  then have "attrEscaper s = s" using assms unfolding attrEscaper_def by (induction s) auto
  ultimately show "url_attribute s = s" by (simp add: url_attribute_def)
  have "QueryEscape s = s" using assms unfolding QueryEscape_def by (induction s) (auto simp: query_escape_byte_def)
  then show "encode_pair (k, s) = QueryEscape k @ ''='' @ s" by (simp add: encode_pair_def)
qed

lemma attribute_closed: "CHR 0x22 \<notin> set (url_attribute s)"
proof -
  have "CHR 0x22 \<notin> set (attr_escape_byte c)" for c by (auto simp: attr_escape_byte_def Let_def)
  then show ?thesis by (simp add: url_attribute_def attrEscaper_def)
qed

text \<open>
  C33: whatever the two identifiers are, the value of the page's attribute ends where the template ends it, and
  the script asks for the poll address with exactly the identifier of the login request, the
  rest of the script being the template's own. For identifiers as the service draws them the attribute
  is the identifier itself, and the server reads the identifier back from the query.
\<close>

theorem login_page_polls_own_request:
  "CHR 0x22 \<notin> set (url_attribute v) \<and>
   (\<exists>rest. renderLoginPage a v = page_head @ url_attribute v @ page_script @ rest \<and>
      js_string rest = Some (LoginPath @ ''/poll?id='' @ a, tl page_tail)) \<and>
   url_attribute (RandomToken n d) = RandomToken n d \<and>
   values_Get ''id'' (ParseQuery (snd (go_cut (CHR ''?'') (LoginPath @ ''/poll?id='' @ RandomToken n d)))) = RandomToken n d"
proof (intro conjI exI)
  show "CHR 0x22 \<notin> set (url_attribute v)" by (rule attribute_closed)
  show "renderLoginPage a v = page_head @ url_attribute v @ page_script @ (poll_url @ jsStrEscaper a @ page_tail)"
    by (simp add: renderLoginPage_def)
  have "set poll_url \<inter> {CHR 0x22, CHR 0x0A, CHR 0x0D, CHR 0x5C} = {}" by code_simp
  moreover have "page_tail = CHR 0x22 # tl page_tail" by (simp add: page_tail_def)
  moreover have "poll_url = LoginPath @ ''/poll?id=''" by code_simp
  ultimately show "js_string (poll_url @ jsStrEscaper a @ page_tail) = Some (LoginPath @ ''/poll?id='' @ a, tl page_tail)"
    using js_string_escaped [of a "tl page_tail"] js_string_plain [of poll_url "jsStrEscaper a @ page_tail"] by simp
  let ?t = "RandomToken n d"
  note kept = unreserved_kept [OF token_unreserved [of n d]]
  show "url_attribute ?t = ?t" by (rule kept(1))
  have "CHR ''?'' \<notin> set (LoginPath @ ''/poll'')" by code_simp
  then have "snd (go_cut (CHR ''?'') ((LoginPath @ ''/poll'') @ CHR ''?'' # ''id='' @ ?t)) = ''id='' @ ?t"
    using go_cut_append [of "CHR ''?''" "LoginPath @ ''/poll''" "''id='' @ ?t"] by simp
  moreover have "QueryEscape ''id'' = ''id''" by code_simp
  then have "''id='' @ ?t = go_join (CHR ''&'') (map encode_pair [(''id'', ?t)])" using kept(2) [of "''id''"] by simp
  ultimately show "values_Get ''id'' (ParseQuery (snd (go_cut (CHR ''?'') (LoginPath @ ''/poll?id='' @ ?t)))) = ?t"
    using ParseQuery_join [of "[(''id'', ?t)]" "''id''"] by (simp add: values_Get_def)
qed

text \<open>
  C34: the page is left only for the library's callback of the very request it polls for, and only when that
  request is completed.
\<close>

theorem login_page_left_when_completed:
  assumes "PollHandler h w i b = (JSONStatus st data, b')" and "poll_reaction data = Navigate u"
  shows "\<exists>e. os_authRequests (bs_oidc b') i = Some e \<and> arq_Done (are_req e) \<and> u = callbackURL h (arq_id (are_req e))"
proof -
  obtain found o1 where g: "getAuthRequest (clk w 0) i (bs_oidc b) = (found, o1)" by fastforce
  show ?thesis
  proof (cases found)
    case None
    then show ?thesis using assms by (auto simp: PollHandler_def g poll_reaction_def)
  next
    case (Some ar)
    with g obtain e where e: "o1 = bs_oidc b" "os_authRequests (bs_oidc b) i = Some e" "are_req e = ar" by (auto simp: getAuthRequest_Some)
    then show ?thesis using assms Some g
      by (auto simp: PollHandler_def poll_reaction_def complete_request_def arq_Done_def Let_def
          split: if_splits option.splits prod.splits)
  qed
qed

text \<open>
  When a login fails, the text of the session's error becomes markup of the page as it is.
\<close>

lemma failed_login_markup:
  assumes "PollHandler h w i b = (JSONStatus st data, b')" and "poll_reaction data = ReplaceBody m"
  shows "\<exists>e. m = ''<p>Verification failed: '' @ e @ ''</p>'' \<and>
    (e = ''verification succeeded but produced no subject identifier'' \<or>
     (\<exists>sid v. verifications (bs_sessions b) sid = Some v \<and> vs_Status v = ''failed'' \<and> e = vs_Error v))"
proof -
  obtain found o1 where g: "getAuthRequest (clk w 0) i (bs_oidc b) = (found, o1)" by fastforce
  show ?thesis using assms
    by (auto simp: PollHandler_def g poll_reaction_def verifier_Session_def FindVerification_def findVerificationLocked_def Let_def
        split: if_splits option.splits prod.splits) blast
qed

theorem login_page_left_when_completed_witness:
  "\<exists>e. os_authRequests ex_completed ex_id = Some e \<and> arq_Done (are_req e)"
  using login_page_left_when_completed [OF ex_poll_done, of "callbackURL ex_login ex_id"] by (auto simp: poll_reaction_def)

end
