(* ===== verification/Test_Keys.thy ===== *)
theory Test_Keys
  imports Keys
begin

text \<open>
  \<^verbatim>\<open>internal/crypto/testkeys.go\<close>: the constructors that the tests of several packages use to make keys. The
  signing key takes the way of the service itself, through a PEM file: the theorem is the round trip, that the
  key loaded is the key generated. A failed step ends the test.
\<close>

subsection \<open>The file system\<close>

type_synonym files = "string \<rightharpoonup> string"

text \<open>\<^verbatim>\<open>os.Stat\<close> and \<^verbatim>\<open>os.ReadFile\<close> on given files.\<close>

definition on_files :: "files \<Rightarrow> key_lib \<Rightarrow> key_lib" where
  "on_files fs J = J\<lparr>fs_Stat := (\<lambda>p. fs p \<noteq> None),
     fs_ReadFile := (\<lambda>p. case fs p of None \<Rightarrow> Inl (True, ''open '' @ p @ '': no such file or directory'') | Some c \<Rightarrow> Inr c)\<rparr>"

record cert_template =
  ct_SerialNumber :: int
  ct_CommonName :: string
  ct_NotBefore :: time
  ct_NotAfter :: time

text \<open>
  What the constructors call besides: \<open>os_WriteFile\<close> is the error of writing to a path, if there is one;
  \<open>os_MkdirTemp\<close> makes the name of a directory.
\<close>

record test_lib =
  x509_MarshalPKCS8 :: "crypto_signer \<Rightarrow> string + string"
  pem_EncodeToMemory :: "string \<Rightarrow> string \<Rightarrow> string"
  os_MkdirTemp :: "files \<Rightarrow> string \<Rightarrow> string \<Rightarrow> string + string"
  os_WriteFile :: "files \<Rightarrow> string \<Rightarrow> string \<Rightarrow> string option"
  x509_CreateCertificate :: "(nat \<Rightarrow> string) \<Rightarrow> cert_template \<Rightarrow> cert_template \<Rightarrow> ec_public \<Rightarrow> crypto_signer \<Rightarrow> string + string"

subsection \<open>The constructors\<close>

text \<open>\<^verbatim>\<open>t.Fatal(err)\<close> stops the test with the text of the error.\<close>

datatype stopped = Fatal string

definition mustNoError :: "string + 'a \<Rightarrow> stopped + 'a" where
  "mustNoError r = (case r of Inl e \<Rightarrow> Inl (Fatal e) | Inr a \<Rightarrow> Inr a)"

definition generateTestECKey :: "key_lib \<Rightarrow> (nat \<Rightarrow> string) \<Rightarrow> stopped + crypto_signer" where
  "generateTestECKey J draw = mustNoError (ecdsa_GenerateKey J draw)"

definition write_file :: "test_lib \<Rightarrow> string \<Rightarrow> string \<Rightarrow> files \<Rightarrow> string + files" where
  "write_file T p content fs = (case os_WriteFile T fs p content of Some e \<Rightarrow> Inl e | None \<Rightarrow> Inr (fs(p \<mapsto> content)))"

definition NewTestSigningKey :: "lib \<Rightarrow> key_lib \<Rightarrow> test_lib \<Rightarrow> world \<Rightarrow> files \<Rightarrow> stopped + signing_key \<times> files" where
  "NewTestSigningKey L J T w fs =
     and_then (generateTestECKey J (rnd w 0)) (\<lambda>priv.
     and_then (mustNoError (x509_MarshalPKCS8 T priv)) (\<lambda>der.
     let pemBytes = pem_EncodeToMemory T ''PRIVATE KEY'' der in
     and_then (mustNoError (os_MkdirTemp T fs [] ''fikua-test-signingkey-*'')) (\<lambda>dir.
     and_then (mustNoError (write_file T (fs_Join J dir ''idp-key.pem'') pemBytes fs)) (\<lambda>fs'.
     and_then (mustNoError (LoadFromPEM L (on_files fs' J) dir)) (\<lambda>key. Inr (key, fs'))))))"

definition hour :: duration where [const_defs]: "hour = 60 * minute"

definition NewTestRequestSigningKey :: "lib \<Rightarrow> key_lib \<Rightarrow> test_lib \<Rightarrow> world \<Rightarrow> stopped + request_signing_key" where
  "NewTestRequestSigningKey L J T w =
     and_then (generateTestECKey J (rnd w 0)) (\<lambda>priv.
     let template = \<lparr>ct_SerialNumber = 1, ct_CommonName = ''test-verifier'', ct_NotBefore = clk w 0 - hour, ct_NotAfter = clk w 1 + hour\<rparr> in
     and_then (mustNoError (x509_CreateCertificate T (rnd w 1) template template (sg_Public priv) priv)) (\<lambda>der.
     mustNoError (NewRequestSigningKey L priv [der])))"

subsection \<open>What they make\<close>

text \<open>What is relied on of PEM and PKCS#8: they read back what they wrote.\<close>

definition pem_reads_back :: "key_lib \<Rightarrow> test_lib \<Rightarrow> bool" where
  "pem_reads_back J T \<longleftrightarrow> (\<forall>der. pem_Decode J (pem_EncodeToMemory T ''PRIVATE KEY'' der) = Some der) \<and>
     (\<forall>k der. x509_MarshalPKCS8 T k = Inr der \<longrightarrow> x509_ParsePKCS8 J der = Inr (Some k))"

lemma mustNoError_Inr [simp]: "mustNoError r = Inr a \<longleftrightarrow> r = Inr a"
  by (auto simp: mustNoError_def split: sum.splits)

lemma on_files_simps [simp]:
  "pem_Decode (on_files fs J) = pem_Decode J" "x509_ParsePKCS8 (on_files fs J) = x509_ParsePKCS8 J"
  "fs_Join (on_files fs J) = fs_Join J" "jwk_Set (on_files fs J) = jwk_Set J" "x509_ParseEC (on_files fs J) = x509_ParseEC J"
  "fs_Stat (on_files fs J) p \<longleftrightarrow> fs p \<noteq> None" "fs p = Some c \<Longrightarrow> fs_ReadFile (on_files fs J) p = Inr c"
  by (simp_all add: on_files_def)

lemma newSigningKey_files: "newSigningKey L (on_files fs J) k = newSigningKey L J k"
  by (simp add: newSigningKey_def annotated_def)

text \<open>A PKCS#8 key in the file is the key loaded, in every file system that has this file.\<close>

lemma LoadFromPEM_written:
  assumes "pem_reads_back J T" "x509_MarshalPKCS8 T priv = Inr der"
    and "fs (fs_Join J dir ''idp-key.pem'') = Some (pem_EncodeToMemory T ''PRIVATE KEY'' der)"
  shows "LoadFromPEM L (on_files fs J) dir = newSigningKey L J priv"
proof -
  have "parseECPrivateKey (on_files fs J) der = Inr priv"
    using assms(1,2) by (simp add: parseECPrivateKey_def pem_reads_back_def)
  then show ?thesis using assms
    by (simp add: LoadFromPEM_def Let_def newSigningKey_files pem_reads_back_def)
qed

text \<open>
  The key of a test is the key that was generated, its identifier is the thumbprint of its public half, and
  whoever loads the file later, in whatever the file system has become beside it, gets the same key with the same identifier.
\<close>

lemma test_signing_key_reloads:
  assumes laws: "pem_reads_back J T" and made: "NewTestSigningKey L J T w fs = Inr (key, fs')"
  shows "\<exists>priv dir. ecdsa_GenerateKey J (rnd w 0) = Inr priv \<and> newSigningKey L J priv = Inr key \<and> sk_private key = sg_handle priv \<and>
    (\<exists>public t. jwk_Import L (sg_Public priv) = Inr public \<and> jwk_Thumbprint L public = Inr t \<and> sk_kid key = RawURL_Encode t) \<and>
    (\<forall>fs''. fs'' (fs_Join J dir ''idp-key.pem'') = fs' (fs_Join J dir ''idp-key.pem'') \<longrightarrow> LoadFromPEM L (on_files fs'' J) dir = Inr key)"
proof -
  from made obtain priv der dir where
    priv: "ecdsa_GenerateKey J (rnd w 0) = Inr priv" "x509_MarshalPKCS8 T priv = Inr der"
    and "fs' = fs(fs_Join J dir ''idp-key.pem'' \<mapsto> pem_EncodeToMemory T ''PRIVATE KEY'' der)"
    and load: "LoadFromPEM L (on_files fs' J) dir = Inr key"
    by (auto simp: NewTestSigningKey_def generateTestECKey_def Let_def write_file_def split: option.splits)
  then have pem: "fs' (fs_Join J dir ''idp-key.pem'') = Some (pem_EncodeToMemory T ''PRIVATE KEY'' der)" by simp
  have key: "newSigningKey L J priv = Inr key" using LoadFromPEM_written [where fs = fs', OF laws priv(2) pem] load by simp
  then have "sk_private key = sg_handle priv"
    "\<exists>public t. jwk_Import L (sg_Public priv) = Inr public \<and> jwk_Thumbprint L public = Inr t \<and> sk_kid key = RawURL_Encode t"
    by (auto simp: newSigningKey_def thumbprint_kid_def)
  then show ?thesis using priv(1) key LoadFromPEM_written [OF laws priv(2)] pem by metis
qed

text \<open>It is made whenever the libraries and the file system do their part.\<close>

lemma test_signing_key_made:
  assumes "pem_reads_back J T" "ecdsa_GenerateKey J (rnd w 0) = Inr priv" "x509_MarshalPKCS8 T priv = Inr der"
    and "os_MkdirTemp T fs [] ''fikua-test-signingkey-*'' = Inr dir" "\<And>p c. os_WriteFile T fs p c = None" "newSigningKey L J priv = Inr key"
  shows "NewTestSigningKey L J T w fs = Inr (key, fs(fs_Join J dir ''idp-key.pem'' \<mapsto> pem_EncodeToMemory T ''PRIVATE KEY'' der))"
  using assms LoadFromPEM_written [OF assms(1,3), of "fs(fs_Join J dir ''idp-key.pem'' \<mapsto> pem_EncodeToMemory T ''PRIVATE KEY'' der)" dir L]
  by (simp add: NewTestSigningKey_def generateTestECKey_def write_file_def mustNoError_def Let_def)

text \<open>The request-signing key of a test has one certificate, made for its own public key and valid around now.\<close>

lemma test_request_key_self_signed:
  assumes "NewTestRequestSigningKey L J T w = Inr k"
  shows "\<exists>template. x509_CreateCertificate T (rnd w 1) template template (sg_Public (rsk_signer k)) (rsk_signer k) = Inr (LeafDER k) \<and>
    rsk_x5cChain k = [LeafDER k] \<and> ct_NotBefore template < clk w 0 \<and> clk w 1 < ct_NotAfter template"
proof -
  from assms obtain priv der where
    "x509_CreateCertificate T (rnd w 1) \<lparr>ct_SerialNumber = 1, ct_CommonName = ''test-verifier'', ct_NotBefore = clk w 0 - hour, ct_NotAfter = clk w 1 + hour\<rparr>
      \<lparr>ct_SerialNumber = 1, ct_CommonName = ''test-verifier'', ct_NotBefore = clk w 0 - hour, ct_NotAfter = clk w 1 + hour\<rparr> (sg_Public priv) priv = Inr der"
    "NewRequestSigningKey L priv [der] = Inr k"
    by (auto simp: NewTestRequestSigningKey_def Let_def)
  moreover from this(2) have "rsk_signer k = priv" "rsk_x5cChain k = [der]" by (auto simp: NewRequestSigningKey_def)
  moreover have "(0 :: int) < hour" by (simp add: const_defs)
  ultimately show ?thesis by (intro exI) (auto simp: LeafDER_def)
qed

end
