(* ===== verification/Spec2Isabelle.thy ===== *)
theory Spec2Isabelle
  imports Example_Service Authz_Threads Bridge_Threads Oidc_Tokens Login_Page Test_Keys
begin

text \<open>
  \<^bold>\<open>A model of the Fikua identity provider.\<close> The program (\<^verbatim>\<open>cmd/idp\<close>, Go) is one HTTP service with three
  roles over one in-memory session store. As an OAuth 2 authorization server for wallets it accepts
  pushed authorization requests, identifies the user through a form and the Credential Issuer, and
  issues DPoP-bound access tokens. As an OID4VP verifier it asks wallets for credentials and verifies
  the presentations. As an OpenID Connect provider it logs users in at relying parties from a
  verified presentation. The theories below follow this structure; every operation takes the state and
  returns it updated, errors are the left of a sum, and a run-time panic is \<open>None\<close>.

  \<^bold>\<open>Shared theories.\<close>
  \<^item> \<open>Prelude\<close>: errors, reads of Go maps, JSON values, the clock and the random source as arguments of a
    call, and the interface locales \<open>one_time_store\<close>, \<open>expiring_store\<close>, \<open>codec\<close> and \<open>state_system\<close>.
  \<^item> \<open>Threads\<close>: handlers as programs of critical sections, what each goroutine of the Go server runs, and
    the interleavings of such programs. Its locale \<open>interleaved\<close> is the rule by which an invariant and the
    knowledge of single programs are kept under every interleaving, \<open>made_once\<close> the rule that what is made
    once is won by one program at most; \<open>among\<close> is a program advanced among the steps of others.
  \<^item> \<open>Go_Std\<close>, \<open>Go_Url\<close>, \<open>Go_Sha256\<close>: what is used of Go's strings, base64, URL queries and SHA-256, with
    the round trips (interpretations of \<open>codec\<close>).
  \<^item> \<open>Http_Mux\<close>: the \<^verbatim>\<open>http.ServeMux\<close> of Go, from the text of a pattern to the handler of a request, with the
    theorem that its search finds the most specific pattern that matches. \<open>Mux_Plain\<close>: patterns and paths of
    plain segments, and when a list of them registers without a panic.
  \<^item> \<open>Libs\<close>: JOSE, X.509 and JSON decoding as fields of a record. \<open>Example_Lib\<close> and \<open>Example_World\<close>
    instantiate it for the concrete runs the examples evaluate.

  \<^bold>\<open>Authorization server.\<close>
  \<^item> \<open>Session_Store\<close> (\<^verbatim>\<open>session/store.go\<close>): pushed requests, codes, identification sessions and
    verification sessions. Pushed requests and codes are interpretations of \<open>one_time_store\<close>, expired
    sessions do not come back, and the indexes over verification sessions agree in every reachable store.
  \<^item> \<open>OAuth2_Core\<close>, \<open>Dpop\<close>, \<open>Client_Attestation\<close>, \<open>Token_Mint\<close> (\<^verbatim>\<open>oauth2\<close>): error codes and PKCE, DPoP
    proofs with their bounded replay cache, wallet attestations, access tokens.
  \<^item> \<open>Issuer_Client\<close>, \<open>Issuer_Metadata\<close> (\<^verbatim>\<open>issuerclient/client.go\<close>): the calls to the Credential Issuer and
    the decoding of its answers into Go structs.
  \<^item> \<open>Authz\<close> (\<^verbatim>\<open>authz/service.go\<close>): the handlers. \<open>Authz_Flow\<close> shows what each of them guarantees on every
    branch; \<open>Authz_System\<close> runs them in any order, with an invariant (an interpretation of \<open>state_system\<close>)
    that traces codes and cookies to accepted pushed requests. Hence a token goes back to such a
    request, a code buys one token, and reuse revokes it. \<open>Authz_Threads\<close> has the handlers as programs: the
    sequential runs are some of their interleavings, and in all of them tokens go back to pushed requests and a
    code buys one token.

  \<^bold>\<open>Verifier.\<close>
  \<^item> \<open>Keys\<close> (\<^verbatim>\<open>crypto\<close>): access-token key, request-signing key, response-encryption key, wallet anchor.
  \<^item> \<open>Status_List\<close> (\<^verbatim>\<open>statuslistcheck\<close>), \<open>Sdjwt_Verify\<close> (\<^verbatim>\<open>sdjwtverify\<close>), \<open>Mdoc_Verify\<close> (\<^verbatim>\<open>mdocverify\<close>): the checks of
    one credential, with soundness theorems (what an accepted presentation, or a document that passes the checks, rests on) and
    equivalences with declarative specifications (bits of a status list, good certificate chains). Under the map type that the
    CBOR library documents as its default, which is also that of the decoder of the examples, every mdoc is rejected.
  \<^item> \<open>Verifier\<close> (\<^verbatim>\<open>verifier\<close>): sessions, request objects, responses. \<open>Verifier_Sessions\<close> shows by rule induction
    that a verified session has \<open>earned\<close> its outcome: one of the responses received named it by its state and carried
    presentations that verify for it, disclosed the claims recorded and are held by the key the subject is derived from. Conversely a
    good presentation does verify its session. The operations refine a machine of four phases.

  \<^bold>\<open>OpenID Connect provider.\<close>
  \<^item> \<open>Oidc_Clients\<close> (\<^verbatim>\<open>oidcclients/registry.go\<close>): the registry of relying parties and scopes.
  \<^item> \<open>Oidc_Server\<close> (\<^verbatim>\<open>oidcserver\<close>): its store, the callbacks of the OpenID library, the login page.
    \<open>Oidc_Login\<close>: the bridge and the verifier as one system, in which the subject of a login is \<open>backed\<close>: it was earned by a
    session that a load of this login's own page opened, for the credential the relying party's scope selects. \<open>Oidc_Tokens\<close>: what
    the library sees through its interfaces, how long login requests and refresh tokens live
    (interpretations of \<open>expiring_store\<close>), and chains of refreshes. \<open>Login_Page\<close>: the HTML of the page with the
    escaping of Go's \<^verbatim>\<open>html/template\<close>, and what its script does.
  \<^item> \<open>Bridge_Programs\<close>, \<open>Bridge_Threads\<close>: the operations of verifier and bridge as programs, and the login theorem for
    every interleaving of them and of the authorization server's sections, by an invariant over what was ever created.

  \<^bold>\<open>The service.\<close>
  \<^item> \<open>Http_Api\<close> (\<^verbatim>\<open>httpapi\<close>): every endpoint from request to reply. \<open>Idp_Routes\<close> (\<^verbatim>\<open>webui\<close> and the routes of
    \<^verbatim>\<open>cmd/idp/main.go\<close>): the patterns registered for API, UI and bridge. They never conflict, and a request
    reaches the endpoint of its method and path. \<open>Idp_Main\<close> (\<^verbatim>\<open>config\<close>, \<^verbatim>\<open>cmd/idp/main.go\<close>): configuration and
    the wiring of the parts.
  \<^item> \<open>Idp_System\<close>: runs of the whole service, by endpoint. Each run is also a run of the authorization server's
    system and of the bridge's, which carries their guarantees over to the replies. \<open>Idp_Http\<close>: runs by
    requests with host, method and path, dispatched by the mux; each is a run of \<open>Idp_System\<close>. This theory
    states the guarantees for them. \<open>Example_Service\<close> has the three concrete runs that show their
    hypotheses can hold.
  \<^item> \<open>Test_Keys\<close> (\<^verbatim>\<open>crypto/testkeys.go\<close>): the keys the tests make, and that they load as they were made.

  \<^bold>\<open>Choices and hypotheses.\<close> In the sequential systems a handler is one step. In the theories on
  threads a step is one critical section of a store, and the pure code between two of them belongs to the
  first; the two assignments to a login request that the code makes without a mutex are steps of their own. There
  the hypothesis on random draws is \<open>no_repeat\<close>: nothing is created again under an identifier that was given to
  something else. The record of what was created, which this refers to, is a ghost: no program reads
  it. A goroutine that holds a pointer to a login request is modelled as holding its value at that moment.
  Time is an integer number of nanoseconds and random draws are arguments of a
  call; a run asks of them only that the identifiers drawn for verification sessions and OpenID Connect
  requests are not in use already (\<open>fresh_ids\<close>). Go's unspecified map order is the argument \<open>ord\<close>, of
  which \<open>ord_ok\<close> says that it visits every key. The systems of verifier and bridge have as arguments the responses \<open>W\<close>
  and the loads of login pages \<open>P\<close> that may occur; the theorems on runs and on interleavings instantiate them by those that did
  (\<open>received_in\<close>, \<open>page_loads\<close>, \<open>responses_in\<close>, \<open>loads_in\<close>). The clock readings within one validation of a wallet attestation are taken as one
  instant. Of the libraries the theorems on runs assume only that a
  SHA-256 thumbprint is not empty (\<open>thumbprints_ok\<close>); a theorem on a single component states what it
  needs. Nil and empty slices are identified where the code does not tell them apart. Every function is total and
  none uses fuel: loops over Go slices and strings are structural recursions, the byte scan of a scope
  string and the conversions of nested CBOR values end by a measure. Integers are kept at their width
  where the code's arithmetic can wrap (status lists, COSE integers, SHA-256).

  \<^bold>\<open>Not modelled.\<close> The cryptographic, CBOR, YAML and OpenID libraries and the remote signing service are
  not part of the repository: they are arguments, as is the file server over the embedded files of \<^verbatim>\<open>web\<close>. The text of the
  static pages (\<^verbatim>\<open>web\<close>, \<^verbatim>\<open>openapi.yaml\<close>, \<^verbatim>\<open>authorize_error.html\<close>), logging and the listening process are I/O. Of the mux,
  \<^verbatim>\<open>CONNECT\<close> requests and the check of the characters of a method in a pattern are left out: the service registers
  neither. What the OpenID library answers at its own endpoints is known only by its calls of the storage. The
  interleavings are those of the two concurrent systems, which overlap in the session store; a theorem for all
  goroutines of the service in one system is not stated.
\<close>

subsection \<open>The service as a whole\<close>

text \<open>
  C1: an access token leaves the service only for a pushed request served before: whatever HTTP
  requests arrive, in whatever order and with whatever answers from the Credential Issuer, a reply to
  \<^verbatim>\<open>POST /oid4vci/v1/token\<close> that carries a token answers a request by the attested client of an earlier,
  accepted \<^verbatim>\<open>POST /oid4vci/v1/par\<close>, who opens that request's S256 challenge and holds the DPoP
  key it fixed, if it fixed one.
\<close>

theorem token_reply_traces_to_par:
  assumes m: "mounted p" and run: "http_run L J C H p xs s"
    and x: "sq_Method (in_Request x) = ''POST''" "in_Path x = ''/oid4vci/v1/token''"
    and rep: "fst (http_serve L J C H p x s) = ApiReply (Some rep)" "rp_Body rep = JsonBody (token_json tok)"
  shows "\<exists>y\<in>set xs. sq_Method (in_Request y) = ''POST'' \<and> map unescape_seg (path_segs (in_Path y)) = [''oid4vci'', ''v1'', ''par''] \<and>
    (\<exists>q form dpop. par_served L H (api_request y Par []) q \<and> par_granted L (hd_authz (idp_api p)) q \<and>
      parseForm L H (in_Request x) = Inr form \<and> SingleDPoPHeader (sq_Header (in_Request x) ''DPoP'') = Inr dpop \<and>
      token_backed L (hd_authz (idp_api p)) q (in_World x) (token_request_of (in_Request x) form) dpop
        (fst (clientAttestationHeaders (in_Request x))) (snd (clientAttestationHeaders (in_Request x))) tok)"
proof -
  have "dispatch_of p x = Dispatched (ToApi Token) []"
    using dispatch_literal [OF m, of "''POST''" "[''oid4vci'', ''v1'', ''token'']" Token "in_Host x"] x by (simp add: api_shapes_def)
  with rep(1) x(1) have a: "fst (answer L J C H p (api_request x Token []) (sv_authz s)) = Some rep" by (simp add: http_api_reply)
  have r: "parseForm L H (sv_request (api_request x Token [])) = parseForm L H (in_Request x)"
    "token_request_of (sv_request (api_request x Token [])) = token_request_of (in_Request x)"
    "clientAttestationHeaders (sv_request (api_request x Token [])) = clientAttestationHeaders (in_Request x)"
    "sq_Header (sv_request (api_request x Token [])) = sq_Header (in_Request x)"
    by (simp_all add: api_request_def path_value_unread)
  from http_run_is_run [OF run m] obtain ys where ys: "idp_run L J C H p (page_loads xs) ys s" "\<forall>y\<in>set ys. served_from p xs y" by blast
  have e: "sv_endpoint (api_request x Token []) = Token" by simp
  from run_token_traces [OF ys(1) e a rep(2)] obtain y q form dpop where y: "y \<in> set ys" "par_served L H y q"
    and q: "par_granted L (hd_authz (idp_api p)) q" "parseForm L H (in_Request x) = Inr form"
      "SingleDPoPHeader (sq_Header (in_Request x) ''DPoP'') = Inr dpop"
      "token_backed L (hd_authz (idp_api p)) q (in_World x) (token_request_of (in_Request x) form) dpop
        (fst (clientAttestationHeaders (in_Request x))) (snd (clientAttestationHeaders (in_Request x))) tok"
    unfolding r api_request_simps by blast
  moreover from y(2) have "sv_endpoint y = Par" by (simp add: par_served_def)
  ultimately obtain z vals where z: "z \<in> set xs" "dispatch_of p z = Dispatched (ToApi Par) vals" "y = api_request z Par vals"
    using ys(2) by (auto simp: served_from_def)
  have "par_served L H (api_request z Par []) q" using y(2) z(3) dispatched_par(3) [OF m z(2)] by simp
  with z(1) dispatched_par(1,2) [OF m z(2)] q show ?thesis by (intro bexI [of _ z] conjI exI)
qed

theorem token_reply_traces_to_par_witness:
  "\<exists>y\<in>set ex_all_sent. sq_Method (in_Request y) = ''POST'' \<and> (\<exists>q. par_granted ex_lib ex_service q)"
proof -
  let ?x = "ex_sent ''/oid4vci/v1/token'' ex_token_req" and ?s = "\<lparr>sv_authz = ex_coded, sv_oidc = newStore\<rparr>"
  obtain form where f: "parseForm ex_lib ex_http (sv_request ex_token_req) = Inr form"
    "TokenRequestFromForm form = Authz_Flow.ex_request (ex_tok (CHR ''c''))"
    using ex_token_params [of ex_lib "ex_headers ''dpop2''"] by (auto simp: ex_token_req_def)
  have r: "sq_BasicAuth (sv_request ex_token_req) = None" "sq_PathID (sv_request ex_token_req) = []" "sv_endpoint ex_token_req = Token"
    "sq_Method (sv_request ex_token_req) = ''POST''" "IsAuthorizationCode (Authz_Flow.ex_request c)" for c
    by (simp_all add: ex_token_req_def ex_post_def IsAuthorizationCode_def Authz_Flow.ex_request_def AuthorizationCodeGrantType_def)
  have "\<exists>rep. fst (answer ex_lib ex_key_lib ex_cbor ex_http ex_issuing ex_token_req ex_coded) = Some rep \<and>
      rp_Body rep = JsonBody (token_json (DPoPToken ''signed''))"
    using f r(1,5) ex_token_flow
    by (simp add: answer_def WithCORS_def ex_token_req_def api_token_def token_request_of_def SingleDPoPHeader_def
        no_store_def writeJSON_def)
  then obtain rep where rep: "fst (answer ex_lib ex_key_lib ex_cbor ex_http ex_issuing ex_token_req ex_coded) = Some rep"
    "rp_Body rep = JsonBody (token_json (DPoPToken ''signed''))" by blast
  have "dispatch_of ex_issuing ?x = Dispatched (ToApi Token) []"
    using dispatch_literal [OF ex_issuing_mounted, of "''POST''" "[''oid4vci'', ''v1'', ''token'']" Token] r by (simp add: api_shapes_def)
  with rep(1) r have "fst (http_serve ex_lib ex_key_lib ex_cbor ex_http ex_issuing ?x ?s) = ApiReply (Some rep)"
    using ex_sent_request [OF r(2)] by (simp add: http_api_reply)
  from token_reply_traces_to_par [OF ex_issuing_mounted ex_issuing_run _ _ this rep(2)] r(4) show ?thesis by auto
qed

text \<open>
  C4: a verification result over HTTP is earned: whenever \<^verbatim>\<open>GET /oid4vp/v1/result/{id}\<close> reports
  success, the session \<^verbatim>\<open>id\<close> is alive, and one of the earlier \<^verbatim>\<open>POST /oid4vp/v1/response\<close> carried, for the state of
  this session (encrypted to its key, or in the clear), a token for every credential requested that verified
  for the session's client identifier and nonce, all SD-JWTs being held by one key; each claim reported was disclosed by one of
  these presentations, and every claim they disclosed is reported. (Which type of SD-JWT is presented is not
  checked: \<open>sd_jwt_query_not_enforced\<close>.)
\<close>

theorem result_reply_justified:
  assumes m: "mounted p" "hd_verifier (idp_api p) \<noteq> None" and run: "http_run L J C H p xs s" and "thumbprints_ok L"
    and x: "sq_Method (in_Request x) = ''GET''" "in_Path x = ''/oid4vp/v1/result/'' @ i" "clean_seg i" "unescape_seg i \<noteq> ''/''"
      "ord_ok (in_World x)"
    and rep: "fst (http_serve L J C H p x s) = ApiReply (Some rep)" "rp_Body rep = JsonBody (result_json (successResult claims))"
  shows "\<exists>v. verifications (sessions (sv_authz s)) (unescape_seg i) = Some v \<and>
    clk (in_World x) 0 - vs_CreatedAt v \<le> verificationSessionTTL \<and>
    earned L J C (received_in L H xs) v (vs_VPTokens v) (vs_VerifiedClaims v) (vs_SubjectID v) \<and>
    reported claims (vs_VerifiedClaims v)"
proof -
  have "dispatch_of p x = Dispatched (ToApi VpResult) [(''id'', unescape_seg i)]" using dispatch_session(2) [OF m x(3,4)] x by simp
  with rep(1) x(1) have a: "fst (answer L J C H p (api_request x VpResult [(''id'', unescape_seg i)]) (sv_authz s)) = Some rep"
    by (simp add: http_api_reply)
  from http_run_is_run [OF run m(1)] obtain ys where ys: "idp_run L J C H p (page_loads xs) ys s" "\<forall>y\<in>set ys. served_from p xs y" by blast
  from run_result_justified [OF ys(1) _ assms(4) _ _ a rep(2)] m(1) x(5) earned_mono [OF _ responses_received [OF ys(2) m(1)]]
  show ?thesis by (fastforce simp: mounted_def)
qed

theorem result_reply_justified_witness:
  "\<exists>v toks claims. verifications ex_verified (RandomToken 16 (rnd ex_draws 0)) = Some v \<and>
     earned ex_vf_lib ex_key_lib ex_cbor (received_in ex_vf_lib ex_web ex_vp_sent) v toks claims (vs_SubjectID v) \<and>
     reported [(''family_name'', JStr ''Doe'')] claims"
proof -
  let ?i = "RandomToken 16 (rnd ex_draws 0)"
  let ?x = "ex_sent (''/oid4vp/v1/result/'' @ ?i) (ex_result_req\<lparr>sv_request := (sv_request ex_result_req)\<lparr>sq_Method := ''GET''\<rparr>\<rparr>)"
  have i: "clean_seg ?i" "unescape_seg ?i = ?i" "unescape_seg ?i \<noteq> ''/''" using token_segment [of "rnd ex_draws 0" 16] by (auto simp: ex_draws_def)
  have d: "dispatch_of ex_verifying ?x = Dispatched (ToApi VpResult) [(''id'', ?i)]"
    using dispatch_session(2) [OF ex_verifying_mounted _ i(1,3)] i(2) by simp
  have "GetResult ex_draws ?i ex_verified = (Inr (successResult [(''family_name'', JStr ''Doe'')]), ex_verified)"
    by (simp add: ex_verified_state GetResult_def store_defs ex_waiting_session mergeClaims_def ranged_def)
  then have "\<exists>rep. fst (http_serve ex_vf_lib ex_key_lib ex_cbor ex_web ex_verifying ?x (ex_idp_state ex_verified)) = ApiReply (Some rep) \<and>
      rp_Body rep = JsonBody (result_json (successResult [(''family_name'', JStr ''Doe'')]))"
    using http_api_reply [OF d] by (simp add: answer_def WithCORS_def with_verifier_def oid4vpResult_def writeJSON_def)
  then obtain rep where rep: "fst (http_serve ex_vf_lib ex_key_lib ex_cbor ex_web ex_verifying ?x (ex_idp_state ex_verified)) = ApiReply (Some rep)"
    "rp_Body rep = JsonBody (result_json (successResult [(''family_name'', JStr ''Doe'')]))" by blast
  from result_reply_justified [OF ex_verifying_mounted _ ex_verifying_run ex_thumbprints _ _ i(1,3) _ rep] i(2) ex_ord show ?thesis by auto
qed

text \<open>
  C3: a login is earned: in every run of the service over HTTP, the authorization request that a code of the
  OpenID Connect bridge is exchanged for is bound to an S256 challenge, and when it is completed its subject is
  backed by requests of this run: a load of this login's own page opened a verification session for
  the credential that the request's scopes select, and an earlier \<^verbatim>\<open>POST /oid4vp/v1/response\<close> carried, for the state of that
  session, a presentation that verified for its client identifier and nonce, the subject being the hash of the thumbprint of its holder
  key. (The session asks for the credential selected; which type of SD-JWT is presented is not checked.)
\<close>

theorem service_login_backed:
  assumes run: "http_run L J C H p xs s" and m: "mounted p" and "thumbprints_ok L" and bridge: "idp_bridge p = Some (sto, h)"
    and code: "AuthRequestByCode w code (sv_oidc s) = (Inr ar, o')"
  shows "cc_Method (arq_codeChallenge ar) = CodeChallengeMethodS256 \<and> cc_Challenge (arq_codeChallenge ar) \<noteq> [] \<and>
    (arq_Done ar \<longrightarrow> backed L J C h (received_in L H xs) (page_loads xs) (arq_id ar) (arq_scopes ar) (arq_subject ar))"
proof -
  have h: "login_of p h" using bridge m by (auto simp: login_of_def mounted_def shares_verifier_def)
  obtain ys where ys: "idp_run L J C H p (page_loads xs) ys s" "\<forall>y\<in>set ys. served_from p xs y" using http_run_is_run [OF run m] by blast
  from login_subject_backed [OF run_bridge [OF ys(1) h responses_received [OF ys(2) m]] assms(3)] code show ?thesis by simp
qed

theorem service_login_backed_witness:
  "\<exists>ar o'. AuthRequestByCode ex_draws ''code'' (SaveAuthCode 0 ex_id ''code'' ex_completed) = (Inr ar, o') \<and> arq_id ar = ex_id \<and>
     backed ex_vf_lib ex_key_lib ex_cbor ex_login (received_in ex_vf_lib ex_web ex_login_sent) (page_loads ex_login_sent)
       ex_id [''openid'', ''padro''] (arq_subject ar)"
proof -
  let ?ar = "ex_auth_request\<lparr>arq_subject := ex_subject, arq_doneAt := 0\<rparr>"
  have "\<exists>o'. AuthRequestByCode ex_draws ''code'' (SaveAuthCode 0 ex_id ''code'' ex_completed) = (Inr ?ar, o')"
    by (simp add: AuthRequestByCode_def SaveAuthCode_def ex_completed_def ex_linked_def ex_entry_def oidc_defs const_defs)
  then obtain o' where o': "AuthRequestByCode ex_draws ''code'' (SaveAuthCode 0 ex_id ''code'' ex_completed) = (Inr ?ar, o')" by blast
  from service_login_backed [OF ex_login_run ex_bridged_mounted ex_thumbprints, of _ ex_login ex_draws "''code''" ?ar o'] o'
  have "backed ex_vf_lib ex_key_lib ex_cbor ex_login (received_in ex_vf_lib ex_web ex_login_sent) (page_loads ex_login_sent)
      (arq_id ?ar) (arq_scopes ?ar) (arq_subject ?ar)"
    using hex_nonempty by (simp add: arq_Done_def ex_subject_def)
  then show ?thesis using o' by (auto simp: ex_auth_request_def)
qed

text \<open>
  C16: every HTTP request is answered, whatever was served before and whatever its method, path and
  content: an endpoint replies with the headers that let a browser read the answer, and the login page and its poll
  reply too. No endpoint runs into a nil verifier and no session without its key is found; the one run-time
  panic left is that of a status list announcing a negative entry width, which the hypothesis on the network excludes.
\<close>

theorem every_request_answered:
  assumes run: "http_run L J C H p xs s" and m: "mounted p" and "thumbprints_ok L"
    and status: "\<And>ref. CheckValid L (in_Net x) ref \<noteq> None"
  shows "case fst (http_serve L J C H p x s) of
      ApiReply r \<Rightarrow> \<exists>rep. r = Some rep \<and> set cors_headers \<subseteq> set (rp_Headers rep)
    | LoginReply r \<Rightarrow> r \<noteq> None
    | _ \<Rightarrow> True"
proof -
  obtain ys where ys: "idp_run L J C H p (page_loads xs) ys s" using http_run_is_run [OF run m] by blast
  have api: "\<exists>rep. fst (answer L J C H p (api_request x ep vals) (sv_authz s)) = Some rep \<and> set cors_headers \<subseteq> set (rp_Headers rep)"
    if "dispatch_of p x = Dispatched (ToApi ep) vals" for ep vals
    using run_answered [OF ys _ assms(3), of "api_request x ep vals"] dispatched_api [OF m that] status m by (simp add: mounted_def)
  have page: "fst (login_ServeHTTP L J h w i b) \<noteq> None" for h w i b
    using CreateSession_replies
    by (auto simp: login_ServeHTTP_def start_login_def Let_def simp del: not_None_eq split: option.splits prod.splits sum.splits) (metis fst_conv)
  have "idp_bridge p \<noteq> None" if "dispatch_of p x = Dispatched k vals" "k \<in> {ToLogin, ToPoll}" for k vals
    using dispatched_bridge [OF m that] .
  then show ?thesis using api page unfolding http_serve_def
    by (auto simp: case_prod_unfold Let_def split: dispatch.split target.split option.split)
qed

theorem every_request_answered_witness:
  "fst (http_serve ex_vf_lib ex_key_lib ex_cbor ex_web ex_verifying (ex_sent ''/oid4vp/v1/response'' ex_response_req) (ex_idp_state ex_verified)) \<noteq>
     ApiReply None"
proof -
  have "CheckValid ex_vf_lib ex_offline ref \<noteq> None" for ref by (simp add: CheckValid_def Fetch_def ex_offline_def)
  then show ?thesis
    using every_request_answered [OF ex_verifying_run ex_verifying_mounted ex_thumbprints, of "ex_sent ''/oid4vp/v1/response'' ex_response_req"]
    by (auto split: http_reply.splits)
qed

subsection \<open>Routes\<close>

text \<open>
  C19: a start-up never fails on its routes, and what it starts is the service the other properties are about: whatever plain base
  path is configured, the patterns of API, pages and bridge are all valid and no two of them conflict, so
  that no registration panics; and a started service dispatches by exactly these patterns, from empty stores.
\<close>

theorem routes_always_register:
  assumes "plain_base bs (cf_BasePath (config_Load env))"
  shows "mux_register (service_routes api (webui_NewHandler fs (cf_BasePath (config_Load env))) bridged) [] =
      Inr (service_mux (hd_verifier api \<noteq> None) bs bridged) \<and>
    (\<forall>p s. idp_main L J D unmarshal P static w env = Inr (p, s) \<longrightarrow> mounted p \<and> s = \<lparr>sv_authz = init_state, sv_oidc = newStore\<rparr>)"
  using routes_registered [of bs "webui_NewHandler fs (cf_BasePath (config_Load env))" api bridged] webui_base [OF assms] started_mounted [OF _ assms]
  by blast

theorem routes_always_register_witness:
  "\<exists>p s. idp_main ex_lib ex_files ex_dss (\<lambda>_. Inr ex_registry_doc) ex_provider (Inr (\<lambda>_. not_found)) ex_draws ex_env = Inr (p, s) \<and> mounted p \<and>
     (\<exists>mux. mux_register (service_routes (idp_api p) (webui_NewHandler (\<lambda>_. not_found) []) True) [] = Inr mux)"
proof -
  have e: "cf_BasePath (config_Load ex_env) = []" by (simp add: config_Load_def getenv_def ex_env_def)
  then have b: "plain_base [] (cf_BasePath (config_Load ex_env))" by (simp add: plain_base_def)
  obtain p s where "idp_main ex_lib ex_files ex_dss (\<lambda>_. Inr ex_registry_doc) ex_provider (Inr (\<lambda>_. not_found)) ex_draws ex_env = Inr (p, s)"
    using ex_starts by blast
  then show ?thesis using routes_always_register [OF b, of "idp_api p" "\<lambda>_. not_found" True] unfolding e by auto
qed

text \<open>
  C18: what the service advertises it serves: every endpoint named in the authorization server metadata is, under the base URL,
  the path of a pattern that a request with the endpoint's method is dispatched to, whatever the host.
\<close>

theorem advertised_endpoints_routed:
  assumes "mounted p"
  shows "\<exists>members. buildHAIPAuthServerMetadata base = JObj members \<and>
    (\<forall>(member, method, ep) \<in> {(''token_endpoint'', ''POST'', Token), (''authorization_endpoint'', ''GET'', Authorize),
        (''pushed_authorization_request_endpoint'', ''POST'', Par), (''jwks_uri'', ''GET'', Jwks)}.
      \<exists>path. map_of members member = Some (JStr (base @ path)) \<and>
        (\<forall>host. mux_dispatch (idp_mux p) host method path = Dispatched (ToApi ep) []))"
proof -
  note d = dispatch_literal [OF assms]
  have "mux_dispatch (idp_mux p) host ''POST'' ''/oid4vci/v1/token'' = Dispatched (ToApi Token) []"
    "mux_dispatch (idp_mux p) host ''GET'' ''/oid4vci/v1/authorize'' = Dispatched (ToApi Authorize) []"
    "mux_dispatch (idp_mux p) host ''POST'' ''/oid4vci/v1/par'' = Dispatched (ToApi Par) []"
    "mux_dispatch (idp_mux p) host ''GET'' ''/oid4vci/v1/jwks'' = Dispatched (ToApi Jwks) []" for host
    using d [of "''POST''" "[''oid4vci'', ''v1'', ''token'']" Token host] d [of "''GET''" "[''oid4vci'', ''v1'', ''authorize'']" Authorize host]
      d [of "''POST''" "[''oid4vci'', ''v1'', ''par'']" Par host] d [of "''GET''" "[''oid4vci'', ''v1'', ''jwks'']" Jwks host]
    by (simp_all add: api_shapes_def)
  then show ?thesis by (simp add: buildHAIPAuthServerMetadata_def)
qed

theorem advertised_endpoints_routed_witness:
  "\<exists>members path. buildHAIPAuthServerMetadata ''https://idp'' = JObj members \<and>
     map_of members ''token_endpoint'' = Some (JStr (''https://idp'' @ path)) \<and>
     mux_dispatch (idp_mux ex_verifying) ''idp'' ''POST'' path = Dispatched (ToApi Token) []"
  using advertised_endpoints_routed [OF ex_verifying_mounted, of "''https://idp''"] by blast

text \<open>
  C17: the link in a session's QR code leads to that session: the request URI that \<open>CreateSession\<close> returns is the base URL
  followed by a path, and a wallet that sends GET or POST for this path before the session expires is answered with the signed request
  object of this very session.
\<close>

theorem session_link_serves_request:
  assumes p: "mounted p" "hd_verifier (idp_api p) = Some v" and draw: "rnd w 0 16 \<noteq> []"
    and made: "CreateSession L J v w creds (sessions st) = (Some (Inr res), ses)"
    and x: "sq_Method (in_Request x) \<in> {''GET'', ''POST''}" "in_Path x = ''/oid4vp/v1/request/'' @ csr_SessionID res"
      "clk (in_World x) 0 - clk w 1 \<le> verificationSessionTTL"
    and s: "sessions (sv_authz s) = ses"
  shows "csr_RequestURI res = vf_baseURL v @ in_Path x \<and> (\<exists>rep session. verifications ses (csr_SessionID res) = Some session \<and>
    fst (http_serve L J C H p x s) = ApiReply (Some rep) \<and> rp_Status rep = 200 \<and> rp_Body rep = BytesBody (vs_RequestJWT session) \<and>
    vs_State session = csr_State res)"
proof (cases rule: CreateSession_cases [of L J v w creds "sessions st"])
  case 1
  then show ?thesis using 1(2) [of res] made by simp
next
  case (2 clientID key metadata jwt)
  let ?i = "RandomToken 16 (rnd w 0)"
  let ?ses = "new_session v w creds clientID key jwt\<lparr>vs_CreatedAt := clk w 1\<rparr>"
  have res: "csr_SessionID res = ?i" "csr_RequestURI res = vf_baseURL v @ APIPrefix @ ''/request/'' @ ?i" "csr_State res = RandomToken 32 (rnd w 1)"
    "ses = StoreVerification (clk w 1) (new_session v w creds clientID key jwt) (sessions st)"
    using made 2(6) by auto
  have v: "verifications ses ?i = Some ?ses" unfolding res(4) by (simp add: StoreVerification_def new_session_def Let_def)
  note i = token_segment [of "rnd w 0" 16, OF draw]
  have "dispatch_of p x = Dispatched (ToApi VpRequestObject) [(''id'', ?i)]"
    using dispatch_session(1) [OF p(1) _ i(1), of "sq_Method (in_Request x)" "in_Host x"] p(2) i(2,3) x(1,2) res(1) by simp
  then have a: "fst (http_serve L J C H p x s) = ApiReply (fst (answer L J C H p (api_request x VpRequestObject [(''id'', ?i)]) (sv_authz s)))"
    using x(1) by (auto simp: http_api_reply)
  have "fst (GetRequestObject (in_World x) ?i ses) = Inr (vs_RequestJWT ?ses)"
    using v x(3) by (simp add: GetRequestObject_def FindVerification_def findVerificationLocked_def Let_def)
  then have "\<exists>rep. fst (http_serve L J C H p x s) = ApiReply (Some rep) \<and> rp_Status rep = 200 \<and> rp_Body rep = BytesBody (vs_RequestJWT ?ses)"
    using a p(2) s x(1)
    by (auto simp: answer_def WithCORS_def with_verifier_def oid4vpRequestObject_def no_store_def case_prod_unfold Let_def split: sum.splits)
  moreover have "vs_State ?ses = csr_State res" using res(3) by (simp add: new_session_def)
  ultimately show ?thesis using v res(1,2) x(2) by (auto simp: APIPrefix_def)
qed

theorem session_link_serves_request_witness:
  "\<exists>rep. fst (http_serve ex_vf_lib ex_key_lib ex_cbor ex_web ex_verifying
     (ex_sent (''/oid4vp/v1/request/'' @ RandomToken 16 (rnd ex_draws 0)) ex_create_req)
     (ex_idp_state (ex_waiting (Verifier_Sessions.ex_request ''sd'')))) = ApiReply (Some rep) \<and> rp_Status rep = 200"
proof -
  let ?q = "Verifier_Sessions.ex_request ''sd''" and ?x = "ex_sent (''/oid4vp/v1/request/'' @ RandomToken 16 (rnd ex_draws 0)) ex_create_req"
  have draw: "rnd ex_draws 0 16 \<noteq> []" by (simp add: ex_draws_def)
  have "CreateSession ex_vf_lib ex_key_lib ex_verifier ex_draws [?q] (sessions (init_state\<lparr>sessions := NewStore\<rparr>)) =
    (Some (Inr \<lparr>csr_SessionID = RandomToken 16 (rnd ex_draws 0),
       csr_RequestURI = vf_baseURL ex_verifier @ APIPrefix @ ''/request/'' @ RandomToken 16 (rnd ex_draws 0),
       csr_ClientID = ex_clientID, csr_State = RandomToken 32 (rnd ex_draws 1)\<rparr>), ex_waiting ?q)"
    using ex_create [of ?q] by simp
  from session_link_serves_request [OF ex_verifying_mounted ex_verifying_simps(1) draw this, of ?x "ex_idp_state (ex_waiting ?q)" ex_cbor ex_web]
  show ?thesis by (auto simp: const_defs)
qed

end
